(* ===== verification/Prelude.thy ===== *)
theory Prelude
  imports Main "HOL-Library.Sublist"
begin

text \<open>
  Shared vocabulary of the development. Go strings and byte slices are lists of bytes (the type
  string); the functions below are the parts of the Go packages strings, bytes and strconv the
  program uses, written on bytes. Instants are integers counting nanoseconds from Go's zero time
  (1 January of year 1), so that IsZero is comparison with 0, and a time.Duration is an integer
  that the operations keep within 64 bits where the code can overflow.

  The case mappings to_upper and to_lower treat every ASCII letter and the four non-ASCII letters
  whose counterpart is ASCII; any other non-ASCII byte is left as it is, where Go would map a
  non-ASCII letter to another non-ASCII letter. Trimming strips the ASCII spaces and the encoded
  Unicode White_Space characters, as strings.TrimSpace does.
\<close>

named_theorems gostr_simps "rewriting facts on Go strings"
named_theorems codec_simps "rewriting facts on the console codec"
named_theorems store_simps "rewriting facts on the stores"

type_synonym gotime = int
type_synonym duration = int

section \<open>Bytes\<close>

abbreviation byte :: "char \<Rightarrow> nat" where
  "byte c \<equiv> of_char c"

definition is_digit :: "char \<Rightarrow> bool" where
  "is_digit c \<longleftrightarrow> 48 \<le> byte c \<and> byte c \<le> 57"

definition is_upper :: "char \<Rightarrow> bool" where
  "is_upper c \<longleftrightarrow> 65 \<le> byte c \<and> byte c \<le> 90"

definition is_lower :: "char \<Rightarrow> bool" where
  "is_lower c \<longleftrightarrow> 97 \<le> byte c \<and> byte c \<le> 122"

text \<open>The class backslash-w of Go's regular expressions, and the class backslash-s.\<close>

definition is_word :: "char \<Rightarrow> bool" where
  "is_word c \<longleftrightarrow> is_digit c \<or> is_upper c \<or> is_lower c \<or> c = CHR ''_''"

definition is_re_space :: "char \<Rightarrow> bool" where
  "is_re_space c \<longleftrightarrow> byte c \<in> {9, 10, 12, 13, 32}"

lemmas char_class_defs = is_digit_def is_upper_def is_lower_def is_word_def is_re_space_def

definition upper_char :: "char \<Rightarrow> char" where
  "upper_char c = (if is_lower c then char_of (byte c - 32) else c)"

definition lower_char :: "char \<Rightarrow> char" where
  "lower_char c = (if is_upper c then char_of (byte c + 32) else c)"

lemma byte_upper_char:
  "byte (upper_char c) = (if is_lower c then byte c - 32 else byte c)"
  by (auto simp: upper_char_def is_lower_def)

lemma upper_char_not_lower [simp]: "\<not> is_lower (upper_char c)"
  by (auto simp: is_lower_def byte_upper_char)

lemma upper_char_idem [simp]: "upper_char (upper_char c) = upper_char c"
  by (simp add: upper_char_def [of "upper_char c"])

lemma upper_char_digit [simp]: "is_digit (upper_char c) = is_digit c"
  by (auto simp: is_digit_def is_lower_def byte_upper_char)

lemma digit_not_lower: "is_digit c \<Longrightarrow> \<not> is_lower c"
  by (simp add: is_digit_def is_lower_def)

lemma upper_char_fix: "\<not> is_lower c \<Longrightarrow> upper_char c = c"
  by (simp add: upper_char_def)

lemma byte_eqI: "byte c = byte d \<Longrightarrow> c = d"
  by (metis of_char_eq_iff)

lemma upper_char_eq_iff:
  "byte d < 65 \<or> 90 < byte d \<and> byte d < 97 \<or> 122 < byte d \<Longrightarrow>
   upper_char c = d \<longleftrightarrow> c = d"
  by (auto simp: is_lower_def byte_upper_char upper_char_def dest: arg_cong [where f = byte])

section \<open>Case mapping\<close>

fun to_upper :: "string \<Rightarrow> string" where
  "to_upper [] = []"
| "to_upper [c] = [upper_char c]"
| "to_upper (c # d # s) =
     (if byte c = 196 \<and> byte d = 177 then CHR ''I'' # to_upper s
      else if byte c = 197 \<and> byte d = 191 then CHR ''S'' # to_upper s
      else upper_char c # to_upper (d # s))"

fun to_lower :: "string \<Rightarrow> string" where
  "to_lower (c # d # e # s) =
     (if byte c = 226 \<and> byte d = 132 \<and> byte e = 170 then CHR ''k'' # to_lower s
      else if byte c = 196 \<and> byte d = 176 then CHR ''i'' # to_lower (e # s)
      else lower_char c # to_lower (d # e # s))"
| "to_lower [c, d] =
     (if byte c = 196 \<and> byte d = 176 then ''i'' else [lower_char c, lower_char d])"
| "to_lower [c] = [lower_char c]"
| "to_lower [] = []"

definition is_ascii :: "string \<Rightarrow> bool" where
  "is_ascii s \<longleftrightarrow> (\<forall>c \<in> set s. byte c < 128)"

lemma is_ascii_simps [simp]:
  "is_ascii []"
  "is_ascii (c # s) \<longleftrightarrow> byte c < 128 \<and> is_ascii s"
  "is_ascii (s @ t) \<longleftrightarrow> is_ascii s \<and> is_ascii t"
  by (auto simp: is_ascii_def)

lemma to_upper_ascii: "is_ascii s \<Longrightarrow> to_upper s = map upper_char s"
  by (induction s rule: to_upper.induct) auto

lemma to_upper_digits: "list_all is_digit s \<Longrightarrow> to_upper s = s"
  by (induction s rule: to_upper.induct)
     (auto simp: upper_char_fix digit_not_lower is_digit_def is_lower_def)

lemma to_upper_no_lower: "c \<in> set (to_upper s) \<Longrightarrow> \<not> is_lower c"
  by (induction s rule: to_upper.induct) (auto simp: is_lower_def byte_upper_char split: if_splits)

lemma to_upper_upper: "\<forall>c \<in> set s. \<not> is_lower c \<and> byte c < 128 \<Longrightarrow> to_upper s = s"
  by (induction s rule: to_upper.induct) (auto simp: upper_char_fix)

section \<open>Trimming\<close>

abbreviation bytes_of :: "nat list \<Rightarrow> string" where
  "bytes_of ns \<equiv> map char_of ns"

definition space_seqs :: "string list" where
  "space_seqs = map bytes_of
     ([[9], [10], [11], [12], [13], [32], [194, 133], [194, 160], [225, 154, 128]]
      @ map (\<lambda>b. [226, 128, b]) [128, 129, 130, 131, 132, 133, 134, 135, 136, 137, 138]
      @ [[226, 128, 168], [226, 128, 169], [226, 128, 175], [226, 129, 159], [227, 128, 128]])"

definition lead_len :: "string list \<Rightarrow> string \<Rightarrow> nat" where
  "lead_len ps s = (case find (\<lambda>p. prefix p s) ps of None \<Rightarrow> 0 | Some p \<Rightarrow> length p)"

lemma lead_len_le: "lead_len ps s \<le> length s"
  by (auto simp: lead_len_def find_Some_iff prefix_length_le split: option.splits)

function strip_left :: "string list \<Rightarrow> string \<Rightarrow> string" where
  "strip_left ps s =
     (if lead_len ps s = 0 then s else strip_left ps (drop (lead_len ps s) s))"
  by pat_completeness auto
termination
proof (relation "measure (\<lambda>(ps, s). length s)")
  fix ps s
  assume "lead_len ps s \<noteq> 0"
  with lead_len_le [of ps s]
  show "((ps, drop (lead_len ps s) s), (ps, s)) \<in> measure (\<lambda>(ps, s). length s)"
    by simp
qed simp

declare strip_left.simps [simp del]

definition trim_left :: "string \<Rightarrow> string" where
  "trim_left s = strip_left space_seqs s"

definition trim_right :: "string \<Rightarrow> string" where
  "trim_right s = rev (strip_left (map rev space_seqs) (rev s))"

definition trim_space :: "string \<Rightarrow> string" where
  "trim_space s = trim_right (trim_left s)"

subsection \<open>What trimming keeps\<close>

definition space_first :: "nat set" where
  "space_first = {9, 10, 11, 12, 13, 32, 194, 225, 226, 227}"

definition space_last :: "nat set" where
  "space_last = {9, 10, 11, 12, 13, 32} \<union> {128..175}"

lemma lead_len_zero: "(\<And>p. p \<in> set ps \<Longrightarrow> \<not> prefix p s) \<Longrightarrow> lead_len ps s = 0"
  by (auto simp: lead_len_def find_Some_iff split: option.splits)

lemma strip_left_fix: "lead_len ps s = 0 \<Longrightarrow> strip_left ps s = s"
  by (subst strip_left.simps) simp

lemma strip_left_suffix: "suffix (strip_left ps s) s"
proof (induction ps s rule: strip_left.induct)
  case (1 ps s)
  show ?case
  proof (cases "lead_len ps s = 0")
    case True
    then show ?thesis by (simp add: strip_left_fix)
  next
    case False
    with "1.IH" have "suffix (strip_left ps (drop (lead_len ps s) s)) s"
      by (meson suffix_drop suffix_order.trans)
    with False show ?thesis by (subst strip_left.simps) simp
  qed
qed

lemma set_strip_left: "set (strip_left ps s) \<subseteq> set s"
  by (rule set_mono_suffix [OF strip_left_suffix])

lemma length_strip_left: "length (strip_left ps s) \<le> length s"
  by (rule suffix_length_le [OF strip_left_suffix])

lemma set_trim_space: "set (trim_space s) \<subseteq> set s"
  using set_strip_left [of space_seqs s]
    set_strip_left [of "map rev space_seqs" "rev (strip_left space_seqs s)"]
  by (auto simp: trim_space_def trim_left_def trim_right_def)

lemma length_trim_space: "length (trim_space s) \<le> length s"
  using length_strip_left [of space_seqs s]
    length_strip_left [of "map rev space_seqs" "rev (strip_left space_seqs s)"]
  by (simp add: trim_space_def trim_left_def trim_right_def)

lemma space_seqs_hd: "p \<in> set space_seqs \<Longrightarrow> \<exists>c p'. p = c # p' \<and> byte c \<in> space_first"
  by (auto simp: space_seqs_def space_first_def)

lemma space_seqs_last: "p \<in> set space_seqs \<Longrightarrow> \<exists>c p'. p = p' @ [c] \<and> byte c \<in> space_last"
  by (auto simp: space_seqs_def space_last_def)

lemma trim_left_fix: "s \<noteq> [] \<Longrightarrow> byte (hd s) \<notin> space_first \<Longrightarrow> trim_left s = s"
  unfolding trim_left_def
  by (rule strip_left_fix, rule lead_len_zero) (auto dest!: space_seqs_hd simp: prefix_def)

lemma trim_right_fix:
  assumes "s \<noteq> []" and "byte (last s) \<notin> space_last"
  shows "trim_right s = s"
proof -
  have "lead_len (map rev space_seqs) (rev s) = 0"
  proof (rule lead_len_zero)
    fix p assume "p \<in> set (map rev space_seqs)"
    then obtain c p' where "p = c # p'" "byte c \<in> space_last"
      by (auto dest!: space_seqs_last)
    with assms show "\<not> prefix p (rev s)"
      by (cases s rule: rev_cases) (auto simp: prefix_def)
  qed
  then show ?thesis by (simp add: trim_right_def strip_left_fix)
qed

lemma trim_nil [simp]: "trim_left [] = []" "trim_right [] = []" "trim_space [] = []"
proof -
  have *: "lead_len space_seqs [] = 0" "lead_len (map rev space_seqs) [] = 0"
    by (rule lead_len_zero; fastforce simp: space_seqs_def)+
  then show "trim_left [] = []" "trim_right [] = []"
    by (simp_all add: trim_left_def trim_right_def strip_left_fix)
  then show "trim_space [] = []" by (simp add: trim_space_def)
qed

lemma trim_space_fix [gostr_simps]:
  "s = [] \<or> byte (hd s) \<notin> space_first \<and> byte (last s) \<notin> space_last \<Longrightarrow> trim_space s = s"
  by (cases "s = []") (auto simp: trim_space_def trim_left_fix trim_right_fix)

subsection \<open>Trimming and uppercasing are idempotent\<close>

lemma lead_len_zero_iff:
  "[] \<notin> set ps \<Longrightarrow> lead_len ps s = 0 \<longleftrightarrow> (\<forall>p \<in> set ps. \<not> prefix p s)"
  by (auto simp: lead_len_def find_None_iff find_Some_iff split: option.splits)
     (metis nth_mem)+

lemma lead_len_strip_left: "lead_len ps (strip_left ps s) = 0"
  by (induction ps s rule: strip_left.induct) (subst strip_left.simps, simp)

lemma space_seqs_nonempty: "[] \<notin> set space_seqs" "[] \<notin> set (map rev space_seqs)"
  by (auto dest: space_seqs_hd)

lemma trim_space_no_prefix: "p \<in> set space_seqs \<Longrightarrow> \<not> prefix p (trim_space s)"
proof
  assume p: "p \<in> set space_seqs" and "prefix p (trim_space s)"
  moreover have "prefix (trim_space s) (trim_left s)"
    using strip_left_suffix [of "map rev space_seqs" "rev (trim_left s)"]
    by (simp add: trim_space_def trim_right_def suffix_to_prefix)
  ultimately have "prefix p (strip_left space_seqs s)"
    by (metis prefix_order.trans trim_left_def)
  with p show False
    using lead_len_strip_left [of space_seqs s] lead_len_zero_iff space_seqs_nonempty by blast
qed

lemma trim_space_no_suffix: "p \<in> set space_seqs \<Longrightarrow> \<not> suffix p (trim_space s)"
proof -
  assume "p \<in> set space_seqs"
  then have "rev p \<in> set (map rev space_seqs)" by simp
  then have "\<not> prefix (rev p) (strip_left (map rev space_seqs) (rev (trim_left s)))"
    using lead_len_strip_left lead_len_zero_iff space_seqs_nonempty by blast
  then show ?thesis by (simp add: trim_space_def trim_right_def suffix_to_prefix)
qed

lemma trim_space_id:
  assumes "\<And>p. p \<in> set space_seqs \<Longrightarrow> \<not> prefix p s \<and> \<not> suffix p s"
  shows "trim_space s = s"
proof -
  have "lead_len space_seqs s = 0" by (rule lead_len_zero) (use assms in blast)
  moreover have "lead_len (map rev space_seqs) (rev s) = 0"
    by (rule lead_len_zero) (use assms in \<open>auto simp: suffix_to_prefix\<close>)
  ultimately show ?thesis
    by (simp add: trim_space_def trim_left_def trim_right_def strip_left_fix)
qed

lemma trim_space_idem [simp]: "trim_space (trim_space s) = trim_space s"
  by (rule trim_space_id) (simp add: trim_space_no_prefix trim_space_no_suffix)

lemma upper_char_not_upper: "\<not> is_upper (upper_char c) \<Longrightarrow> upper_char c = c"
  by (auto simp: upper_char_def is_upper_def is_lower_def split: if_splits)

lemma to_upper_new_letters: "is_upper (CHR ''I'')" "is_upper (CHR ''S'')"
  by (simp_all add: is_upper_def)

lemma to_upper_Cons_cases:
  "to_upper (d # s) = upper_char d # to_upper s \<or> hd (to_upper (d # s)) \<in> {CHR ''I'', CHR ''S''}"
  by (cases s) auto

lemma to_upper_not_nil: "to_upper (d # s) \<noteq> []"
  by (cases s) auto

lemma to_upper_prefix_back:
  "prefix p (to_upper s) \<Longrightarrow> \<forall>c \<in> set p. \<not> is_upper c \<Longrightarrow> prefix p s"
proof (induction s arbitrary: p rule: to_upper.induct)
  case (2 c)
  then show ?case by (cases p) (auto dest: upper_char_not_upper)
next
  case (3 c d s)
  show ?case
  proof (cases p)
    case (Cons x q)
    with 3 show ?thesis
      by (auto split: if_splits dest: upper_char_not_upper simp: to_upper_new_letters)
  qed simp
qed simp

lemma to_upper_unchanged: "\<forall>c \<in> set (to_upper s). \<not> is_upper c \<Longrightarrow> to_upper s = s"
  by (induction s rule: to_upper.induct)
     (auto split: if_splits dest: upper_char_not_upper simp: to_upper_new_letters)

lemma to_upper_suffix_back:
  "to_upper s = u @ p \<Longrightarrow> \<forall>c \<in> set p. \<not> is_upper c \<Longrightarrow> suffix p s"
proof (induction s arbitrary: u rule: to_upper.induct)
  case (2 c)
  then show ?case using to_upper_unchanged [of "[c]"] by (cases u) auto
next
  case (3 c d s)
  then show ?case
  proof (cases u)
    case Nil
    with 3(4,5) have "to_upper (c # d # s) = c # d # s"
      by (intro to_upper_unchanged) (simp only: append_Nil)
    with 3(4) Nil show ?thesis by (metis append_Nil suffix_order.refl)
  next
    case (Cons x v)
    with 3 show ?thesis by (auto split: if_splits simp: suffix_Cons)
  qed
qed simp

lemma space_seqs_not_upper: "p \<in> set space_seqs \<Longrightarrow> c \<in> set p \<Longrightarrow> \<not> is_upper c"
  by (auto simp: space_seqs_def is_upper_def)

lemma trim_upper_trim [simp]: "trim_space (to_upper (trim_space s)) = to_upper (trim_space s)"
  by (rule trim_space_id)
     (metis to_upper_prefix_back to_upper_suffix_back space_seqs_not_upper suffix_def
       trim_space_no_prefix trim_space_no_suffix)

lemma to_upper_idem [simp]: "to_upper (to_upper s) = to_upper s"
proof (induction s rule: to_upper.induct)
  case (3 c d s)
  show ?case
  proof (cases "byte c = 196 \<and> byte d = 177 \<or> byte c = 197 \<and> byte d = 191")
    case True
    then obtain x where x: "to_upper (c # d # s) = x # to_upper s" "x = CHR ''I'' \<or> x = CHR ''S''"
      by auto
    have "to_upper (x # to_upper s) = x # to_upper (to_upper s)"
      using x(2) by (cases "to_upper s") (auto simp: upper_char_def is_lower_def)
    with x(1) 3 True show ?thesis by auto
  next
    case False
    obtain y t where t: "to_upper (d # s) = y # t" "y = upper_char d \<or> y = CHR ''I'' \<or> y = CHR ''S''"
      using to_upper_Cons_cases [of d s] to_upper_not_nil [of d s]
      by (metis insertE list.collapse singletonD)
    have "\<not> (byte (upper_char c) = 196 \<and> byte y = 177 \<or> byte (upper_char c) = 197 \<and> byte y = 191)"
      using False t(2) by (auto simp: byte_upper_char is_lower_def split: if_splits)
    with False t 3(3) show ?thesis by auto
  qed
qed simp_all

text \<open>An equation that evaluates the common case at once.\<close>

definition is_plain :: "char \<Rightarrow> bool" where
  "is_plain c \<longleftrightarrow> 33 \<le> byte c \<and> byte c < 128"

lemma trim_left_code [code]:
  "trim_left s = (if s = [] \<or> is_plain (hd s) then s else strip_left space_seqs s)"
proof (cases "s = [] \<or> is_plain (hd s)")
  case True
  then have "trim_left s = s"
    by (cases "s = []") (simp, rule trim_left_fix, auto simp: is_plain_def space_first_def)
  with True show ?thesis by simp
qed (simp add: trim_left_def)

lemma trim_right_code [code]:
  "trim_right s = (if s = [] \<or> is_plain (last s) then s
     else rev (strip_left (map rev space_seqs) (rev s)))"
proof (cases "s = [] \<or> is_plain (last s)")
  case True
  then have "trim_right s = s"
    by (cases "s = []") (simp, rule trim_right_fix, auto simp: is_plain_def space_last_def)
  with True show ?thesis by simp
qed (simp add: trim_right_def)

section \<open>Searching, cutting and splitting\<close>

fun index_of :: "char \<Rightarrow> string \<Rightarrow> nat option" where
  "index_of c [] = None"
| "index_of c (x # s) = (if x = c then Some 0 else map_option Suc (index_of c s))"

definition last_index_of :: "char \<Rightarrow> string \<Rightarrow> nat option" where
  "last_index_of c s = map_option (\<lambda>i. length s - 1 - i) (index_of c (rev s))"

lemma index_of_None [simp]: "index_of c s = None \<longleftrightarrow> c \<notin> set s"
  by (induction s) auto

lemma index_of_Some: "index_of c s = Some i \<Longrightarrow> i < length s \<and> s ! i = c \<and> c \<notin> set (take i s)"
  by (induction s arbitrary: i) (auto split: if_splits)

lemma index_of_first [simp]: "c \<notin> set s \<Longrightarrow> index_of c (s @ c # t) = Some (length s)"
  by (induction s) auto

lemma last_index_of_last [simp]:
  "c \<notin> set t \<Longrightarrow> last_index_of c (s @ c # t) = Some (length s)"
  by (simp add: last_index_of_def)

lemma last_index_of_None [simp]: "last_index_of c s = None \<longleftrightarrow> c \<notin> set s"
  by (simp add: last_index_of_def)

text \<open>strings.SplitN(s, sep, 2)[0], strings.Split, TrimPrefix and TrimSuffix.\<close>

definition before :: "char \<Rightarrow> string \<Rightarrow> string" where
  "before c s = takeWhile (\<lambda>x. x \<noteq> c) s"

fun split_on :: "char \<Rightarrow> string \<Rightarrow> string list" where
  "split_on c [] = [[]]"
| "split_on c (x # s) =
     (if x = c then [] # split_on c s
      else (case split_on c s of [] \<Rightarrow> [[x]] | p # ps \<Rightarrow> (x # p) # ps))"

lemma split_on_not_nil [simp]: "split_on c s \<noteq> []"
  by (cases s) (auto split: list.splits)

lemma hd_split_on: "hd (split_on c s) = before c s"
  by (induction s) (auto simp: before_def split: list.splits)

lemma split_on_no_sep: "c \<notin> set s \<Longrightarrow> split_on c s = [s]"
  by (induction s) auto

lemma split_on_sep: "c \<notin> set p \<Longrightarrow> split_on c (p @ c # s) = p # split_on c s"
  by (induction p) auto

lemma split_on_elem: "p \<in> set (split_on c s) \<Longrightarrow> c \<notin> set p \<and> set p \<subseteq> set s"
proof (induction s arbitrary: p)
  case (Cons x s)
  obtain q qs where q: "split_on c s = q # qs" by (cases "split_on c s") auto
  with Cons.IH have "c \<notin> set q \<and> set q \<subseteq> set s" and
    "\<And>r. r \<in> set qs \<Longrightarrow> c \<notin> set r \<and> set r \<subseteq> set s" by auto
  with Cons.prems q show ?case by (fastforce split: if_splits)
qed simp

lemma before_no_sep [simp]: "c \<notin> set s \<Longrightarrow> before c s = s"
  unfolding before_def by (induction s) auto

lemma before_sep [simp]: "c \<notin> set p \<Longrightarrow> before c (p @ c # s) = p"
  unfolding before_def by (induction p) auto

lemma set_before: "set (before c s) \<subseteq> set s"
  by (auto simp: before_def dest: set_takeWhileD)

lemma sep_notin_before: "c \<notin> set (before c s)"
  by (auto simp: before_def dest: set_takeWhileD)

definition trim_prefix :: "string \<Rightarrow> string \<Rightarrow> string" where
  "trim_prefix p s = (if prefix p s then drop (length p) s else s)"

definition trim_suffix :: "string \<Rightarrow> string \<Rightarrow> string" where
  "trim_suffix p s = (if suffix p s then take (length s - length p) s else s)"

lemma trim_prefix_append [simp]: "trim_prefix p (p @ s) = s"
  by (simp add: trim_prefix_def)

lemma trim_suffix_append [simp]: "trim_suffix p (s @ p) = s"
  by (simp add: trim_suffix_def suffix_def)

text \<open>strings.Join with a one-byte separator.\<close>

fun join_with :: "char \<Rightarrow> string list \<Rightarrow> string" where
  "join_with c [] = []"
| "join_with c [p] = p"
| "join_with c (p # ps) = p @ c # join_with c ps"

lemma split_join_with:
  "ps \<noteq> [] \<Longrightarrow> \<forall>p \<in> set ps. c \<notin> set p \<Longrightarrow> split_on c (join_with c ps) = ps"
  by (induction c ps rule: join_with.induct) (auto simp: split_on_sep split_on_no_sep)

text \<open>strings.Contains.\<close>

fun contains :: "string \<Rightarrow> string \<Rightarrow> bool" where
  "contains p [] = (p = [])"
| "contains p (x # s) = (prefix p (x # s) \<or> contains p s)"

section \<open>Decimal numbers\<close>

definition digit_val :: "char \<Rightarrow> nat" where
  "digit_val c = byte c - 48"

definition digit_char :: "nat \<Rightarrow> char" where
  "digit_char d = char_of (48 + d)"

fun itoa :: "nat \<Rightarrow> string" where
  "itoa n = (if n < 10 then [digit_char n] else itoa (n div 10) @ [digit_char (n mod 10)])"

declare itoa.simps [simp del]

definition itoa_int :: "int \<Rightarrow> string" where
  "itoa_int i = (if i < 0 then CHR ''-'' # itoa (nat (- i)) else itoa (nat i))"

definition dec_val :: "string \<Rightarrow> nat" where
  "dec_val s = foldl (\<lambda>n c. 10 * n + digit_val c) 0 s"

definition is_numeric :: "string \<Rightarrow> bool" where
  "is_numeric s \<longleftrightarrow> s \<noteq> [] \<and> list_all is_digit s"

definition max_int64 :: int where
  "max_int64 = 9223372036854775807"

definition min_int64 :: int where
  "min_int64 = - 9223372036854775808"

text \<open>Two's complement wrap-around of a 64-bit result.\<close>

definition wrap64 :: "int \<Rightarrow> int" where
  "wrap64 x = (x + 9223372036854775808) mod 18446744073709551616 - 9223372036854775808"

text \<open>strconv.Atoi: an optional sign, decimal digits, and the range of a 64-bit int.\<close>

definition atoi :: "string \<Rightarrow> int option" where
  "atoi s =
     (let (neg, ds) = (case s of [] \<Rightarrow> (False, [])
            | c # r \<Rightarrow> if c = CHR ''-'' then (True, r)
                      else if c = CHR ''+'' then (False, r) else (False, s));
          v = (if neg then - int (dec_val ds) else int (dec_val ds))
      in if is_numeric ds \<and> min_int64 \<le> v \<and> v \<le> max_int64 then Some v else None)"

lemma digit_char_table [gostr_simps]:
  "digit_char 0 = CHR ''0''" "digit_char (Suc 0) = CHR ''1''" "digit_char 1 = CHR ''1''"
  "digit_char 2 = CHR ''2''" "digit_char 3 = CHR ''3''" "digit_char 4 = CHR ''4''"
  "digit_char 5 = CHR ''5''" "digit_char 6 = CHR ''6''" "digit_char 7 = CHR ''7''"
  "digit_char 8 = CHR ''8''" "digit_char 9 = CHR ''9''"
  by (rule byte_eqI, simp add: digit_char_def)+

lemma itoa_steps [gostr_simps]:
  "n < 10 \<Longrightarrow> itoa n = [digit_char n]"
  "10 \<le> n \<Longrightarrow> itoa n = itoa (n div 10) @ [digit_char (n mod 10)]"
  by (subst itoa.simps, simp)+

lemma digit_char_digit [simp]: "d < 10 \<Longrightarrow> is_digit (digit_char d)"
  by (simp add: is_digit_def digit_char_def)

lemma digit_val_char [simp]: "d < 10 \<Longrightarrow> digit_val (digit_char d) = d"
  by (simp add: digit_val_def digit_char_def)

lemma dec_val_simps [simp]:
  "dec_val [] = 0"
  "dec_val (s @ [c]) = 10 * dec_val s + digit_val c"
  by (simp_all add: dec_val_def)

lemma dec_val_itoa [simp]: "dec_val (itoa n) = n"
proof (induction n rule: itoa.induct)
  case (1 n)
  then show ?case
    by (cases "n < 10") (simp_all add: itoa.simps [of n] dec_val_def)
qed

lemma itoa_digits [simp]: "list_all is_digit (itoa n)"
proof (induction n rule: itoa.induct)
  case (1 n)
  then show ?case by (cases "n < 10") (simp_all add: itoa.simps [of n])
qed

lemma itoa_not_nil [simp]: "itoa n \<noteq> []"
  by (subst itoa.simps) simp

lemma itoa_numeric [simp]: "is_numeric (itoa n)"
  by (simp add: is_numeric_def)

lemma itoa_inj [simp]: "itoa m = itoa n \<longleftrightarrow> m = n"
  by (metis dec_val_itoa)

lemma set_itoa: "c \<in> set (itoa n) \<Longrightarrow> is_digit c"
  using itoa_digits by (metis list_all_iff)

lemma atoi_digits:
  "is_numeric s \<Longrightarrow> int (dec_val s) \<le> max_int64 \<Longrightarrow> atoi s = Some (int (dec_val s))"
  by (cases s) (auto simp: atoi_def is_numeric_def min_int64_def is_digit_def)

lemma atoi_itoa: "int n \<le> max_int64 \<Longrightarrow> atoi (itoa n) = Some (int n)"
  using atoi_digits [of "itoa n"] by simp

lemma wrap64_id: "min_int64 \<le> x \<Longrightarrow> x \<le> max_int64 \<Longrightarrow> wrap64 x = x"
  by (simp add: wrap64_def min_int64_def max_int64_def)

end
