(* ===== verification/Callsign.thy ===== *)
theory Callsign
  imports Prelude
begin

text \<open>
  The package internal/callsign: Normalize trims and uppercases, Pattern is the regular expression
  "3 to 10 characters A-Z or 0-9, then optionally a hyphen and one or two digits", IsValid matches
  the normalised value.
\<close>

definition is_call_char :: "char \<Rightarrow> bool" where
  "is_call_char c \<longleftrightarrow> is_upper c \<or> is_digit c"

definition call_pattern :: "string \<Rightarrow> bool" where
  "call_pattern s =
     (let base = before CHR ''-'' s; rest = drop (length base) s in
      3 \<le> length base \<and> length base \<le> 10 \<and> list_all is_call_char base \<and>
      (rest = [] \<or> (length rest = 2 \<or> length rest = 3) \<and> list_all is_digit (tl rest)))"

definition normalize :: "string \<Rightarrow> string" where
  "normalize value = to_upper (trim_space value)"

definition is_valid :: "string \<Rightarrow> bool" where
  "is_valid value = call_pattern (normalize value)"

lemma call_char_class:
  "is_call_char c \<Longrightarrow> \<not> is_lower c \<and> byte c < 128 \<and> byte c \<notin> space_first \<and> byte c \<notin> space_last
     \<and> c \<noteq> CHR ''-'' \<and> c \<noteq> CHR ''_'' \<and> c \<noteq> CHR '','' \<and> is_word c"
  by (auto simp: is_call_char_def char_class_defs space_first_def space_last_def)

lemma digit_call_char: "is_digit c \<Longrightarrow> is_call_char c"
  by (simp add: is_call_char_def)

text \<open>The two shapes of a callsign: a base alone, or a base, a hyphen and a numeric SSID.\<close>

lemma call_pattern_cases:
  assumes "call_pattern s"
  obtains (base) "list_all is_call_char s" "3 \<le> length s" "length s \<le> 10"
  | (ssid) b d where "s = b @ CHR ''-'' # d" "list_all is_call_char b" "3 \<le> length b"
      "length b \<le> 10" "is_numeric d" "length d \<le> 2"
proof -
  let ?b = "before CHR ''-'' s" and ?r = "drop (length (before CHR ''-'' s)) s"
  have dw: "?r = dropWhile (\<lambda>x. x \<noteq> CHR ''-'') s"
    by (simp add: before_def dropWhile_eq_drop)
  have s: "?b @ ?r = s"
    unfolding dw by (simp add: before_def)
  from assms have b: "list_all is_call_char ?b" "3 \<le> length ?b" "length ?b \<le> 10"
    and r: "?r = [] \<or> (length ?r = 2 \<or> length ?r = 3) \<and> list_all is_digit (tl ?r)"
    by (auto simp: call_pattern_def Let_def)
  show thesis
  proof (cases "?r = []")
    case True
    with s have "?b = s" by (metis append_Nil2)
    with b have "list_all is_call_char s" "3 \<le> length s" "length s \<le> 10" by metis+
    then show thesis by (rule base)
  next
    case False
    then have "hd ?r = CHR ''-''" unfolding dw
      using hd_dropWhile [of "\<lambda>x. x \<noteq> CHR ''-''" s] by simp
    with False obtain d where d: "?r = CHR ''-'' # d" by (cases ?r) auto
    have "is_numeric d" "length d \<le> 2"
      using r unfolding d by (auto simp: is_numeric_def)
    moreover from s d have "s = ?b @ CHR ''-'' # d" by metis
    ultimately show thesis using ssid b by blast
  qed
qed

lemma call_pattern_base:
  "list_all is_call_char s \<Longrightarrow> 3 \<le> length s \<Longrightarrow> length s \<le> 10 \<Longrightarrow> call_pattern s"
proof -
  assume a: "list_all is_call_char s" "3 \<le> length s" "length s \<le> 10"
  then have "CHR ''-'' \<notin> set s" by (auto simp: list_all_iff dest: call_char_class)
  with a show ?thesis by (simp add: call_pattern_def)
qed

lemma call_pattern_ssid:
  assumes "list_all is_call_char b" "3 \<le> length b" "length b \<le> 10" "is_numeric d" "length d \<le> 2"
  shows "call_pattern (b @ CHR ''-'' # d)"
proof -
  from assms have "CHR ''-'' \<notin> set b" by (auto simp: list_all_iff dest: call_char_class)
  then have "before CHR ''-'' (b @ CHR ''-'' # d) = b" by simp
  moreover from assms(4) have "d \<noteq> []" "list_all is_digit d"
    by (simp_all add: is_numeric_def)
  moreover from this(1) have "length d \<noteq> 0" by simp
  moreover have "drop (length b) (b @ CHR ''-'' # d) = CHR ''-'' # d" by simp
  ultimately show ?thesis unfolding call_pattern_def Let_def
    using assms(1-3,5) by (simp only: list.sel length_Cons simp_thms list.distinct) arith
qed

lemma call_pattern_chars:
  assumes "call_pattern s" and "c \<in> set s"
  shows "is_call_char c \<or> c = CHR ''-''"
  using assms(1)
proof (cases rule: call_pattern_cases)
  case base
  with assms(2) show ?thesis by (auto simp: list_all_iff)
next
  case (ssid b d)
  with assms(2) show ?thesis by (auto simp: list_all_iff is_numeric_def digit_call_char)
qed

lemma call_pattern_ends:
  assumes "call_pattern s"
  shows "s \<noteq> [] \<and> is_call_char (hd s) \<and> is_call_char (last s)"
  using assms
proof (cases rule: call_pattern_cases)
  case base
  then show ?thesis by (cases s) (auto simp: list_all_iff)
next
  case (ssid b d)
  then show ?thesis by (cases b) (auto simp: list_all_iff is_numeric_def digit_call_char)
qed

lemma call_pattern_normalized: "call_pattern s \<Longrightarrow> normalize s = s"
proof -
  assume p: "call_pattern s"
  from call_pattern_ends [OF p] have "trim_space s = s"
    by (auto intro!: trim_space_fix dest: call_char_class)
  moreover have "to_upper s = s"
  proof (rule to_upper_upper, rule ballI)
    fix c assume "c \<in> set s"
    with p have "is_call_char c \<or> c = CHR ''-''" by (rule call_pattern_chars)
    then show "\<not> is_lower c \<and> byte c < 128"
      using call_char_class [of c] by (auto simp: is_lower_def)
  qed
  ultimately show ?thesis by (simp add: normalize_def)
qed

lemma call_pattern_valid: "call_pattern s \<Longrightarrow> is_valid s"
  by (simp add: is_valid_def call_pattern_normalized)

lemma normalize_idem [simp]: "normalize (normalize s) = normalize s"
  by (simp add: normalize_def)

lemma is_valid_pattern: "is_valid s \<longleftrightarrow> call_pattern (normalize s)"
  by (simp add: is_valid_def)

lemma valid_idem [simp]: "is_valid (normalize s) = is_valid s"
  by (simp add: is_valid_def)

end
