(* ===== verification/Utf8.thy ===== *)
theory Utf8
  imports Prelude
begin

text \<open>
  The part of Go's unicode/utf8 the program relies on: decoding the first rune of a byte string
  (the accept ranges of utf8.DecodeRune), utf8.ValidString and utf8.RuneCountInString. An invalid
  byte counts as one rune of width one, as Go does.
\<close>

definition cont :: "char \<Rightarrow> bool" where
  "cont c \<longleftrightarrow> 128 \<le> byte c \<and> byte c \<le> 191"

text \<open>The range the second byte must be in, from the first byte; and the width of the rune.\<close>

definition accept_range :: "nat \<Rightarrow> nat \<times> nat" where
  "accept_range b = (if b = 224 then (160, 191) else if b = 237 then (128, 159)
     else if b = 240 then (144, 191) else if b = 244 then (128, 143) else (128, 191))"

definition lead_width :: "nat \<Rightarrow> nat" where
  "lead_width b = (if b < 128 then 1 else if 194 \<le> b \<and> b \<le> 223 then 2
     else if 224 \<le> b \<and> b \<le> 239 then 3 else if 240 \<le> b \<and> b \<le> 244 then 4 else 0)"

definition valid_rune :: "string \<Rightarrow> bool" where
  "valid_rune s = (case s of [] \<Rightarrow> False | c # t \<Rightarrow>
     (let w = lead_width (byte c); (lo, hi) = accept_range (byte c) in
      if w = 0 then False else if w = 1 then True
      else w \<le> length s \<and> lo \<le> byte (s ! 1) \<and> byte (s ! 1) \<le> hi
           \<and> list_all cont (take (w - 2) (drop 2 s))))"

definition rune_width :: "string \<Rightarrow> nat" where
  "rune_width s = (if valid_rune s then lead_width (byte (hd s)) else 1)"

fun runes :: "string \<Rightarrow> string list" where
  "runes [] = []"
| "runes (c # s) = (c # take (rune_width (c # s) - 1) s) # runes (drop (rune_width (c # s) - 1) s)"

definition rune_count :: "string \<Rightarrow> nat" where
  "rune_count s = length (runes s)"

definition valid_utf8 :: "string \<Rightarrow> bool" where
  "valid_utf8 s \<longleftrightarrow> list_all valid_rune (runes s)"

lemma rune_width_ascii [simp]: "byte c < 128 \<Longrightarrow> rune_width (c # s) = 1"
  by (simp add: rune_width_def valid_rune_def lead_width_def)

lemma valid_rune_ascii [simp]: "byte c < 128 \<Longrightarrow> valid_rune [c]"
  by (simp add: valid_rune_def lead_width_def accept_range_def)

lemma concat_runes: "concat (runes s) = s"
  by (induction s rule: runes.induct) auto

lemma runes_ascii: "is_ascii s \<Longrightarrow> runes s = map (\<lambda>c. [c]) s"
  by (induction s) auto

lemma rune_count_ascii: "is_ascii s \<Longrightarrow> rune_count s = length s"
  by (simp add: rune_count_def runes_ascii)

lemma valid_utf8_ascii: "is_ascii s \<Longrightarrow> valid_utf8 s"
  by (simp add: valid_utf8_def runes_ascii list_all_iff is_ascii_def)

lemma rune_count_le: "rune_count s \<le> length s"
  unfolding rune_count_def
proof (induction s rule: runes.induct)
  case (2 c s)
  then show ?case using diff_le_self order_trans by fastforce
qed simp

lemma rune_width_pos: "0 < rune_width s"
  by (auto simp: rune_width_def valid_rune_def Let_def lead_width_def split: list.splits if_splits)

lemma rune_width_bound: "rune_width s \<le> 4"
  by (auto simp: rune_width_def lead_width_def)

lemma length_le_rune_count: "length s \<le> 4 * rune_count s"
  unfolding rune_count_def
proof (induction s rule: runes.induct)
  case (2 c s)
  then show ?case using rune_width_bound [of "c # s"] by (auto simp: not_le)
qed simp

end
