(* ===== verification/Meshcom.thy ===== *)
theory Meshcom
  imports Utf8
begin

text \<open>
  The package internal/meshcom, text side: the ACK and reject patterns (packet.go), the
  store-and-forward custody notice (sto_notice.go), the validation of outgoing messages and the
  split of a source path. The regular expressions are written as matchers. Each one is tried
  leftmost first, as Go does, and none of them can match in two ways at one position.
\<close>

section \<open>ACK and reject control messages\<close>

text \<open>
  A letter of a case-insensitive pattern. Go's folding also lets the Kelvin sign (U+212A) match
  the letter k.
\<close>

definition fold_letter :: "char \<Rightarrow> char \<Rightarrow> bool" where
  "fold_letter l c \<longleftrightarrow> lower_char c = l"

definition match_letter :: "char \<Rightarrow> string \<Rightarrow> string option" where
  "match_letter l s =
     (case s of [] \<Rightarrow> None
      | c # t \<Rightarrow> if fold_letter l c then Some t
          else if l = CHR ''k'' \<and> prefix (bytes_of [226, 132, 170]) s then Some (drop 3 s)
          else None)"

fun match_letters :: "string \<Rightarrow> string \<Rightarrow> string option" where
  "match_letters [] s = Some s"
| "match_letters (l # ls) s =
     (case match_letter l s of None \<Rightarrow> None | Some t \<Rightarrow> match_letters ls t)"

text \<open>One or more digits, then a word boundary: the digits matched.\<close>

definition digits_boundary :: "string \<Rightarrow> string option" where
  "digits_boundary s =
     (let ds = takeWhile is_digit s; rest = dropWhile is_digit s in
      if ds \<noteq> [] \<and> (rest = [] \<or> \<not> is_word (hd rest)) then Some ds else None)"

text \<open>A token at the start of the text or after a colon or a space.\<close>

fun after_sep :: "(string \<Rightarrow> 'a option) \<Rightarrow> string \<Rightarrow> 'a option" where
  "after_sep m [] = None"
| "after_sep m (c # s) =
     (if c = CHR '':'' \<or> is_re_space c
      then (case m s of Some r \<Rightarrow> Some r | None \<Rightarrow> after_sep m s) else after_sep m s)"

definition find_token :: "(string \<Rightarrow> 'a option) \<Rightarrow> string \<Rightarrow> 'a option" where
  "find_token m s = (case m s of Some r \<Rightarrow> Some r | None \<Rightarrow> after_sep m s)"

definition keyword_digits :: "string \<Rightarrow> string \<Rightarrow> string option" where
  "keyword_digits kw s =
     (case match_letters kw s of None \<Rightarrow> None | Some t \<Rightarrow> digits_boundary t)"

definition ackPattern :: "string \<Rightarrow> bool" where
  "ackPattern msg \<longleftrightarrow> find_token (keyword_digits ''ack'') msg \<noteq> None"

definition rejPattern :: "string \<Rightarrow> bool" where
  "rejPattern msg \<longleftrightarrow> find_token (keyword_digits ''rej'') msg \<noteq> None"

definition IsAckOrReject :: "string \<Rightarrow> bool" where
  "IsAckOrReject msg \<longleftrightarrow> ackPattern msg \<or> rejPattern msg"

lemma after_sep_Some:
  "after_sep m s = Some r \<Longrightarrow>
   \<exists>p c t. s = p @ c # t \<and> (c = CHR '':'' \<or> is_re_space c) \<and> m t = Some r"
proof (induction s)
  case (Cons c s)
  show ?case
  proof (cases "(c = CHR '':'' \<or> is_re_space c) \<and> m s = Some r")
    case True
    then show ?thesis by (metis append_Nil)
  next
    case False
    with Cons.prems have "after_sep m s = Some r" by (auto split: if_splits option.splits)
    with Cons.IH show ?thesis by (metis append_Cons)
  qed
qed simp

lemma after_sep_None:
  "after_sep m s = None \<longleftrightarrow>
   (\<forall>p c t. s = p @ c # t \<longrightarrow> c = CHR '':'' \<or> is_re_space c \<longrightarrow> m t = None)"
proof (induction s)
  case (Cons x s)
  show ?case
  proof
    assume n: "after_sep m (x # s) = None"
    show "\<forall>p c t. x # s = p @ c # t \<longrightarrow> c = CHR '':'' \<or> is_re_space c \<longrightarrow> m t = None"
    proof (intro allI impI)
      fix p c t assume e: "x # s = p @ c # t" and c: "c = CHR '':'' \<or> is_re_space c"
      from n have s: "after_sep m s = None" by (auto split: if_splits option.splits)
      from n e c s Cons.IH show "m t = None"
        by (cases p) (auto split: if_splits option.splits)
    qed
  next
    assume a: "\<forall>p c t. x # s = p @ c # t \<longrightarrow> c = CHR '':'' \<or> is_re_space c \<longrightarrow> m t = None"
    then have "after_sep m s = None" using Cons.IH by (metis append_Cons)
    moreover have "x = CHR '':'' \<or> is_re_space x \<Longrightarrow> m s = None"
      using a by (metis append_Nil)
    ultimately show "after_sep m (x # s) = None" by auto
  qed
qed simp

section \<open>Store-and-forward custody notices\<close>

definition IsStoreNotice :: "string \<Rightarrow> bool" where
  "IsStoreNotice msg =
     (if length msg < 16 then False
      else if take 4 (drop 9 msg) \<noteq> '':sto'' then False
      else if \<not> list_all is_digit (take 3 (drop 13 msg)) then False
      else if contains ''{'' msg then False
      else \<not> contains '':ack'' (to_lower msg) \<and> \<not> contains '':rej'' (to_lower msg))"

section \<open>Outgoing text messages\<close>

datatype packet_type = PacketTypeMessage | PacketTypePosition | PacketTypeTelemetry

datatype send_error =
  DestinationRequired | MessageRequired | InvalidUtf8 | MessageTooLong int

record outgoing_text =
  ot_type :: packet_type
  ot_destination :: string
  ot_message :: string

definition ValidateOutgoingText :: "string \<Rightarrow> string \<Rightarrow> int \<Rightarrow> send_error option" where
  "ValidateOutgoingText destination message maxLength =
     (if trim_space destination = [] then Some DestinationRequired
      else if message = [] then Some MessageRequired
      else if \<not> valid_utf8 message then Some InvalidUtf8
      else if int (rune_count message) > maxLength then Some (MessageTooLong maxLength)
      else None)"

definition NewOutgoingText :: "string \<Rightarrow> string \<Rightarrow> int \<Rightarrow> send_error + outgoing_text" where
  "NewOutgoingText destination message maxLength =
     (case ValidateOutgoingText destination message maxLength of
        Some e \<Rightarrow> Inl e
      | None \<Rightarrow> Inr \<lparr>ot_type = PacketTypeMessage, ot_destination = destination,
                    ot_message = message\<rparr>)"

lemma validate_None:
  "ValidateOutgoingText d m n = None \<longleftrightarrow>
   trim_space d \<noteq> [] \<and> m \<noteq> [] \<and> valid_utf8 m \<and> int (rune_count m) \<le> n"
  by (simp add: ValidateOutgoingText_def)

lemma NewOutgoingText_Inr:
  "NewOutgoingText d m n = Inr out \<Longrightarrow>
   ot_destination out = d \<and> ot_message out = m \<and> ValidateOutgoingText d m n = None"
  by (auto simp: NewOutgoingText_def split: option.splits)

section \<open>Source paths\<close>

definition SplitSourcePath :: "string \<Rightarrow> string \<times> string list" where
  "SplitSourcePath source =
     (let parts = split_on CHR '','' source in
      (trim_space (hd parts), filter (\<lambda>r. r \<noteq> []) (map trim_space (tl parts))))"

lemma SplitSourcePath_via:
  "v \<in> set (snd (SplitSourcePath s)) \<Longrightarrow> v \<noteq> [] \<and> CHR '','' \<notin> set v"
proof -
  assume "v \<in> set (snd (SplitSourcePath s))"
  then obtain p where p: "p \<in> set (tl (split_on CHR '','' s))" "v = trim_space p" "v \<noteq> []"
    by (auto simp: SplitSourcePath_def Let_def)
  then have "p \<in> set (split_on CHR '','' s)" by (meson list.set_sel(2) split_on_not_nil)
  from split_on_elem [OF this] p(2,3) set_trim_space [of p] show ?thesis by auto
qed

end
