(* ===== verification/ConsoleDecoder.thy ===== *)
theory ConsoleDecoder
  imports Prelude
begin

text \<open>
  internal/consolecodec/decoder.go: the incremental decoder of the serial and NETConsole
  transports. The state is the record buffer and the discarding flag; Feed consumes bytes one by
  one and collects payloads and errors. The abstract specification at the end cuts the stream at
  line feeds and decodes each line on its own; the incremental decoder is shown to refine it.
\<close>

datatype codec_error = ErrInvalidRecordLimit | ErrRecordTooLong | ErrMissingObject
  | ErrIncompleteObject

record decode_result =
  dr_payloads :: "string list"
  dr_errors :: "codec_error list"

record decoder =
  max_record_bytes :: int
  dec_record :: string
  discarding :: bool

definition empty_result :: decode_result where
  "empty_result = \<lparr>dr_payloads = [], dr_errors = []\<rparr>"

definition NewDecoder :: "int \<Rightarrow> codec_error + decoder" where
  "NewDecoder limit =
     (if limit \<le> 0 then Inl ErrInvalidRecordLimit
      else Inr \<lparr>max_record_bytes = limit, dec_record = [], discarding = False\<rparr>)"

section \<open>Extracting the payload of one record\<close>

definition isCaptureTime :: "string \<Rightarrow> bool" where
  "isCaptureTime v \<longleftrightarrow> length v = 8 \<and> v ! 2 = CHR '':'' \<and> v ! 5 = CHR '':'' \<and>
     (\<forall>i \<in> {0..<8}. i = 2 \<or> i = 5 \<or> is_digit (v ! i))"

definition trimCapturePrefix :: "string \<Rightarrow> string" where
  "trimCapturePrefix record =
     (if length record < 10 \<or> hd record \<noteq> CHR ''['' then record
      else case index_of CHR '']'' record of
        None \<Rightarrow> record
      | Some i \<Rightarrow> if i \<noteq> 9 \<or> \<not> isCaptureTime (take (i - 1) (drop 1 record)) then record
                  else trim_space (drop (i + 1) record))"

text \<open>
  matchingObjectEnd: one pass over the bytes with the nesting depth and the two string flags; the
  result is the length of the balanced object.
\<close>

fun object_end :: "string \<Rightarrow> nat \<Rightarrow> int \<Rightarrow> bool \<Rightarrow> bool \<Rightarrow> nat option" where
  "object_end [] index depth inString escaped = None"
| "object_end (c # s) index depth inString escaped =
     (if inString then
        (if escaped then object_end s (Suc index) depth True False
         else if c = CHR 0x5C then object_end s (Suc index) depth True True
         else if c = CHR 0x22 then object_end s (Suc index) depth False False
         else object_end s (Suc index) depth True False)
      else if c = CHR 0x22 then object_end s (Suc index) depth True escaped
      else if c = CHR ''{'' then object_end s (Suc index) (depth + 1) False escaped
      else if c = CHR ''}'' then
        (if depth - 1 = 0 then Some (index + 1)
         else if depth - 1 < 0 then None
         else object_end s (Suc index) (depth - 1) False escaped)
      else object_end s (Suc index) depth False escaped)"

definition matchingObjectEnd :: "string \<Rightarrow> nat option" where
  "matchingObjectEnd data = object_end data 0 0 False False"

definition extMarkers :: "string list" where
  "extMarkers = [''[EXT] Tele-Out: '', ''[EXT] Out: '']"

text \<open>Right None: not an ExtUDP record. Right (Some p): the payload. Left: a malformed record.\<close>

definition extractExtPayload :: "string \<Rightarrow> codec_error + string option" where
  "extractExtPayload rec =
     (let record = trimCapturePrefix (trim_space rec) in
      case find (\<lambda>m. prefix m record) extMarkers of
        None \<Rightarrow> Inr None
      | Some marker \<Rightarrow>
          (let body = drop (length marker) record in
           case index_of CHR ''{'' body of
             None \<Rightarrow> Inl ErrMissingObject
           | Some start \<Rightarrow>
               (case matchingObjectEnd (drop start body) of
                  None \<Rightarrow> Inl ErrIncompleteObject
                | Some e \<Rightarrow> Inr (Some (take e (drop start body))))))"

section \<open>The incremental decoder\<close>

definition finishRecord :: "decoder \<Rightarrow> decode_result \<Rightarrow> decoder \<times> decode_result" where
  "finishRecord d result =
     (let record = trim_suffix [CHR 0x0D] (dec_record d); d' = d\<lparr>dec_record := []\<rparr> in
      case extractExtPayload record of
        Inl err \<Rightarrow> (d', result\<lparr>dr_errors := dr_errors result @ [err]\<rparr>)
      | Inr None \<Rightarrow> (d', result)
      | Inr (Some payload) \<Rightarrow> (d', result\<lparr>dr_payloads := dr_payloads result @ [payload]\<rparr>))"

definition consumeByte :: "char \<Rightarrow> decoder \<times> decode_result \<Rightarrow> decoder \<times> decode_result" where
  "consumeByte value dr =
     (case dr of (d, result) \<Rightarrow>
      if discarding d then
        (if value = CHR 0x0A then (d\<lparr>discarding := False\<rparr>, result) else (d, result))
      else if value = CHR 0x0A then finishRecord d result
      else if int (length (dec_record d)) \<ge> max_record_bytes d then
        (d\<lparr>dec_record := [], discarding := True\<rparr>,
         result\<lparr>dr_errors := dr_errors result @ [ErrRecordTooLong]\<rparr>)
      else (d\<lparr>dec_record := dec_record d @ [value]\<rparr>, result))"

definition Feed :: "decoder \<Rightarrow> string \<Rightarrow> decoder \<times> decode_result" where
  "Feed d data = fold consumeByte data (d, empty_result)"

definition Flush :: "decoder \<Rightarrow> decoder \<times> decode_result" where
  "Flush d =
     (if discarding d then (d\<lparr>discarding := False, dec_record := []\<rparr>, empty_result)
      else if dec_record d = [] then (d, empty_result)
      else finishRecord d empty_result)"

definition BufferedBytes :: "decoder \<Rightarrow> nat" where
  "BufferedBytes d = length (dec_record d)"


section \<open>Results as a monoid, and feeding in chunks\<close>

definition app_result :: "decode_result \<Rightarrow> decode_result \<Rightarrow> decode_result" where
  "app_result r s = \<lparr>dr_payloads = dr_payloads r @ dr_payloads s,
                     dr_errors = dr_errors r @ dr_errors s\<rparr>"

lemma app_result_assoc [codec_simps]:
  "app_result (app_result a b) c = app_result a (app_result b c)"
  by (simp add: app_result_def)

lemma app_result_empty [codec_simps]:
  "app_result empty_result r = r" "app_result r empty_result = r"
  by (simp_all add: app_result_def empty_result_def)

text \<open>What one record contributes, and finishRecord in these terms.\<close>

definition record_result :: "string \<Rightarrow> decode_result" where
  "record_result record =
     (case extractExtPayload (trim_suffix [CHR 0x0D] record) of
        Inl err \<Rightarrow> \<lparr>dr_payloads = [], dr_errors = [err]\<rparr>
      | Inr None \<Rightarrow> empty_result
      | Inr (Some payload) \<Rightarrow> \<lparr>dr_payloads = [payload], dr_errors = []\<rparr>)"

lemma finishRecord_result [codec_simps]:
  "finishRecord d r = (d\<lparr>dec_record := []\<rparr>, app_result r (record_result (dec_record d)))"
  by (simp add: finishRecord_def record_result_def app_result_def empty_result_def Let_def
      split: sum.split option.split)

definition too_long :: decode_result where
  "too_long = \<lparr>dr_payloads = [], dr_errors = [ErrRecordTooLong]\<rparr>"

lemma consumeByte_eq [codec_simps]:
  "consumeByte c (d, r) =
     (if discarding d then (d\<lparr>discarding := c \<noteq> CHR 0x0A\<rparr>, r)
      else if c = CHR 0x0A
        then (d\<lparr>dec_record := []\<rparr>, app_result r (record_result (dec_record d)))
      else if int (length (dec_record d)) \<ge> max_record_bytes d
        then (d\<lparr>dec_record := [], discarding := True\<rparr>, app_result r too_long)
      else (d\<lparr>dec_record := dec_record d @ [c]\<rparr>, r))"
  by (simp add: consumeByte_def finishRecord_result app_result_def too_long_def)

lemma consumeByte_app:
  "consumeByte c (d, app_result r s) = apsnd (app_result r) (consumeByte c (d, s))"
  by (simp add: codec_simps)

lemma fold_consumeByte_app:
  "fold consumeByte data (d, app_result r s) = apsnd (app_result r) (fold consumeByte data (d, s))"
proof (induction data arbitrary: d s)
  case (Cons c data)
  then show ?case by (cases "consumeByte c (d, s)") (simp add: consumeByte_app)
qed simp

section \<open>Specification: decoding by lines\<close>

text \<open>
  A line longer than the limit is reported once and contributes nothing else. The last segment of
  the stream is the unfinished line: it contributes only the report that it is too long.
\<close>

definition line_result :: "int \<Rightarrow> string \<Rightarrow> decode_result" where
  "line_result limit line = (if int (length line) > limit then too_long else record_result line)"

definition tail_result :: "int \<Rightarrow> string \<Rightarrow> decode_result" where
  "tail_result limit line = (if int (length line) > limit then too_long else empty_result)"

fun lines_result :: "int \<Rightarrow> string list \<Rightarrow> decode_result" where
  "lines_result limit [] = empty_result"
| "lines_result limit [l] = tail_result limit l"
| "lines_result limit (l # ls) = app_result (line_result limit l) (lines_result limit ls)"

definition state_of :: "int \<Rightarrow> string \<Rightarrow> decoder" where
  "state_of limit line =
     \<lparr>max_record_bytes = limit,
      dec_record = (if int (length line) > limit then [] else line),
      discarding = (int (length line) > limit)\<rparr>"

definition decode_stream :: "int \<Rightarrow> string \<Rightarrow> decoder \<times> decode_result" where
  "decode_stream limit data =
     (let ls = split_on CHR 0x0A data in (state_of limit (last ls), lines_result limit ls))"

lemma lines_result_Cons:
  "ls \<noteq> [] \<Longrightarrow> lines_result limit (l # ls) = app_result (line_result limit l) (lines_result limit ls)"
  by (cases ls) auto

lemma fold_consumeByte_lines:
  assumes "0 < limit" and "CHR 0x0A \<notin> set p"
  shows "fold consumeByte data (state_of limit p, app_result r (tail_result limit p)) =
     (state_of limit (last (split_on CHR 0x0A (p @ data))),
      app_result r (lines_result limit (split_on CHR 0x0A (p @ data))))"
  using assms(2)
proof (induction data arbitrary: p r)
  case Nil
  then show ?case by (simp add: split_on_no_sep)
next
  case (Cons c data)
  show ?case
  proof (cases "c = CHR 0x0A")
    case True
    have step: "consumeByte c (state_of limit p, app_result r (tail_result limit p)) =
        (state_of limit [], app_result (app_result r (line_result limit p)) (tail_result limit []))"
      using True assms(1) by (auto simp: codec_simps state_of_def tail_result_def line_result_def)
    from Cons.prems True have "split_on CHR 0x0A (p @ c # data) = p # split_on CHR 0x0A data"
      by (simp add: split_on_sep)
    with Cons.IH [of "[]" "app_result r (line_result limit p)"] step show ?thesis
      by (simp add: lines_result_Cons app_result_assoc)
  next
    case False
    have step: "consumeByte c (state_of limit p, app_result r (tail_result limit p)) =
        (state_of limit (p @ [c]), app_result r (tail_result limit (p @ [c])))"
      using False by (auto simp: codec_simps state_of_def tail_result_def)
    from Cons.IH [of "p @ [c]" r] Cons.prems False step show ?thesis by simp
  qed
qed

lemma Feed_stream:
  assumes "NewDecoder limit = Inr d"
  shows "Feed d data = decode_stream limit data"
proof -
  from assms have "0 < limit" and d: "d = state_of limit []"
    by (auto simp: NewDecoder_def state_of_def split: if_splits)
  from fold_consumeByte_lines [OF this(1), of "[]" data empty_result] this show ?thesis
    by (simp add: Feed_def decode_stream_def tail_result_def codec_simps Let_def)
qed

section \<open>Invariant\<close>

definition decoder_inv :: "decoder \<Rightarrow> bool" where
  "decoder_inv d \<longleftrightarrow> 0 < max_record_bytes d \<and> int (length (dec_record d)) \<le> max_record_bytes d \<and>
     (discarding d \<longrightarrow> dec_record d = [])"

lemma decoder_inv_new: "NewDecoder limit = Inr d \<Longrightarrow> decoder_inv d"
  by (auto simp: NewDecoder_def decoder_inv_def split: if_splits)

lemma decoder_inv_consume: "decoder_inv d \<Longrightarrow> decoder_inv (fst (consumeByte c (d, r)))"
  by (auto simp: codec_simps decoder_inv_def)

lemma decoder_inv_fold: "decoder_inv d \<Longrightarrow> decoder_inv (fst (fold consumeByte data (d, r)))"
proof (induction data arbitrary: d r)
  case (Cons c data)
  from decoder_inv_consume [OF Cons.prems, of c r] Cons.IH show ?case
    by (cases "consumeByte c (d, r)") simp
qed simp

lemma max_record_bytes_fold:
  "max_record_bytes (fst (fold consumeByte data (d, r))) = max_record_bytes d"
proof (induction data arbitrary: d r)
  case (Cons c data)
  have "max_record_bytes (fst (consumeByte c (d, r))) = max_record_bytes d"
    by (simp add: codec_simps)
  with Cons.IH show ?case by (cases "consumeByte c (d, r)") simp
qed simp

section \<open>JSON objects inside a record\<close>

text \<open>
  The text of a JSON object: string literals are sequences of plain characters and two-character
  escapes; every other token is an atom without quotes and braces. Scanning such a text from
  outside a string comes back outside a string at the same depth.
\<close>

datatype jchunk = Plain char | Escaped char

datatype jval = JAtom string | JString "jchunk list" | JArray "jval list"
  | JObject "(jchunk list \<times> jval) list"

fun chunk_text :: "jchunk \<Rightarrow> string" where
  "chunk_text (Plain c) = [c]"
| "chunk_text (Escaped c) = [CHR 0x5C, c]"

fun chunk_ok :: "jchunk \<Rightarrow> bool" where
  "chunk_ok (Plain c) = (c \<noteq> CHR 0x22 \<and> c \<noteq> CHR 0x5C)"
| "chunk_ok (Escaped c) = True"

definition lit_text :: "jchunk list \<Rightarrow> string" where
  "lit_text cs = CHR 0x22 # concat (map chunk_text cs) @ [CHR 0x22]"

fun jtext :: "jval \<Rightarrow> string" where
  "jtext (JAtom s) = s"
| "jtext (JString cs) = lit_text cs"
| "jtext (JArray vs) = CHR ''['' # join_with CHR '','' (map jtext vs) @ '']''"
| "jtext (JObject ms) =
     CHR ''{'' # join_with CHR '','' (map (\<lambda>(k, v). lit_text k @ CHR '':'' # jtext v) ms) @ ''}''"

fun jok :: "jval \<Rightarrow> bool" where
  "jok (JAtom s) = (\<forall>c \<in> set s. c \<notin> {CHR 0x22, CHR ''{'', CHR ''}''})"
| "jok (JString cs) = list_all chunk_ok cs"
| "jok (JArray vs) = (\<forall>v \<in> set vs. jok v)"
| "jok (JObject ms) = (\<forall>(k, v) \<in> set ms. list_all chunk_ok k \<and> jok v)"


definition neutral :: "string \<Rightarrow> bool" where
  "neutral s \<longleftrightarrow> (\<forall>rest i d. 0 < d \<longrightarrow>
     object_end (s @ rest) i d False False = object_end rest (i + length s) d False False)"

lemma neutral_simps [codec_simps]:
  "neutral []"
  "neutral s \<Longrightarrow> neutral t \<Longrightarrow> neutral (s @ t)"
  "c \<notin> {CHR 0x22, CHR ''{'', CHR ''}''} \<Longrightarrow> neutral s \<Longrightarrow> neutral (c # s)"
  by (simp_all add: neutral_def add.assoc)

lemma neutral_atom: "\<forall>c \<in> set s. c \<notin> {CHR 0x22, CHR ''{'', CHR ''}''} \<Longrightarrow> neutral s"
  by (induction s) (simp_all add: codec_simps)

lemma object_end_chunks:
  "list_all chunk_ok cs \<Longrightarrow>
   object_end (concat (map chunk_text cs) @ rest) i d True False =
   object_end rest (i + length (concat (map chunk_text cs))) d True False"
proof (induction cs arbitrary: i)
  case (Cons c cs)
  then show ?case by (cases c) auto
qed simp

lemma neutral_lit: "list_all chunk_ok cs \<Longrightarrow> neutral (lit_text cs)"
  by (simp add: neutral_def lit_text_def object_end_chunks)

lemma neutral_join: "\<forall>p \<in> set ps. neutral p \<Longrightarrow> neutral (join_with CHR '','' ps)"
  by (induction "CHR '',''" ps rule: join_with.induct) (auto simp: codec_simps)

lemma neutral_braces: "neutral s \<Longrightarrow> neutral (CHR ''{'' # s @ ''}'')"
  by (simp add: neutral_def)

lemma neutral_jtext: "jok v \<Longrightarrow> neutral (jtext v)"
proof (induction v)
  case (JAtom s)
  then show ?case by (simp add: neutral_atom)
next
  case (JString cs)
  then show ?case by (simp add: neutral_lit)
next
  case (JArray vs)
  then have "neutral (join_with CHR '','' (map jtext vs))" by (intro neutral_join) auto
  then show ?case by (simp add: codec_simps)
next
  case (JObject ms)
  have "neutral (lit_text k @ CHR '':'' # jtext v)" if "(k, v) \<in> set ms" for k v
    using that JObject by (fastforce simp: codec_simps neutral_lit)
  then have "neutral (join_with CHR '','' (map (\<lambda>(k, v). lit_text k @ CHR '':'' # jtext v) ms))"
    by (intro neutral_join) auto
  then show ?case by (simp add: neutral_braces)
qed

text \<open>The scan of an object text ends exactly at its closing brace, whatever follows.\<close>

lemma matchingObjectEnd_jtext:
  assumes "jok (JObject ms)"
  shows "matchingObjectEnd (jtext (JObject ms) @ rest) = Some (length (jtext (JObject ms)))"
proof -
  have "neutral (lit_text k @ CHR '':'' # jtext v)" if "(k, v) \<in> set ms" for k v
    using that assms by (fastforce simp: codec_simps neutral_lit neutral_jtext)
  then have "neutral (join_with CHR '','' (map (\<lambda>(k, v). lit_text k @ CHR '':'' # jtext v) ms))"
    by (intro neutral_join) auto
  then show ?thesis by (simp add: matchingObjectEnd_def neutral_def)
qed

lemma object_end_bounds:
  "object_end s i d ins esc = Some e \<Longrightarrow> i < e \<and> e \<le> i + length s \<and> s ! (e - i - 1) = CHR ''}''"
proof (induction s i d ins esc rule: object_end.induct)
  case (2 c s index depth ins esc)
  then show ?case by (auto split: if_splits simp: nth_Cons')
qed simp

section \<open>Framing\<close>

lemma trim_space_bracket:
  "s \<noteq> [] \<Longrightarrow> hd s = CHR ''['' \<or> hd s = CHR ''{'' \<Longrightarrow> last s = CHR ''}'' \<Longrightarrow> trim_space s = s"
  by (rule trim_space_fix) (auto simp: space_first_def space_last_def)

lemma jtext_object:
  "jtext (JObject ms) = CHR ''{'' # tl (jtext (JObject ms))" "last (jtext (JObject ms)) = CHR ''}''"
  by simp_all

lemma extract_framed:
  assumes "jok (JObject ms)" and "m \<in> set extMarkers"
  shows "extractExtPayload (m @ jtext (JObject ms)) = Inr (Some (jtext (JObject ms)))"
proof -
  let ?j = "jtext (JObject ms)"
  from assms(2) have m: "m = ''[EXT] Tele-Out: '' \<or> m = ''[EXT] Out: ''"
    by (auto simp: extMarkers_def)
  have "trim_space (m @ ?j) = m @ ?j"
    using m by (intro trim_space_bracket) auto
  moreover have "trimCapturePrefix (m @ ?j) = m @ ?j"
    using m by (auto simp: trimCapturePrefix_def)
  moreover have "find (\<lambda>p. prefix p (m @ ?j)) extMarkers = Some m"
    using m by (auto simp: extMarkers_def)
  moreover have "index_of CHR ''{'' ?j = Some 0" by simp
  ultimately show ?thesis
    using matchingObjectEnd_jtext [OF assms(1), of "[]"]
    by (simp add: extractExtPayload_def del: jtext.simps)
qed

lemma record_result_framed:
  assumes "jok (JObject ms)" and "m \<in> set extMarkers"
  shows "record_result (m @ jtext (JObject ms) @ [CHR 0x0D]) =
     \<lparr>dr_payloads = [jtext (JObject ms)], dr_errors = []\<rparr>"
  using extract_framed [OF assms] trim_suffix_append [of "[CHR 0x0D]" "m @ jtext (JObject ms)"]
  by (simp add: record_result_def del: jtext.simps)

lemma split_frames:
  "\<forall>f \<in> set fs. CHR 0x0A \<notin> set f \<Longrightarrow>
   split_on CHR 0x0A (concat (map (\<lambda>f. f @ [CHR 0x0A]) fs)) = fs @ [[]]"
  by (induction fs) (auto simp: split_on_sep)


section \<open>Properties\<close>

text \<open>C1: The incremental decoder implements the specification by lines: whatever bytes a fresh
decoder is fed, its payloads, its errors and its final state are those of cutting the stream at
line feeds and decoding every line on its own, so an over-long line costs one error and never
disturbs the lines around it.\<close>

theorem decoder_refines_lines:
  assumes "NewDecoder limit = Inr d"
  shows "Feed d data = decode_stream limit data"
  using assms by (rule Feed_stream)

theorem decoder_refines_lines_witness:
  "Feed \<lparr>max_record_bytes = 20, dec_record = [], discarding = False\<rparr>
     (''[EXT] Out: {}'' @ [CHR 0x0D, CHR 0x0A] @ replicate 21 CHR ''x'' @ [CHR 0x0A] @ ''[EXT]'') =
   (\<lparr>max_record_bytes = 20, dec_record = ''[EXT]'', discarding = False\<rparr>,
    \<lparr>dr_payloads = [''{}''], dr_errors = [ErrRecordTooLong]\<rparr>)"
proof -
  have new: "NewDecoder 20 = Inr \<lparr>max_record_bytes = 20, dec_record = [], discarding = False\<rparr>"
    by (simp add: NewDecoder_def)
  show ?thesis unfolding decoder_refines_lines [OF new] by code_simp
qed

text \<open>Feeding does not depend on how the transport cuts the stream into reads: feeding two
chunks in turn gives the state of feeding their concatenation, and its payloads and errors in the
same order.\<close>

theorem decoder_chunking:
  "Feed d (a @ b) =
     (let (d1, r1) = Feed d a; (d2, r2) = Feed d1 b in (d2, app_result r1 r2))"
proof (cases "Feed d a")
  case (Pair d1 r1)
  then have "Feed d (a @ b) = apsnd (app_result r1) (Feed d1 b)"
    using fold_consumeByte_app [of b d1 r1 empty_result] by (simp add: Feed_def codec_simps)
  with Pair show ?thesis by (simp add: split_beta apsnd_def map_prod_def)
qed

text \<open>The calls a transport makes on one decoder.\<close>

datatype decoder_call = CallFeed string | CallFlush

fun run_call :: "decoder_call \<Rightarrow> decoder \<Rightarrow> decoder" where
  "run_call (CallFeed data) d = fst (Feed d data)"
| "run_call CallFlush d = fst (Flush d)"

lemma decoder_call_inv: "decoder_inv d \<Longrightarrow> decoder_inv (run_call c d)"
  by (cases c)
     (auto simp: Feed_def Flush_def decoder_inv_fold finishRecord_result, auto simp: decoder_inv_def)

lemma decoder_call_limit: "max_record_bytes (run_call c d) = max_record_bytes d"
  by (cases c) (auto simp: Feed_def max_record_bytes_fold Flush_def finishRecord_result)

lemma decoder_calls_inv:
  "decoder_inv d \<Longrightarrow> decoder_inv (fold run_call cs d) \<and>
     max_record_bytes (fold run_call cs d) = max_record_bytes d"
  by (induction cs arbitrary: d) (auto simp: decoder_call_inv decoder_call_limit)

text \<open>Memory stays bounded: after any sequence of Feed and Flush calls on a new decoder, the
buffered record never exceeds the configured limit, and nothing is buffered while an over-long
record is being discarded.\<close>

theorem decoder_buffer_bounded:
  assumes "NewDecoder limit = Inr d"
  shows "int (BufferedBytes (fold run_call cs d)) \<le> limit \<and>
     (discarding (fold run_call cs d) \<longrightarrow> BufferedBytes (fold run_call cs d) = 0)"
proof -
  from assms have "max_record_bytes d = limit" by (auto simp: NewDecoder_def split: if_splits)
  with decoder_calls_inv [OF decoder_inv_new [OF assms], of cs] show ?thesis
    by (auto simp: decoder_inv_def BufferedBytes_def)
qed

theorem decoder_buffer_bounded_witness:
  "int (BufferedBytes (fold run_call [CallFeed ''abcd'', CallFlush, CallFeed ''ab'']
     \<lparr>max_record_bytes = 3, dec_record = [], discarding = False\<rparr>)) \<le> 3"
  using decoder_buffer_bounded [of 3 "\<lparr>max_record_bytes = 3, dec_record = [], discarding = False\<rparr>"
      "[CallFeed ''abcd'', CallFlush, CallFeed ''ab'']"]
  by (simp add: NewDecoder_def)

text \<open>C24: Round trip of the framing. If every record is a marker followed by the text of a JSON
object and a carriage return, contains no line feed and fits the limit, then the decoder returns
exactly the object texts, in order, without any error, and ends with an empty buffer.\<close>

theorem decoder_roundtrip:
  assumes "NewDecoder limit = Inr d"
    and "\<forall>(m, ms) \<in> set recs. m \<in> set extMarkers \<and> jok (JObject ms) \<and>
           CHR 0x0A \<notin> set (jtext (JObject ms)) \<and>
           int (length m + length (jtext (JObject ms)) + 1) \<le> limit"
  shows "Feed d (concat (map (\<lambda>(m, ms). m @ jtext (JObject ms) @ [CHR 0x0D, CHR 0x0A]) recs)) =
     (d, \<lparr>dr_payloads = map (\<lambda>(m, ms). jtext (JObject ms)) recs, dr_errors = []\<rparr>)"
proof -
  let ?fr = "\<lambda>(m, ms). m @ jtext (JObject ms) @ [CHR 0x0D]"
  have cat: "concat (map (\<lambda>(m, ms). m @ jtext (JObject ms) @ [CHR 0x0D, CHR 0x0A]) rs) =
      concat (map (\<lambda>f. f @ [CHR 0x0A]) (map ?fr rs))" for rs
    by (induction rs) (auto simp del: jtext.simps)
  have nolf: "\<forall>f \<in> set (map ?fr recs). CHR 0x0A \<notin> set f"
    using assms(2) by (auto simp: extMarkers_def simp del: jtext.simps jok.simps)
  from assms(1) have d: "d = state_of limit []" and l: "0 < limit"
    by (auto simp: NewDecoder_def state_of_def split: if_splits)
  have lines: "lines_result limit (map ?fr rs @ [[]]) =
      \<lparr>dr_payloads = map (\<lambda>(m, ms). jtext (JObject ms)) rs, dr_errors = []\<rparr>"
    if "set rs \<subseteq> set recs" for rs
    using that
  proof (induction rs)
    case Nil
    from l show ?case by (simp add: tail_result_def empty_result_def)
  next
    case (Cons r rs)
    obtain m ms where r: "r = (m, ms)" by (cases r)
    with Cons.prems assms(2) have "m \<in> set extMarkers" "jok (JObject ms)"
      "int (length m + length (jtext (JObject ms)) + 1) \<le> limit" by auto
    then have "line_result limit (?fr r) = \<lparr>dr_payloads = [jtext (JObject ms)], dr_errors = []\<rparr>"
      using record_result_framed [of ms m] r
      by (simp add: line_result_def del: jtext.simps jok.simps)
    with Cons r show ?case
      by (simp add: lines_result_Cons app_result_def del: jtext.simps)
  qed
  show ?thesis
    unfolding Feed_stream [OF assms(1)] decode_stream_def cat split_frames [OF nolf]
    using lines [of recs] d by (simp del: jtext.simps)
qed

theorem decoder_roundtrip_witness:
  "Feed \<lparr>max_record_bytes = 64, dec_record = [], discarding = False\<rparr>
     (concat (map (\<lambda>(m, ms). m @ jtext (JObject ms) @ [CHR 0x0D, CHR 0x0A])
        [(''[EXT] Out: '', [([Plain CHR ''a''], JString [Escaped CHR 0x22, Plain CHR ''}''])])])) =
   (\<lparr>max_record_bytes = 64, dec_record = [], discarding = False\<rparr>,
    \<lparr>dr_payloads = [[CHR ''{'', CHR 0x22, CHR ''a'', CHR 0x22, CHR '':'', CHR 0x22, CHR 0x5C, CHR 0x22,
      CHR ''}'', CHR 0x22, CHR ''}'']], dr_errors = []\<rparr>)"
  using decoder_roundtrip [of 64 "\<lparr>max_record_bytes = 64, dec_record = [], discarding = False\<rparr>"
      "[(''[EXT] Out: '', [([Plain CHR ''a''], JString [Escaped CHR 0x22, Plain CHR ''}''])])]"]
  by (simp add: NewDecoder_def extMarkers_def lit_text_def)

end
