(* ===== verification/ConsoleEncoder.thy ===== *)
theory ConsoleEncoder
  imports Callsign Meshcom
begin

text \<open>
  The encoder of internal/consolecodec (encoder.go): a text command becomes one console line
  "::", an optional destination in braces, the message, CR LF. The station identity an encoder
  holds is an option: None is the nil interface, Some the callsign Current() returns.
\<close>

section \<open>Encoding a text command\<close>

datatype encode_error =
    ErrSend send_error
  | ErrCommandInjection
  | ErrInvalidDestination
  | ErrSelfDirectMessage
  | ErrPayloadTooLong nat

record text_command =
  tc_Destination :: string
  tc_Message :: string
  tc_MaxMessageRunes :: int

definition MaxFirmwarePayloadBytes :: nat where
  "MaxFirmwarePayloadBytes = 160"

definition isDecimal :: "string \<Rightarrow> bool" where
  "isDecimal value \<longleftrightarrow> value \<noteq> [] \<and> list_all is_digit value"

definition isLocalCallsign :: "string option \<Rightarrow> string \<Rightarrow> bool" where
  "isLocalCallsign identity destination =
     (case identity of None \<Rightarrow> False | Some current \<Rightarrow> normalize current = destination)"

definition braces :: "string \<Rightarrow> string" where
  "braces s = CHR ''{'' # s @ ''}''"

definition encodeDestination :: "string option \<Rightarrow> string \<Rightarrow> encode_error + string" where
  "encodeDestination identity destination =
     (let normalized = to_upper (trim_space destination) in
      if normalized = ''*'' then Inr []
      else if isDecimal normalized then
        (case atoi normalized of
           None \<Rightarrow> Inl ErrInvalidDestination
         | Some channel \<Rightarrow>
             if channel < 1 \<or> channel > 99999 then Inl ErrInvalidDestination
             else Inr (braces (itoa_int channel)))
      else if \<not> is_valid normalized then Inl ErrInvalidDestination
      else if isLocalCallsign identity normalized then Inl ErrSelfDirectMessage
      else Inr (braces normalized))"

definition crlf :: string where
  "crlf = [CHR 0x0D, CHR 0x0A]"

definition has_separator :: "string \<Rightarrow> bool" where
  "has_separator message \<longleftrightarrow> (\<exists>c \<in> set message. byte c \<in> {13, 10, 0})"

definition Encode :: "string option \<Rightarrow> text_command \<Rightarrow> encode_error + string" where
  "Encode identity command =
     (case ValidateOutgoingText (tc_Destination command) (tc_Message command)
             (tc_MaxMessageRunes command) of
        Some e \<Rightarrow> Inl (ErrSend e)
      | None \<Rightarrow>
        if has_separator (tc_Message command) then Inl ErrCommandInjection
        else (case encodeDestination identity (tc_Destination command) of
                Inl e \<Rightarrow> Inl e
              | Inr destination \<Rightarrow>
                  (let payload = destination @ tc_Message command in
                   if length payload > MaxFirmwarePayloadBytes
                   then Inl (ErrPayloadTooLong (length payload))
                   else Inr (''::'' @ payload @ crlf))))"

section \<open>The three forms of a destination\<close>

definition is_broadcast :: "string \<Rightarrow> bool" where
  "is_broadcast destination \<longleftrightarrow> to_upper (trim_space destination) = ''*''"

lemma itoa_int_digits: "0 \<le> i \<Longrightarrow> list_all is_digit (itoa_int i)"
  by (simp add: itoa_int_def)

lemma encodeDestination_broadcast:
  "encodeDestination idn d = Inr [] \<longleftrightarrow> is_broadcast d"
  by (auto simp: encodeDestination_def is_broadcast_def Let_def braces_def
      split: option.splits if_splits)

lemma encodeDestination_channel:
  "1 \<le> n \<Longrightarrow> n \<le> 99999 \<Longrightarrow> trim_space d = itoa n \<Longrightarrow>
   encodeDestination idn d = Inr (braces (itoa n))"
proof -
  assume n: "1 \<le> n" "n \<le> 99999" and d: "trim_space d = itoa n"
  have u: "to_upper (itoa n) = itoa n" by (simp add: to_upper_digits)
  have "itoa n \<noteq> ''*''"
  proof
    assume "itoa n = ''*''"
    then have "CHR ''*'' \<in> set (itoa n)" by simp
    then have "is_digit (CHR ''*'')" by (rule set_itoa)
    then show False by (simp add: is_digit_def)
  qed
  moreover have "atoi (itoa n) = Some (int n)"
    using n by (intro atoi_itoa) (simp add: max_int64_def)
  ultimately show ?thesis
    using n by (simp add: encodeDestination_def d u isDecimal_def itoa_int_def)
qed


text \<open>What stands between the braces: a channel number or a callsign.\<close>

definition dest_char :: "char \<Rightarrow> bool" where
  "dest_char c \<longleftrightarrow> is_call_char c \<or> c = CHR ''-''"

lemma dest_char_class:
  "dest_char c \<Longrightarrow> c \<noteq> CHR ''{'' \<and> c \<noteq> CHR ''}'' \<and> byte c \<noteq> 13 \<and> byte c \<noteq> 10 \<and> byte c \<noteq> 0"
  by (auto simp: dest_char_def is_call_char_def is_upper_def is_digit_def)

lemma encodeDestination_shape:
  assumes "encodeDestination idn d = Inr dst"
  shows "is_broadcast d \<and> dst = [] \<or> (\<exists>x. dst = braces x \<and> x \<noteq> [] \<and> list_all dest_char x)"
proof (cases "is_broadcast d")
  case True
  with assms show ?thesis by (simp add: encodeDestination_def is_broadcast_def)
next
  case nb: False
  let ?n = "to_upper (trim_space d)"
  show ?thesis
  proof (cases "isDecimal ?n")
    case True
    with assms nb obtain ch where ch: "dst = braces (itoa_int ch)" "1 \<le> ch"
      by (auto simp: encodeDestination_def is_broadcast_def Let_def split: option.splits if_splits)
    then have "itoa_int ch \<noteq> [] \<and> list_all dest_char (itoa_int ch)"
      by (auto simp: itoa_int_def dest_char_def is_call_char_def list_all_iff dest: set_itoa)
    with ch show ?thesis by blast
  next
    case False
    with assms nb have v: "is_valid ?n" and dst: "dst = braces ?n"
      by (auto simp: encodeDestination_def is_broadcast_def Let_def split: option.splits if_splits)
    from v have "call_pattern ?n" by (simp add: is_valid_pattern normalize_def)
    then have "?n \<noteq> [] \<and> list_all dest_char ?n"
      using call_pattern_ends call_pattern_chars by (auto simp: list_all_iff dest_char_def)
    with dst show ?thesis by blast
  qed
qed

lemma Encode_Inr:
  assumes "Encode idn cmd = Inr bs"
  obtains dst where "encodeDestination idn (tc_Destination cmd) = Inr dst"
    "bs = ''::'' @ dst @ tc_Message cmd @ crlf" "length (dst @ tc_Message cmd) \<le> 160"
    "\<not> has_separator (tc_Message cmd)"
    "ValidateOutgoingText (tc_Destination cmd) (tc_Message cmd) (tc_MaxMessageRunes cmd) = None"
  using assms
  by (auto simp: Encode_def Let_def MaxFirmwarePayloadBytes_def split: option.splits sum.splits if_splits)

lemma encodeDestination_clean:
  "encodeDestination idn d = Inr dst \<Longrightarrow> \<not> has_separator dst"
  using encodeDestination_shape [of idn d dst] dest_char_class
  by (auto simp: braces_def has_separator_def list_all_iff)

lemma braces_append_inj:
  assumes "braces x @ m = braces y @ n" "CHR ''}'' \<notin> set x" "CHR ''}'' \<notin> set y"
  shows "x = y \<and> m = n"
proof -
  from assms(1) have "x @ CHR ''}'' # m = y @ CHR ''}'' # n" by (simp add: braces_def)
  with assms(2,3) show ?thesis
    by (metis before_sep list.inject same_append_eq)
qed

lemma addressed_Inr:
  assumes "Encode idn cmd = Inr bs" and "\<not> is_broadcast (tc_Destination cmd)"
  obtains x where "encodeDestination idn (tc_Destination cmd) = Inr (braces x)"
    "CHR ''}'' \<notin> set x" "bs = ''::'' @ braces x @ tc_Message cmd @ crlf"
proof -
  obtain dst where d: "encodeDestination idn (tc_Destination cmd) = Inr dst"
    "bs = ''::'' @ dst @ tc_Message cmd @ crlf"
    using assms(1) by (rule Encode_Inr)
  from encodeDestination_shape [OF d(1)] assms(2) obtain x where
    x: "dst = braces x" "list_all dest_char x" by blast
  then have "CHR ''}'' \<notin> set x" by (auto simp: list_all_iff dest: dest_char_class)
  with d x(1) that show thesis by blast
qed

lemma valid_no_brace: "is_valid c \<Longrightarrow> CHR ''}'' \<notin> set (normalize c)"
proof
  assume v: "is_valid c" and "CHR ''}'' \<in> set (normalize c)"
  then have "dest_char (CHR ''}'')"
    unfolding dest_char_def by (metis call_pattern_chars is_valid_pattern)
  then show False by (auto dest: dest_char_class)
qed

lemma not_local:
  assumes "encodeDestination (Some c) d = Inr (braces x)" and "\<not> isDecimal x"
  shows "normalize c \<noteq> x"
proof -
  have "isDecimal (itoa_int ch)" if "1 \<le> ch" for ch
    using that by (simp add: isDecimal_def itoa_int_def)
  with assms show ?thesis
    by (auto simp: encodeDestination_def isLocalCallsign_def Let_def braces_def
        split: option.splits if_splits)
qed

lemma newline_separator: "CHR 0x0A \<in> set s \<Longrightarrow> has_separator s"
  unfolding has_separator_def by (rule bexI [where x = "CHR 0x0A"]) simp_all

section \<open>Properties\<close>

text \<open>C15: An encoded command is exactly one console line: it starts with "::", ends with CR LF and
  holds no CR, LF or NUL before that, so no message, whatever the network client typed, can smuggle a
  second console command; and the payload between fits the 160 bytes of the firmware. The payload
  is the encoded destination followed by the message, unchanged.\<close>

theorem encode_single_line:
  assumes "Encode identity command = Inr bytes"
  shows "\<exists>destination.
    encodeDestination identity (tc_Destination command) = Inr destination \<and>
    bytes = ''::'' @ destination @ tc_Message command @ crlf \<and>
    length (destination @ tc_Message command) \<le> MaxFirmwarePayloadBytes \<and>
    \<not> has_separator (''::'' @ destination @ tc_Message command) \<and>
    split_on (CHR 0x0A) bytes
      = [''::'' @ destination @ tc_Message command @ [CHR 0x0D], []]"
proof -
  obtain dst where d: "encodeDestination identity (tc_Destination command) = Inr dst"
    and b: "bytes = ''::'' @ dst @ tc_Message command @ crlf"
    and l: "length (dst @ tc_Message command) \<le> 160"
    and m: "\<not> has_separator (tc_Message command)"
    using assms by (rule Encode_Inr)
  from encodeDestination_clean [OF d] m
  have c: "\<not> has_separator (''::'' @ dst @ tc_Message command)"
    by (auto simp: has_separator_def)
  then have "CHR 0x0A \<notin> set (''::'' @ dst @ tc_Message command @ [CHR 0x0D])"
    using newline_separator by auto
  moreover have "bytes = (''::'' @ dst @ tc_Message command @ [CHR 0x0D]) @ CHR 0x0A # []"
    by (simp add: b crlf_def)
  ultimately have "split_on (CHR 0x0A) bytes
      = [''::'' @ dst @ tc_Message command @ [CHR 0x0D], []]"
    by (metis split_on.simps(1) split_on_sep)
  with d b l c show ?thesis by (auto simp: MaxFirmwarePayloadBytes_def)
qed

definition encode_example :: text_command where
  "encode_example = \<lparr>tc_Destination = ''iu5pmp-1'', tc_Message = ''ciao'', tc_MaxMessageRunes = 150\<rparr>"

lemma encode_example_parts:
  "encodeDestination (Some ''IU5PMP-99'') ''iu5pmp-1'' = Inr (braces ''IU5PMP-1'')"
  "ValidateOutgoingText ''iu5pmp-1'' ''ciao'' 150 = None"
  "\<not> has_separator ''ciao''"
  by code_simp+

lemma encode_example_value:
  "Encode (Some ''IU5PMP-99'') encode_example = Inr (''::{IU5PMP-1}ciao'' @ crlf)"
  by (simp add: Encode_def encode_example_def encode_example_parts braces_def
      MaxFirmwarePayloadBytes_def)

theorem encode_single_line_witness:
  "split_on (CHR 0x0A) (''::{IU5PMP-1}ciao'' @ crlf) = [''::{IU5PMP-1}ciao'' @ [CHR 0x0D], []]"
proof -
  obtain d where
    d: "''::{IU5PMP-1}ciao'' @ crlf = ''::'' @ d @ tc_Message encode_example @ crlf"
    "split_on (CHR 0x0A) (''::{IU5PMP-1}ciao'' @ crlf)
      = [''::'' @ d @ tc_Message encode_example @ [CHR 0x0D], []]"
    using encode_single_line [OF encode_example_value] by blast
  then have "''::{IU5PMP-1}ciao'' = ''::'' @ d @ tc_Message encode_example"
    by (metis append.assoc append_same_eq)
  with d(2) show ?thesis by (metis append.assoc)
qed

text \<open>Two addressed (not broadcast) commands with the same bytes are the same message to the same
  destination, and an addressed command never carries the station's own callsign as its
  destination (an all-digit callsign apart, which the code reads as a channel number).\<close>

theorem encode_addressed_unambiguous:
  assumes a: "Encode identity a = Inr bytes" and b: "Encode identity b = Inr bytes"
    and na: "\<not> is_broadcast (tc_Destination a)" and nb: "\<not> is_broadcast (tc_Destination b)"
  shows "tc_Message a = tc_Message b \<and>
    encodeDestination identity (tc_Destination a) = encodeDestination identity (tc_Destination b) \<and>
    (\<forall>current. identity = Some current \<longrightarrow> is_valid current \<longrightarrow> \<not> isDecimal (normalize current) \<longrightarrow>
       \<not> prefix (''::'' @ braces (normalize current)) bytes)"
proof -
  obtain x where x: "encodeDestination identity (tc_Destination a) = Inr (braces x)"
      "CHR ''}'' \<notin> set x" "bytes = ''::'' @ braces x @ tc_Message a @ crlf"
    using a na by (rule addressed_Inr)
  obtain y where y: "encodeDestination identity (tc_Destination b) = Inr (braces y)"
      "CHR ''}'' \<notin> set y" "bytes = ''::'' @ braces y @ tc_Message b @ crlf"
    using b nb by (rule addressed_Inr)
  have "x = y \<and> tc_Message a @ crlf = tc_Message b @ crlf"
    using x(3) y(3) by (intro braces_append_inj x(2) y(2)) (simp only: same_append_eq)
  moreover have "\<not> prefix (''::'' @ braces (normalize c)) bytes"
    if "identity = Some c" "is_valid c" "\<not> isDecimal (normalize c)" for c
  proof
    assume "prefix (''::'' @ braces (normalize c)) bytes"
    then obtain r where "braces (normalize c) @ r = braces x @ tc_Message a @ crlf"
      unfolding x(3) by (metis append.assoc prefixE same_append_eq)
    then have "normalize c = x"
      using braces_append_inj x(2) valid_no_brace [OF that(2)] by blast
    then show False using not_local x(1) that by blast
  qed
  ultimately show ?thesis using x(1) y(1) by simp
qed

theorem encode_addressed_unambiguous_witness:
  "\<not> prefix (''::'' @ braces (normalize ''IU5PMP-99'')) (''::{IU5PMP-1}ciao'' @ crlf)"
proof -
  have "\<not> is_broadcast (tc_Destination encode_example)" "is_valid ''IU5PMP-99''"
    "\<not> isDecimal (normalize ''IU5PMP-99'')"
    by code_simp+
  then show ?thesis
    using encode_addressed_unambiguous [OF encode_example_value encode_example_value] by blast
qed

text \<open>A broadcast is not unambiguous: the encoder writes it without braces, so a broadcast whose text
  starts with a destination in braces has the bytes of an addressed message, even one to the
  station itself, which the check for direct messages to oneself rejects.\<close>

theorem encode_broadcast_collision:
  "\<exists>identity a b. is_broadcast (tc_Destination a) \<and> \<not> is_broadcast (tc_Destination b) \<and>
     (\<exists>bytes. Encode None a = Inr bytes \<and> Encode None b = Inr bytes \<and>
        Encode (Some identity) a = Inr bytes \<and> Encode (Some identity) b = Inl ErrSelfDirectMessage)"
proof -
  let ?a = "\<lparr>tc_Destination = ''*'', tc_Message = ''{IU5PMP-1}x'', tc_MaxMessageRunes = 150\<rparr>"
  let ?b = "\<lparr>tc_Destination = ''IU5PMP-1'', tc_Message = ''x'', tc_MaxMessageRunes = 150\<rparr>"
  have parts: "is_broadcast ''*''" "\<not> is_broadcast ''IU5PMP-1''"
    "ValidateOutgoingText ''*'' ''{IU5PMP-1}x'' 150 = None"
    "ValidateOutgoingText ''IU5PMP-1'' ''x'' 150 = None"
    "\<not> has_separator ''{IU5PMP-1}x''" "\<not> has_separator ''x''"
    "encodeDestination None ''*'' = Inr []" "encodeDestination (Some ''IU5PMP-1'') ''*'' = Inr []"
    "encodeDestination None ''IU5PMP-1'' = Inr (braces ''IU5PMP-1'')"
    "encodeDestination (Some ''IU5PMP-1'') ''IU5PMP-1'' = Inl ErrSelfDirectMessage"
    by code_simp+
  have "Encode None ?a = Inr (''::{IU5PMP-1}x'' @ crlf)" "Encode None ?b = Inr (''::{IU5PMP-1}x'' @ crlf)"
    "Encode (Some ''IU5PMP-1'') ?a = Inr (''::{IU5PMP-1}x'' @ crlf)"
    "Encode (Some ''IU5PMP-1'') ?b = Inl ErrSelfDirectMessage"
    by (simp_all add: Encode_def parts braces_def MaxFirmwarePayloadBytes_def)
  moreover have "is_broadcast (tc_Destination ?a)" "\<not> is_broadcast (tc_Destination ?b)"
    by (simp_all add: parts)
  ultimately show ?thesis by blast
qed

end
