(* ===== verification/Queues.thy ===== *)
theory Queues
  imports Prelude
begin

text \<open>
  The two bounded channels of the program and the contract they share. internal/events gives each
  subscriber a channel of 16 events and drops the newest event when it is full; internal/udpforward
  gives each target a channel of 256 datagrams and drops the oldest. The locale bounded_queue
  states what both promise to a consumer: a bound, no reordering and no duplication, and no loss
  while there is room.
\<close>

section \<open>The contract of a bounded queue\<close>

datatype 'a queue_op = Put 'a | Take

text \<open>A run of a queue: the operations, what the consumer took, what is still queued.\<close>

fun queue_run :: "('a \<Rightarrow> 'a list \<Rightarrow> 'a list) \<Rightarrow> 'a queue_op list \<Rightarrow> 'a list \<Rightarrow> 'a list \<times> 'a list" where
  "queue_run push [] q = ([], q)"
| "queue_run push (Put x # ops) q = queue_run push ops (push x q)"
| "queue_run push (Take # ops) q =
     (case q of [] \<Rightarrow> queue_run push ops []
      | x # r \<Rightarrow> (let (taken, q') = queue_run push ops r in (x # taken, q')))"

fun puts :: "'a queue_op list \<Rightarrow> 'a list" where
  "puts [] = []"
| "puts (Put x # ops) = x # puts ops"
| "puts (Take # ops) = puts ops"

lemma puts_append [simp]: "puts (xs @ ys) = puts xs @ puts ys"
  by (induction xs rule: puts.induct) auto

locale bounded_queue =
  fixes push :: "'a \<Rightarrow> 'a list \<Rightarrow> 'a list" and cap :: nat
  assumes push_bound: "length q \<le> cap \<Longrightarrow> length (push x q) \<le> cap"
    and push_room: "length q < cap \<Longrightarrow> push x q = q @ [x]"
    and push_subseq: "subseq (push x q) (q @ [x])"
begin

lemma run_bound:
  "length q \<le> cap \<Longrightarrow> length (snd (queue_run push ops q)) \<le> cap"
proof (induction ops arbitrary: q)
  case (Cons op ops)
  from Cons.IH push_bound [OF Cons.prems] Cons.prems show ?case
    by (cases op; cases q) (auto simp: case_prod_beta Let_def)
qed simp

lemma run_order:
  "subseq (fst (queue_run push ops q) @ snd (queue_run push ops q)) (q @ puts ops)"
proof (induction ops arbitrary: q)
  case (Cons op ops)
  show ?case
  proof (cases op)
    case (Put x)
    have "subseq (push x q @ puts ops) ((q @ [x]) @ puts ops)"
      by (intro list_emb_append_mono push_subseq) simp
    with Put Cons [of "push x q"] show ?thesis by (auto intro: subseq_order.trans)
  next
    case Take
    with Cons [of "tl q"] Cons [of "[]"] show ?thesis
      by (cases q) (auto simp: case_prod_beta Let_def)
  qed
qed simp

lemma run_lossless:
  "length q + length (puts ops) \<le> cap \<Longrightarrow>
   fst (queue_run push ops q) @ snd (queue_run push ops q) = q @ puts ops"
proof (induction ops arbitrary: q)
  case (Cons op ops)
  show ?case
  proof (cases op)
    case (Put x)
    with Cons.IH [of "push x q"] Cons.prems show ?thesis by (simp add: push_room)
  next
    case Take
    with Cons.IH [of "tl q"] Cons.IH [of "[]"] Cons.prems show ?thesis
      by (cases q) (auto simp: case_prod_beta Let_def)
  qed
qed simp

end

section \<open>The event bus\<close>

definition bus_cap :: nat where
  "bus_cap = 16"

record 'd event =
  ev_Type :: string
  ev_Data :: 'd

text \<open>
  A subscription: the channel's buffer, whether it is closed, whether it is in the bus's map, and
  whether its goroutine still waits for the subscriber's context. A bus is the list of the
  subscriptions made so far, and channel number i is the i-th one.
\<close>

record 'd subscription =
  sub_buf :: "'d event list"
  sub_closed :: bool
  sub_member :: bool
  sub_waiting :: bool

type_synonym 'd bus = "'d subscription list"

text \<open>A non-blocking send: dropped when the buffer is full.\<close>

definition try_send :: "nat \<Rightarrow> 'a \<Rightarrow> 'a list \<Rightarrow> 'a list" where
  "try_send cap x q = (if length q < cap then q @ [x] else q)"

interpretation send: bounded_queue "try_send cap" cap for cap
  by unfold_locales (auto simp: try_send_def)

definition NewBus :: "'d bus" where
  "NewBus = []"

text \<open>Publish panics (None) if it sends on a closed channel.\<close>

definition Publish :: "'d event \<Rightarrow> 'd bus \<Rightarrow> 'd bus option" where
  "Publish e b =
     (if \<exists>s \<in> set b. sub_member s \<and> sub_closed s then None
      else Some (map (\<lambda>s. if sub_member s then s\<lparr>sub_buf := try_send bus_cap e (sub_buf s)\<rparr> else s) b))"

definition Subscribe :: "'d bus \<Rightarrow> nat \<times> 'd bus" where
  "Subscribe b = (length b, b @ [\<lparr>sub_buf = [], sub_closed = False, sub_member = True, sub_waiting = True\<rparr>])"

text \<open>The goroutine of Subscribe once the context is done; closing a closed channel panics.\<close>

definition unsubscribe :: "nat \<Rightarrow> 'd bus \<Rightarrow> 'd bus option" where
  "unsubscribe i b =
     (if \<not> (i < length b \<and> sub_waiting (b ! i)) then Some b
      else if sub_closed (b ! i) then None
      else Some (b[i := (b ! i)\<lparr>sub_member := False, sub_closed := True, sub_waiting := False\<rparr>]))"

text \<open>The consumer's receive on channel i: the event it gets, if one is buffered.\<close>

definition receive :: "nat \<Rightarrow> 'd bus \<Rightarrow> 'd event option \<times> 'd bus" where
  "receive i b =
     (if i < length b then
        (case sub_buf (b ! i) of [] \<Rightarrow> (None, b)
         | e # r \<Rightarrow> (Some e, b[i := (b ! i)\<lparr>sub_buf := r\<rparr>]))
      else (None, b))"

datatype 'd bus_op = OpPublish "'d event" | OpSubscribe | OpDone nat | OpReceive nat

fun bus_step :: "'d bus_op \<Rightarrow> 'd bus \<Rightarrow> 'd bus option" where
  "bus_step (OpPublish e) b = Publish e b"
| "bus_step OpSubscribe b = Some (snd (Subscribe b))"
| "bus_step (OpDone i) b = unsubscribe i b"
| "bus_step (OpReceive i) b = Some (snd (receive i b))"

fun bus_run :: "'d bus_op list \<Rightarrow> 'd bus \<Rightarrow> 'd bus option" where
  "bus_run [] b = Some b"
| "bus_run (op # ops) b = (case bus_step op b of None \<Rightarrow> None | Some b' \<Rightarrow> bus_run ops b')"

text \<open>What consumer i received during a run, and what was published while i was subscribed.\<close>

fun received :: "nat \<Rightarrow> 'd bus_op list \<Rightarrow> 'd bus \<Rightarrow> 'd event list" where
  "received i [] b = []"
| "received i (op # ops) b =
     (case bus_step op b of None \<Rightarrow> []
      | Some b' \<Rightarrow> (case op of OpReceive j \<Rightarrow>
            (if j = i then (case fst (receive i b) of None \<Rightarrow> [] | Some e \<Rightarrow> [e]) else [])
          | _ \<Rightarrow> []) @ received i ops b')"

fun published :: "nat \<Rightarrow> 'd bus_op list \<Rightarrow> 'd bus \<Rightarrow> 'd event list" where
  "published i [] b = []"
| "published i (op # ops) b =
     (case bus_step op b of None \<Rightarrow> []
      | Some b' \<Rightarrow> (case op of OpPublish e \<Rightarrow> if i < length b \<and> sub_member (b ! i) then [e] else []
          | _ \<Rightarrow> []) @ published i ops b')"

text \<open>A subscription is in the map exactly while its goroutine waits and its channel is open.\<close>

definition sub_ok :: "'d subscription \<Rightarrow> bool" where
  "sub_ok s \<longleftrightarrow> sub_member s = sub_waiting s \<and> sub_closed s = (\<not> sub_waiting s)
     \<and> length (sub_buf s) \<le> bus_cap"

definition bus_inv :: "'d bus \<Rightarrow> bool" where
  "bus_inv b \<longleftrightarrow> list_all sub_ok b"

lemma bus_inv_nth: "bus_inv b \<Longrightarrow> i < length b \<Longrightarrow> sub_ok (b ! i)"
  by (simp add: bus_inv_def list_all_length)

lemma bus_step_inv:
  assumes "bus_inv b"
  obtains b' where "bus_step op b = Some b'" "bus_inv b'" "length b \<le> length b'"
proof (cases op)
  case (OpPublish e)
  have "\<not> (\<exists>s \<in> set b. sub_member s \<and> sub_closed s)"
    using assms by (auto simp: bus_inv_def list_all_iff sub_ok_def)
  moreover have "list_all sub_ok (map (\<lambda>s. if sub_member s
      then s\<lparr>sub_buf := try_send bus_cap e (sub_buf s)\<rparr> else s) b)"
    using assms by (auto simp: bus_inv_def list_all_iff sub_ok_def send.push_bound)
  ultimately show thesis using OpPublish by (intro that) (auto simp: Publish_def bus_inv_def)
next
  case OpSubscribe
  then show thesis using assms
    by (intro that [of "snd (Subscribe b)"]) (auto simp: Subscribe_def bus_inv_def sub_ok_def)
next
  case (OpDone i)
  show thesis
  proof (cases "i < length b \<and> sub_waiting (b ! i)")
    case True
    with bus_inv_nth [OF assms, of i] have "\<not> sub_closed (b ! i)" by (simp add: sub_ok_def)
    moreover have "list_all sub_ok (b[i := (b ! i)\<lparr>sub_member := False, sub_closed := True,
        sub_waiting := False\<rparr>])"
      using assms bus_inv_nth [OF assms, of i] True
      by (auto simp: bus_inv_def list_all_length nth_list_update sub_ok_def)
    ultimately show thesis using OpDone True
      by (intro that) (auto simp: unsubscribe_def bus_inv_def)
  next
    case False
    with OpDone show thesis using assms by (intro that) (auto simp: unsubscribe_def)
  qed
next
  case (OpReceive i)
  have "bus_inv (snd (receive i b))"
    using assms bus_inv_nth [OF assms, of i]
    by (auto simp: receive_def bus_inv_def list_all_length nth_list_update sub_ok_def
        split: list.splits)
  with OpReceive show thesis
    by (intro that) (auto simp: receive_def split: list.splits)
qed

lemma bus_run_inv:
  "bus_inv b \<Longrightarrow> \<exists>b'. bus_run ops b = Some b' \<and> bus_inv b' \<and> length b \<le> length b'"
proof (induction ops arbitrary: b)
  case (Cons op ops)
  obtain b1 where "bus_step op b = Some b1" "bus_inv b1" "length b \<le> length b1"
    using Cons.prems by (rule bus_step_inv)
  with Cons.IH [of b1] show ?case by auto
qed simp

text \<open>Each subscription of a running bus is a run of the bounded queue.\<close>

fun queue_view :: "nat \<Rightarrow> 'd bus_op list \<Rightarrow> 'd bus \<Rightarrow> 'd event queue_op list" where
  "queue_view i [] b = []"
| "queue_view i (op # ops) b =
     (case bus_step op b of None \<Rightarrow> []
      | Some b' \<Rightarrow> (case op of
            OpPublish e \<Rightarrow> if sub_member (b ! i) then [Put e] else []
          | OpReceive j \<Rightarrow> if j = i then [Take] else []
          | _ \<Rightarrow> []) @ queue_view i ops b')"

lemma queue_view_puts: "i < length b \<Longrightarrow> bus_inv b \<Longrightarrow> puts (queue_view i ops b) = published i ops b"
proof (induction ops arbitrary: b)
  case (Cons op ops)
  obtain b' where "bus_step op b = Some b'" "bus_inv b'" "length b \<le> length b'"
    using Cons.prems(2) by (rule bus_step_inv)
  with Cons show ?case by (auto split: bus_op.splits)
qed simp

lemma bus_is_queue:
  assumes "bus_inv b" and "i < length b" and "bus_run ops b = Some b'"
  shows "queue_run (try_send bus_cap) (queue_view i ops b) (sub_buf (b ! i))
    = (received i ops b, sub_buf (b' ! i))"
  using assms
proof (induction ops arbitrary: b)
  case (Cons op ops)
  obtain b1 where b1: "bus_step op b = Some b1" "bus_inv b1" "length b \<le> length b1"
    using Cons.prems(1) by (rule bus_step_inv)
  have IH: "queue_run (try_send bus_cap) (queue_view i ops b1) (sub_buf (b1 ! i))
    = (received i ops b1, sub_buf (b' ! i))"
    using Cons b1 by auto
  show ?case
  proof (cases op)
    case (OpPublish e)
    with b1(1) Cons.prems(2) have "sub_buf (b1 ! i)
        = (if sub_member (b ! i) then try_send bus_cap e (sub_buf (b ! i)) else sub_buf (b ! i))"
      by (auto simp: Publish_def split: if_splits)
    with OpPublish b1(1) IH show ?thesis by auto
  next
    case OpSubscribe
    with b1(1) Cons.prems(2) have "sub_buf (b1 ! i) = sub_buf (b ! i)"
      by (auto simp: Subscribe_def nth_append)
    with OpSubscribe b1(1) IH show ?thesis by auto
  next
    case (OpDone j)
    with b1(1) Cons.prems(2) have "sub_buf (b1 ! i) = sub_buf (b ! i)"
      by (auto simp: unsubscribe_def nth_list_update split: if_splits)
    with OpDone b1(1) IH show ?thesis by auto
  next
    case (OpReceive j)
    with b1(1) Cons.prems(2) IH show ?thesis
      by (auto simp: receive_def nth_list_update split: list.splits if_splits)
  qed
qed simp

section \<open>The UDP forwarder\<close>

definition workerChannelCap :: nat where
  "workerChannelCap = 256"

text \<open>
  Forward on one target. Between its three non-blocking steps the target's goroutine may take
  datagrams from the channel; n1 and n2 say how many it takes after the first and the second step.
\<close>

definition forward_one :: "nat \<Rightarrow> nat \<Rightarrow> 'a \<Rightarrow> 'a list \<Rightarrow> 'a list" where
  "forward_one n1 n2 cp ch =
     (if length ch < workerChannelCap then ch @ [cp]
      else try_send workerChannelCap cp (drop n2 (tl (drop n1 ch))))"

definition Forward :: "'a \<Rightarrow> 'a list list \<Rightarrow> 'a list list" where
  "Forward data workers = (if workers = [] then workers else map (forward_one 0 0 data) workers)"

interpretation fwd: bounded_queue "forward_one 0 0" workerChannelCap
proof
  fix q :: "'a list" and x
  show "subseq (forward_one 0 0 x q) (q @ [x])"
    by (cases q) (auto simp: forward_one_def try_send_def)
qed (auto simp: forward_one_def try_send_def workerChannelCap_def)

lemma forward_enqueues:
  assumes "length ch \<le> workerChannelCap"
  shows "\<exists>kept. forward_one n1 n2 cp ch = kept @ [cp] \<and> suffix kept ch
    \<and> length (forward_one n1 n2 cp ch) \<le> workerChannelCap"
proof (cases "length ch < workerChannelCap")
  case False
  let ?k = "drop n2 (tl (drop n1 ch))"
  have "length ?k < workerChannelCap" using assms by (simp add: workerChannelCap_def)
  moreover have "suffix ?k ch"
    by (metis drop_Suc drop_drop suffix_drop tl_drop)
  ultimately show ?thesis using False by (auto simp: forward_one_def try_send_def)
qed (auto simp: forward_one_def)

section \<open>Properties\<close>

lemma NewBus_inv: "bus_inv NewBus"
  by (simp add: bus_inv_def NewBus_def)

text \<open>C17: The event bus never panics (no send on a closed channel, no double close), whatever the order in
  which publishers, subscribers, cancellations and consumers act. From any state it reaches, each
  subscriber holds at most 16 events; what it receives and still has buffered is a subsequence of
  what was published to it, in order and without duplicates; and nothing is lost while the events
  published fit its buffer.\<close>

theorem bus_delivery:
  "\<exists>b. bus_run pre NewBus = Some b \<and>
     (\<forall>i < length b. \<exists>b'. bus_run ops b = Some b' \<and>
        length (sub_buf (b' ! i)) \<le> bus_cap \<and>
        subseq (received i ops b @ sub_buf (b' ! i)) (sub_buf (b ! i) @ published i ops b) \<and>
        (length (sub_buf (b ! i)) + length (published i ops b) \<le> bus_cap \<longrightarrow>
           received i ops b @ sub_buf (b' ! i) = sub_buf (b ! i) @ published i ops b))"
proof -
  obtain b where b: "bus_run pre NewBus = Some b" "bus_inv b"
    using bus_run_inv [OF NewBus_inv] by blast
  obtain b' where b': "bus_run ops b = Some b'" "bus_inv b'" "length b \<le> length b'"
    using bus_run_inv [OF b(2)] by blast
  have "length (sub_buf (b' ! i)) \<le> bus_cap \<and>
        subseq (received i ops b @ sub_buf (b' ! i)) (sub_buf (b ! i) @ published i ops b) \<and>
        (length (sub_buf (b ! i)) + length (published i ops b) \<le> bus_cap \<longrightarrow>
           received i ops b @ sub_buf (b' ! i) = sub_buf (b ! i) @ published i ops b)"
    if i: "i < length b" for i
    using bus_is_queue [OF b(2) i b'(1)] queue_view_puts [OF i b(2), of ops]
      send.run_order [of bus_cap "queue_view i ops b" "sub_buf (b ! i)"]
      send.run_lossless [of "sub_buf (b ! i)" "queue_view i ops b" bus_cap]
      bus_inv_nth [OF b'(2), of i] i b'(3)
    by (auto simp: sub_ok_def)
  with b b' show ?thesis by blast
qed

definition example_event :: "nat event" where
  "example_event = \<lparr>ev_Type = ''x'', ev_Data = 7\<rparr>"

theorem bus_delivery_witness:
  "\<exists>b b'. bus_run [OpSubscribe, OpPublish example_event] NewBus = Some b \<and>
     bus_run [OpReceive 0] b = Some b' \<and> length (sub_buf (b' ! 0)) \<le> bus_cap \<and>
     received 0 [OpReceive 0] b = [example_event]"
proof -
  obtain b where b: "bus_run [OpSubscribe, OpPublish example_event] NewBus = Some b"
    and all: "\<forall>i < length b. \<exists>b'. bus_run [OpReceive 0] b = Some b' \<and>
        length (sub_buf (b' ! i)) \<le> bus_cap \<and>
        subseq (received i [OpReceive 0] b @ sub_buf (b' ! i))
          (sub_buf (b ! i) @ published i [OpReceive 0] b) \<and>
        (length (sub_buf (b ! i)) + length (published i [OpReceive 0] b) \<le> bus_cap \<longrightarrow>
           received i [OpReceive 0] b @ sub_buf (b' ! i)
             = sub_buf (b ! i) @ published i [OpReceive 0] b)"
    using bus_delivery [of "[OpSubscribe, OpPublish example_event]" "[OpReceive 0]"] by auto
  from b have v: "b = [\<lparr>sub_buf = [example_event], sub_closed = False, sub_member = True,
      sub_waiting = True\<rparr>]"
    by (simp add: NewBus_def Subscribe_def Publish_def try_send_def bus_cap_def)
  then have "0 < length b" "received 0 [OpReceive 0] b = [example_event]"
    by (simp_all add: receive_def)
  with b all show ?thesis by blast
qed

text \<open>Forwarding a datagram never blocks and never loses it: even when the target's goroutine takes
  datagrams between the steps of Forward, the new datagram ends up last in the channel, behind a
  suffix of what was queued (the oldest are dropped), within the channel's 256 places.\<close>

theorem forward_keeps_newest:
  assumes "length ch \<le> workerChannelCap"
  shows "\<exists>kept. forward_one n1 n2 cp ch = kept @ [cp] \<and> suffix kept ch
    \<and> length (forward_one n1 n2 cp ch) \<le> workerChannelCap"
  using assms by (rule forward_enqueues)

theorem forward_keeps_newest_witness:
  "\<exists>kept. forward_one 1 0 7 (replicate 256 (3::nat)) = kept @ [7] \<and> suffix kept (replicate 256 3)
    \<and> length (forward_one 1 0 7 (replicate 256 (3::nat))) \<le> workerChannelCap"
  by (rule forward_keeps_newest) (simp add: workerChannelCap_def)

text \<open>A forwarding target receives the datagrams in the order they came, each at most once, and all of
  them while no more than 256 are outstanding.\<close>

theorem forward_delivery:
  fixes ops :: "'a queue_op list"
  defines "run \<equiv> queue_run (forward_one 0 0) ops []"
  shows "subseq (fst run @ snd run) (puts ops) \<and> length (snd run) \<le> workerChannelCap \<and>
    (length (puts ops) \<le> workerChannelCap \<longrightarrow> fst run @ snd run = puts ops)"
  using fwd.run_order [of ops "[]"] fwd.run_bound [of "[]" ops] fwd.run_lossless [of "[]" ops]
  by (simp add: run_def)

theorem forward_delivery_witness:
  "fst (queue_run (forward_one 0 0) [Put (1::nat), Put 2, Take] [])
     @ snd (queue_run (forward_one 0 0) [Put (1::nat), Put 2, Take] []) = [1, 2]"
  using forward_delivery [of "[Put (1::nat), Put 2, Take]"] by (simp add: workerChannelCap_def)

end
