(* ===== verification/Timestamps.thy ===== *)
theory Timestamps
  imports Prelude "HOL-Library.List_Lexorder" "HOL-Library.Char_ord"
begin

text \<open>
  What the program uses of Go's package time: the civil date of an instant, the layouts
  time.RFC3339Nano and "20060102150405" in UTC, Sub with its saturation, and Truncate to the hour
  as Unix seconds. Instants count nanoseconds from 1 January of year 1 and the layouts are meant
  for years 1 to 9999. SQLite compares the timestamp columns as TEXT, byte by byte: sqltext is
  such a value, with that order.
\<close>

section \<open>Instants and durations\<close>

abbreviation second :: int where "second \<equiv> 1000000000"
abbreviation minute :: int where "minute \<equiv> 60 * second"
abbreviation hour :: int where "hour \<equiv> 60 * minute"

definition unix_epoch :: int where
  "unix_epoch = 62135596800"

text \<open>t.Unix(), in seconds.\<close>

definition unix :: "gotime \<Rightarrow> int" where
  "unix t = t div second - unix_epoch"

text \<open>t.Sub(u): the difference, saturated to 64 bits.\<close>

definition time_sub :: "gotime \<Rightarrow> gotime \<Rightarrow> duration" where
  "time_sub t u = max min_int64 (min max_int64 (t - u))"

section \<open>Civil dates\<close>

text \<open>Year, month and day of a day number, counted from 1 January of year 1.\<close>

definition year_of_era :: "int \<Rightarrow> int" where
  "year_of_era doe = (doe - doe div 1460 + doe div 36524 - doe div 146096) div 365"

definition day_of_year :: "int \<Rightarrow> int \<Rightarrow> int" where
  "day_of_year doe yoe = doe - (365 * yoe + yoe div 4 - yoe div 100)"

definition month_day :: "int \<Rightarrow> int \<times> int" where
  "month_day doy = (let mp = (5 * doy + 2) div 153 in
     (if mp < 10 then mp + 3 else mp - 9, doy - (153 * mp + 2) div 5 + 1))"

definition civil_in_era :: "int \<Rightarrow> int \<Rightarrow> int \<times> int \<times> int" where
  "civil_in_era era doe =
     (let yoe = year_of_era doe; (m, d) = month_day (day_of_year doe yoe) in
      (yoe + era * 400 + (if m \<le> 2 then 1 else 0), m, d))"

definition civil :: "int \<Rightarrow> int \<times> int \<times> int" where
  "civil days = civil_in_era ((days + 306) div 146097) ((days + 306) mod 146097)"

lemmas civil_defs = civil_def civil_in_era_def year_of_era_def day_of_year_def month_day_def

lemma civil_examples:
  "civil 0 = (1, 1, 1)" "civil 719162 = (1970, 1, 1)" "civil 730178 = (2000, 2, 29)"
  "civil 739615 = (2025, 12, 31)"
  by (simp_all add: civil_defs)

definition pad :: "nat \<Rightarrow> int \<Rightarrow> string" where
  "pad w n = (let s = itoa_int n in replicate (w - length s) (CHR ''0'') @ s)"

text \<open>The fraction of a second: no trailing zeros, nothing at all for a whole second.\<close>

definition frac :: "int \<Rightarrow> string" where
  "frac ns =
     (if ns = 0 then []
      else CHR ''.'' # rev (dropWhile (\<lambda>c. c = CHR ''0'') (rev (pad 9 ns))))"

definition date_text :: "int \<Rightarrow> string" where
  "date_text days = (let (y, m, d) = civil days in pad 4 y @ ''-'' @ pad 2 m @ ''-'' @ pad 2 d)"

definition clock_text :: "int \<Rightarrow> string" where
  "clock_text s = pad 2 (s div 3600) @ '':'' @ pad 2 (s div 60 mod 60) @ '':'' @ pad 2 (s mod 60)"

definition second_text :: "int \<Rightarrow> string" where
  "second_text s = date_text (s div 86400) @ ''T'' @ clock_text (s mod 86400)"

definition rfc3339nano :: "gotime \<Rightarrow> string" where
  "rfc3339nano t = second_text (t div second) @ frac (t mod second) @ ''Z''"

text \<open>The layout "20060102150405".\<close>

definition compact_date :: "int \<Rightarrow> string" where
  "compact_date days = (let (y, m, d) = civil days in pad 4 y @ pad 2 m @ pad 2 d)"

definition compact_clock :: "int \<Rightarrow> string" where
  "compact_clock s = pad 2 (s div 3600) @ pad 2 (s div 60 mod 60) @ pad 2 (s mod 60)"

definition compact_second :: "int \<Rightarrow> string" where
  "compact_second s = compact_date (s div 86400) @ compact_clock (s mod 86400)"

definition compact_stamp :: "gotime \<Rightarrow> string" where
  "compact_stamp t = compact_second (t div second)"

lemmas layout_defs = rfc3339nano_def compact_stamp_def compact_second_def compact_date_def
  compact_clock_def second_text_def date_text_def clock_text_def pad_def frac_def itoa_int_def
  unix_epoch_def civil_defs

lemma replicate_small: "replicate 3 x = [x, x, x]" "replicate 2 x = [x, x]"
  by (simp_all add: numeral_eq_Suc)

lemma rfc3339nano_examples:
  "rfc3339nano 0 = ''0001-01-01T00:00:00Z''"
  "rfc3339nano ((unix_epoch + 1767225599) * second + 500000000) = ''2025-12-31T23:59:59.5Z''"
  "compact_stamp ((unix_epoch + 1767225599) * second) = ''20251231235959''"
  by (simp_all add: layout_defs gostr_simps replicate_small)

section \<open>Timestamp columns\<close>

datatype sqltext = SqlText (sql_text: string)

instantiation sqltext :: linorder
begin

definition less_eq_sqltext :: "sqltext \<Rightarrow> sqltext \<Rightarrow> bool" where
  "a \<le> b \<longleftrightarrow> sql_text a \<le> sql_text b"

definition less_sqltext :: "sqltext \<Rightarrow> sqltext \<Rightarrow> bool" where
  "a < b \<longleftrightarrow> sql_text a < sql_text b"

instance
  by standard (auto simp: less_eq_sqltext_def less_sqltext_def sqltext.expand)

end

definition time_column :: "gotime \<Rightarrow> sqltext" where
  "time_column t = SqlText (rfc3339nano t)"

lemma time_column_le: "time_column t \<le> time_column u \<longleftrightarrow> rfc3339nano t \<le> rfc3339nano u"
  by (simp add: time_column_def less_eq_sqltext_def)

lemma append_le_same_prefix: "(xs @ ys \<le> xs @ zs) = (ys \<le> (zs :: 'a :: order list))"
  by (induction xs) auto

text \<open>Two instants of one second compare as their fractions, a whole second as a bare Z.\<close>

lemma time_column_same_second:
  "t div second = u div second \<Longrightarrow>
   time_column t \<le> time_column u \<longleftrightarrow> frac (t mod second) @ ''Z'' \<le> frac (u mod second) @ ''Z''"
  by (simp add: time_column_le rfc3339nano_def append_le_same_prefix)

lemma frac_first: "ns \<noteq> 0 \<Longrightarrow> \<exists>r. frac ns = CHR ''.'' # r"
  by (simp add: frac_def)

lemma text_after_second:
  assumes "t div second = u div second" "t mod second = 0" "u mod second \<noteq> 0"
  shows "time_column u < time_column t"
proof -
  obtain r where "frac (u mod second) = CHR ''.'' # r" using assms(3) frac_first by blast
  then have "\<not> time_column t \<le> time_column u"
    using assms(1,2) by (simp add: time_column_same_second frac_def less_char_def)
  then show ?thesis by simp
qed

text \<open>So the texts of one second do not sort chronologically.\<close>

lemma time_column_not_chronological:
  assumes "t mod second = 0" and "0 < d" and "d < second"
  shows "t < t + d \<and> time_column (t + d) < time_column t"
proof -
  obtain q where q: "t = second * q" using assms(1) by (metis mod_0_imp_dvd dvdE)
  have "(second * q + d) mod second = d" "(second * q + d) div second = q"
    using assms(2,3) by (simp_all add: div_add1_eq)
  then show ?thesis using q assms(2) by (intro conjI) (simp, intro text_after_second, simp_all)
qed

end
