(* ===== verification/Outbox.thy ===== *)
theory Outbox
  imports Timestamps
begin

text \<open>
  The package internal/outbox: messages sent to the node wait for their echo. Register adds one,
  Confirm matches an echo, Cancel withdraws one, expire is the timer's callback. Go maps are
  finite maps here; the order in which Confirm ranges over the pending map is its parameter. A
  timer that fires after Stop calls expire all the same, so expire is a step that may happen at
  any time with any id.
\<close>

section \<open>State\<close>

record pending_message =
  pm_ID :: string
  pm_Source :: string
  pm_Destination :: string
  pm_Message :: string
  pm_CreatedAt :: gotime

definition pm_zero :: pending_message where
  "pm_zero = \<lparr>pm_ID = [], pm_Source = [], pm_Destination = [], pm_Message = [], pm_CreatedAt = 0\<rparr>"

record outbox =
  ob_ttl :: duration
  ob_notify :: bool
  ob_nextID :: int
  ob_pending :: "string \<rightharpoonup> pending_message"
  ob_byKey :: "string \<rightharpoonup> string list"
  ob_timers :: "string set"

definition new_outbox :: "duration \<Rightarrow> bool \<Rightarrow> outbox" where
  "new_outbox ttl notify = \<lparr>ob_ttl = ttl, ob_notify = notify, ob_nextID = 0,
     ob_pending = Map.empty, ob_byKey = Map.empty, ob_timers = {}\<rparr>"

section \<open>Helpers\<close>

definition stringID :: "int \<Rightarrow> string" where
  "stringID i = (if i = 0 then ''0'' else if 0 < i then itoa (nat i) else [])"

definition matchKey :: "string \<Rightarrow> string \<Rightarrow> string \<Rightarrow> string" where
  "matchKey source destination message =
     to_upper (trim_space source) @ [CHR 0x00] @ trim_space destination @ [CHR 0x00] @ message"

abbreviation pm_key :: "pending_message \<Rightarrow> string" where
  "pm_key p \<equiv> matchKey (pm_Source p) (pm_Destination p) (pm_Message p)"

definition messageMatches :: "string \<Rightarrow> string \<Rightarrow> bool" where
  "messageMatches sent observed =
     (if observed = sent then True
      else if \<not> prefix (sent @ ''{'') observed then False
      else (let s = trim_suffix ''}'' (drop (length sent + 1) observed) in
            s \<noteq> [] \<and> list_all is_digit s))"

fun removeID :: "string list \<Rightarrow> string \<Rightarrow> string list" where
  "removeID [] target = []"
| "removeID (i # ids) target = (if i = target then ids else i # removeID ids target)"

definition ids_of :: "(string \<rightharpoonup> string list) \<Rightarrow> string \<Rightarrow> string list" where
  "ids_of m key = (case m key of None \<Rightarrow> [] | Some ids \<Rightarrow> ids)"

definition put_ids :: "(string \<rightharpoonup> string list) \<Rightarrow> string \<Rightarrow> string list \<Rightarrow> (string \<rightharpoonup> string list)" where
  "put_ids m key ids = (if ids = [] then m(key := None) else m(key \<mapsto> ids))"

section \<open>Operations\<close>

text \<open>wall is time.Now() when the ID is built, now the caller's creation time.\<close>

definition new_pending :: "int \<Rightarrow> gotime \<Rightarrow> string \<Rightarrow> string \<Rightarrow> string \<Rightarrow> gotime \<Rightarrow> pending_message" where
  "new_pending n wall source destination message now =
     \<lparr>pm_ID = compact_stamp wall @ ''-'' @ trim_space source @ ''-'' @ stringID n,
      pm_Source = to_upper (trim_space source), pm_Destination = trim_space destination,
      pm_Message = message, pm_CreatedAt = now\<rparr>"

definition Register ::
  "gotime \<Rightarrow> string \<Rightarrow> string \<Rightarrow> string \<Rightarrow> gotime \<Rightarrow> outbox \<Rightarrow> outbox \<times> pending_message" where
  "Register wall source destination message now ob =
     (let n = wrap64 (ob_nextID ob + 1);
          p = new_pending n wall source destination message now in
      (ob\<lparr>ob_nextID := n,
          ob_pending := (ob_pending ob)(pm_ID p \<mapsto> p),
          ob_byKey := (ob_byKey ob)(pm_key p \<mapsto> ids_of (ob_byKey ob) (pm_key p) @ [pm_ID p]),
          ob_timers := (if ob_ttl ob > 0 then insert (pm_ID p) (ob_timers ob) else ob_timers ob)\<rparr>,
       p))"

definition removeLocked :: "pending_message \<Rightarrow> outbox \<Rightarrow> outbox" where
  "removeLocked p ob =
     ob\<lparr>ob_pending := (ob_pending ob)(pm_ID p := None),
        ob_timers := ob_timers ob - {pm_ID p},
        ob_byKey := put_ids (ob_byKey ob) (pm_key p) (removeID (ids_of (ob_byKey ob) (pm_key p)) (pm_ID p))\<rparr>"

text \<open>The first loop of Confirm: the first id of the key that is still pending.\<close>

fun confirm_exact :: "string \<Rightarrow> string list \<Rightarrow> outbox \<Rightarrow> (outbox \<times> pending_message) option" where
  "confirm_exact key [] ob = None"
| "confirm_exact key (i # ids) ob =
     (case ob_pending ob i of None \<Rightarrow> confirm_exact key ids ob
      | Some p \<Rightarrow>
          Some (ob\<lparr>ob_pending := (ob_pending ob)(i := None), ob_timers := ob_timers ob - {i},
                   ob_byKey := put_ids (ob_byKey ob) key ids\<rparr>, p))"

text \<open>The second loop: the oldest pending message whose text the echo extends.\<close>

definition consider_match ::
  "string \<Rightarrow> string \<Rightarrow> string \<Rightarrow> outbox \<Rightarrow> string \<Rightarrow> pending_message \<Rightarrow> pending_message" where
  "consider_match origin destination message ob i matched =
     (case ob_pending ob i of None \<Rightarrow> matched
      | Some p \<Rightarrow>
          if pm_Source p \<noteq> origin then matched
          else if pm_Destination p \<noteq> trim_space destination then matched
          else if \<not> messageMatches (pm_Message p) message then matched
          else if pm_ID matched = [] \<or> pm_CreatedAt p < pm_CreatedAt matched then p else matched)"

definition find_match ::
  "string list \<Rightarrow> string \<Rightarrow> string \<Rightarrow> string \<Rightarrow> outbox \<Rightarrow> pending_message" where
  "find_match order origin destination message ob =
     fold (consider_match origin destination message ob) order pm_zero"

definition echo_origin :: "string \<Rightarrow> string" where
  "echo_origin source = to_upper (trim_space (before CHR '','' source))"

definition Confirm ::
  "string list \<Rightarrow> string \<Rightarrow> string \<Rightarrow> string \<Rightarrow> outbox \<Rightarrow> outbox \<times> pending_message \<times> bool" where
  "Confirm order source destination message ob =
     (let origin = echo_origin source;
          key = matchKey origin (trim_space destination) message in
      case confirm_exact key (ids_of (ob_byKey ob) key) ob of
        Some (ob', p) \<Rightarrow> if pm_ID p = [] then (ob', pm_zero, False) else (ob', p, True)
      | None \<Rightarrow>
          (let ob1 = ob\<lparr>ob_byKey := (ob_byKey ob)(key := None)\<rparr>;
               matched = find_match order origin destination message ob1 in
           if pm_ID matched = [] then (ob1, pm_zero, False)
           else (removeLocked matched ob1, matched, True)))"

definition Cancel :: "string \<Rightarrow> outbox \<Rightarrow> outbox \<times> bool" where
  "Cancel i ob =
     (if i = [] then (ob, False)
      else (case ob_pending ob i of None \<Rightarrow> (ob, False) | Some p \<Rightarrow> (removeLocked p ob, True)))"

text \<open>The timer's callback: the message handed to onFailure, when one is set.\<close>

definition expire :: "string \<Rightarrow> outbox \<Rightarrow> outbox \<times> pending_message option" where
  "expire i ob =
     (case ob_pending ob i of None \<Rightarrow> (ob, None)
      | Some p \<Rightarrow>
          (ob\<lparr>ob_pending := (ob_pending ob)(i := None), ob_timers := ob_timers ob - {i},
              ob_byKey := put_ids (ob_byKey ob) (pm_key p) (removeID (ids_of (ob_byKey ob) (pm_key p)) i)\<rparr>,
           if ob_notify ob then Some p else None))"

section \<open>Ids\<close>

text \<open>The sequence number at the end of an id.\<close>

definition id_seq :: "string \<Rightarrow> nat" where
  "id_seq i = dec_val (rev (before CHR ''-'' (rev i)))"

lemma stringID_pos: "0 < n \<Longrightarrow> stringID n = itoa (nat n)"
  by (simp add: stringID_def)

lemma id_seq_new: "0 < n \<Longrightarrow> id_seq (pm_ID (new_pending n w s d m t)) = nat n"
proof -
  assume n: "0 < n"
  have "CHR ''-'' \<notin> set (rev (itoa (nat n)))"
    using set_itoa [of "CHR ''-''" "nat n"] by (auto simp: is_digit_def)
  then have "before CHR ''-'' (rev (itoa (nat n)) @ CHR ''-'' # rev (compact_stamp w @ ''-'' @ trim_space s))
      = rev (itoa (nat n))"
    by (rule before_sep)
  with n show ?thesis by (simp add: id_seq_def new_pending_def stringID_pos)
qed

lemma new_pending_ID_not_nil [simp]: "pm_ID (new_pending n w s d m t) \<noteq> []"
  by (simp add: new_pending_def)

lemma removeID_remove1: "removeID ids i = remove1 i ids"
  by (induction ids) auto

section \<open>The invariant\<close>

text \<open>
  Every pending message is listed once under its key, in the order of registration; the key map
  lists nothing else and holds no empty list; live timers belong to pending messages; sequence
  numbers are fresh.
\<close>

definition pending_ok :: "outbox \<Rightarrow> bool" where
  "pending_ok ob \<longleftrightarrow> finite (dom (ob_pending ob)) \<and> 0 \<le> ob_nextID ob \<and>
     (\<forall>i p. ob_pending ob i = Some p \<longrightarrow> pm_ID p = i \<and> i \<noteq> [] \<and> 0 < id_seq i
        \<and> int (id_seq i) \<le> ob_nextID ob \<and> i \<in> set (ids_of (ob_byKey ob) (pm_key p)))"

definition keys_ok :: "outbox \<Rightarrow> bool" where
  "keys_ok ob \<longleftrightarrow> (\<forall>key ids. ob_byKey ob key = Some ids \<longrightarrow> ids \<noteq> [] \<and>
     sorted_wrt (\<lambda>i j. id_seq i < id_seq j) ids \<and>
     (\<forall>i \<in> set ids. \<exists>p. ob_pending ob i = Some p \<and> pm_key p = key))"

definition outbox_inv :: "outbox \<Rightarrow> bool" where
  "outbox_inv ob \<longleftrightarrow> pending_ok ob \<and> keys_ok ob \<and> ob_timers ob \<subseteq> dom (ob_pending ob)"

lemma new_outbox_inv: "outbox_inv (new_outbox ttl notify)"
  by (simp add: outbox_inv_def pending_ok_def keys_ok_def new_outbox_def)

lemma pending_okD:
  assumes "outbox_inv ob" and "ob_pending ob i = Some p"
  shows "pm_ID p = i" "i \<noteq> []" "0 < id_seq i" "int (id_seq i) \<le> ob_nextID ob"
    "i \<in> set (ids_of (ob_byKey ob) (pm_key p))"
  using assms by (auto simp: outbox_inv_def pending_ok_def)

lemma keys_okD:
  assumes "outbox_inv ob" and "ob_byKey ob key = Some ids"
  shows "ids \<noteq> []" "sorted_wrt (\<lambda>i j. id_seq i < id_seq j) ids"
    "i \<in> set ids \<Longrightarrow> \<exists>p. ob_pending ob i = Some p \<and> pm_key p = key"
  using assms by (auto simp: outbox_inv_def keys_ok_def)

lemma ids_of_inv:
  assumes "outbox_inv ob"
  shows "sorted_wrt (\<lambda>i j. id_seq i < id_seq j) (ids_of (ob_byKey ob) key)"
    "i \<in> set (ids_of (ob_byKey ob) key) \<Longrightarrow> \<exists>p. ob_pending ob i = Some p \<and> pm_key p = key"
  using keys_okD(2,3) [OF assms, of key] by (cases "ob_byKey ob key"; simp add: ids_of_def)+

lemma ids_of_nil: "outbox_inv ob \<Longrightarrow> ids_of (ob_byKey ob) key = [] \<Longrightarrow> ob_byKey ob key = None"
  using keys_okD(1) by (auto simp: ids_of_def split: option.splits)

lemma sorted_distinct: "sorted_wrt (\<lambda>i j. id_seq i < id_seq j) ids \<Longrightarrow> distinct ids"
  by (induction ids) auto

lemma ids_of_put [simp]:
  "ids_of (put_ids m key ids) k = (if k = key then ids else ids_of m k)"
  by (auto simp: ids_of_def put_ids_def)

lemma sorted_wrt_remove1: "sorted_wrt P xs \<Longrightarrow> sorted_wrt P (remove1 x xs)"
  by (induction xs) (auto dest: notin_set_remove1 set_remove1_subset [THEN subsetD])

lemma removeLocked_inv:
  assumes inv: "outbox_inv ob" and p: "ob_pending ob (pm_ID p) = Some p"
  shows "outbox_inv (removeLocked p ob)"
proof -
  let ?i = "pm_ID p" and ?ids = "ids_of (ob_byKey ob) (pm_key p)"
  have d: "distinct ?ids" by (intro sorted_distinct ids_of_inv(1) inv)
  have "pending_ok (removeLocked p ob)"
    unfolding pending_ok_def
  proof (intro conjI allI impI)
    fix i q assume "ob_pending (removeLocked p ob) i = Some q"
    then have q: "ob_pending ob i = Some q" "i \<noteq> ?i"
      by (auto simp: removeLocked_def split: if_splits)
    show "pm_ID q = i" "i \<noteq> []" "0 < id_seq i" "int (id_seq i) \<le> ob_nextID (removeLocked p ob)"
      using pending_okD [OF inv q(1)] by (simp_all add: removeLocked_def)
    show "i \<in> set (ids_of (ob_byKey (removeLocked p ob)) (pm_key q))"
      using pending_okD(5) [OF inv q(1)] q(2)
      by (cases "pm_key q = pm_key p") (simp_all add: removeLocked_def removeID_remove1)
  qed (use inv in \<open>simp_all add: removeLocked_def outbox_inv_def pending_ok_def\<close>)
  moreover have "keys_ok (removeLocked p ob)"
    unfolding keys_ok_def
  proof (intro allI impI)
    fix key ids assume a: "ob_byKey (removeLocked p ob) key = Some ids"
    show "ids \<noteq> [] \<and> sorted_wrt (\<lambda>i j. id_seq i < id_seq j) ids \<and>
       (\<forall>i \<in> set ids. \<exists>q. ob_pending (removeLocked p ob) i = Some q \<and> pm_key q = key)"
    proof (cases "key = pm_key p")
      case True
      with a have ids: "ids = remove1 ?i ?ids" "ids \<noteq> []"
        by (auto simp: removeLocked_def put_ids_def removeID_remove1 split: if_splits)
      then have "sorted_wrt (\<lambda>i j. id_seq i < id_seq j) ids"
        using ids_of_inv(1) [OF inv] by (simp add: sorted_wrt_remove1)
      moreover have "\<exists>q. ob_pending (removeLocked p ob) i = Some q \<and> pm_key q = key"
        if "i \<in> set ids" for i
        using that ids d True ids_of_inv(2) [OF inv, of i "pm_key p"]
        by (auto simp: removeLocked_def)
      ultimately show ?thesis using ids by blast
    next
      case False
      with a have k: "ob_byKey ob key = Some ids"
        by (auto simp: removeLocked_def put_ids_def split: if_splits)
      moreover have "\<exists>q. ob_pending (removeLocked p ob) i = Some q \<and> pm_key q = key"
        if "i \<in> set ids" for i
        using keys_okD(3) [OF inv k that] p False by (auto simp: removeLocked_def)
      ultimately show ?thesis using keys_okD [OF inv k] by blast
    qed
  qed
  ultimately show ?thesis
    using inv by (auto simp: outbox_inv_def removeLocked_def)
qed

lemma Register_inv:
  assumes inv: "outbox_inv ob" and lt: "ob_nextID ob < max_int64"
    and r: "Register w s d m t ob = (ob', p)"
  shows "outbox_inv ob'" "ob_pending ob (pm_ID p) = None" "int (id_seq (pm_ID p)) = ob_nextID ob'"
    "ob_nextID ob' = ob_nextID ob + 1"
proof -
  have n0: "0 \<le> ob_nextID ob" using inv by (simp add: outbox_inv_def pending_ok_def)
  then have n: "wrap64 (ob_nextID ob + 1) = ob_nextID ob + 1"
    using lt by (intro wrap64_id) (auto simp: min_int64_def max_int64_def)
  let ?n = "ob_nextID ob + 1"
  from r n have p: "p = new_pending ?n w s d m t"
    and ob': "ob' = ob\<lparr>ob_nextID := ?n, ob_pending := (ob_pending ob)(pm_ID p \<mapsto> p),
          ob_byKey := (ob_byKey ob)(pm_key p \<mapsto> ids_of (ob_byKey ob) (pm_key p) @ [pm_ID p]),
          ob_timers := (if ob_ttl ob > 0 then insert (pm_ID p) (ob_timers ob) else ob_timers ob)\<rparr>"
    by (auto simp: Register_def Let_def)
  have seq: "id_seq (pm_ID p) = nat ?n" using p n0 by (simp add: id_seq_new)
  have nn: "pm_ID p \<noteq> []" using p by simp
  have old: "i \<noteq> pm_ID p \<and> id_seq i < nat ?n" if "ob_pending ob i = Some q" for i q
  proof -
    have "id_seq i < nat ?n" using pending_okD(4) [OF inv that] n0 by simp
    with seq show ?thesis by auto
  qed
  show fresh: "ob_pending ob (pm_ID p) = None" using old by (cases "ob_pending ob (pm_ID p)") auto
  show "int (id_seq (pm_ID p)) = ob_nextID ob'" using seq n0 ob' by simp
  show "ob_nextID ob' = ob_nextID ob + 1" by (simp add: ob')
  have "pending_ok ob'"
    unfolding pending_ok_def
  proof (intro conjI allI impI)
    show "finite (dom (ob_pending ob'))" "0 \<le> ob_nextID ob'"
      using inv n0 by (simp_all add: ob' outbox_inv_def pending_ok_def)
  next
    fix i q assume q: "ob_pending ob' i = Some q"
    show "pm_ID q = i" "i \<noteq> []" "0 < id_seq i" "int (id_seq i) \<le> ob_nextID ob'"
      "i \<in> set (ids_of (ob_byKey ob') (pm_key q))"
      using q pending_okD [OF inv, of i q] nn seq n0
      by (auto simp: ob' ids_of_def split: if_splits option.splits)
  qed
  moreover have "keys_ok ob'"
    unfolding keys_ok_def
  proof (intro allI impI)
    fix key ids assume a: "ob_byKey ob' key = Some ids"
    show "ids \<noteq> [] \<and> sorted_wrt (\<lambda>i j. id_seq i < id_seq j) ids \<and>
       (\<forall>i \<in> set ids. \<exists>q. ob_pending ob' i = Some q \<and> pm_key q = key)"
    proof (cases "key = pm_key p")
      case True
      with a have ids: "ids = ids_of (ob_byKey ob) key @ [pm_ID p]" by (simp add: ob')
      have "\<forall>i \<in> set (ids_of (ob_byKey ob) key). id_seq i < id_seq (pm_ID p)"
        using ids_of_inv(2) [OF inv] old seq by fastforce
      then show ?thesis
        using ids ids_of_inv [OF inv, of key] ids_of_inv(2) [OF inv, of _ key] True old
        by (fastforce simp: ob' sorted_wrt_append)
    next
      case False
      with a have k: "ob_byKey ob key = Some ids" by (simp add: ob')
      then show ?thesis
        using keys_okD [OF inv k] old by (fastforce simp: ob')
    qed
  qed
  ultimately show "outbox_inv ob'"
    using inv by (auto simp: outbox_inv_def ob')
qed

section \<open>What Confirm, Cancel and expire do\<close>

text \<open>In a valid state each of them removes one message, in the same way.\<close>

lemma put_ids_same: "outbox_inv ob \<Longrightarrow> put_ids (ob_byKey ob) key (ids_of (ob_byKey ob) key) = ob_byKey ob"
  using keys_okD(1) by (auto simp: put_ids_def ids_of_def split: option.splits)

lemma expire_Some:
  "outbox_inv ob \<Longrightarrow> ob_pending ob i = Some p \<Longrightarrow>
   expire i ob = (removeLocked p ob, if ob_notify ob then Some p else None)"
  using pending_okD(1) by (auto simp: expire_def removeLocked_def)

lemma confirm_exact_inv:
  assumes inv: "outbox_inv ob"
  shows "confirm_exact key (ids_of (ob_byKey ob) key) ob =
     (case ids_of (ob_byKey ob) key of [] \<Rightarrow> None
      | i # ids \<Rightarrow> Some (removeLocked (the (ob_pending ob i)) ob, the (ob_pending ob i)))"
proof (cases "ids_of (ob_byKey ob) key")
  case (Cons i ids)
  then obtain p where p: "ob_pending ob i = Some p" "pm_key p = key"
    using ids_of_inv(2) [OF inv, of i key] by auto
  with Cons pending_okD(1) [OF inv p(1)] show ?thesis by (auto simp: removeLocked_def)
qed simp

definition fields_match :: "string \<Rightarrow> string \<Rightarrow> string \<Rightarrow> pending_message \<Rightarrow> bool" where
  "fields_match origin destination message p \<longleftrightarrow> pm_Source p = origin \<and>
     pm_Destination p = trim_space destination \<and> messageMatches (pm_Message p) message"

lemma consider_match_cases:
  "consider_match origin d m ob i matched =
     (case ob_pending ob i of None \<Rightarrow> matched
      | Some p \<Rightarrow> if fields_match origin d m p
            \<and> (pm_ID matched = [] \<or> pm_CreatedAt p < pm_CreatedAt matched) then p else matched)"
  by (auto simp: consider_match_def fields_match_def split: option.splits)

text \<open>The running candidate of the second loop: among the ids seen, the oldest match.\<close>

definition best_of :: "(pending_message \<Rightarrow> bool) \<Rightarrow> outbox \<Rightarrow> string set \<Rightarrow> pending_message \<Rightarrow> bool" where
  "best_of P ob I p \<longleftrightarrow>
     (if pm_ID p = [] then p = pm_zero \<and> (\<forall>i \<in> I. \<forall>q. ob_pending ob i = Some q \<longrightarrow> \<not> P q)
      else pm_ID p \<in> I \<and> ob_pending ob (pm_ID p) = Some p \<and> P p
           \<and> (\<forall>i \<in> I. \<forall>q. ob_pending ob i = Some q \<longrightarrow> P q \<longrightarrow> pm_CreatedAt p \<le> pm_CreatedAt q))"

lemma consider_match_best:
  assumes inv: "outbox_inv ob" and b: "best_of (fields_match origin d m) ob I q"
  shows "best_of (fields_match origin d m) ob (insert i I) (consider_match origin d m ob i q)"
proof (cases "ob_pending ob i")
  case None
  with b show ?thesis by (auto simp: consider_match_cases best_of_def)
next
  case (Some p)
  note k = pending_okD [OF inv Some]
  show ?thesis
  proof (cases "fields_match origin d m p \<and> (pm_ID q = [] \<or> pm_CreatedAt p < pm_CreatedAt q)")
    case True
    with b Some k show ?thesis
      by (auto simp: consider_match_cases best_of_def split: if_splits)
  next
    case False
    with b Some k show ?thesis
      by (auto simp: consider_match_cases best_of_def split: if_splits)
  qed
qed

lemma find_match_best:
  assumes inv: "outbox_inv ob"
  shows "best_of (fields_match origin d m) ob (set order) (find_match order origin d m ob)"
proof -
  have "best_of (fields_match origin d m) ob (I \<union> set order) (fold (consider_match origin d m ob) order q)"
    if "best_of (fields_match origin d m) ob I q" for I q
    using that
  proof (induction order arbitrary: I q)
    case (Cons i order)
    from Cons.IH [OF consider_match_best [OF inv Cons.prems]] show ?case by simp
  qed simp
  from this [of "{}" pm_zero] show ?thesis
    by (simp add: find_match_def best_of_def pm_zero_def)
qed

lemma byKey_None_update: "outbox_inv ob \<Longrightarrow> ids_of (ob_byKey ob) key = [] \<Longrightarrow>
    ob\<lparr>ob_byKey := (ob_byKey ob)(key := None)\<rparr> = ob"
  using ids_of_nil by (simp add: fun_upd_idem)

text \<open>Confirm in a valid state, when order ranges over the pending messages.\<close>

lemma Confirm_cases:
  assumes inv: "outbox_inv ob" and order: "set order = dom (ob_pending ob)"
    and key: "key = matchKey (echo_origin s) (trim_space d) m"
  obtains (exact) i ids p where "ids_of (ob_byKey ob) key = i # ids" "ob_pending ob i = Some p"
      "pm_ID p = i" "pm_key p = key" "Confirm order s d m ob = (removeLocked p ob, p, True)"
  | (echo) p where "ids_of (ob_byKey ob) key = []" "ob_pending ob (pm_ID p) = Some p"
      "best_of (fields_match (echo_origin s) d m) ob (dom (ob_pending ob)) p" "pm_ID p \<noteq> []"
      "Confirm order s d m ob = (removeLocked p ob, p, True)"
  | (none) "ids_of (ob_byKey ob) key = []"
      "\<forall>i p. ob_pending ob i = Some p \<longrightarrow> \<not> fields_match (echo_origin s) d m p"
      "Confirm order s d m ob = (ob, pm_zero, False)"
proof (cases "ids_of (ob_byKey ob) key")
  case (Cons i ids)
  then obtain p where p: "ob_pending ob i = Some p" "pm_key p = key"
    using ids_of_inv(2) [OF inv, of i key] by auto
  note pending_okD(1,2) [OF inv p(1)]
  moreover have "Confirm order s d m ob = (removeLocked p ob, p, True)"
    using Cons p(1) calculation confirm_exact_inv [OF inv, of key]
    by (simp add: Confirm_def Let_def key [symmetric])
  ultimately show thesis using exact Cons p by blast
next
  case Nil
  let ?q = "find_match order (echo_origin s) d m ob"
  have b: "best_of (fields_match (echo_origin s) d m) ob (dom (ob_pending ob)) ?q"
    using find_match_best [OF inv, of "echo_origin s" d m order] order by simp
  have c: "Confirm order s d m ob = (if pm_ID ?q = [] then (ob, pm_zero, False)
      else (removeLocked ?q ob, ?q, True))"
    using Nil confirm_exact_inv [OF inv, of key] byKey_None_update [OF inv Nil]
    by (simp add: Confirm_def Let_def key [symmetric])
  show thesis
  proof (cases "pm_ID ?q = []")
    case True
    with b have "\<forall>i p. ob_pending ob i = Some p \<longrightarrow> \<not> fields_match (echo_origin s) d m p"
      by (auto simp: best_of_def)
    with Nil c True show thesis by (intro none) auto
  next
    case False
    with b have "ob_pending ob (pm_ID ?q) = Some ?q" by (simp add: best_of_def)
    with Nil b c False show thesis by (intro echo [of ?q]) auto
  qed
qed

section \<open>Runs\<close>

datatype outbox_event =
    Registered pending_message
  | Confirmed pending_message
  | Cancelled string
  | Expired pending_message
  | Nothing

inductive outbox_step :: "outbox \<Rightarrow> outbox_event \<Rightarrow> outbox \<Rightarrow> bool" where
  register: "ob_nextID ob < max_int64 \<Longrightarrow> Register w s d m t ob = (ob', p)
     \<Longrightarrow> outbox_step ob (Registered p) ob'"
| confirm: "set order = dom (ob_pending ob) \<Longrightarrow> Confirm order s d m ob = (ob', p, True)
     \<Longrightarrow> outbox_step ob (Confirmed p) ob'"
| no_confirm: "set order = dom (ob_pending ob) \<Longrightarrow> Confirm order s d m ob = (ob', p, False)
     \<Longrightarrow> outbox_step ob Nothing ob'"
| cancel: "Cancel i ob = (ob', True) \<Longrightarrow> outbox_step ob (Cancelled i) ob'"
| no_cancel: "Cancel i ob = (ob', False) \<Longrightarrow> outbox_step ob Nothing ob'"
| timer: "ob_pending ob i = Some p \<Longrightarrow> expire i ob = (ob', f) \<Longrightarrow> outbox_step ob (Expired p) ob'"
| late_timer: "ob_pending ob i = None \<Longrightarrow> expire i ob = (ob', f) \<Longrightarrow> outbox_step ob Nothing ob'"

inductive_cases step_registeredE: "outbox_step ob (Registered p) ob'"
inductive_cases step_confirmedE: "outbox_step ob (Confirmed p) ob'"
inductive_cases step_cancelledE: "outbox_step ob (Cancelled i) ob'"
inductive_cases step_expiredE: "outbox_step ob (Expired p) ob'"
inductive_cases step_nothingE: "outbox_step ob Nothing ob'"

inductive outbox_run :: "outbox \<Rightarrow> outbox_event list \<Rightarrow> outbox \<Rightarrow> bool" where
  start: "outbox_run ob [] ob"
| step: "outbox_run ob es ob1 \<Longrightarrow> outbox_step ob1 e ob2 \<Longrightarrow> outbox_run ob (es @ [e]) ob2"

fun registered_id :: "outbox_event \<Rightarrow> string list" where
  "registered_id (Registered p) = [pm_ID p]"
| "registered_id _ = []"

fun resolved_id :: "outbox_event \<Rightarrow> string list" where
  "resolved_id (Confirmed p) = [pm_ID p]"
| "resolved_id (Cancelled i) = [i]"
| "resolved_id (Expired p) = [pm_ID p]"
| "resolved_id _ = []"

abbreviation registered_ids :: "outbox_event list \<Rightarrow> string list" where
  "registered_ids es \<equiv> concat (map registered_id es)"

abbreviation resolved_ids :: "outbox_event list \<Rightarrow> string list" where
  "resolved_ids es \<equiv> concat (map resolved_id es)"

lemma removeLocked_simps:
  "dom (ob_pending (removeLocked p ob)) = dom (ob_pending ob) - {pm_ID p}"
  "ob_nextID (removeLocked p ob) = ob_nextID ob"
  "ob_pending (removeLocked p ob) = (ob_pending ob)(pm_ID p := None)"
  by (simp_all add: removeLocked_def)

text \<open>A step adds a fresh message, removes the one it resolves, or changes nothing.\<close>

lemma outbox_step_effect:
  assumes inv: "outbox_inv ob" and st: "outbox_step ob e ob'"
  shows "outbox_inv ob' \<and> ob_nextID ob \<le> ob_nextID ob' \<and>
    (case e of
       Registered p \<Rightarrow> ob_nextID ob < int (id_seq (pm_ID p)) \<and> int (id_seq (pm_ID p)) \<le> ob_nextID ob'
         \<and> dom (ob_pending ob') = insert (pm_ID p) (dom (ob_pending ob))
     | Nothing \<Rightarrow> ob' = ob
     | _ \<Rightarrow> (\<exists>i. resolved_id e = [i] \<and> i \<in> dom (ob_pending ob)
         \<and> dom (ob_pending ob') = dom (ob_pending ob) - {i}))"
  using st
proof cases
  case (register w s d m t p)
  with Register_inv [OF inv register(2,3)] show ?thesis
    by (auto simp: Register_def Let_def)
next
  case (confirm order s d m p)
  show ?thesis
    using inv confirm(2) refl
  proof (cases rule: Confirm_cases [where s = s and d = d and m = m])
    case (exact i ids q)
    with confirm removeLocked_inv [OF inv, of q] show ?thesis by (auto simp: removeLocked_simps(2,3) split: if_splits)
  next
    case (echo q)
    with confirm removeLocked_inv [OF inv, of q] show ?thesis by (auto simp: removeLocked_simps(2,3) split: if_splits)
  qed (use confirm in auto)
next
  case (no_confirm order s d m p)
  show ?thesis
    using inv no_confirm(2) refl
    by (cases rule: Confirm_cases [where s = s and d = d and m = m])
       (use no_confirm inv in auto)
next
  case (cancel i)
  then obtain p where p: "ob_pending ob i = Some p" "ob' = removeLocked p ob"
    by (auto simp: Cancel_def split: if_splits option.splits)
  with pending_okD(1) [OF inv p(1)] removeLocked_inv [OF inv, of p] cancel show ?thesis
    by (auto simp: removeLocked_simps(2,3) split: if_splits)
next
  case (no_cancel i)
  with inv show ?thesis by (auto simp: Cancel_def split: if_splits option.splits)
next
  case (timer i p f)
  then have "ob' = removeLocked p ob" using expire_Some [OF inv] by simp
  moreover have "i = pm_ID p" using pending_okD(1) [OF inv timer(2)] by simp
  ultimately show ?thesis using timer removeLocked_inv [OF inv, of p]
    by (simp add: removeLocked_simps) blast
next
  case (late_timer i f)
  with inv show ?thesis by (auto simp: expire_def)
qed

text \<open>The account of a run: what is pending is what was registered and not yet resolved.\<close>

definition account :: "outbox_event list \<Rightarrow> outbox \<Rightarrow> bool" where
  "account es ob \<longleftrightarrow> distinct (registered_ids es) \<and> distinct (resolved_ids es) \<and>
     set (resolved_ids es) \<subseteq> set (registered_ids es) \<and>
     dom (ob_pending ob) = set (registered_ids es) - set (resolved_ids es)"

lemma account_step:
  assumes acc: "account es ob" and inv: "outbox_inv ob" and st: "outbox_step ob e ob'"
    and old: "\<forall>i \<in> set (registered_ids es). int (id_seq i) \<le> ob_nextID ob"
  shows "account (es @ [e]) ob' \<and> (\<forall>i \<in> set (registered_ids (es @ [e])). int (id_seq i) \<le> ob_nextID ob')"
proof (cases e)
  case (Registered p)
  with outbox_step_effect [OF inv st] have
    e: "ob_nextID ob < int (id_seq (pm_ID p))" "int (id_seq (pm_ID p)) \<le> ob_nextID ob'"
      "dom (ob_pending ob') = insert (pm_ID p) (dom (ob_pending ob))" "ob_nextID ob \<le> ob_nextID ob'"
    by auto
  have new: "pm_ID p \<notin> set (registered_ids es)" using old e(1) by fastforce
  then have "account (es @ [e]) ob'" using acc e(3) Registered unfolding account_def by auto
  moreover have "\<forall>i \<in> set (registered_ids (es @ [e])). int (id_seq i) \<le> ob_nextID ob'"
    using old e(2,4) Registered by fastforce
  ultimately show ?thesis by blast
next
  case Nothing
  with outbox_step_effect [OF inv st] acc old show ?thesis by (auto simp: account_def)
qed (use outbox_step_effect [OF inv st] acc old in \<open>fastforce simp: account_def\<close>)+

lemma outbox_run_account:
  assumes "outbox_run ob0 es ob" and "ob0 = new_outbox ttl notify"
  shows "outbox_inv ob \<and> account es ob \<and> (\<forall>i \<in> set (registered_ids es). int (id_seq i) \<le> ob_nextID ob)"
  using assms
proof (induction rule: outbox_run.induct)
  case (start ob)
  then show ?case by (simp add: account_def new_outbox_inv) (simp add: new_outbox_def)
next
  case (step ob es ob1 e ob2)
  then show ?case using account_step outbox_step_effect by blast
qed

section \<open>Properties\<close>

lemmas outbox_run_inv = outbox_run_account [OF _ refl, THEN conjunct1]


definition outbox_example :: "outbox \<times> pending_message" where
  "outbox_example = Register 0 ''iu5pmp-1'' ''*'' ''ciao'' 0 (new_outbox 5 True)"

lemma outbox_example_run:
  "outbox_run (new_outbox 5 True) [Registered (snd outbox_example)] (fst outbox_example)"
proof -
  have "outbox_step (new_outbox 5 True) (Registered (snd outbox_example)) (fst outbox_example)"
    by (rule outbox_step.register [where w = 0 and s = "''iu5pmp-1''" and d = "''*''"
          and m = "''ciao''" and t = 0])
       (simp_all add: outbox_example_def new_outbox_def max_int64_def)
  from outbox_run.step [OF outbox_run.start this] show ?thesis by simp
qed


text \<open>C22: Confirm is right on every branch. When it succeeds, the message it returns was pending, only that
  message leaves the outbox, and it is either the earliest registered one with the echo's exact
  source, destination and text, or, when there is none, the oldest whose text the echo extends with
  "{digits}". When it fails, nothing changes and no pending message matches either way.\<close>

theorem confirm_correct:
  assumes run: "outbox_run (new_outbox ttl notify) es ob"
    and order: "set order = dom (ob_pending ob)"
    and res: "Confirm order source destination message ob = (ob', p, ok)"
  defines "key \<equiv> matchKey (echo_origin source) (trim_space destination) message"
  shows "if ok then
      ob_pending ob (pm_ID p) = Some p \<and> ob_pending ob' = (ob_pending ob)(pm_ID p := None) \<and>
      (pm_key p = key \<and>
         (\<forall>q \<in> ran (ob_pending ob). pm_key q = key \<longrightarrow> id_seq (pm_ID p) \<le> id_seq (pm_ID q)) \<or>
       (\<forall>q \<in> ran (ob_pending ob). pm_key q \<noteq> key) \<and>
         fields_match (echo_origin source) destination message p \<and>
         (\<forall>q \<in> ran (ob_pending ob). fields_match (echo_origin source) destination message q
            \<longrightarrow> pm_CreatedAt p \<le> pm_CreatedAt q))
    else ob' = ob \<and> (\<forall>q \<in> ran (ob_pending ob). pm_key q \<noteq> key \<and>
      \<not> fields_match (echo_origin source) destination message q)"
proof -
  note inv = outbox_run_inv [OF run]
  have listed: "pm_ID q \<in> set (ids_of (ob_byKey ob) (pm_key q))" if "q \<in> ran (ob_pending ob)" for q
    using that pending_okD(1,5) [OF inv] by (auto simp: ran_def)
  have key: "key = matchKey (echo_origin source) (trim_space destination) message"
    by (simp add: key_def)
  show ?thesis
    using inv order key
  proof (cases rule: Confirm_cases)
    case (exact i ids q)
    have "id_seq i \<le> id_seq (pm_ID r)" if "r \<in> ran (ob_pending ob)" "pm_key r = key" for r
      using listed [OF that(1)] that(2) exact(1) ids_of_inv(1) [OF inv, of key] by auto
    with exact res show ?thesis by (auto simp: removeLocked_simps)
  next
    case (echo q)
    then have "\<forall>r \<in> ran (ob_pending ob). pm_key r \<noteq> key" using listed by fastforce
    moreover have "\<forall>r \<in> ran (ob_pending ob). fields_match (echo_origin source) destination message r
        \<longrightarrow> pm_CreatedAt q \<le> pm_CreatedAt r"
      using echo(3,4) by (auto simp: best_of_def ran_def)
    moreover have "fields_match (echo_origin source) destination message q"
      using echo(3,4) by (simp add: best_of_def)
    ultimately show ?thesis using echo res by (auto simp: removeLocked_simps)
  next
    case none
    then have "\<forall>r \<in> ran (ob_pending ob). pm_key r \<noteq> key" using listed by fastforce
    with none res show ?thesis by (auto simp: ran_def)
  qed
qed

lemma example_origin: "echo_origin ''IU5PMP-1,IK5FCK-10'' = to_upper (trim_space ''iu5pmp-1'')"
  by code_simp

lemma outbox_example_pending:
  "ob_pending (fst outbox_example) = [pm_ID (snd outbox_example) \<mapsto> snd outbox_example]"
  "fields_match (echo_origin ''IU5PMP-1,IK5FCK-10'') ''*'' ''ciao'' (snd outbox_example)"
  by (simp_all add: outbox_example_def Register_def Let_def new_outbox_def new_pending_def
      fields_match_def example_origin messageMatches_def)

theorem confirm_correct_witness:
  "\<exists>ob2 q. Confirm [pm_ID (snd outbox_example)] ''IU5PMP-1,IK5FCK-10'' ''*'' ''ciao'' (fst outbox_example)
     = (ob2, q, True) \<and> ob_pending ob2 = Map.empty"
proof -
  let ?i = "pm_ID (snd outbox_example)"
  obtain ob2 q ok where c:
    "Confirm [?i] ''IU5PMP-1,IK5FCK-10'' ''*'' ''ciao'' (fst outbox_example) = (ob2, q, ok)"
    by (metis prod_cases3)
  have o: "set [?i] = dom (ob_pending (fst outbox_example))"
    by (simp add: outbox_example_pending)
  have r: "snd outbox_example \<in> ran (ob_pending (fst outbox_example))"
    by (simp add: outbox_example_pending)
  note spec = confirm_correct [OF outbox_example_run o c]
  have ok: "ok"
  proof (rule ccontr)
    assume "\<not> ok"
    with spec have "\<forall>q \<in> ran (ob_pending (fst outbox_example)).
        \<not> fields_match (echo_origin ''IU5PMP-1,IK5FCK-10'') ''*'' ''ciao'' q"
      by (simp only: if_False simp_thms) blast
    with r outbox_example_pending(2) show False by blast
  qed
  with spec have "ob_pending (fst outbox_example) (pm_ID q) = Some q"
    "ob_pending ob2 = (ob_pending (fst outbox_example))(pm_ID q := None)"
    by (simp_all only: if_True)
  then have "ob_pending ob2 = Map.empty"
    unfolding outbox_example_pending(1) by (auto split: if_splits)
  with c ok show ?thesis by auto
qed

text \<open>An echo always confirms: after a message is registered, an echo from the same origin (relayed or
  not) to the same destination, with the same text or the text followed by the sequence number
  "{digits}" the node appends, confirms a pending message.\<close>

theorem echo_confirms:
  assumes run: "outbox_run (new_outbox ttl notify) es ob" and lt: "ob_nextID ob < max_int64"
    and reg: "Register w source destination message t ob = (ob1, p)"
    and order: "set order = dom (ob_pending ob1)"
    and echo: "echo_origin path = to_upper (trim_space source)"
    and observed: "echoed = message \<or> (\<exists>n. echoed = message @ ''{'' @ n \<and> is_numeric n)"
  shows "\<exists>ob2 q. Confirm order path destination echoed ob1 = (ob2, q, True)"
proof -
  note inv = Register_inv(1) [OF outbox_run_inv [OF run] lt reg]
  have p: "ob_pending ob1 (pm_ID p) = Some p" "pm_Source p = to_upper (trim_space source)"
    "pm_Destination p = trim_space destination" "pm_Message p = message"
    using reg by (auto simp: Register_def new_pending_def Let_def)
  have "messageMatches message echoed"
    using observed
  proof
    assume "\<exists>n. echoed = message @ ''{'' @ n \<and> is_numeric n"
    then obtain n where n: "echoed = message @ ''{'' @ n" "is_numeric n" by blast
    then have "trim_suffix ''}'' n = n"
      by (auto simp: trim_suffix_def is_numeric_def suffix_def is_digit_def)
    with n show ?thesis by (simp add: messageMatches_def is_numeric_def)
  qed (simp add: messageMatches_def)
  with p echo have "fields_match (echo_origin path) destination echoed p"
    by (simp add: fields_match_def)
  with inv order show ?thesis
    by (cases rule: Confirm_cases [OF _ _ refl, where s = path and d = destination and m = echoed])
       (use p in blast)+
qed

theorem echo_confirms_witness:
  "\<exists>ob2 q. Confirm [pm_ID (snd outbox_example)] ''IU5PMP-1,IK5FCK-10'' ''*'' ''ciao{042''
     (fst outbox_example) = (ob2, q, True)"
proof (rule echo_confirms [OF outbox_run.start])
  show "Register 0 ''iu5pmp-1'' ''*'' ''ciao'' 0 (new_outbox 5 True)
      = (fst outbox_example, snd outbox_example)"
    by (simp add: outbox_example_def)
  show "set [pm_ID (snd outbox_example)] = dom (ob_pending (fst outbox_example))"
    by (simp add: outbox_example_pending)
  have "is_numeric ''042''" by code_simp
  then show "''ciao{042'' = ''ciao'' \<or> (\<exists>n. ''ciao{042'' = ''ciao'' @ ''{'' @ n \<and> is_numeric n)"
    by simp
qed (simp_all add: example_origin new_outbox_def max_int64_def)

end
