(* ===== verification/Persist.thy ===== *)
theory Persist
  imports Prelude
begin

text \<open>
  The contract of the stores that keep their data in memory, mark it dirty and write it to SQLite
  from a periodic loop (station, channelshow, chatstatus, positions, dmstats, stats). A save has two
  halves: it takes a snapshot and clears the mark under the lock, then writes outside the lock, so
  changes may fall in between. The locale snapshot_store holds the laws of the first half and of a
  write that succeeds, dirty_store adds what a store must do when the write fails.
\<close>

datatype 'c save_op = Change 'c | BeginSave | EndSave bool

text \<open>
  The system: the memory of the store, the table, and the snapshot of a save in flight. The store
  is given by its operations: apply a change, take a snapshot (None when there is nothing to save),
  react to a failed write, and what a successful write does to the table. A second BeginSave waits
  for the first save to end: the periodic loop is the only saver.
\<close>

fun save_step ::
  "('c \<Rightarrow> 's \<Rightarrow> 's) \<Rightarrow> ('s \<Rightarrow> 's \<times> 'v option) \<Rightarrow> ('v \<Rightarrow> 's \<Rightarrow> 's) \<Rightarrow> ('v \<Rightarrow> 'd \<Rightarrow> 'd)
   \<Rightarrow> 'c save_op \<Rightarrow> 's \<times> 'd \<times> 'v option \<Rightarrow> 's \<times> 'd \<times> 'v option" where
  "save_step chg bgn failed wr (Change c) (s, d, f) = (chg c s, d, f)"
| "save_step chg bgn failed wr BeginSave (s, d, None) = (let (s', f) = bgn s in (s', d, f))"
| "save_step chg bgn failed wr BeginSave (s, d, Some v) = (s, d, Some v)"
| "save_step chg bgn failed wr (EndSave ok) (s, d, None) = (s, d, None)"
| "save_step chg bgn failed wr (EndSave ok) (s, d, Some v) =
     (if ok then (s, wr v d, None) else (failed v s, d, None))"

definition save_run where
  "save_run chg bgn failed wr ops st = fold (save_step chg bgn failed wr) ops st"

lemma save_run_simps [simp]:
  "save_run chg bgn failed wr [] st = st"
  "save_run chg bgn failed wr (op # ops) st
     = save_run chg bgn failed wr ops (save_step chg bgn failed wr op st)"
  by (simp_all add: save_run_def)

text \<open>No write of the run fails.\<close>

definition no_failure :: "'c save_op list \<Rightarrow> bool" where
  "no_failure ops \<longleftrightarrow> EndSave False \<notin> set ops"

lemma no_failure_simps [simp]:
  "no_failure []" "no_failure (op # ops) \<longleftrightarrow> op \<noteq> EndSave False \<and> no_failure ops"
  by (auto simp: no_failure_def)

text \<open>
  agrees s d says that the table d holds what the memory s holds, apart from what s marks dirty;
  loaded d is what a restart reads, current s what the memory holds.
\<close>

locale snapshot_store =
  fixes agrees :: "'s \<Rightarrow> 'd \<Rightarrow> bool" and dirty :: "'s \<Rightarrow> bool"
    and current :: "'s \<Rightarrow> 'm" and loaded :: "'d \<Rightarrow> 'm"
    and chg :: "'c \<Rightarrow> 's \<Rightarrow> 's" and bgn :: "'s \<Rightarrow> 's \<times> 'v option"
    and failed :: "'v \<Rightarrow> 's \<Rightarrow> 's" and wr :: "'v \<Rightarrow> 'd \<Rightarrow> 'd"
  assumes clean: "agrees s d \<Longrightarrow> \<not> dirty s \<Longrightarrow> loaded d = current s"
    and chg_agrees: "agrees s d \<Longrightarrow> agrees (chg c s) d"
    and bgn_clean: "\<not> dirty s \<Longrightarrow> bgn s = (s, None)"
    and bgn_dirty: "dirty s \<Longrightarrow> agrees s d \<Longrightarrow>
          \<exists>s' v. bgn s = (s', Some v) \<and> \<not> dirty s' \<and> current s' = current s \<and> agrees s' (wr v d)"
begin

text \<open>What holds with a save in flight: the table it is about to leave agrees with the memory.\<close>

abbreviation settled :: "'s \<times> 'd \<times> 'v option \<Rightarrow> bool" where
  "settled st \<equiv> (case st of (s, d, f) \<Rightarrow> agrees s (case f of None \<Rightarrow> d | Some v \<Rightarrow> wr v d))"

lemma settled_step:
  assumes "settled st" and "op \<noteq> EndSave False"
  shows "settled (save_step chg bgn failed wr op st)"
proof -
  obtain s d f where st: "st = (s, d, f)" by (cases st)
  show ?thesis
  proof (cases op)
    case (Change c)
    then show ?thesis using assms st chg_agrees by (cases f) auto
  next
    case BeginSave
    show ?thesis
    proof (cases f)
      case None
      with assms(1) st have a: "agrees s d" by simp
      show ?thesis
      proof (cases "dirty s")
        case True
        from bgn_dirty [OF True a] BeginSave None st show ?thesis by auto
      next
        case False
        with BeginSave None st a bgn_clean show ?thesis by auto
      qed
    qed (use BeginSave st assms in auto)
  next
    case (EndSave ok)
    then show ?thesis using assms st by (cases f) auto
  qed
qed

lemma settled_run:
  "settled st \<Longrightarrow> no_failure ops \<Longrightarrow> settled (save_run chg bgn failed wr ops st)"
  by (induction ops arbitrary: st) (simp_all add: settled_step)

lemma clean_run:
  assumes "agrees s0 d0" and "no_failure ops"
    and "save_run chg bgn failed wr ops (s0, d0, None) = (s, d, None)" and "\<not> dirty s"
  shows "loaded d = current s"
  using settled_run [of "(s0, d0, None)" ops] assms clean by auto

lemma save_now:
  assumes "agrees s d"
  shows "\<exists>s' d'. save_run chg bgn failed wr [BeginSave, EndSave True] (s, d, None) = (s', d', None)
    \<and> current s' = current s \<and> loaded d' = current s"
proof (cases "dirty s")
  case True
  then obtain s' v where "bgn s = (s', Some v)" "\<not> dirty s'" "current s' = current s"
    "agrees s' (wr v d)"
    using bgn_dirty assms by blast
  then show ?thesis using clean [of s' "wr v d"] by auto
next
  case False
  then show ?thesis using bgn_clean clean [OF assms] by auto
qed

end

text \<open>
  The goroutine Start of a store: a save when the ticker fires and a last one when the context is done, after which
  changes are no longer saved. A save comes with the changes made while it writes and whether the write succeeds.
\<close>

datatype 'c store_event = StoreChange 'c | StoreTick "'c list" bool | StoreDone "'c list" bool

fun store_change :: "'c store_event \<Rightarrow> 'c list" where
  "store_change (StoreChange c) = [c]"
| "store_change (StoreTick cs _) = cs"
| "store_change (StoreDone cs _) = cs"

fun start_loop :: "'c store_event list \<Rightarrow> 'c save_op list" where
  "start_loop [] = []"
| "start_loop (StoreChange c # es) = Change c # start_loop es"
| "start_loop (StoreTick cs ok # es) = BeginSave # map Change cs @ EndSave ok # start_loop es"
| "start_loop (StoreDone cs ok # es) = BeginSave # map Change cs @ EndSave ok # map Change (concat (map store_change es))"

lemma save_run_append:
  "save_run chg bgn failed wr (xs @ ys) st = save_run chg bgn failed wr ys (save_run chg bgn failed wr xs st)"
  by (simp add: save_run_def)

lemma save_run_changes:
  "\<exists>s'. save_run chg bgn failed wr (map Change cs) (s, d, f) = (s', d, f)"
  by (induction cs arbitrary: s) simp_all

text \<open>Between its saves the goroutine has none in flight.\<close>

lemma whole_save:
  "\<exists>s' d'. save_run chg bgn failed wr (BeginSave # map Change cs @ [EndSave ok]) (s, d, None) = (s', d', None)"
proof -
  obtain s1 f where b: "bgn s = (s1, f)" by fastforce
  obtain s2 where c: "save_run chg bgn failed wr (map Change cs) (s1, d, f) = (s2, d, f)"
    using save_run_changes [of chg bgn failed wr cs s1 d f] by blast
  have "\<exists>s' d'. save_step chg bgn failed wr (EndSave ok) (s2, d, f) = (s', d', None)" by (cases f) auto
  with b c show ?thesis by (simp add: save_run_append)
qed

lemma loop_settles:
  "\<exists>s' d'. save_run chg bgn failed wr (start_loop es) (s, d, None) = (s', d', None)"
proof (induction es arbitrary: s d rule: start_loop.induct)
  case (3 cs ok es)
  obtain s1 d1 where "save_run chg bgn failed wr (BeginSave # map Change cs @ [EndSave ok]) (s, d, None) = (s1, d1, None)"
    using whole_save [of chg bgn failed wr cs ok s d] by blast
  moreover obtain s2 d2 where "save_run chg bgn failed wr (start_loop es) (s1, d1, None) = (s2, d2, None)" using 3 by blast
  ultimately show ?case
    using save_run_append [of chg bgn failed wr "BeginSave # map Change cs @ [EndSave ok]" "start_loop es" "(s, d, None)"] by simp
next
  case (4 cs ok es)
  obtain s1 d1 where "save_run chg bgn failed wr (BeginSave # map Change cs @ [EndSave ok]) (s, d, None) = (s1, d1, None)"
    using whole_save [of chg bgn failed wr cs ok s d] by blast
  moreover obtain s2 where "save_run chg bgn failed wr (map Change (concat (map store_change es))) (s1, d1, None) = (s2, d1, None)"
    using save_run_changes [of chg bgn failed wr "concat (map store_change es)" s1 d1 None] by blast
  ultimately show ?case
    using save_run_append [of chg bgn failed wr "BeginSave # map Change cs @ [EndSave ok]"
        "map Change (concat (map store_change es))" "(s, d, None)"] by simp
qed simp_all

definition still_running :: "'c store_event list \<Rightarrow> bool" where
  "still_running es \<longleftrightarrow> (\<forall>e \<in> set es. \<forall>cs ok. e \<noteq> StoreDone cs ok)"

lemma start_loop_append:
  "still_running es \<Longrightarrow> start_loop (es @ fs) = start_loop es @ start_loop fs"
  by (induction es rule: start_loop.induct) (auto simp: still_running_def)

locale dirty_store = snapshot_store +
  assumes failed_agrees: "agrees s (wr v d) \<Longrightarrow> agrees (failed v s) d"
begin

lemma settled_any: "settled st \<Longrightarrow> settled (save_run chg bgn failed wr ops st)"
proof (induction ops arbitrary: st)
  case (Cons op ops)
  have "settled (save_step chg bgn failed wr op st)"
  proof (cases "op = EndSave False")
    case True
    obtain s d f where st: "st = (s, d, f)" by (cases st)
    with True Cons.prems show ?thesis using failed_agrees by (cases f) auto
  next
    case False
    with Cons.prems show ?thesis by (rule settled_step)
  qed
  with Cons.IH show ?case by simp
qed simp

text \<open>
  No change is lost, whatever writes fail: with no save in flight, a memory that is not dirty is
  what a restart reads; and one more successful save makes it so.
\<close>

lemma durable:
  assumes "agrees s0 d0" and "save_run chg bgn failed wr ops (s0, d0, None) = (s, d, None)"
  shows "\<not> dirty s \<longrightarrow> loaded d = current s"
    and "\<exists>s' d'. save_run chg bgn failed wr [BeginSave, EndSave True] (s, d, None) = (s', d', None)
       \<and> current s' = current s \<and> loaded d' = current s"
proof -
  have "agrees s d" using settled_any [of "(s0, d0, None)" ops] assms by simp
  then show "\<not> dirty s \<longrightarrow> loaded d = current s"
    and "\<exists>s' d'. save_run chg bgn failed wr [BeginSave, EndSave True] (s, d, None) = (s', d', None)
       \<and> current s' = current s \<and> loaded d' = current s"
    using clean save_now by blast+
qed

text \<open>A store whose goroutine ends with a save that succeeds, and that nothing changes after it, is read back.\<close>

lemma stopped_durable:
  assumes "agrees s0 d0" "still_running es"
    and "save_run chg bgn failed wr (start_loop (es @ [StoreDone [] True])) (s0, d0, None) = (s, d, f)"
  shows "loaded d = current s"
proof -
  obtain s1 d1 where 1: "save_run chg bgn failed wr (start_loop es) (s0, d0, None) = (s1, d1, None)"
    using loop_settles [of chg bgn failed wr es s0 d0] by blast
  have "(s, d, f) = save_run chg bgn failed wr [BeginSave, EndSave True] (s1, d1, None)"
    using assms(3) unfolding start_loop_append [OF assms(2)] save_run_append 1 by simp
  with durable(2) [OF assms(1) 1] show ?thesis by (metis prod.inject)
qed

end

end
