(* ===== verification/Station.thy ===== *)
theory Station
  imports Callsign Persist
begin

text \<open>
  internal/station (identity.go): the active callsign, its update, its loading from the table
  station_identity (one row or none) and its saving.
\<close>

record identity =
  id_current :: string
  id_dirty :: bool
  id_db :: bool

datatype identity_error = InvalidCallsign string | LoadFailed

definition NewInMemory :: "string \<Rightarrow> identity" where
  "NewInMemory cs = \<lparr>id_current = normalize cs, id_dirty = False, id_db = False\<rparr>"

text \<open>loadSQLite: the query's result, an error, no row, or the persisted value.\<close>

definition load_identity :: "(unit + string option) \<Rightarrow> identity \<Rightarrow> identity_error + identity" where
  "load_identity row idn =
     (case row of
        Inl _ \<Rightarrow> Inl LoadFailed
      | Inr None \<Rightarrow> Inr idn
      | Inr (Some persisted) \<Rightarrow>
          (let normalized = normalize persisted in
           if \<not> is_valid normalized then Inr idn else Inr (idn\<lparr>id_current := normalized\<rparr>)))"

definition NewSQLite_identity :: "(unit + string option) \<Rightarrow> string \<Rightarrow> identity_error + identity" where
  "NewSQLite_identity row fallback =
     load_identity row \<lparr>id_current = normalize fallback, id_dirty = False, id_db = True\<rparr>"

definition Current :: "identity \<Rightarrow> string" where
  "Current idn = id_current idn"

definition Update_identity :: "string \<Rightarrow> identity \<Rightarrow> identity \<times> (identity_error + string)" where
  "Update_identity cs idn =
     (let normalized = normalize cs in
      if \<not> is_valid normalized then (idn, Inl (InvalidCallsign cs))
      else if id_current idn = normalized then (idn, Inr normalized)
      else (idn\<lparr>id_current := normalized, id_dirty := True\<rparr>, Inr normalized))"

text \<open>The two halves of SaveIfDirty, and the upsert of the only row.\<close>

definition identity_begin :: "identity \<Rightarrow> identity \<times> string option" where
  "identity_begin idn =
     (if \<not> id_db idn then (idn, None)
      else if \<not> id_dirty idn then (idn, None)
      else (idn\<lparr>id_dirty := False\<rparr>, Some (id_current idn)))"

definition identity_failed :: "string \<Rightarrow> identity \<Rightarrow> identity" where
  "identity_failed snapshot idn = idn\<lparr>id_dirty := True\<rparr>"

definition identity_write :: "string \<Rightarrow> string option \<Rightarrow> string option" where
  "identity_write snapshot row = Some snapshot"

section \<open>Facts\<close>

definition identity_change :: "string \<Rightarrow> identity \<Rightarrow> identity" where
  "identity_change cs idn = fst (Update_identity cs idn)"

text \<open>The callsign a restart would take from the row, with the configured fallback.\<close>

definition restart_callsign :: "string \<Rightarrow> string option \<Rightarrow> string" where
  "restart_callsign fallback row =
     (case NewSQLite_identity (Inr row) fallback of Inr idn \<Rightarrow> id_current idn | Inl _ \<Rightarrow> [])"

lemma restart_callsign_None: "restart_callsign fb None = normalize fb"
  by (simp add: restart_callsign_def NewSQLite_identity_def load_identity_def)

lemma restart_callsign_Some:
  "restart_callsign fb (Some v) = (if is_valid v then normalize v else normalize fb)"
  by (simp add: restart_callsign_def NewSQLite_identity_def load_identity_def Let_def)

lemma Update_identity_valid:
  "Update_identity cs idn = (idn', Inr v) \<Longrightarrow>
   v = normalize cs \<and> is_valid cs \<and> call_pattern v \<and> id_current idn' = v \<and> id_db idn' = id_db idn"
  by (auto simp: Update_identity_def Let_def is_valid_pattern split: if_splits)

definition identity_valid :: "identity \<Rightarrow> bool" where
  "identity_valid idn \<longleftrightarrow> is_valid (id_current idn) \<and> normalize (id_current idn) = id_current idn"

lemma identity_change_cases:
  "identity_change cs idn = idn \<or>
   id_dirty (identity_change cs idn) \<and> identity_valid (identity_change cs idn)
     \<and> id_db (identity_change cs idn) = id_db idn"
  by (auto simp: identity_change_def Update_identity_def Let_def identity_valid_def)

text \<open>A persistent identity is a dirty store; what matters is what a restart makes of the row.\<close>

definition identity_agrees :: "string \<Rightarrow> identity \<Rightarrow> string option \<Rightarrow> bool" where
  "identity_agrees fb idn row \<longleftrightarrow> id_db idn \<and> identity_valid idn \<and>
     (id_dirty idn \<or> restart_callsign fb row = id_current idn)"

interpretation station: dirty_store "identity_agrees fb" id_dirty id_current "restart_callsign fb"
  identity_change identity_begin identity_failed identity_write for fb
proof
  fix s d c assume a: "identity_agrees fb s d"
  then show "\<not> id_dirty s \<Longrightarrow> restart_callsign fb d = id_current s"
    by (simp add: identity_agrees_def)
  from a identity_change_cases [of c s] show "identity_agrees fb (identity_change c s) d"
    by (auto simp: identity_agrees_def)
  assume "id_dirty s"
  with a show "\<exists>s' v. identity_begin s = (s', Some v) \<and> \<not> id_dirty s' \<and> id_current s' = id_current s
      \<and> identity_agrees fb s' (identity_write v d)"
    by (simp add: identity_begin_def identity_agrees_def identity_write_def identity_valid_def
        restart_callsign_Some)
next
  fix s d and v :: string assume "identity_agrees fb s (identity_write v d)"
  then show "identity_agrees fb (identity_failed v s) d"
    by (simp add: identity_agrees_def identity_failed_def identity_valid_def)
qed (simp add: identity_begin_def)

lemma NewSQLite_agrees:
  "is_valid fb \<Longrightarrow> NewSQLite_identity (Inr row) fb = Inr idn \<Longrightarrow> identity_agrees fb idn row"
  by (cases row)
     (auto simp: NewSQLite_identity_def load_identity_def identity_agrees_def identity_valid_def
       restart_callsign_None restart_callsign_Some Let_def split: if_splits)

abbreviation station_run where
  "station_run \<equiv> save_run identity_change identity_begin identity_failed identity_write"

section \<open>Properties\<close>



text \<open>A save that begins, a change, a second whole save, and then the write of the first.\<close>

definition overlapping_saves :: "string \<Rightarrow> identity \<Rightarrow> string option \<Rightarrow> identity \<times> string option" where
  "overlapping_saves cs idn row =
     (let (idn1, first) = identity_begin idn;
          idn2 = identity_change cs idn1;
          (idn3, second) = identity_begin idn2;
          row1 = (case second of None \<Rightarrow> row | Some v \<Rightarrow> identity_write v row);
          row2 = (case first of None \<Rightarrow> row1 | Some v \<Rightarrow> identity_write v row1)
      in (idn3, row2))"

text \<open>SaveIfDirty is also called by the HTTP handlers, beside the periodic loop, and nothing orders the
  writes of two saves: a first save that writes after a second one puts the older callsign back in
  the table, with the memory no longer dirty. The change is then lost at the next restart.\<close>

theorem identity_overlapping_saves_lose_update:
  assumes "id_db idn" and "id_dirty idn" and "identity_valid idn"
    and "is_valid cs" and "normalize cs \<noteq> Current idn"
    and "overlapping_saves cs idn row = (idn', row')"
  shows "Current idn' = normalize cs \<and> \<not> id_dirty idn' \<and> restart_callsign fallback row' = Current idn"
  using assms
  by (auto simp: overlapping_saves_def identity_begin_def identity_change_def Update_identity_def
      Let_def Current_def identity_write_def restart_callsign_Some identity_valid_def split: if_splits)

theorem identity_overlapping_saves_witness:
  "restart_callsign ''AAA''
     (snd (overlapping_saves ''IU5PMP-3'' \<lparr>id_current = ''IU5PMP-2'', id_dirty = True, id_db = True\<rparr> None))
   = ''IU5PMP-2''"
proof -
  let ?i = "\<lparr>id_current = ''IU5PMP-2'', id_dirty = True, id_db = True\<rparr>"
  have v: "is_valid ''IU5PMP-2''" "normalize ''IU5PMP-2'' = ''IU5PMP-2''"
    "is_valid ''IU5PMP-3''" "normalize ''IU5PMP-3'' = ''IU5PMP-3''"
    by code_simp+
  show ?thesis
    using identity_overlapping_saves_lose_update [of ?i "''IU5PMP-3''" None "fst (overlapping_saves ''IU5PMP-3'' ?i None)"
        "snd (overlapping_saves ''IU5PMP-3'' ?i None)" "''AAA''"]
    by (simp add: v identity_valid_def Current_def)
qed

end
