(* ===== verification/ChannelShow.thy ===== *)
theory ChannelShow
  imports Persist Timestamps
begin

text \<open>
  internal/channelshow (store.go): which public channels the user interface shows. Its tables are
  channel_show (one row with the mode, or none) and channel_show_channels.
\<close>

record show_config =
  sc_Mode :: string
  sc_Channels :: "string list"

record show_store =
  ss_config :: show_config
  ss_dirty :: bool

record show_tables =
  st_mode :: "string option"
  st_channels :: "string list"

datatype show_error = InvalidMode string | InvalidChannel string

definition ModeAll :: string where "ModeAll = ''all''"
definition ModeAllowlist :: string where "ModeAllowlist = ''allowlist''"

definition DefaultConfig :: show_config where
  "DefaultConfig = \<lparr>sc_Mode = ModeAll, sc_Channels = []\<rparr>"

definition ValidChannel :: "string \<Rightarrow> bool" where
  "ValidChannel channel =
     (if channel = ''*'' then True else if channel = [] then False else list_all is_digit channel)"

text \<open>The loop of NormalizeChannels, with the channels seen so far.\<close>

fun normalize_channels :: "string list \<Rightarrow> string list \<Rightarrow> show_error + string list" where
  "normalize_channels seen [] = Inr []"
| "normalize_channels seen (raw # rest) =
     (let channel = trim_space raw in
      if \<not> ValidChannel channel then Inl (InvalidChannel raw)
      else if channel \<in> set seen then normalize_channels seen rest
      else (case normalize_channels (channel # seen) rest of
              Inl e \<Rightarrow> Inl e | Inr cs \<Rightarrow> Inr (channel # cs)))"

definition NormalizeChannels :: "string list \<Rightarrow> show_error + string list" where
  "NormalizeChannels channels = normalize_channels [] channels"

definition NormalizeShow :: "show_config \<Rightarrow> show_error + show_config" where
  "NormalizeShow config =
     (let given = to_lower (trim_space (sc_Mode config));
          mode = (if given = [] then (if sc_Channels config \<noteq> [] then ModeAllowlist else ModeAll)
                  else given)
      in if mode = ModeAll then Inr DefaultConfig
         else if mode = ModeAllowlist then
           (case NormalizeChannels (sc_Channels config) of
              Inl e \<Rightarrow> Inl e
            | Inr channels \<Rightarrow> Inr \<lparr>sc_Mode = ModeAllowlist, sc_Channels = channels\<rparr>)
         else Inl (InvalidMode (sc_Mode config)))"

text \<open>loadSQLite: SELECT mode, then SELECT channel ORDER BY channel.\<close>

definition load_show :: "show_tables \<Rightarrow> show_error + show_config" where
  "load_show tables =
     (let mode = (case st_mode tables of None \<Rightarrow> sc_Mode DefaultConfig | Some m \<Rightarrow> m) in
      NormalizeShow \<lparr>sc_Mode = mode, sc_Channels = sort (st_channels tables)\<rparr>)"

definition NewSQLite_show :: "show_tables \<Rightarrow> show_error + show_store" where
  "NewSQLite_show tables =
     (case load_show tables of
        Inl e \<Rightarrow> Inl e | Inr config \<Rightarrow> Inr \<lparr>ss_config = config, ss_dirty = False\<rparr>)"

definition Update_show :: "show_config \<Rightarrow> show_store \<Rightarrow> show_store \<times> (show_error + show_config)" where
  "Update_show config s =
     (case NormalizeShow config of
        Inl e \<Rightarrow> (s, Inl e)
      | Inr normalized \<Rightarrow>
          if ss_config s = normalized then (s, Inr (ss_config s))
          else (s\<lparr>ss_config := normalized, ss_dirty := True\<rparr>, Inr normalized))"

definition show_begin :: "show_store \<Rightarrow> show_store \<times> show_config option" where
  "show_begin s = (if \<not> ss_dirty s then (s, None) else (s\<lparr>ss_dirty := False\<rparr>, Some (ss_config s)))"

definition show_failed :: "show_config \<Rightarrow> show_store \<Rightarrow> show_store" where
  "show_failed snapshot s = s\<lparr>ss_dirty := True\<rparr>"

definition show_write :: "show_config \<Rightarrow> show_tables \<Rightarrow> show_tables" where
  "show_write config tables = \<lparr>st_mode = Some (sc_Mode config), st_channels = sc_Channels config\<rparr>"

section \<open>Normalised configurations\<close>

definition channels_ok :: "string list \<Rightarrow> bool" where
  "channels_ok cs \<longleftrightarrow> distinct cs \<and> list_all ValidChannel cs"

definition show_ok :: "show_config \<Rightarrow> bool" where
  "show_ok config \<longleftrightarrow> config = DefaultConfig \<or>
     sc_Mode config = ModeAllowlist \<and> channels_ok (sc_Channels config)"

lemma ValidChannel_trim: "ValidChannel c \<Longrightarrow> trim_space c = c"
proof -
  assume v: "ValidChannel c"
  have plain: "byte d \<notin> space_first \<and> byte d \<notin> space_last" if "is_digit d \<or> d = CHR ''*''" for d
    using that by (auto simp: is_digit_def space_first_def space_last_def)
  show ?thesis
  proof (cases "c = ''*''")
    case False
    with v have "c \<noteq> []" "list_all is_digit c" by (auto simp: ValidChannel_def split: if_splits)
    then have "is_digit (hd c)" "is_digit (last c)" by (simp_all add: list_all_iff)
    with plain show ?thesis by (intro trim_space_fix) blast
  next
    case True
    have "trim_space ''*'' = ''*''" by (rule trim_space_fix) (simp add: space_first_def space_last_def)
    with True show ?thesis by simp
  qed
qed

lemma normalize_channels_ok:
  "normalize_channels seen raw = Inr cs \<Longrightarrow> channels_ok cs \<and> set cs \<inter> set seen = {}"
proof (induction raw arbitrary: seen cs)
  case (Cons r rest)
  let ?c = "trim_space r"
  from Cons.prems have v: "ValidChannel ?c" by (auto simp: Let_def split: if_splits)
  show ?case
  proof (cases "?c \<in> set seen")
    case True
    with Cons.prems v have "normalize_channels seen rest = Inr cs" by (simp add: Let_def)
    then show ?thesis by (rule Cons.IH)
  next
    case False
    with Cons.prems v obtain ds where ds: "normalize_channels (?c # seen) rest = Inr ds" "cs = ?c # ds"
      by (auto simp: Let_def split: sum.splits)
    from Cons.IH [OF ds(1)] ds(2) v False show ?thesis by (auto simp: channels_ok_def)
  qed
qed (simp add: channels_ok_def)

lemma normalize_channels_fix:
  "channels_ok cs \<Longrightarrow> set cs \<inter> set seen = {} \<Longrightarrow> normalize_channels seen cs = Inr cs"
  by (induction cs arbitrary: seen) (auto simp: channels_ok_def ValidChannel_trim)

lemma allowlist_modes: "ModeAllowlist \<noteq> ModeAll" "ModeAllowlist \<noteq> []" "ModeAll \<noteq> []"
  "to_lower (trim_space ModeAllowlist) = ModeAllowlist" "to_lower (trim_space ModeAll) = ModeAll"
  by code_simp+

lemma NormalizeShow_ok: "NormalizeShow config = Inr c \<Longrightarrow> show_ok c"
  by (auto simp: NormalizeShow_def Let_def show_ok_def NormalizeChannels_def
      dest: normalize_channels_ok split: if_splits sum.splits)

lemma NormalizeShow_fix: "show_ok c \<Longrightarrow> NormalizeShow c = Inr c"
  by (auto simp: NormalizeShow_def show_ok_def allowlist_modes DefaultConfig_def NormalizeChannels_def
      normalize_channels_fix)

text \<open>A load returns the channels in the order of the table's text.\<close>

definition sorted_show :: "show_config \<Rightarrow> show_config" where
  "sorted_show c = c\<lparr>sc_Channels := sort (sc_Channels c)\<rparr>"

lemma sorted_show_ok: "show_ok c \<Longrightarrow> show_ok (sorted_show c)"
  by (auto simp: show_ok_def sorted_show_def channels_ok_def DefaultConfig_def list_all_iff)

lemma sorted_show_fields:
  "sorted_show c = \<lparr>sc_Mode = sc_Mode c, sc_Channels = sort (sc_Channels c)\<rparr>"
  by (simp add: sorted_show_def)

lemma load_show_write: "show_ok c \<Longrightarrow> load_show (show_write c t) = Inr (sorted_show c)"
  using NormalizeShow_fix [OF sorted_show_ok, of c]
  by (simp add: load_show_def show_write_def sorted_show_fields)

definition show_change :: "show_config \<Rightarrow> show_store \<Rightarrow> show_store" where
  "show_change config s = fst (Update_show config s)"

text \<open>Configurations are compared up to the order of the channels, which the table does not keep.\<close>

definition show_current :: "show_store \<Rightarrow> show_config" where
  "show_current s = sorted_show (ss_config s)"

definition show_restart :: "show_tables \<Rightarrow> show_config" where
  "show_restart t = (case load_show t of Inl _ \<Rightarrow> DefaultConfig | Inr c \<Rightarrow> sorted_show c)"

definition show_agrees :: "show_store \<Rightarrow> show_tables \<Rightarrow> bool" where
  "show_agrees s t \<longleftrightarrow> show_ok (ss_config s) \<and> (ss_dirty s \<or> show_restart t = show_current s)"

lemma sorted_show_idem [simp]: "sorted_show (sorted_show c) = sorted_show c"
  by (simp add: sorted_show_fields sort_key_id_if_sorted)

lemma Update_show_ok: "Update_show config s = (s', Inr c) \<Longrightarrow> ss_config s' = c \<and> show_ok c"
  using NormalizeShow_ok by (auto simp: Update_show_def split: sum.splits if_splits)

lemma show_change_cases:
  "show_change c s = s \<or> ss_dirty (show_change c s) \<and> show_ok (ss_config (show_change c s))"
  using NormalizeShow_ok by (auto simp: show_change_def Update_show_def split: sum.splits)

interpretation channelshow: dirty_store show_agrees ss_dirty show_current show_restart
  show_change show_begin show_failed show_write
proof
  fix s d c assume a: "show_agrees s d"
  then show "\<not> ss_dirty s \<Longrightarrow> show_restart d = show_current s" by (simp add: show_agrees_def)
  from a show_change_cases [of c s] show "show_agrees (show_change c s) d"
    by (auto simp: show_agrees_def)
  assume "ss_dirty s"
  with a show "\<exists>s' v. show_begin s = (s', Some v) \<and> \<not> ss_dirty s' \<and> show_current s' = show_current s
      \<and> show_agrees s' (show_write v d)"
    by (simp add: show_begin_def show_agrees_def show_restart_def show_current_def load_show_write)
next
  fix s d v assume "show_agrees s (show_write v d)"
  then show "show_agrees (show_failed v s) d" by (simp add: show_agrees_def show_failed_def)
qed (simp add: show_begin_def)

lemma NewSQLite_show_agrees: "NewSQLite_show t = Inr s \<Longrightarrow> show_agrees s t"
  by (auto simp: NewSQLite_show_def load_show_def show_agrees_def show_restart_def show_current_def
      NormalizeShow_ok split: sum.splits)

abbreviation show_run where
  "show_run \<equiv> save_run show_change show_begin show_failed show_write"

section \<open>Properties\<close>

text \<open>An accepted channel configuration is canonical: mode "all" without channels, or "allowlist" with
  distinct channels that are "*" or decimal numbers; normalising it again changes nothing, and
  writing it and loading it back gives the same configuration up to the order of the channels.\<close>

theorem channel_config_roundtrip:
  assumes "Update_show config s = (s', Inr accepted)"
  shows "ss_config s' = accepted \<and> show_ok accepted \<and> NormalizeShow accepted = Inr accepted \<and>
    load_show (show_write accepted tables) = Inr (sorted_show accepted)"
  using Update_show_ok [OF assms] by (simp add: NormalizeShow_fix load_show_write)

theorem channel_config_roundtrip_witness:
  "load_show (show_write \<lparr>sc_Mode = ''allowlist'', sc_Channels = [''9'', ''*'', ''10'']\<rparr>
     \<lparr>st_mode = None, st_channels = []\<rparr>)
   = Inr \<lparr>sc_Mode = ''allowlist'', sc_Channels = [''*'', ''10'', ''9'']\<rparr>"
proof -
  let ?c = "\<lparr>sc_Mode = ''allowlist'', sc_Channels = [''9'', ''*'', ''10'']\<rparr>"
  have n: "NormalizeShow \<lparr>sc_Mode = [], sc_Channels = [''9'', ''*'', ''9'', ''10'']\<rparr> = Inr ?c"
    by code_simp
  have "Update_show \<lparr>sc_Mode = [], sc_Channels = [''9'', ''*'', ''9'', ''10'']\<rparr>
      \<lparr>ss_config = DefaultConfig, ss_dirty = False\<rparr> = (\<lparr>ss_config = ?c, ss_dirty = True\<rparr>, Inr ?c)"
    using n by (simp add: Update_show_def DefaultConfig_def)
  from channel_config_roundtrip [OF this, of "\<lparr>st_mode = None, st_channels = []\<rparr>"]
  have "load_show (show_write ?c \<lparr>st_mode = None, st_channels = []\<rparr>) = Inr (sorted_show ?c)"
    by blast
  moreover have "sorted_show ?c = \<lparr>sc_Mode = ''allowlist'', sc_Channels = [''*'', ''10'', ''9'']\<rparr>"
    by code_simp
  ultimately show ?thesis by simp
qed

text \<open>The channel configuration survives failing writes: loaded from any valid tables, after any sequence
  of updates and saves of the periodic loop, a configuration not marked dirty is the one a restart
  reads, and one more successful save always makes that so.\<close>

theorem channel_config_durable:
  assumes "NewSQLite_show tables0 = Inr s0"
    and "show_run ops (s0, tables0, None) = (s, tables, None)"
  shows "(\<not> ss_dirty s \<longrightarrow> show_restart tables = show_current s) \<and>
    (\<exists>s' tables'. show_run [BeginSave, EndSave True] (s, tables, None) = (s', tables', None) \<and>
       show_current s' = show_current s \<and> show_restart tables' = show_current s)"
  using channelshow.durable [OF NewSQLite_show_agrees [OF assms(1)] assms(2)] by blast

theorem channel_config_durable_witness:
  "\<exists>s' tables'. show_run [BeginSave, EndSave True]
     (\<lparr>ss_config = \<lparr>sc_Mode = ''allowlist'', sc_Channels = [''9'']\<rparr>, ss_dirty = True\<rparr>,
      \<lparr>st_mode = None, st_channels = []\<rparr>, None) = (s', tables', None) \<and>
     show_restart tables' = \<lparr>sc_Mode = ''allowlist'', sc_Channels = [''9'']\<rparr>"
proof -
  let ?t = "\<lparr>st_mode = None, st_channels = []\<rparr>"
  let ?c = "\<lparr>sc_Mode = ''allowlist'', sc_Channels = [''9'']\<rparr>"
  let ?s0 = "\<lparr>ss_config = DefaultConfig, ss_dirty = False\<rparr>"
  have n: "NormalizeShow ?c = Inr ?c" by code_simp
  have l: "NewSQLite_show ?t = Inr ?s0" by code_simp
  have r: "show_run [Change ?c, BeginSave, EndSave False] (?s0, ?t, None)
    = (\<lparr>ss_config = ?c, ss_dirty = True\<rparr>, ?t, None)"
    using n by (simp add: show_change_def Update_show_def DefaultConfig_def show_begin_def show_failed_def)
  have "show_current \<lparr>ss_config = ?c, ss_dirty = True\<rparr> = ?c"
    by (simp add: show_current_def sorted_show_def)
  with channel_config_durable [OF l r] show ?thesis by auto
qed

end
