(* ===== verification/ChatIds.thy ===== *)
theory ChatIds
  imports Callsign Meshcom
begin

text \<open>
  Conversation identifiers: the naming functions of internal/chatlog (chatlog.go) and the key
  functions of internal/chatstatus (status.go) that must agree with them, and the sequence numbers
  chatlog reads in messages. A direct-message conversation is stored under the operator's base
  callsign (DM_base_peer), its read state under the full callsign (DM_call_peer).
\<close>

section \<open>Names (chatlog.go)\<close>

definition isNumeric :: "string \<Rightarrow> bool" where
  "isNumeric s \<longleftrightarrow> list_all is_digit s \<and> length s > 0"

definition IsDM :: "string \<Rightarrow> bool" where
  "IsDM dst \<longleftrightarrow> dst \<noteq> [] \<and> dst \<noteq> ''*'' \<and> \<not> isNumeric dst"

definition is_safe :: "char \<Rightarrow> bool" where
  "is_safe c \<longleftrightarrow> is_upper c \<or> is_lower c \<or> is_digit c \<or> c = CHR ''_'' \<or> c = CHR ''-''"

text \<open>Every rune outside the class becomes one underscore, then everything is uppercased.\<close>

definition replace_unsafe :: "string \<Rightarrow> string" where
  "replace_unsafe s = concat (map (\<lambda>r. if length r = 1 \<and> is_safe (hd r) then r else ''_'') (runes s))"

definition sanitize :: "string \<Rightarrow> string" where
  "sanitize s = to_upper (replace_unsafe s)"

definition BaseCall :: "string \<Rightarrow> string" where
  "BaseCall callsign =
     (case last_index_of CHR ''-'' callsign of
        None \<Rightarrow> callsign
      | Some i \<Rightarrow> if isNumeric (drop (i + 1) callsign) then take i callsign else callsign)"

definition jsonl :: string where "jsonl = ''.jsonl''"

definition filename :: "string \<Rightarrow> string" where
  "filename dst =
     (if dst = [] \<or> dst = ''*'' then ''P_broadcast'' @ jsonl
      else if isNumeric dst then ''P_'' @ dst @ jsonl
      else ''DM_'' @ sanitize dst @ jsonl)"

definition origin_of :: "string \<Rightarrow> string" where
  "origin_of src = to_upper (before CHR '','' src)"

definition filenameForMsg :: "string \<Rightarrow> string \<Rightarrow> string \<Rightarrow> string" where
  "filenameForMsg src dst myCall =
     (if \<not> IsDM dst then filename dst
      else if myCall = [] then filename dst
      else (let origin = origin_of src;
                dstUpper = to_upper dst;
                myBase = BaseCall myCall in
            if BaseCall origin \<noteq> myBase \<and> BaseCall dstUpper \<noteq> myBase then []
            else (let interlocutor = (if BaseCall dstUpper = myBase then origin else dstUpper) in
                  ''DM_'' @ sanitize (BaseCall myCall) @ ''_'' @ sanitize interlocutor @ jsonl)))"

definition ConversationID :: "string \<Rightarrow> string \<Rightarrow> string \<Rightarrow> string" where
  "ConversationID src dst myCall = trim_suffix jsonl (filenameForMsg src dst myCall)"

definition StatusKey :: "string \<Rightarrow> string \<Rightarrow> string \<Rightarrow> string" where
  "StatusKey src dst myCall0 =
     (if \<not> IsDM dst then trim_suffix jsonl (filename dst)
      else if myCall0 = [] then []
      else (let myCall = to_upper myCall0;
                origin = origin_of src;
                dstUpper = to_upper dst;
                myBase = BaseCall myCall in
            if BaseCall origin \<noteq> myBase \<and> BaseCall dstUpper \<noteq> myBase then []
            else (let interlocutor = (if BaseCall dstUpper = myBase then origin else dstUpper) in
                  ''DM_'' @ sanitize myCall @ ''_'' @ sanitize interlocutor)))"

definition FileIDForAPIID :: "string \<Rightarrow> string" where
  "FileIDForAPIID i =
     (if \<not> prefix ''DM_'' i then i
      else (let rest = drop 3 i in
            case index_of CHR ''_'' rest of
              None \<Rightarrow> i
            | Some idx \<Rightarrow> ''DM_'' @ sanitize (BaseCall (take idx rest)) @ ''_'' @ drop (idx + 1) rest))"

definition DMPeer :: "string \<Rightarrow> string" where
  "DMPeer i =
     (if \<not> prefix ''DM_'' i then []
      else (let rest = drop 3 i in
            case index_of CHR ''_'' rest of None \<Rightarrow> rest | Some idx \<Rightarrow> drop (idx + 1) rest))"

definition RecordMatchesSSID :: "string \<Rightarrow> string \<Rightarrow> string \<Rightarrow> bool" where
  "RecordMatchesSSID src dst ssid \<longleftrightarrow> origin_of src = to_upper ssid \<or> to_upper dst = to_upper ssid"

text \<open>The pattern of stored conversation ids.\<close>

definition id_char :: "char \<Rightarrow> bool" where
  "id_char c \<longleftrightarrow> is_upper c \<or> is_digit c \<or> c = CHR ''_'' \<or> c = CHR ''-''"

definition ValidConversationID :: "string \<Rightarrow> bool" where
  "ValidConversationID i \<longleftrightarrow>
     i = ''P_broadcast''
     \<or> prefix ''P_'' i \<and> drop 2 i \<noteq> [] \<and> list_all is_digit (drop 2 i)
     \<or> prefix ''DM_'' i \<and> drop 3 i \<noteq> [] \<and> list_all id_char (drop 3 i)"

section \<open>Sequence numbers in messages (chatlog.go)\<close>

definition seq_tail :: "string \<Rightarrow> string option" where
  "seq_tail s =
     (let ds = takeWhile is_digit s in
      if ds \<noteq> [] \<and> list_all is_re_space (dropWhile is_digit s) then Some ds else None)"

fun find_seq :: "string \<Rightarrow> string option" where
  "find_seq [] = None"
| "find_seq (c # s) =
     (if c = CHR ''{'' then (case seq_tail s of Some ds \<Rightarrow> Some ds | None \<Rightarrow> find_seq s) else find_seq s)"

definition messageSequenceID :: "string \<Rightarrow> string" where
  "messageSequenceID message = (case find_seq message of None \<Rightarrow> [] | Some ds \<Rightarrow> ds)"

definition ack_token :: "string \<Rightarrow> string option" where
  "ack_token s =
     (case keyword_digits ''ack'' s of Some ds \<Rightarrow> Some ds | None \<Rightarrow> digits_boundary s)"

datatype ack_status = NoAck | Ack | Reject

definition ackStatusAndSequenceID :: "string \<Rightarrow> ack_status \<times> string" where
  "ackStatusAndSequenceID message =
     (case find_token (keyword_digits ''rej'') message of
        Some ds \<Rightarrow> (Reject, ds)
      | None \<Rightarrow> (case find_token ack_token message of Some ds \<Rightarrow> (Ack, ds) | None \<Rightarrow> (NoAck, [])))"

text \<open>Origin and relays of a source path, trimmed and uppercased.\<close>

definition sourceOriginAndRelays :: "string \<Rightarrow> string \<times> string list" where
  "sourceOriginAndRelays source =
     (let parts = split_on CHR '','' source in
      (to_upper (trim_space (hd parts)),
       filter (\<lambda>r. r \<noteq> []) (map (\<lambda>p. to_upper (trim_space p)) (tl parts))))"

section \<open>Keys of the read state (chatstatus/status.go)\<close>

fun replace_status :: "string \<Rightarrow> string" where
  "replace_status [] = []"
| "replace_status (c # s) = (if c \<in> set [CHR 0x2F, CHR 0x5C, CHR '' ''] then CHR ''_'' else c) # replace_status s"

definition status_sanitize :: "string \<Rightarrow> string" where
  "status_sanitize value = replace_status (to_upper value)"

definition dmStatusKey :: "string \<Rightarrow> string \<Rightarrow> string \<Rightarrow> string" where
  "dmStatusKey conversationID src dst =
     (if \<not> prefix ''DM_'' conversationID then []
      else (let rest = trim_prefix ''DM_'' conversationID in
            case index_of CHR ''_'' rest of
              None \<Rightarrow> conversationID
            | Some idx \<Rightarrow>
                (let localBase = take idx rest; peer = drop (idx + 1) rest;
                     srcOrigin = origin_of src; dstUpper = to_upper dst in
                 if BaseCall srcOrigin = localBase
                 then ''DM_'' @ status_sanitize srcOrigin @ ''_'' @ status_sanitize peer
                 else if BaseCall dstUpper = localBase
                 then ''DM_'' @ status_sanitize dstUpper @ ''_'' @ status_sanitize peer
                 else conversationID)))"

section \<open>Facts on sanitised names\<close>

lemma safe_upper_id: "is_safe c \<Longrightarrow> id_char (upper_char c)"
  by (auto simp: is_safe_def id_char_def is_upper_def is_lower_def is_digit_def byte_upper_char
      upper_char_def)

lemma safe_underscore: "is_safe (CHR ''_'')"
  by (simp add: is_safe_def)

lemma replace_rune_safe:
  "c \<in> set (if length r = 1 \<and> is_safe (hd r) then r else ''_'') \<Longrightarrow> is_safe c"
  using safe_underscore by (cases r) (auto split: if_splits)

lemma replace_unsafe_safe: "c \<in> set (replace_unsafe s) \<Longrightarrow> is_safe c"
  unfolding replace_unsafe_def set_concat set_map using replace_rune_safe by blast

lemma safe_ascii: "is_safe c \<Longrightarrow> byte c < 128"
  by (auto simp: is_safe_def is_upper_def is_lower_def is_digit_def)

lemma replace_unsafe_ascii: "is_ascii (replace_unsafe s)"
  by (auto simp: is_ascii_def dest!: replace_unsafe_safe safe_ascii)

lemma sanitize_map: "sanitize s = map upper_char (replace_unsafe s)"
  by (simp add: sanitize_def to_upper_ascii replace_unsafe_ascii)

lemma sanitize_id_char: "list_all id_char (sanitize s)"
  by (auto simp: sanitize_map list_all_iff dest: replace_unsafe_safe safe_upper_id)

lemma sanitize_not_nil: "s \<noteq> [] \<Longrightarrow> sanitize s \<noteq> []"
  by (cases s) (auto simp: sanitize_map replace_unsafe_def)

lemma id_char_class:
  "id_char c \<Longrightarrow> \<not> is_lower c \<and> byte c < 128 \<and> is_safe c \<and> c \<notin> set [CHR 0x2F, CHR 0x5C, CHR '' '']"
  by (auto simp: id_char_def is_safe_def is_upper_def is_digit_def is_lower_def)

lemma id_char_upper: "list_all id_char s \<Longrightarrow> to_upper s = s"
  by (rule to_upper_upper) (auto simp: list_all_iff dest: id_char_class)

lemma sanitize_fix: "list_all id_char s \<Longrightarrow> sanitize s = s"
proof -
  assume s: "list_all id_char s"
  then have "is_ascii s" by (auto simp: is_ascii_def list_all_iff dest: id_char_class)
  then have "replace_unsafe s = concat (map (\<lambda>c. if is_safe c then [c] else ''_'') s)"
    by (simp add: replace_unsafe_def runes_ascii comp_def)
  also have "\<dots> = s"
    using s by (induction s) (auto dest: id_char_class)
  finally show ?thesis using s by (simp add: sanitize_def id_char_upper)
qed

lemma status_sanitize_fix: "list_all id_char s \<Longrightarrow> status_sanitize s = s"
proof -
  assume s: "list_all id_char s"
  then have "replace_status s = s" by (induction s) (auto dest: id_char_class)
  with s show ?thesis by (simp add: status_sanitize_def id_char_upper)
qed

lemma call_id_char: "call_pattern s \<Longrightarrow> list_all id_char s"
  using call_pattern_chars by (auto simp: list_all_iff id_char_def is_call_char_def)

lemma call_no_underscore: "call_pattern s \<Longrightarrow> CHR ''_'' \<notin> set s"
proof
  assume s: "call_pattern s" "CHR ''_'' \<in> set s"
  then have "is_call_char (CHR ''_'')" using call_pattern_chars by fastforce
  then show False by (simp add: is_call_char_def is_upper_def is_digit_def)
qed

lemma isNumeric_is_numeric: "isNumeric = is_numeric"
  by (auto simp: isNumeric_def is_numeric_def fun_eq_iff)

text \<open>The base of a callsign.\<close>

lemma BaseCall_base: "list_all is_call_char s \<Longrightarrow> BaseCall s = s"
proof -
  assume s: "list_all is_call_char s"
  then have "CHR ''-'' \<notin> set s" by (auto simp: list_all_iff dest: call_char_class)
  then have "last_index_of CHR ''-'' s = None" by simp
  then show ?thesis by (simp only: BaseCall_def option.case)
qed

lemma BaseCall_ssid:
  assumes "is_numeric d"
  shows "BaseCall (b @ CHR ''-'' # d) = b"
proof -
  have "CHR ''-'' \<notin> set d" using assms by (auto simp: is_numeric_def list_all_iff is_digit_def)
  then have "last_index_of CHR ''-'' (b @ CHR ''-'' # d) = Some (length b)" by simp
  with assms show ?thesis by (simp add: BaseCall_def isNumeric_is_numeric)
qed

lemma BaseCall_call:
  assumes "call_pattern s"
  shows "list_all is_call_char (BaseCall s) \<and> 3 \<le> length (BaseCall s) \<and> BaseCall (BaseCall s) = BaseCall s"
  using assms
  by (cases rule: call_pattern_cases) (simp_all add: BaseCall_base BaseCall_ssid)

lemma BaseCall_id_char: "call_pattern s \<Longrightarrow> list_all id_char (BaseCall s)"
  using BaseCall_call [of s] by (auto simp: list_all_iff id_char_def is_call_char_def)

lemma origin_of_call: "call_pattern s \<Longrightarrow> origin_of s = s"
proof -
  assume s: "call_pattern s"
  have "CHR '','' \<notin> set s"
  proof
    assume "CHR '','' \<in> set s"
    then have "is_call_char (CHR '','')" using call_pattern_chars [OF s] by fastforce
    then show False by (simp add: is_call_char_def is_upper_def is_digit_def)
  qed
  with s show ?thesis by (simp add: origin_of_def id_char_upper call_id_char)
qed

lemma filename_stem: "trim_suffix jsonl (filename dst) =
    (if dst = [] \<or> dst = ''*'' then ''P_broadcast''
     else if isNumeric dst then ''P_'' @ dst else ''DM_'' @ sanitize dst)"
  by (simp only: filename_def append_assoc [symmetric] trim_suffix_append if_distrib [of "trim_suffix jsonl"])

lemma ConversationID_P: "\<not> IsDM dst \<Longrightarrow> ConversationID src dst my =
    (if dst = [] \<or> dst = ''*'' then ''P_broadcast'' else ''P_'' @ dst)"
  by (auto simp: ConversationID_def filenameForMsg_def filename_stem IsDM_def)

lemma trim_suffix_nil: "trim_suffix jsonl [] = []"
  by (simp add: trim_suffix_def jsonl_def)

lemma ConversationID_DM:
  "IsDM dst \<Longrightarrow> my \<noteq> [] \<Longrightarrow> ConversationID src dst my =
     (if BaseCall (origin_of src) \<noteq> BaseCall my \<and> BaseCall (to_upper dst) \<noteq> BaseCall my then []
      else ''DM_'' @ sanitize (BaseCall my) @ ''_'' @ sanitize
        (if BaseCall (to_upper dst) = BaseCall my then origin_of src else to_upper dst))"
  by (simp only: ConversationID_def filenameForMsg_def Let_def append_assoc [symmetric]
      trim_suffix_append trim_suffix_nil if_distrib [of "trim_suffix jsonl"] simp_thms if_True if_False)

lemma ConversationID_DM_nil:
  "IsDM dst \<Longrightarrow> ConversationID src dst [] = ''DM_'' @ sanitize dst"
  by (simp add: ConversationID_def filenameForMsg_def filename_stem IsDM_def)

lemma StatusKey_DM:
  "IsDM dst \<Longrightarrow> my \<noteq> [] \<Longrightarrow> to_upper my = my \<Longrightarrow> StatusKey src dst my =
     (if BaseCall (origin_of src) \<noteq> BaseCall my \<and> BaseCall (to_upper dst) \<noteq> BaseCall my then []
      else ''DM_'' @ sanitize my @ ''_'' @ sanitize
        (if BaseCall (to_upper dst) = BaseCall my then origin_of src else to_upper dst))"
  by (simp add: StatusKey_def Let_def)

lemma call_not_nil: "call_pattern s \<Longrightarrow> s \<noteq> []"
  using call_pattern_ends by blast

text \<open>The two parts of an id DM_a_b whose first part has no underscore.\<close>

lemma dm_id_split:
  assumes "CHR ''_'' \<notin> set a"
  shows "index_of CHR ''_'' (drop 3 (''DM_'' @ a @ ''_'' @ b)) = Some (length a)"
    "take (length a) (drop 3 (''DM_'' @ a @ ''_'' @ b)) = a"
    "drop (length a + 1) (drop 3 (''DM_'' @ a @ ''_'' @ b)) = b"
    "trim_prefix ''DM_'' (''DM_'' @ a @ ''_'' @ b) = a @ ''_'' @ b"
    "prefix ''DM_'' (''DM_'' @ a @ ''_'' @ b)"
  using assms by (simp_all add: trim_prefix_def)

lemma conversation_id_shape:
  "ConversationID src dst myCall = [] \<or> ValidConversationID (ConversationID src dst myCall)"
proof (cases "IsDM dst")
  case False
  then show ?thesis
    by (auto simp: ConversationID_P ValidConversationID_def IsDM_def isNumeric_def)
next
  case True
  then have "sanitize dst \<noteq> []" by (intro sanitize_not_nil) (simp add: IsDM_def)
  then have nil: "ValidConversationID (''DM_'' @ sanitize dst)"
    by (simp add: ValidConversationID_def sanitize_id_char)
  have dm: "ValidConversationID (''DM_'' @ sanitize a @ ''_'' @ sanitize b)" for a b
    using sanitize_id_char by (simp add: ValidConversationID_def) (simp add: id_char_def)
  show ?thesis
  proof (cases "myCall = []")
    case True
    with \<open>IsDM dst\<close> nil show ?thesis by (simp only: ConversationID_DM_nil simp_thms)
  next
    case False
    then show ?thesis
      using dm by (auto simp only: ConversationID_DM [OF \<open>IsDM dst\<close> False] split: if_split)
  qed
qed


section \<open>Properties\<close>

text \<open>C40: Every conversation id the program derives from a message, whatever bytes the source and the
  destination hold, is empty (the message is not ours) or matches the pattern of stored ids: only
  A-Z, 0-9, hyphen and underscore after the prefix, so an id is safe in a file name, a query or a
  URL.\<close>

theorem conversation_id_valid:
  "ConversationID src dst myCall = [] \<or> ValidConversationID (ConversationID src dst myCall)"
  by (rule conversation_id_shape)

text \<open>C5: The two namings agree: for a station with a valid callsign, a message has a read-state key exactly
  when it has a conversation id, and the file id the API derives from the key (dropping the SSID of
  the caller) is the id of the conversation the message is stored in, so reading a conversation
  through its key finds the messages logged for it.\<close>

theorem status_key_leads_to_conversation:
  assumes my: "call_pattern myCall"
  shows "(StatusKey src dst myCall = [] \<longleftrightarrow> ConversationID src dst myCall = []) \<and>
    FileIDForAPIID (StatusKey src dst myCall) = ConversationID src dst myCall"
proof (cases "IsDM dst")
  case False
  then show ?thesis
    by (auto simp: ConversationID_P StatusKey_def filename_stem FileIDForAPIID_def IsDM_def)
next
  case True
  have up: "to_upper myCall = myCall" by (simp add: id_char_upper call_id_char my)
  have nu: "CHR ''_'' \<notin> set myCall" using call_no_underscore [OF my] .
  have s: "sanitize myCall = myCall" "sanitize (BaseCall myCall) = BaseCall myCall"
    using my by (simp_all add: sanitize_fix call_id_char BaseCall_id_char)
  have dm: "FileIDForAPIID (''DM_'' @ myCall @ ''_'' @ b) = ''DM_'' @ BaseCall myCall @ ''_'' @ b" for b
    by (simp only: FileIDForAPIID_def Let_def dm_id_split [OF nu] option.case s simp_thms if_False)
  note c = ConversationID_DM [OF True call_not_nil [OF my], of src, unfolded s]
    and k = StatusKey_DM [OF True call_not_nil [OF my] up, of src, unfolded s]
  show ?thesis
  proof (cases "BaseCall (origin_of src) \<noteq> BaseCall myCall \<and> BaseCall (to_upper dst) \<noteq> BaseCall myCall")
    case True
    then have "StatusKey src dst myCall = []" "ConversationID src dst myCall = []"
      by (simp_all only: c k simp_thms if_True)
    then show ?thesis by (simp add: FileIDForAPIID_def)
  next
    case False
    let ?p = "sanitize (if BaseCall (to_upper dst) = BaseCall myCall then origin_of src else to_upper dst)"
    from False have "StatusKey src dst myCall = ''DM_'' @ myCall @ ''_'' @ ?p"
      "ConversationID src dst myCall = ''DM_'' @ BaseCall myCall @ ''_'' @ ?p"
      by (simp_all only: c k if_False)
    with dm show ?thesis by (metis append_is_Nil_conv list.distinct(1))
  qed
qed

theorem status_key_leads_to_conversation_witness:
  "FileIDForAPIID (StatusKey ''IK5FCK-10,IZ5XYZ'' ''IU5PMP-1'' ''IU5PMP-1'')
     = ConversationID ''IK5FCK-10,IZ5XYZ'' ''IU5PMP-1'' ''IU5PMP-1''"
proof -
  have "call_pattern ''IU5PMP-1''" by code_simp
  from status_key_leads_to_conversation [OF this] show ?thesis by blast
qed

text \<open>The unread counters and the read marks use the same key: the key the status snapshot computes for a
  stored direct message, from its conversation id, source and destination, is the key under which
  the station marks it read, when the message is to this very callsign or was sent by it (a message
  for another SSID of the operator belongs to that device's key).\<close>

theorem snapshot_key_is_status_key:
  assumes my: "call_pattern myCall" and src: "call_pattern src" and dst: "call_pattern dst"
    and ours: "dst = myCall \<and> BaseCall src \<noteq> BaseCall myCall \<or>
      src = myCall \<and> BaseCall dst \<noteq> BaseCall myCall"
    and dm: "IsDM dst"
  shows "dmStatusKey (ConversationID src dst myCall) src dst = StatusKey src dst myCall"
proof -
  have up: "to_upper myCall = myCall" "to_upper src = src" "to_upper dst = dst"
    "origin_of src = src" "origin_of myCall = myCall"
    by (simp_all add: id_char_upper call_id_char origin_of_call my src dst)
  have s: "sanitize myCall = myCall" "sanitize (BaseCall myCall) = BaseCall myCall"
    "sanitize src = src" "sanitize dst = dst" "status_sanitize myCall = myCall"
    "status_sanitize src = src" "status_sanitize dst = dst"
    by (simp_all add: sanitize_fix status_sanitize_fix call_id_char BaseCall_id_char my src dst)
  have nu: "CHR ''_'' \<notin> set (BaseCall myCall)"
  proof
    assume "CHR ''_'' \<in> set (BaseCall myCall)"
    then have "is_call_char (CHR ''_'')" using BaseCall_call [OF my] by (simp add: list_all_iff)
    then show False by (simp add: is_call_char_def is_upper_def is_digit_def)
  qed
  let ?peer = "if BaseCall dst = BaseCall myCall then src else dst"
  have conv: "ConversationID src dst myCall = ''DM_'' @ BaseCall myCall @ ''_'' @ ?peer"
    and key: "StatusKey src dst myCall = ''DM_'' @ myCall @ ''_'' @ ?peer"
    using ours unfolding ConversationID_DM [OF dm call_not_nil [OF my], of src]
      StatusKey_DM [OF dm call_not_nil [OF my] up(1), of src] up s
    by (auto simp: s)
  have d: "dmStatusKey (''DM_'' @ BaseCall myCall @ ''_'' @ p) src dst =
      (if BaseCall src = BaseCall myCall then ''DM_'' @ src @ ''_'' @ status_sanitize p
       else if BaseCall dst = BaseCall myCall then ''DM_'' @ dst @ ''_'' @ status_sanitize p
       else ''DM_'' @ BaseCall myCall @ ''_'' @ p)" for p
    using dm_id_split [OF nu, of p] nu
    by (simp only: dmStatusKey_def Let_def up s simp_thms if_False append_Cons append_Nil
        index_of_first option.case) simp
  show ?thesis using ours unfolding conv key d by (auto simp: s)
qed

theorem snapshot_key_is_status_key_witness:
  "dmStatusKey (ConversationID ''IK5FCK-10'' ''IU5PMP-1'' ''IU5PMP-1'') ''IK5FCK-10'' ''IU5PMP-1''
     = StatusKey ''IK5FCK-10'' ''IU5PMP-1'' ''IU5PMP-1''"
proof (rule snapshot_key_is_status_key)
  show "''IU5PMP-1'' = ''IU5PMP-1'' \<and> BaseCall ''IK5FCK-10'' \<noteq> BaseCall ''IU5PMP-1'' \<or>
      ''IK5FCK-10'' = ''IU5PMP-1'' \<and> BaseCall ''IU5PMP-1'' \<noteq> BaseCall ''IU5PMP-1''"
    by code_simp
  show "call_pattern ''IU5PMP-1''" "call_pattern ''IK5FCK-10''" "call_pattern ''IU5PMP-1''"
    "IsDM ''IU5PMP-1''"
    by code_simp+
qed

end
