(* ===== verification/DmStats.thy ===== *)
theory DmStats
  imports ChatIds Persist
begin

text \<open>
  internal/dmstats (store.go): how many direct messages were sent to and acknowledged by each
  callsign, counted under the full callsign and, when it has a numeric SSID, under its base. The
  table dm_stats maps a callsign to its counters.
\<close>

record dm_entry =
  de_Sent :: int
  de_Ack :: int

record dm_store =
  dm_entries :: "string \<rightharpoonup> dm_entry"
  dm_dirty :: bool

type_synonym dm_table = "string \<rightharpoonup> dm_entry"

definition zero_entry :: dm_entry where
  "zero_entry = \<lparr>de_Sent = 0, de_Ack = 0\<rparr>"

definition NewSQLite_dm :: dm_store where
  "NewSQLite_dm = \<lparr>dm_entries = Map.empty, dm_dirty = False\<rparr>"

text \<open>callsignPair: the full callsign and its base.\<close>

definition callsignPair :: "string \<Rightarrow> string \<times> string" where
  "callsignPair destination =
     (let full = to_upper (trim_space destination) in (full, BaseCall full))"

text \<open>getOrCreate followed by the update of the entry.\<close>

definition update_entry :: "(dm_entry \<Rightarrow> dm_entry) \<Rightarrow> string \<Rightarrow> dm_store \<Rightarrow> dm_store" where
  "update_entry f key s =
     s\<lparr>dm_entries := (dm_entries s)(key \<mapsto> f (case dm_entries s key of None \<Rightarrow> zero_entry | Some e \<Rightarrow> e))\<rparr>"

definition count_pair :: "(dm_entry \<Rightarrow> dm_entry) \<Rightarrow> string \<Rightarrow> dm_store \<Rightarrow> dm_store" where
  "count_pair f destination s =
     (let (full, base) = callsignPair destination;
          s1 = update_entry f full s;
          s2 = (if base \<noteq> full then update_entry f base s1 else s1)
      in s2\<lparr>dm_dirty := True\<rparr>)"

definition RecordSent :: "string \<Rightarrow> dm_store \<Rightarrow> dm_store" where
  "RecordSent destination s = count_pair (\<lambda>e. e\<lparr>de_Sent := de_Sent e + 1\<rparr>) destination s"

definition RecordAck :: "string \<Rightarrow> dm_store \<Rightarrow> dm_store" where
  "RecordAck destination s = count_pair (\<lambda>e. e\<lparr>de_Ack := de_Ack e + 1\<rparr>) destination s"

definition Snapshot_dm :: "dm_store \<Rightarrow> (string \<rightharpoonup> dm_entry)" where
  "Snapshot_dm s = dm_entries s"

definition Load_dm :: "dm_table \<Rightarrow> dm_store \<Rightarrow> dm_store" where
  "Load_dm table s = s\<lparr>dm_entries := table, dm_dirty := False\<rparr>"

text \<open>The two halves of save; unlike the other stores it ignores a failed write.\<close>

definition dm_begin :: "dm_store \<Rightarrow> dm_store \<times> (string \<rightharpoonup> dm_entry) option" where
  "dm_begin s = (if \<not> dm_dirty s then (s, None) else (s\<lparr>dm_dirty := False\<rparr>, Some (dm_entries s)))"

definition dm_failed :: "(string \<rightharpoonup> dm_entry) \<Rightarrow> dm_store \<Rightarrow> dm_store" where
  "dm_failed snap s = s"

definition dm_write :: "(string \<rightharpoonup> dm_entry) \<Rightarrow> dm_table \<Rightarrow> dm_table" where
  "dm_write snap table = snap"

datatype dm_change = Sent string | Acked string

fun dm_apply :: "dm_change \<Rightarrow> dm_store \<Rightarrow> dm_store" where
  "dm_apply (Sent d) s = RecordSent d s"
| "dm_apply (Acked d) s = RecordAck d s"

section \<open>Counting\<close>

lemma count_pair_dirty [simp]: "dm_dirty (count_pair f d s)"
  by (simp add: count_pair_def Let_def split: prod.splits)

lemma count_pair_entries:
  "dm_entries (count_pair f d s) k =
     (if k = fst (callsignPair d) \<or> k = snd (callsignPair d)
      then Some (f (case dm_entries s k of None \<Rightarrow> zero_entry | Some e \<Rightarrow> e))
      else dm_entries s k)"
  by (auto simp: count_pair_def update_entry_def Let_def split: prod.splits)

definition sent_of :: "dm_store \<Rightarrow> string \<Rightarrow> int" where
  "sent_of s k = (case dm_entries s k of None \<Rightarrow> 0 | Some e \<Rightarrow> de_Sent e)"

definition ack_of :: "dm_store \<Rightarrow> string \<Rightarrow> int" where
  "ack_of s k = (case dm_entries s k of None \<Rightarrow> 0 | Some e \<Rightarrow> de_Ack e)"

text \<open>The operations of a list that concern key k.\<close>

definition concerns :: "string \<Rightarrow> string \<Rightarrow> bool" where
  "concerns k d \<longleftrightarrow> k = fst (callsignPair d) \<or> k = snd (callsignPair d)"

definition sents :: "string \<Rightarrow> dm_change list \<Rightarrow> dm_change list" where
  "sents k cs = filter (\<lambda>c. case c of Sent d \<Rightarrow> concerns k d | Acked d \<Rightarrow> False) cs"

definition acks :: "string \<Rightarrow> dm_change list \<Rightarrow> dm_change list" where
  "acks k cs = filter (\<lambda>c. case c of Sent d \<Rightarrow> False | Acked d \<Rightarrow> concerns k d) cs"

lemma dm_apply_counts:
  "sent_of (dm_apply c s) k = sent_of s k + int (length (sents k [c]))"
  "ack_of (dm_apply c s) k = ack_of s k + int (length (acks k [c]))"
  by (cases c; simp add: RecordSent_def RecordAck_def sent_of_def ack_of_def count_pair_entries
      sents_def acks_def concerns_def zero_entry_def split: option.splits)+

lemma sents_Cons: "length (sents k (c # cs)) = length (sents k [c]) + length (sents k cs)"
  and acks_Cons: "length (acks k (c # cs)) = length (acks k [c]) + length (acks k cs)"
  by (simp_all add: sents_def acks_def)

lemma dm_fold_counts:
  "sent_of (fold dm_apply cs s) k = sent_of s k + int (length (sents k cs))"
  "ack_of (fold dm_apply cs s) k = ack_of s k + int (length (acks k cs))"
proof (induction cs arbitrary: s)
  case (Cons c cs)
  case 1 show ?case using Cons(1) [of "dm_apply c s"] dm_apply_counts(1) [of c s k]
    by (simp add: sents_Cons [of k c cs])
  case 2 show ?case using Cons(2) [of "dm_apply c s"] dm_apply_counts(2) [of c s k]
    by (simp add: acks_Cons [of k c cs])
qed (simp_all add: sents_def acks_def)

section \<open>Saving\<close>

definition dm_agrees :: "dm_store \<Rightarrow> dm_table \<Rightarrow> bool" where
  "dm_agrees s table \<longleftrightarrow> dm_dirty s \<or> table = dm_entries s"

lemma dm_apply_dirty: "dm_dirty (dm_apply c s)"
  by (cases c) (simp_all add: RecordSent_def RecordAck_def)

interpretation dmstats: snapshot_store dm_agrees dm_dirty dm_entries "\<lambda>t. t"
  dm_apply dm_begin dm_failed dm_write
  by unfold_locales (auto simp: dm_agrees_def dm_apply_dirty dm_begin_def dm_write_def)

abbreviation dm_run where
  "dm_run \<equiv> save_run dm_apply dm_begin dm_failed dm_write"

lemma dm_clean_saves:
  "\<not> dm_dirty s \<Longrightarrow> dm_run (concat (replicate n [BeginSave, EndSave True])) (s, table, None)
     = (s, table, None)"
  by (induction n) (simp_all add: dm_begin_def)

section \<open>Properties\<close>

text \<open>The counters count: after any sequence of sent and acknowledged direct messages, the counter of a
  callsign has grown by the number of those whose destination, trimmed and uppercased, is that
  callsign or has it as its base. A destination without an SSID is counted once.\<close>

theorem dm_counters_exact:
  "sent_of (fold dm_apply changes s) k = sent_of s k + int (length (sents k changes)) \<and>
   ack_of (fold dm_apply changes s) k = ack_of s k + int (length (acks k changes))"
  by (simp add: dm_fold_counts)

text \<open>While no write fails, the counters are durable: with no save in flight and nothing marked dirty, the
  table holds the counters in memory, and one save makes it so.\<close>

theorem dm_durable_without_failures:
  assumes "no_failure ops" and "dm_run ops (Load_dm table0 s0, table0, None) = (s, table, None)"
  shows "\<not> dm_dirty s \<longrightarrow> table = dm_entries s"
  using dmstats.clean_run [of "Load_dm table0 s0" table0 ops s table] assms
  by (auto simp: dm_agrees_def Load_dm_def)

theorem dm_durable_without_failures_witness:
  "dm_run [BeginSave, EndSave True]
     (Load_dm Map.empty NewSQLite_dm, Map.empty, None) = (NewSQLite_dm, Map.empty, None) \<and>
   (\<not> dm_dirty NewSQLite_dm \<longrightarrow> Map.empty = dm_entries NewSQLite_dm)"
proof -
  have r: "dm_run [BeginSave, EndSave True] (Load_dm Map.empty NewSQLite_dm, Map.empty, None)
    = (NewSQLite_dm, Map.empty, None)"
    by (simp add: Load_dm_def NewSQLite_dm_def dm_begin_def)
  from dm_durable_without_failures [OF _ r] r show ?thesis by simp
qed

text \<open>A failed write loses counters: save has already cleared the dirty mark and does not set it again
  (the other stores do), so after one failure every later save finds nothing to do and the table
  keeps its old content, until the next message happens to be counted.\<close>

theorem dm_failed_save_forgets:
  assumes "dm_dirty s"
  shows "dm_run ([BeginSave, EndSave False] @ concat (replicate n [BeginSave, EndSave True])) (s, table, None)
    = (s\<lparr>dm_dirty := False\<rparr>, table, None)"
  using assms dm_clean_saves [of "s\<lparr>dm_dirty := False\<rparr>" n table]
  by (simp add: dm_begin_def dm_failed_def)

theorem dm_failed_save_forgets_witness:
  "dm_run ([BeginSave, EndSave False] @ concat (replicate 5 [BeginSave, EndSave True]))
     (RecordSent ''IU5PMP-1'' NewSQLite_dm, Map.empty, None)
   = ((RecordSent ''IU5PMP-1'' NewSQLite_dm)\<lparr>dm_dirty := False\<rparr>, Map.empty, None)"
  by (rule dm_failed_save_forgets) (simp add: RecordSent_def)

end
