(* ===== verification/Stats.thy ===== *)
theory Stats
  imports Complex_Main ChatIds Persist Timestamps "HOL-Library.AList"
begin

text \<open>
  internal/stats: hourly counters of received packets (store.go), the histogram of distances
  (distance.go) and their tables. Go maps are association lists with distinct keys, since the code
  ranges over them; a nil map is the empty list. A distance is the rational number its float64
  denotes; the haversine formula itself is floating point and stays a parameter of the collector.
\<close>

section \<open>Buckets (store.go)\<close>

record bucket =
  b_HourUnix :: int
  b_DM :: int
  b_DMAck :: int
  b_Public :: int
  b_Telemetry :: int
  b_Position :: int
  b_Errors :: int
  b_Total :: int
  b_DistanceKm :: "(string \<times> int) list"
  b_Channels :: "(string \<times> int) list"

datatype kind = KindDM | KindPublic | KindTelemetry | KindPosition | KindError

record stats_store =
  sts_retentionDays :: int
  sts_buckets :: "(int \<times> bucket) list"
  sts_dirty :: bool

definition empty_bucket :: "int \<Rightarrow> bucket" where
  "empty_bucket h = \<lparr>b_HourUnix = h, b_DM = 0, b_DMAck = 0, b_Public = 0, b_Telemetry = 0,
     b_Position = 0, b_Errors = 0, b_Total = 0, b_DistanceKm = [], b_Channels = []\<rparr>"

definition NewSQLite_stats :: "int \<Rightarrow> stats_store" where
  "NewSQLite_stats retentionDays =
     \<lparr>sts_retentionDays = retentionDays, sts_buckets = [], sts_dirty = False\<rparr>"

definition hourKey :: "gotime \<Rightarrow> int" where
  "hourKey t = t div hour * 3600 - unix_epoch"

text \<open>now.Add(-days * 24h).Unix(); the product is a 64-bit duration.\<close>

definition cutoffUnix :: "gotime \<Rightarrow> stats_store \<Rightarrow> int" where
  "cutoffUnix now s =
     (if sts_retentionDays s \<le> 0 then 0
      else unix (now + wrap64 (wrap64 (- sts_retentionDays s * 24) * hour)))"

definition getOrCreate :: "int \<Rightarrow> stats_store \<Rightarrow> bucket" where
  "getOrCreate h s = (case map_of (sts_buckets s) h of None \<Rightarrow> empty_bucket h | Some b \<Rightarrow> b)"

definition put_bucket :: "int \<Rightarrow> bucket \<Rightarrow> stats_store \<Rightarrow> stats_store" where
  "put_bucket h b s = s\<lparr>sts_buckets := AList.update h b (sts_buckets s), sts_dirty := True\<rparr>"

definition bump :: "string \<Rightarrow> (string \<times> int) list \<Rightarrow> (string \<times> int) list" where
  "bump k m = AList.update k ((case map_of m k of None \<Rightarrow> 0 | Some n \<Rightarrow> n) + 1) m"

section \<open>Distances (distance.go)\<close>

definition go_int :: "rat \<Rightarrow> int" where
  "go_int x = (if 0 \<le> x then \<lfloor>x\<rfloor> else \<lceil>x\<rceil>)"

definition DistanceBucketLabel :: "rat \<Rightarrow> string" where
  "DistanceBucketLabel km =
     (if km \<ge> 100 then itoa_int 100 @ ''+''
      else (let bin = go_int (km / 5); lo = bin * 5; hi = lo + 5 in
            itoa_int lo @ ''-'' @ itoa_int hi))"

definition distanceRange :: "string \<Rightarrow> (int \<times> int) option" where
  "distanceRange label =
     (if suffix ''+'' label then map_option (\<lambda>start. (start, start + 5)) (atoi (trim_suffix ''+'' label))
      else (case split_on CHR ''-'' label of
              [a, b] \<Rightarrow> (case atoi a of None \<Rightarrow> None
                 | Some start \<Rightarrow> (case atoi b of None \<Rightarrow> None | Some end_km \<Rightarrow> Some (start, end_km)))
            | _ \<Rightarrow> None))"

definition distanceLabel :: "int \<Rightarrow> int \<Rightarrow> string" where
  "distanceLabel start end_km =
     (if start \<ge> 100 then itoa_int start @ ''+'' else itoa_int start @ ''-'' @ itoa_int end_km)"

definition channelParts :: "string \<Rightarrow> string \<times> string" where
  "channelParts key =
     (if key = ''broadcast'' then (''broadcast'', ''*'')
      else if prefix ''ch:'' key then (''channel'', trim_prefix ''ch:'' key)
      else if prefix ''dm:'' key then (''dm'', trim_prefix ''dm:'' key)
      else (''channel'', key))"

definition channelKey :: "string \<Rightarrow> string \<Rightarrow> string" where
  "channelKey k target =
     (if k = ''broadcast'' then ''broadcast''
      else if k = ''dm'' then ''dm:'' @ target else ''ch:'' @ target)"

section \<open>Recording and reading\<close>

fun count_kind :: "kind \<Rightarrow> rat option \<Rightarrow> bucket \<Rightarrow> bucket" where
  "count_kind KindDM d b = b\<lparr>b_DM := b_DM b + 1, b_Total := b_Total b + 1\<rparr>"
| "count_kind KindPublic d b = b\<lparr>b_Public := b_Public b + 1, b_Total := b_Total b + 1\<rparr>"
| "count_kind KindTelemetry d b = b\<lparr>b_Telemetry := b_Telemetry b + 1, b_Total := b_Total b + 1\<rparr>"
| "count_kind KindPosition d b =
     b\<lparr>b_Position := b_Position b + 1, b_Total := b_Total b + 1,
       b_DistanceKm := (case d of None \<Rightarrow> b_DistanceKm b
          | Some km \<Rightarrow> bump (DistanceBucketLabel km) (b_DistanceKm b))\<rparr>"
| "count_kind KindError d b = b\<lparr>b_Errors := b_Errors b + 1\<rparr>"

definition RecordPacket :: "kind \<Rightarrow> gotime \<Rightarrow> rat option \<Rightarrow> stats_store \<Rightarrow> stats_store" where
  "RecordPacket k receivedAt distanceKm s =
     (let h = hourKey receivedAt in put_bucket h (count_kind k distanceKm (getOrCreate h s)) s)"

definition RecordDMAck :: "gotime \<Rightarrow> stats_store \<Rightarrow> stats_store" where
  "RecordDMAck receivedAt s =
     (let h = hourKey receivedAt; b = getOrCreate h s in put_bucket h (b\<lparr>b_DMAck := b_DMAck b + 1\<rparr>) s)"

definition RecordChannel :: "string \<Rightarrow> gotime \<Rightarrow> stats_store \<Rightarrow> stats_store" where
  "RecordChannel key receivedAt s =
     (if key = [] then s
      else (let h = hourKey receivedAt; b = getOrCreate h s in
            put_bucket h (b\<lparr>b_Channels := bump key (b_Channels b)\<rparr>) s))"

definition ReadRange :: "gotime \<Rightarrow> gotime \<Rightarrow> stats_store \<Rightarrow> bucket list" where
  "ReadRange from_t to_t s =
     (let fromKey = hourKey from_t; toKey = hourKey to_t in
      sort_key b_HourUnix
        (map snd (filter (\<lambda>(k, b). k \<ge> fromKey \<and> k \<le> toKey) (sts_buckets s))))"

definition pruneExpired :: "gotime \<Rightarrow> stats_store \<Rightarrow> stats_store" where
  "pruneExpired now s =
     (let cutoff = cutoffUnix now s;
          keep = filter (\<lambda>(k, b). \<not> k < cutoff) (sts_buckets s) in
      s\<lparr>sts_buckets := keep, sts_dirty := (sts_dirty s \<or> length keep < length (sts_buckets s))\<rparr>)"

section \<open>Tables\<close>

record stats_tables =
  tb_hourly :: "bucket list"
  tb_channels :: "(int \<times> string \<times> string \<times> int) list"
  tb_distance :: "(int \<times> int \<times> int \<times> int) list"

definition empty_tables :: stats_tables where
  "empty_tables = \<lparr>tb_hourly = [], tb_channels = [], tb_distance = []\<rparr>"

text \<open>A row of stats_hourly is a bucket without its maps.\<close>

definition hourly_row :: "bucket \<Rightarrow> bucket" where
  "hourly_row b = b\<lparr>b_DistanceKm := [], b_Channels := []\<rparr>"

text \<open>
  The inserts, with the constraints of the schema: primary keys (hour_unix), (hour_unix, kind,
  target) and (hour_unix, bucket_start_km), and the checks of stats_distance.
\<close>

definition insert_channel :: "int \<Rightarrow> string \<times> int \<Rightarrow> stats_tables \<Rightarrow> stats_tables option" where
  "insert_channel h kc t =
     (let (k, target) = channelParts (fst kc) in
      if \<exists>r \<in> set (tb_channels t). fst r = h \<and> fst (snd r) = k \<and> fst (snd (snd r)) = target then None
      else Some (t\<lparr>tb_channels := tb_channels t @ [(h, k, target, snd kc)]\<rparr>))"

definition insert_distance :: "int \<Rightarrow> string \<times> int \<Rightarrow> stats_tables \<Rightarrow> stats_tables option" where
  "insert_distance h lc t =
     (case distanceRange (fst lc) of None \<Rightarrow> None
      | Some (start, end_km) \<Rightarrow>
          if start < 0 \<or> end_km \<noteq> start + 5
             \<or> (\<exists>r \<in> set (tb_distance t). fst r = h \<and> fst (snd r) = start) then None
          else Some (t\<lparr>tb_distance := tb_distance t @ [(h, start, end_km, snd lc)]\<rparr>))"

fun insert_all :: "('a \<Rightarrow> 't \<Rightarrow> 't option) \<Rightarrow> 'a list \<Rightarrow> 't \<Rightarrow> 't option" where
  "insert_all ins [] t = Some t"
| "insert_all ins (x # xs) t = (case ins x t of None \<Rightarrow> None | Some t' \<Rightarrow> insert_all ins xs t')"

definition insertSQLiteBucket :: "bucket \<Rightarrow> stats_tables \<Rightarrow> stats_tables option" where
  "insertSQLiteBucket b t =
     (let h = b_HourUnix b in
      if \<exists>r \<in> set (tb_hourly t). b_HourUnix r = h then None
      else (case insert_all (insert_channel h) (b_Channels b)
                   (t\<lparr>tb_hourly := tb_hourly t @ [hourly_row b]\<rparr>) of
              None \<Rightarrow> None
            | Some t' \<Rightarrow> insert_all (insert_distance h) (b_DistanceKm b) t'))"

text \<open>DELETE of the three tables, then the inserts, in one transaction.\<close>

definition writeSQLiteStats :: "(int \<times> bucket) list \<Rightarrow> stats_tables option" where
  "writeSQLiteStats buckets = insert_all insertSQLiteBucket (map snd buckets) empty_tables"

definition load_channel_row :: "int \<times> string \<times> string \<times> int \<Rightarrow> bucket \<Rightarrow> bucket" where
  "load_channel_row r b =
     (case r of (h, k, target, n) \<Rightarrow> if h = b_HourUnix b
        then b\<lparr>b_Channels := AList.update (channelKey k target) n (b_Channels b)\<rparr> else b)"

definition load_distance_row :: "int \<times> int \<times> int \<times> int \<Rightarrow> bucket \<Rightarrow> bucket" where
  "load_distance_row r b =
     (case r of (h, start, end_km, n) \<Rightarrow> if h = b_HourUnix b
        then b\<lparr>b_DistanceKm := AList.update (distanceLabel start end_km) n (b_DistanceKm b)\<rparr> else b)"

definition load_channels :: "stats_tables \<Rightarrow> bucket \<Rightarrow> bucket" where
  "load_channels t b = fold load_channel_row (tb_channels t) b"

definition load_distance :: "stats_tables \<Rightarrow> bucket \<Rightarrow> bucket" where
  "load_distance t b = fold load_distance_row (tb_distance t) b"

text \<open>loadSQLite: the buckets at or after the cutoff, each filled from the other two tables.\<close>

definition load_stats :: "int \<Rightarrow> stats_tables \<Rightarrow> (int \<times> bucket) list" where
  "load_stats cutoff t =
     map (\<lambda>b. (b_HourUnix b, load_distance t (load_channels t b)))
       (filter (\<lambda>b. b_HourUnix b \<ge> cutoff) (tb_hourly t))"

text \<open>The two halves of save; a failed write is only reported.\<close>

definition stats_begin :: "stats_store \<Rightarrow> stats_store \<times> (int \<times> bucket) list option" where
  "stats_begin s =
     (if \<not> sts_dirty s then (s, None) else (s\<lparr>sts_dirty := False\<rparr>, Some (sts_buckets s)))"

definition stats_failed :: "(int \<times> bucket) list \<Rightarrow> stats_store \<Rightarrow> stats_store" where
  "stats_failed snap s = s"

definition stats_write :: "(int \<times> bucket) list \<Rightarrow> stats_tables \<Rightarrow> stats_tables" where
  "stats_write snap t = (case writeSQLiteStats snap of None \<Rightarrow> t | Some t' \<Rightarrow> t')"

section \<open>The invariant of the buckets\<close>

definition bucket_ok :: "bucket \<Rightarrow> bool" where
  "bucket_ok b \<longleftrightarrow> b_Total b = b_DM b + b_Public b + b_Telemetry b + b_Position b \<and>
     0 \<le> b_DM b \<and> 0 \<le> b_DMAck b \<and> 0 \<le> b_Public b \<and> 0 \<le> b_Telemetry b \<and> 0 \<le> b_Position b \<and>
     0 \<le> b_Errors b \<and> distinct (map fst (b_Channels b)) \<and> distinct (map fst (b_DistanceKm b))"

definition buckets_ok :: "(int \<times> bucket) list \<Rightarrow> bool" where
  "buckets_ok bs \<longleftrightarrow> distinct (map fst bs) \<and> (\<forall>(h, b) \<in> set bs. b_HourUnix b = h \<and> bucket_ok b)"

lemma bump_distinct [simp]: "distinct (map fst m) \<Longrightarrow> distinct (map fst (bump k m))"
  by (simp add: bump_def distinct_update)

lemma getOrCreate_ok:
  "buckets_ok (sts_buckets s) \<Longrightarrow> bucket_ok (getOrCreate h s) \<and> b_HourUnix (getOrCreate h s) = h"
  by (auto simp: getOrCreate_def buckets_ok_def empty_bucket_def bucket_ok_def
      dest!: map_of_SomeD split: option.splits)

lemma set_AList_update: "(k', v') \<in> set (AList.update k v al) \<Longrightarrow> (k', v') = (k, v) \<or> (k', v') \<in> set al"
  by (induction al) (auto split: if_splits)

lemma put_bucket_ok:
  "buckets_ok (sts_buckets s) \<Longrightarrow> bucket_ok b \<Longrightarrow> b_HourUnix b = h \<Longrightarrow>
   buckets_ok (sts_buckets (put_bucket h b s))"
  by (auto simp: buckets_ok_def put_bucket_def distinct_update dest!: set_AList_update)

lemma count_kind_ok:
  "bucket_ok b \<Longrightarrow> bucket_ok (count_kind k d b) \<and> b_HourUnix (count_kind k d b) = b_HourUnix b"
  by (cases k; cases d) (auto simp: bucket_ok_def)

datatype stats_change =
    Packet kind gotime "rat option"
  | DMAck gotime
  | Channel string gotime
  | Prune gotime

fun stats_apply :: "stats_change \<Rightarrow> stats_store \<Rightarrow> stats_store" where
  "stats_apply (Packet k t d) s = RecordPacket k t d s"
| "stats_apply (DMAck t) s = RecordDMAck t s"
| "stats_apply (Channel key t) s = RecordChannel key t s"
| "stats_apply (Prune t) s = pruneExpired t s"

lemma bucket_ok_updates:
  "bucket_ok b \<Longrightarrow> bucket_ok (b\<lparr>b_DMAck := b_DMAck b + 1\<rparr>)"
  "bucket_ok b \<Longrightarrow> bucket_ok (b\<lparr>b_Channels := bump key (b_Channels b)\<rparr>)"
  by (simp_all add: bucket_ok_def)

lemma stats_apply_ok:
  assumes ok: "buckets_ok (sts_buckets s)"
  shows "buckets_ok (sts_buckets (stats_apply c s))"
proof (cases c)
  case (Prune t)
  with ok show ?thesis
    by (auto simp: pruneExpired_def Let_def buckets_ok_def distinct_map_filter)
next
  case (Packet k t d)
  with ok getOrCreate_ok [OF ok, of "hourKey t"] show ?thesis
    using count_kind_ok by (auto simp: RecordPacket_def Let_def intro!: put_bucket_ok)
next
  case (DMAck t)
  with ok getOrCreate_ok [OF ok, of "hourKey t"] show ?thesis
    by (auto simp: RecordDMAck_def Let_def intro!: put_bucket_ok bucket_ok_updates)
next
  case (Channel key t)
  with ok getOrCreate_ok [OF ok, of "hourKey t"] show ?thesis
    by (auto simp: RecordChannel_def Let_def intro!: put_bucket_ok bucket_ok_updates)
qed

lemma stats_fold_ok: "buckets_ok (sts_buckets s) \<Longrightarrow> buckets_ok (sts_buckets (fold stats_apply cs s))"
  by (induction cs arbitrary: s) (simp_all add: stats_apply_ok)

section \<open>Labels and keys survive the tables\<close>

lemma itoa_int_nonneg: "0 \<le> i \<Longrightarrow> itoa_int i = itoa (nat i)"
  by (simp add: itoa_int_def)

lemma itoa_no_char: "\<not> is_digit c \<Longrightarrow> c \<notin> set (itoa n)"
  using set_itoa by blast

lemma atoi_itoa_small: "n \<le> 1000 \<Longrightarrow> atoi (itoa n) = Some (int n)"
  by (rule atoi_itoa) (simp add: max_int64_def)

lemma distance_label_range:
  assumes "0 \<le> km"
  shows "\<exists>n \<le> 20. distanceRange (DistanceBucketLabel km) = Some (5 * int n, 5 * int n + 5) \<and>
    distanceLabel (5 * int n) (5 * int n + 5) = DistanceBucketLabel km"
proof (cases "km \<ge> 100")
  case True
  have "suffix ''+'' (itoa 100 @ ''+'')" by (rule suffixI) simp
  then have "distanceRange (itoa 100 @ ''+'') = Some (100, 105)"
    by (simp only: distanceRange_def if_True trim_suffix_append atoi_itoa_small) (simp add: atoi_itoa_small)
  with True show ?thesis
    by (intro exI [of _ 20]) (simp add: DistanceBucketLabel_def distanceLabel_def itoa_int_nonneg)
next
  case False
  let ?n = "nat (go_int (km / 5))"
  have f: "0 \<le> go_int (km / 5)" "go_int (km / 5) < 20"
    using assms False by (simp_all add: go_int_def floor_less_iff)
  then have n: "int ?n = go_int (km / 5)" "?n < 20" by auto
  let ?a = "itoa (5 * ?n)" and ?b = "itoa (5 * ?n + 5)"
  have l: "DistanceBucketLabel km = ?a @ CHR ''-'' # ?b"
    using False n f(1) by (simp add: DistanceBucketLabel_def Let_def itoa_int_nonneg nat_add_distrib
        nat_mult_distrib mult.commute)
  have nd: "CHR ''-'' \<notin> set ?a" "CHR ''-'' \<notin> set ?b" "CHR ''+'' \<notin> set ?a" "CHR ''+'' \<notin> set ?b"
    by (intro itoa_no_char; simp add: is_digit_def)+
  then have "\<not> suffix ''+'' (?a @ CHR ''-'' # ?b)"
    by (auto simp: suffix_def dest: arg_cong [where f = set])
       (metis itoa_not_nil last_appendR last_in_set last_snoc list.distinct(1) last_ConsR)
  then have "distanceRange (DistanceBucketLabel km) = Some (5 * int ?n, 5 * int ?n + 5)"
    using n(2) nd unfolding l
    by (simp add: distanceRange_def split_on_sep split_on_no_sep atoi_itoa_small)
  moreover have "distanceLabel (5 * int ?n) (5 * int ?n + 5) = DistanceBucketLabel km"
  proof -
    have "5 * int ?n < 100" "nat (5 * int ?n) = 5 * ?n" "nat (5 * int ?n + 5) = 5 * ?n + 5"
      using n(2) by linarith+
    then show ?thesis unfolding l by (simp add: distanceLabel_def itoa_int_nonneg)
  qed
  ultimately show ?thesis using n(2) by (intro exI [of _ ?n]) simp
qed

definition chan_key_ok :: "string \<Rightarrow> bool" where
  "chan_key_ok k \<longleftrightarrow> k = ''broadcast'' \<or> prefix ''ch:'' k \<or> prefix ''dm:'' k"

lemma channel_key_parts: "chan_key_ok k \<Longrightarrow> channelKey (fst (channelParts k)) (snd (channelParts k)) = k"
  by (auto simp: chan_key_ok_def channelKey_def channelParts_def trim_prefix_def prefix_def)

definition label_ok :: "string \<Rightarrow> bool" where
  "label_ok l \<longleftrightarrow> (\<exists>km \<ge> 0. l = DistanceBucketLabel km)"

lemma label_range:
  assumes "label_ok l"
  obtains n where "distanceRange l = Some (n, n + 5)" "0 \<le> n" "distanceLabel n (n + 5) = l"
  using assms distance_label_range unfolding label_ok_def by (metis of_nat_0_le_iff of_nat_mult of_nat_numeral)

section \<open>Writing and loading\<close>

text \<open>What the collector records: known keys, labels of real distances.\<close>

definition bucket_storable :: "bucket \<Rightarrow> bool" where
  "bucket_storable b \<longleftrightarrow> bucket_ok b \<and> (\<forall>k \<in> set (map fst (b_Channels b)). chan_key_ok k)
     \<and> (\<forall>l \<in> set (map fst (b_DistanceKm b)). label_ok l)"

lemma insert_channels:
  assumes "distinct (map fst m)" and "\<forall>k \<in> set (map fst m). chan_key_ok k"
    and "\<forall>r \<in> set (tb_channels t). fst r = h \<longrightarrow>
          channelKey (fst (snd r)) (fst (snd (snd r))) \<notin> set (map fst m)"
  shows "insert_all (insert_channel h) m t = Some (t\<lparr>tb_channels := tb_channels t
      @ map (\<lambda>(k, n). (h, fst (channelParts k), snd (channelParts k), n)) m\<rparr>)"
  using assms
proof (induction m arbitrary: t)
  case (Cons kn m)
  obtain k n where kn: "kn = (k, n)" by (cases kn)
  let ?t = "t\<lparr>tb_channels := tb_channels t @ [(h, fst (channelParts k), snd (channelParts k), n)]\<rparr>"
  have "insert_channel h kn t = Some ?t"
    using Cons.prems(2,3) kn channel_key_parts [of k]
    by (auto simp: insert_channel_def split: prod.splits)
  moreover have "insert_all (insert_channel h) m ?t = Some (?t\<lparr>tb_channels := tb_channels ?t
      @ map (\<lambda>(k, n). (h, fst (channelParts k), snd (channelParts k), n)) m\<rparr>)"
    using Cons.prems kn channel_key_parts [of k] by (intro Cons.IH) auto
  ultimately show ?case using kn by simp
qed simp

definition range_of :: "string \<Rightarrow> int \<times> int" where
  "range_of l = the (distanceRange l)"

lemma range_of_ok:
  assumes "label_ok l"
  shows "distanceRange l = Some (range_of l)" "0 \<le> fst (range_of l)"
    "snd (range_of l) = fst (range_of l) + 5" "distanceLabel (fst (range_of l)) (snd (range_of l)) = l"
  by (rule label_range [OF assms]; simp add: range_of_def)+

lemma insert_distances:
  assumes "distinct (map fst m)" and "\<forall>l \<in> set (map fst m). label_ok l"
    and "\<forall>r \<in> set (tb_distance t). fst r = h \<longrightarrow>
          distanceLabel (fst (snd r)) (fst (snd r) + 5) \<notin> set (map fst m)"
  shows "insert_all (insert_distance h) m t = Some (t\<lparr>tb_distance := tb_distance t
      @ map (\<lambda>(l, n). (h, fst (range_of l), snd (range_of l), n)) m\<rparr>)"
  using assms
proof (induction m arbitrary: t)
  case (Cons ln m)
  obtain l n where ln: "ln = (l, n)" by (cases ln)
  let ?t = "t\<lparr>tb_distance := tb_distance t @ [(h, fst (range_of l), snd (range_of l), n)]\<rparr>"
  have l: "label_ok l" using Cons.prems(2) ln by simp
  have "insert_distance h ln t = Some ?t"
    using Cons.prems(3) ln range_of_ok [OF l]
    by (auto simp: insert_distance_def split: prod.splits)
  moreover have "insert_all (insert_distance h) m ?t = Some (?t\<lparr>tb_distance := tb_distance ?t
      @ map (\<lambda>(l, n). (h, fst (range_of l), snd (range_of l), n)) m\<rparr>)"
    using Cons.prems ln range_of_ok(3,4) [OF l] by (intro Cons.IH) auto
  ultimately show ?case using ln by simp
qed simp

definition channel_rows :: "bucket \<Rightarrow> (int \<times> string \<times> string \<times> int) list" where
  "channel_rows b = map (\<lambda>(k, n). (b_HourUnix b, fst (channelParts k), snd (channelParts k), n)) (b_Channels b)"

definition distance_rows :: "bucket \<Rightarrow> (int \<times> int \<times> int \<times> int) list" where
  "distance_rows b = map (\<lambda>(l, n). (b_HourUnix b, fst (range_of l), snd (range_of l), n)) (b_DistanceKm b)"

lemma row_hour:
  "r \<in> set (channel_rows b) \<Longrightarrow> fst r = b_HourUnix b"
  "q \<in> set (distance_rows b) \<Longrightarrow> fst q = b_HourUnix b"
  by (auto simp: channel_rows_def distance_rows_def)

lemma insert_bucket:
  assumes b: "bucket_storable b"
    and "b_HourUnix b \<notin> b_HourUnix ` set (tb_hourly t)"
    and "b_HourUnix b \<notin> fst ` set (tb_channels t)" and "b_HourUnix b \<notin> fst ` set (tb_distance t)"
  shows "insertSQLiteBucket b t = Some \<lparr>tb_hourly = tb_hourly t @ [hourly_row b],
      tb_channels = tb_channels t @ channel_rows b, tb_distance = tb_distance t @ distance_rows b\<rparr>"
proof -
  let ?t1 = "t\<lparr>tb_hourly := tb_hourly t @ [hourly_row b]\<rparr>"
  have no: "\<forall>r \<in> set (tb_channels t). fst r \<noteq> b_HourUnix b" "\<forall>r \<in> set (tb_distance t). fst r \<noteq> b_HourUnix b"
    using assms(3,4) by (metis imageI)+
  have ok: "distinct (map fst (b_Channels b))" "\<forall>k \<in> set (map fst (b_Channels b)). chan_key_ok k"
    "distinct (map fst (b_DistanceKm b))" "\<forall>l \<in> set (map fst (b_DistanceKm b)). label_ok l"
    using b by (auto simp: bucket_storable_def bucket_ok_def)
  have 1: "insert_all (insert_channel (b_HourUnix b)) (b_Channels b) ?t1
      = Some (?t1\<lparr>tb_channels := tb_channels t @ channel_rows b\<rparr>)"
    using insert_channels [OF ok(1,2), of ?t1 "b_HourUnix b"] no(1) by (simp add: channel_rows_def)
  let ?t2 = "?t1\<lparr>tb_channels := tb_channels t @ channel_rows b\<rparr>"
  have 2: "insert_all (insert_distance (b_HourUnix b)) (b_DistanceKm b) ?t2
      = Some (?t2\<lparr>tb_distance := tb_distance t @ distance_rows b\<rparr>)"
    using insert_distances [OF ok(3,4), of ?t2 "b_HourUnix b"] no(2) by (simp add: distance_rows_def)
  have "\<not> (\<exists>r \<in> set (tb_hourly t). b_HourUnix r = b_HourUnix b)" using assms(2) by (metis imageI)
  with 1 2 show ?thesis by (simp add: insertSQLiteBucket_def)
qed

lemma insert_buckets:
  assumes "distinct (map b_HourUnix bs)" and "\<forall>b \<in> set bs. bucket_storable b"
    and "b_HourUnix ` set (tb_hourly t) \<inter> b_HourUnix ` set bs = {}"
    and "fst ` set (tb_channels t) \<inter> b_HourUnix ` set bs = {}"
    and "fst ` set (tb_distance t) \<inter> b_HourUnix ` set bs = {}"
  shows "insert_all insertSQLiteBucket bs t = Some \<lparr>tb_hourly = tb_hourly t @ map hourly_row bs,
      tb_channels = tb_channels t @ concat (map channel_rows bs),
      tb_distance = tb_distance t @ concat (map distance_rows bs)\<rparr>"
  using assms
proof (induction bs arbitrary: t)
  case (Cons b bs)
  let ?t = "\<lparr>tb_hourly = tb_hourly t @ [hourly_row b],
      tb_channels = tb_channels t @ channel_rows b, tb_distance = tb_distance t @ distance_rows b\<rparr>"
  have "insertSQLiteBucket b t = Some ?t"
    using Cons.prems by (intro insert_bucket) auto
  moreover have "insert_all insertSQLiteBucket bs ?t = Some \<lparr>tb_hourly = tb_hourly ?t @ map hourly_row bs,
      tb_channels = tb_channels ?t @ concat (map channel_rows bs),
      tb_distance = tb_distance ?t @ concat (map distance_rows bs)\<rparr>"
    using Cons.prems by (intro Cons.IH) (auto simp: hourly_row_def dest!: row_hour, (metis imageI)+)
  ultimately show ?case by simp
qed simp

lemma write_storable:
  assumes "buckets_ok bs" and "\<forall>b \<in> snd ` set bs. bucket_storable b"
  shows "writeSQLiteStats bs = Some \<lparr>tb_hourly = map hourly_row (map snd bs),
      tb_channels = concat (map channel_rows (map snd bs)),
      tb_distance = concat (map distance_rows (map snd bs))\<rparr>"
proof -
  have "map b_HourUnix (map snd bs) = map fst bs"
    using assms(1) by (auto simp: buckets_ok_def)
  with assms show ?thesis unfolding writeSQLiteStats_def
    by (subst insert_buckets) (auto simp: buckets_ok_def empty_tables_def simp del: map_map)
qed

text \<open>Loading one bucket back from rows that include its own.\<close>

lemma load_channels_skip: "b_HourUnix b \<notin> fst ` set rows \<Longrightarrow> fold load_channel_row rows b = b"
  by (induction rows) (auto simp: load_channel_row_def)

lemma load_distance_skip: "b_HourUnix b \<notin> fst ` set rows \<Longrightarrow> fold load_distance_row rows b = b"
  by (induction rows) (auto simp: load_distance_row_def)

lemma AList_update_new: "k \<notin> fst ` set m \<Longrightarrow> AList.update k v m = m @ [(k, v)]"
  by (induction m) auto

lemma load_channels_own:
  assumes "distinct (map fst (done_rows @ m))" and "\<forall>k \<in> set (map fst m). chan_key_ok k"
    and "b_Channels b = done_rows"
  shows "fold load_channel_row
      (map (\<lambda>(k, n). (b_HourUnix b, fst (channelParts k), snd (channelParts k), n)) m) b
    = b\<lparr>b_Channels := done_rows @ m\<rparr>"
  using assms
proof (induction m arbitrary: b done_rows)
  case (Cons kn m)
  obtain k n where kn: "kn = (k, n)" by (cases kn)
  let ?b = "b\<lparr>b_Channels := done_rows @ [(k, n)]\<rparr>"
  have "AList.update (channelKey (fst (channelParts k)) (snd (channelParts k))) n (b_Channels b)
      = done_rows @ [(k, n)]"
    using Cons.prems kn channel_key_parts [of k] by (auto simp: AList_update_new)
  then show ?case
    using Cons.IH [of "done_rows @ [(k, n)]" ?b] Cons.prems kn by (simp add: load_channel_row_def)
qed simp

lemma load_distance_own:
  assumes "distinct (map fst (done_rows @ m))" and "\<forall>l \<in> set (map fst m). label_ok l"
    and "b_DistanceKm b = done_rows"
  shows "fold load_distance_row
      (map (\<lambda>(l, n). (b_HourUnix b, fst (range_of l), snd (range_of l), n)) m) b
    = b\<lparr>b_DistanceKm := done_rows @ m\<rparr>"
  using assms
proof (induction m arbitrary: b done_rows)
  case (Cons ln m)
  obtain l n where ln: "ln = (l, n)" by (cases ln)
  let ?b = "b\<lparr>b_DistanceKm := done_rows @ [(l, n)]\<rparr>"
  have "AList.update (distanceLabel (fst (range_of l)) (snd (range_of l))) n (b_DistanceKm b)
      = done_rows @ [(l, n)]"
    using Cons.prems ln range_of_ok(4) [of l] by (auto simp: AList_update_new)
  then show ?case
    using Cons.IH [of "done_rows @ [(l, n)]" ?b] Cons.prems ln by (simp add: load_distance_row_def)
qed simp

lemma load_bucket:
  assumes b: "bucket_storable b" and bs: "distinct (map b_HourUnix bs)" "b \<in> set bs"
    and t: "tb_channels t = concat (map channel_rows bs)" "tb_distance t = concat (map distance_rows bs)"
  shows "load_distance t (load_channels t (hourly_row b)) = b"
proof -
  obtain xs ys where s: "bs = xs @ b # ys" using bs(2) by (auto simp: in_set_conv_decomp)
  have other: "b_HourUnix b \<notin> b_HourUnix ` set xs" "b_HourUnix b \<notin> b_HourUnix ` set ys"
    using bs(1) s by auto
  have skip: "b_HourUnix b \<notin> fst ` set (concat (map channel_rows zs))"
      "b_HourUnix b \<notin> fst ` set (concat (map distance_rows zs))"
    if "b_HourUnix b \<notin> b_HourUnix ` set zs" for zs
    using that by (auto dest!: row_hour)
  have h: "b_HourUnix (hourly_row b) = b_HourUnix b" "b_Channels (hourly_row b) = []"
    "b_DistanceKm (hourly_row b) = []"
    by (simp_all add: hourly_row_def)
  have d: "distinct (map fst (b_Channels b))" "\<forall>k \<in> set (map fst (b_Channels b)). chan_key_ok k"
    "distinct (map fst (b_DistanceKm b))" "\<forall>l \<in> set (map fst (b_DistanceKm b)). label_ok l"
    using b by (auto simp: bucket_storable_def bucket_ok_def)
  let ?b1 = "(hourly_row b)\<lparr>b_Channels := b_Channels b\<rparr>"
  let ?b2 = "?b1\<lparr>b_DistanceKm := b_DistanceKm b\<rparr>"
  have s1: "fold load_channel_row (concat (map channel_rows zs)) c = c"
      "fold load_distance_row (concat (map distance_rows zs)) c = c"
    if "b_HourUnix b \<notin> b_HourUnix ` set zs" "b_HourUnix c = b_HourUnix b" for zs c
    using load_channels_skip [of c] load_distance_skip [of c] skip [OF that(1)] that(2) by simp_all
  have own: "fold load_channel_row (channel_rows b) (hourly_row b) = ?b1"
      "fold load_distance_row (distance_rows b) ?b1 = ?b2"
    using load_channels_own [of "[]" "b_Channels b" "hourly_row b"]
      load_distance_own [of "[]" "b_DistanceKm b" ?b1] d h
    by (simp_all add: channel_rows_def distance_rows_def)
  have "load_channels t (hourly_row b) = ?b1" "load_distance t ?b1 = ?b2"
    unfolding load_channels_def load_distance_def t s
    by (simp_all add: s1 [OF other(1)] s1 [OF other(2)] own h)
  then show ?thesis by (simp add: hourly_row_def)
qed

lemma write_load:
  assumes ok: "buckets_ok bs" and st: "\<forall>b \<in> snd ` set bs. bucket_storable b"
    and w: "writeSQLiteStats bs = Some t"
  shows "load_stats cutoff t = filter (\<lambda>(h, b). cutoff \<le> h) bs"
proof -
  let ?bs = "map snd bs"
  have t: "tb_hourly t = map hourly_row ?bs" "tb_channels t = concat (map channel_rows ?bs)"
    "tb_distance t = concat (map distance_rows ?bs)"
    using write_storable [OF ok st] w by auto
  have d: "distinct (map b_HourUnix ?bs)"
  proof -
    have "map b_HourUnix ?bs = map fst bs" using ok by (auto simp: buckets_ok_def)
    then show ?thesis using ok unfolding buckets_ok_def by metis
  qed
  have "load_stats cutoff t = map (\<lambda>b. (b_HourUnix b, b)) (filter (\<lambda>b. cutoff \<le> b_HourUnix b) ?bs)"
  proof -
    have lb: "load_distance t (load_channels t (hourly_row b)) = b" if "b \<in> set ?bs" for b
      using load_bucket [OF _ d that t(2,3)] st that by auto
    have "load_stats cutoff t = map (\<lambda>b. (b_HourUnix b, load_distance t (load_channels t (hourly_row b))))
        (filter (\<lambda>b. cutoff \<le> b_HourUnix b) ?bs)"
      by (simp add: load_stats_def t(1) filter_map comp_def hourly_row_def)
    also have "\<dots> = map (\<lambda>b. (b_HourUnix b, b)) (filter (\<lambda>b. cutoff \<le> b_HourUnix b) ?bs)"
      using lb by (intro map_cong) auto
    finally show ?thesis .
  qed
  also have "\<dots> = filter (\<lambda>(h, b). cutoff \<le> h) bs"
    using ok by (induction bs) (auto simp: buckets_ok_def)
  finally show ?thesis .
qed

section \<open>Properties\<close>

text \<open>The hourly counters stay consistent: whatever packets, acknowledgements, channel messages and
  prunes are recorded, there is one bucket per hour, under its own hour, its total is the sum of
  direct, public, telemetry and position packets (errors are not counted in it), and no counter is
  negative.\<close>

theorem stats_buckets_consistent:
  "buckets_ok (sts_buckets (fold stats_apply changes (NewSQLite_stats retention)))"
  by (rule stats_fold_ok) (simp add: NewSQLite_stats_def buckets_ok_def)

text \<open>ReadRange returns exactly the buckets from the hour of its first instant to the hour of its second,
  both included, in the order of their hours. (Its comment promises the range without its end.)\<close>

theorem read_range_inclusive:
  assumes "buckets_ok (sts_buckets s)"
  shows "set (ReadRange t u s)
      = {b. \<exists>h. map_of (sts_buckets s) h = Some b \<and> hourKey t \<le> h \<and> h \<le> hourKey u} \<and>
    sorted (map b_HourUnix (ReadRange t u s)) \<and> distinct (map b_HourUnix (ReadRange t u s))"
proof (intro conjI)
  have d: "distinct (map fst (sts_buckets s))" using assms by (simp add: buckets_ok_def)
  show "set (ReadRange t u s)
      = {b. \<exists>h. map_of (sts_buckets s) h = Some b \<and> hourKey t \<le> h \<and> h \<le> hourKey u}"
    using d by (force simp: ReadRange_def Let_def)
  show "sorted (map b_HourUnix (ReadRange t u s))" by (simp add: ReadRange_def Let_def)
  have "map b_HourUnix (map snd (filter (\<lambda>(k, b). k \<ge> hourKey t \<and> k \<le> hourKey u) (sts_buckets s)))
      = map fst (filter (\<lambda>(k, b). k \<ge> hourKey t \<and> k \<le> hourKey u) (sts_buckets s))"
    using assms by (auto simp: buckets_ok_def)
  then have "distinct (map b_HourUnix (map snd (filter (\<lambda>(k, b). k \<ge> hourKey t \<and> k \<le> hourKey u) (sts_buckets s))))"
    using d by (simp only: distinct_map_filter)
  then show "distinct (map b_HourUnix (ReadRange t u s))"
    by (simp only: ReadRange_def Let_def distinct_map distinct_sort set_sort)
qed

theorem read_range_inclusive_witness:
  "set (ReadRange 0 (2 * hour) (RecordPacket KindDM (2 * hour + 7) None (NewSQLite_stats 0)))
    = {(empty_bucket (7200 - unix_epoch))\<lparr>b_DM := 1, b_Total := 1\<rparr>}"
proof -
  let ?s = "RecordPacket KindDM (2 * hour + 7) None (NewSQLite_stats 0)"
  have b: "sts_buckets ?s = [(7200 - unix_epoch, (empty_bucket (7200 - unix_epoch))\<lparr>b_DM := 1, b_Total := 1\<rparr>)]"
    by (simp add: RecordPacket_def Let_def put_bucket_def getOrCreate_def NewSQLite_stats_def hourKey_def
        empty_bucket_def)
  have "buckets_ok (sts_buckets ?s)"
    unfolding b by (simp add: buckets_ok_def bucket_ok_def empty_bucket_def)
  from read_range_inclusive [OF this, of 0 "2 * hour"] show ?thesis
    unfolding b by (auto simp: hourKey_def split: if_splits)
qed

text \<open>The statistics survive a restart: for the buckets the program records (channel keys "broadcast",
  "ch:" or "dm:", labels of real distances), writing the three tables never violates a constraint
  of the schema, and loading them gives back every bucket within the retention cutoff, with its
  channels and its distance histogram.\<close>

theorem stats_roundtrip:
  assumes "buckets_ok buckets" and "\<forall>b \<in> snd ` set buckets. bucket_storable b"
  shows "\<exists>tables. writeSQLiteStats buckets = Some tables \<and>
    load_stats cutoff tables = filter (\<lambda>(h, b). cutoff \<le> h) buckets"
  using write_storable [OF assms] write_load [OF assms] by blast

definition example_bucket :: bucket where
  "example_bucket = (empty_bucket 3600)\<lparr>b_Position := 1, b_Total := 1,
     b_DistanceKm := [(''5-10'', 1)], b_Channels := [(''broadcast'', 2), (''dm:IU5PMP-1'', 1)]\<rparr>"

theorem stats_roundtrip_witness:
  "\<exists>tables. writeSQLiteStats [(3600, example_bucket)] = Some tables \<and>
    load_stats 0 tables = [(3600, example_bucket)]"
proof -
  have "DistanceBucketLabel (73 / 10) = ''5-10''"
    by code_simp
  then have l: "label_ok ''5-10''" unfolding label_ok_def by (metis divide_nonneg_pos zero_le_numeral zero_less_numeral)
  have o: "buckets_ok [(3600, example_bucket)]"
    by (simp add: buckets_ok_def bucket_ok_def example_bucket_def empty_bucket_def)
  then have "bucket_storable example_bucket"
    using l by (simp add: bucket_storable_def buckets_ok_def) (simp add: example_bucket_def chan_key_ok_def)
  with stats_roundtrip [OF o, of 0] show ?thesis by simp
qed

text \<open>A failed write loses statistics: save clears the dirty mark before writing and never sets it again,
  so after a failure the following saves write nothing until another packet is recorded.\<close>

theorem stats_failed_save_forgets:
  assumes "sts_dirty s"
  shows "save_run stats_apply stats_begin stats_failed stats_write
      ([BeginSave, EndSave False] @ concat (replicate n [BeginSave, EndSave True])) (s, tables, None)
    = (s\<lparr>sts_dirty := False\<rparr>, tables, None)"
proof -
  have "save_run stats_apply stats_begin stats_failed stats_write
      (concat (replicate n [BeginSave, EndSave True])) (s', tables, None) = (s', tables, None)"
    if "\<not> sts_dirty s'" for s'
    using that by (induction n) (simp_all add: stats_begin_def)
  with assms show ?thesis by (simp add: stats_begin_def stats_failed_def)
qed

theorem stats_failed_save_forgets_witness:
  "save_run stats_apply stats_begin stats_failed stats_write
      ([BeginSave, EndSave False] @ concat (replicate 3 [BeginSave, EndSave True]))
      (RecordDMAck 0 (NewSQLite_stats 0), empty_tables, None)
    = ((RecordDMAck 0 (NewSQLite_stats 0))\<lparr>sts_dirty := False\<rparr>, empty_tables, None)"
  by (rule stats_failed_save_forgets) (simp add: RecordDMAck_def Let_def put_bucket_def)

end
