(* ===== verification/Packets.thy ===== *)
theory Packets
  imports Meshcom
begin

text \<open>
  The packets of internal/meshcom (packet.go) once decoded. The type variable 'f stands for
  float64; a pointer field is an option. Decoding itself is encoding/json applied to the struct
  tags and is a parameter of the components that call ParsePacket.
\<close>

record text_message =
  tm_Source :: string
  tm_Destination :: string
  tm_Message :: string
  tm_MessageID :: string
  tm_SourceType :: string
  tm_Firmware :: string
  tm_FWSub :: string
  tm_RSSI :: "int option"
  tm_SNR :: "int option"

record 'f position =
  po_Source :: string
  po_Message :: string
  po_MessageID :: string
  po_SourceType :: string
  po_Latitude :: 'f
  po_LatitudeDir :: string
  po_Longitude :: 'f
  po_LongitudeDir :: string
  po_APRSSymbol :: string
  po_APRSSymbolGroup :: string
  po_HardwareID :: string
  po_Altitude :: int
  po_Battery :: int
  po_Firmware :: string
  po_FWSub :: string
  po_RSSI :: "int option"
  po_SNR :: "int option"

record 'f telemetry =
  te_Source :: string
  te_SourceType :: string
  te_RSSI :: "int option"
  te_SNR :: "int option"
  te_Temp1 :: "'f option"
  te_Temp2 :: "'f option"
  te_Humidity :: "'f option"
  te_Battery :: "int option"
  te_QFE :: "'f option"
  te_QNH :: "'f option"
  te_Gas :: "'f option"
  te_CO2 :: "'f option"

datatype 'f packet =
    TextPacket text_message
  | PositionPacket "'f position"
  | TelemetryPacket "'f telemetry"

definition type_of_packet :: "'f packet \<Rightarrow> packet_type" where
  "type_of_packet p =
     (case p of TextPacket _ \<Rightarrow> PacketTypeMessage | PositionPacket _ \<Rightarrow> PacketTypePosition
      | TelemetryPacket _ \<Rightarrow> PacketTypeTelemetry)"

text \<open>The text of a packet type.\<close>

definition type_text :: "packet_type \<Rightarrow> string" where
  "type_text t =
     (case t of PacketTypeMessage \<Rightarrow> ''msg'' | PacketTypePosition \<Rightarrow> ''pos''
      | PacketTypeTelemetry \<Rightarrow> ''tele'')"

end
