(* ===== verification/ChatLog.thy ===== *)
theory ChatLog
  imports ChatIds Packets Timestamps "HOL-Library.AList"
begin

text \<open>
  internal/chatlog (chatlog.go): the chat log in the tables chats_dm and chats_public. A row is the
  record it stores (an empty string, a zero and an empty list are the NULLs the code writes for
  them), its conversation and its id; a table lists its rows by id. Queries compare and order the
  received_at column as text. A statement that fails is a boolean argument of the operation.
\<close>

section \<open>Records and tables\<close>

record chat_record =
  cr_ReceivedAt :: gotime
  cr_Src :: string
  cr_SrcType :: string
  cr_Via :: "string list"
  cr_Dst :: string
  cr_MsgID :: string
  cr_SequenceID :: string
  cr_Msg :: string
  cr_RSSI :: int
  cr_SNR :: int
  cr_Direction :: string
  cr_DeliveryStatus :: string
  cr_AckStatus :: ack_status
  cr_AckReceivedAt :: gotime
  cr_AckSrc :: string
  cr_AckSrcType :: string
  cr_AckRSSI :: int
  cr_AckSNR :: int
  cr_AckVia :: "string list"

record chat_row =
  row_id :: nat
  row_conv :: string
  row_rec :: chat_record

record chat_tables =
  ct_dm :: "chat_row list"
  ct_public :: "chat_row list"
  ct_next_dm :: nat
  ct_next_public :: nat

definition empty_chat :: chat_tables where
  "empty_chat = \<lparr>ct_dm = [], ct_public = [], ct_next_dm = 1, ct_next_public = 1\<rparr>"

definition new_record :: "gotime \<Rightarrow> string \<Rightarrow> string list \<Rightarrow> string \<Rightarrow> string \<Rightarrow> chat_record" where
  "new_record receivedAt src via dst msg =
     \<lparr>cr_ReceivedAt = receivedAt, cr_Src = src, cr_SrcType = [], cr_Via = via, cr_Dst = dst,
      cr_MsgID = [], cr_SequenceID = messageSequenceID msg, cr_Msg = msg, cr_RSSI = 0, cr_SNR = 0,
      cr_Direction = [], cr_DeliveryStatus = [], cr_AckStatus = NoAck, cr_AckReceivedAt = 0,
      cr_AckSrc = [], cr_AckSrcType = [], cr_AckRSSI = 0, cr_AckSNR = 0, cr_AckVia = []\<rparr>"

definition recordDedupeWindow :: duration where
  "recordDedupeWindow = 5 * minute"

section \<open>Acknowledgements\<close>

text \<open>UPPER of SQLite changes ASCII letters only.\<close>

definition sql_upper :: "string \<Rightarrow> string" where
  "sql_upper s = map upper_char s"

definition ack_candidate :: "string \<Rightarrow> string \<Rightarrow> string \<Rightarrow> gotime \<Rightarrow> chat_row \<Rightarrow> bool" where
  "ack_candidate conversationID sequenceID origin ackAt r \<longleftrightarrow>
     row_conv r = conversationID \<and> cr_Direction (row_rec r) = ''outbound'' \<and>
     cr_SequenceID (row_rec r) \<noteq> [] \<and> cr_SequenceID (row_rec r) = sequenceID \<and>
     cr_AckStatus (row_rec r) = NoAck \<and>
     sql_upper (cr_Dst (row_rec r)) = sql_upper origin \<and>
     time_column (ackAt - recordDedupeWindow) \<le> time_column (cr_ReceivedAt (row_rec r)) \<and>
     time_column (cr_ReceivedAt (row_rec r)) \<le> time_column ackAt"

text \<open>ORDER BY received_at DESC, id DESC LIMIT 1.\<close>

definition row_time :: "chat_row \<Rightarrow> sqltext" where
  "row_time r = time_column (cr_ReceivedAt (row_rec r))"

definition row_before :: "chat_row \<Rightarrow> chat_row \<Rightarrow> bool" where
  "row_before a b \<longleftrightarrow> row_time a < row_time b \<or> row_time a = row_time b \<and> row_id a < row_id b"

definition later_row :: "chat_row \<Rightarrow> chat_row option \<Rightarrow> chat_row option" where
  "later_row r best =
     (case best of None \<Rightarrow> Some r | Some b \<Rightarrow> if row_before b r then Some r else Some b)"

definition latest_row :: "chat_row list \<Rightarrow> chat_row option" where
  "latest_row rows = fold later_row rows None"

definition set_ack :: "ack_status \<Rightarrow> chat_record \<Rightarrow> chat_record \<Rightarrow> chat_record" where
  "set_ack status rec stored =
     stored\<lparr>cr_AckStatus := status, cr_AckReceivedAt := cr_ReceivedAt rec, cr_AckSrc := cr_Src rec,
       cr_AckSrcType := cr_SrcType rec, cr_AckRSSI := cr_RSSI rec, cr_AckSNR := cr_SNR rec,
       cr_AckVia := cr_Via rec\<rparr>"

definition mark_row :: "ack_status \<Rightarrow> chat_record \<Rightarrow> chat_row \<Rightarrow> chat_row \<Rightarrow> chat_row" where
  "mark_row status rec best r =
     (if row_id r = row_id best then r\<lparr>row_rec := set_ack status rec (row_rec r)\<rparr> else r)"

definition updateRecentOutboundAck ::
  "bool \<Rightarrow> string \<Rightarrow> chat_record \<Rightarrow> chat_tables \<Rightarrow> chat_tables \<times> bool" where
  "updateRecentOutboundAck fails conversationID rec t =
     (let (status, sequenceID) = ackStatusAndSequenceID (cr_Msg rec);
          origin = to_upper (trim_space (cr_Src rec)) in
      if status = NoAck \<or> sequenceID = [] then (t, True)
      else if origin = [] then (t, True)
      else if fails then (t, False)
      else (case latest_row (filter (ack_candidate conversationID sequenceID origin (cr_ReceivedAt rec)) (ct_dm t)) of
              None \<Rightarrow> (t, True)
            | Some best \<Rightarrow>
                (t\<lparr>ct_dm := map (mark_row status rec best) (ct_dm t)\<rparr>, True)))"

section \<open>Appending\<close>

definition publicKind :: "string \<Rightarrow> string \<times> string option" where
  "publicKind conversationID =
     (if conversationID = ''P_broadcast'' then (''broadcast'', None)
      else (''channel'', Some (trim_prefix ''P_'' conversationID)))"

text \<open>chats_public has no columns for the sequence, the direction and the delivery status.\<close>

definition public_part :: "chat_record \<Rightarrow> chat_record" where
  "public_part rec = rec\<lparr>cr_SequenceID := [], cr_Direction := [], cr_DeliveryStatus := []\<rparr>"

text \<open>The insert and the update are two statements, not one transaction.\<close>

definition appendSQLite ::
  "bool \<Rightarrow> bool \<Rightarrow> string \<Rightarrow> chat_record \<Rightarrow> chat_tables \<Rightarrow> chat_tables \<times> bool" where
  "appendSQLite insert_fails update_fails conversationID rec t =
     (if prefix ''DM_'' conversationID then
        if insert_fails then (t, False)
        else updateRecentOutboundAck update_fails conversationID rec
               (t\<lparr>ct_dm := ct_dm t @ [\<lparr>row_id = ct_next_dm t, row_conv = conversationID, row_rec = rec\<rparr>],
                  ct_next_dm := ct_next_dm t + 1\<rparr>)
      else if insert_fails then (t, False)
      else (t\<lparr>ct_public := ct_public t
                @ [\<lparr>row_id = ct_next_public t, row_conv = conversationID, row_rec = public_part rec\<rparr>],
              ct_next_public := ct_next_public t + 1\<rparr>, True))"

definition appendRecord ::
  "bool \<Rightarrow> bool \<Rightarrow> string \<Rightarrow> chat_record \<Rightarrow> chat_tables \<Rightarrow> chat_tables \<times> bool" where
  "appendRecord f1 f2 name rec t = appendSQLite f1 f2 (trim_suffix jsonl name) rec t"

definition record_of_message :: "text_message \<Rightarrow> gotime \<Rightarrow> chat_record" where
  "record_of_message msg receivedAt =
     (let (origin, relays) = sourceOriginAndRelays (tm_Source msg) in
      (new_record receivedAt origin relays (tm_Destination msg) (tm_Message msg))
        \<lparr>cr_SrcType := tm_SourceType msg, cr_MsgID := tm_MessageID msg,
         cr_RSSI := (case tm_RSSI msg of None \<Rightarrow> 0 | Some v \<Rightarrow> v),
         cr_SNR := (case tm_SNR msg of None \<Rightarrow> 0 | Some v \<Rightarrow> v)\<rparr>)"

definition AppendChat ::
  "bool \<Rightarrow> bool \<Rightarrow> string \<Rightarrow> text_message \<Rightarrow> gotime \<Rightarrow> chat_tables \<Rightarrow> chat_tables \<times> bool" where
  "AppendChat f1 f2 myCall msg receivedAt t =
     (let name = filenameForMsg (tm_Source msg) (tm_Destination msg) myCall in
      if name = [] then (t, True)
      else appendRecord f1 f2 name (record_of_message msg receivedAt) t)"

definition AppendFailed ::
  "bool \<Rightarrow> bool \<Rightarrow> string \<Rightarrow> string \<Rightarrow> string \<Rightarrow> gotime \<Rightarrow> chat_tables \<Rightarrow> chat_tables \<times> chat_record \<times> bool" where
  "AppendFailed f1 f2 source destination message receivedAt t =
     (let (origin, relays) = sourceOriginAndRelays source;
          rec = (new_record receivedAt origin relays destination message)
                  \<lparr>cr_Direction := ''outbound'', cr_DeliveryStatus := ''failed''\<rparr>;
          name = filenameForMsg source destination source in
      if name = [] then (t, rec, True)
      else (let (t', ok) = appendRecord f1 f2 name rec t in (t', rec, ok)))"

section \<open>Reading\<close>

definition originCall :: "string \<Rightarrow> string" where
  "originCall source = to_upper (trim_space (before CHR '','' source))"

definition receivedWithinDedupeWindow :: "gotime \<Rightarrow> gotime \<Rightarrow> bool" where
  "receivedWithinDedupeWindow left right =
     (let delta = time_sub left right;
          d = (if delta < 0 then wrap64 (- delta) else delta) in d \<le> recordDedupeWindow)"

definition same_message :: "chat_record \<Rightarrow> chat_record \<Rightarrow> bool" where
  "same_message existing candidate \<longleftrightarrow>
     cr_MsgID existing = cr_MsgID candidate \<and> originCall (cr_Src existing) = originCall (cr_Src candidate) \<and>
     receivedWithinDedupeWindow (cr_ReceivedAt existing) (cr_ReceivedAt candidate)"

definition isDuplicateRecord :: "chat_record list \<Rightarrow> chat_record \<Rightarrow> bool" where
  "isDuplicateRecord seen candidate =
     (if cr_MsgID candidate = [] then False else list_ex (\<lambda>e. same_message e candidate) seen)"

fun read_rows :: "gotime \<Rightarrow> chat_record list \<Rightarrow> chat_record list \<Rightarrow> chat_record list" where
  "read_rows since seen [] = []"
| "read_rows since seen (rec # rest) =
     (if isDuplicateRecord seen rec then read_rows since seen rest
      else (let seen' = (if cr_MsgID rec \<noteq> [] then seen @ [rec] else seen) in
            if \<not> cr_ReceivedAt rec < since then rec # read_rows since seen' rest
            else read_rows since seen' rest))"

definition table_for :: "string \<Rightarrow> chat_tables \<Rightarrow> chat_row list" where
  "table_for i t = (if prefix ''DM_'' i then ct_dm t else ct_public t)"

text \<open>SELECT ... WHERE conversation_id = ? ORDER BY received_at, id.\<close>

definition conversation_rows :: "string \<Rightarrow> chat_tables \<Rightarrow> chat_record list" where
  "conversation_rows i t =
     map row_rec (sort_key (\<lambda>r. time_column (cr_ReceivedAt (row_rec r)))
       (filter (\<lambda>r. row_conv r = i) (table_for i t)))"

definition ReadSince :: "string \<Rightarrow> gotime \<Rightarrow> chat_tables \<Rightarrow> chat_record list option" where
  "ReadSince i since t =
     (if \<not> ValidConversationID i then None else Some (read_rows since [] (conversation_rows i t)))"

definition FileContainsSSID :: "string \<Rightarrow> string \<Rightarrow> chat_tables \<Rightarrow> bool option" where
  "FileContainsSSID fileID ssid t =
     (if \<not> ValidConversationID fileID then None
      else Some (list_ex (\<lambda>r. row_conv r = fileID \<and>
             RecordMatchesSSID (cr_Src (row_rec r)) (cr_Dst (row_rec r)) ssid) (table_for fileID t)))"

definition RemoveChat :: "bool \<Rightarrow> string \<Rightarrow> chat_tables \<Rightarrow> chat_tables \<times> bool" where
  "RemoveChat fails i t =
     (if \<not> ValidConversationID i then (t, False)
      else if fails then (t, False)
      else if prefix ''DM_'' i then (t\<lparr>ct_dm := filter (\<lambda>r. row_conv r \<noteq> i) (ct_dm t)\<rparr>, True)
      else (t\<lparr>ct_public := filter (\<lambda>r. row_conv r \<noteq> i) (ct_public t)\<rparr>, True))"

record conversation =
  cv_ID :: string
  cv_Kind :: string
  cv_Label :: string
  cv_LastSeen :: gotime
  cv_Size :: int

definition applyConversationLabel :: "conversation \<Rightarrow> conversation" where
  "applyConversationLabel c =
     (if cv_ID c = ''P_broadcast'' then c\<lparr>cv_Kind := ''broadcast'', cv_Label := ''Broadcast''\<rparr>
      else if prefix ''P_'' (cv_ID c)
      then c\<lparr>cv_Kind := ''channel'', cv_Label := trim_prefix ''P_'' (cv_ID c)\<rparr>
      else (let rest = trim_prefix ''DM_'' (cv_ID c) in
            c\<lparr>cv_Kind := ''dm'', cv_Label :=
                (case index_of CHR ''_'' rest of None \<Rightarrow> rest | Some idx \<Rightarrow> drop (idx + 1) rest)\<rparr>))"

definition list_row :: "chat_row \<Rightarrow> (string \<times> conversation) list \<Rightarrow> (string \<times> conversation) list" where
  "list_row r byID =
     (if \<not> ValidConversationID (row_conv r) \<or> IsStoreNotice (cr_Msg (row_rec r)) then byID
      else (let i = row_conv r; at = cr_ReceivedAt (row_rec r);
                conv = (case map_of byID i of None \<Rightarrow>
                    \<lparr>cv_ID = [], cv_Kind = [], cv_Label = [], cv_LastSeen = 0, cv_Size = 0\<rparr> | Some c \<Rightarrow> c)
            in AList.update i (conv\<lparr>cv_ID := i, cv_Size := cv_Size conv + 1,
                 cv_LastSeen := (if cv_LastSeen conv < at then at else cv_LastSeen conv)\<rparr>) byID))"

text \<open>The most recent conversation first; Go leaves open the order of equal times.\<close>

definition ListChats :: "chat_tables \<Rightarrow> conversation list" where
  "ListChats t =
     sort_key (\<lambda>c. - cv_LastSeen c)
       (map (applyConversationLabel \<circ> snd) (fold list_row (ct_public t @ ct_dm t) []))"

section \<open>Well-formed tables\<close>

definition rows_ok :: "(string \<Rightarrow> bool) \<Rightarrow> nat \<Rightarrow> chat_row list \<Rightarrow> bool" where
  "rows_ok P n rows \<longleftrightarrow> sorted_wrt (<) (map row_id rows) \<and>
     (\<forall>r \<in> set rows. row_id r < n \<and> ValidConversationID (row_conv r) \<and> P (row_conv r))"

definition chat_inv :: "chat_tables \<Rightarrow> bool" where
  "chat_inv t \<longleftrightarrow> rows_ok (prefix ''DM_'') (ct_next_dm t) (ct_dm t) \<and>
     rows_ok (\<lambda>i. \<not> prefix ''DM_'' i) (ct_next_public t) (ct_public t)"

datatype chat_op =
    OpAppend bool bool string text_message gotime
  | OpFailed bool bool string string string gotime
  | OpRemove bool string

fun chat_apply :: "chat_op \<Rightarrow> chat_tables \<Rightarrow> chat_tables" where
  "chat_apply (OpAppend f1 f2 my msg at) t = fst (AppendChat f1 f2 my msg at t)"
| "chat_apply (OpFailed f1 f2 src dst msg at) t = fst (AppendFailed f1 f2 src dst msg at t)"
| "chat_apply (OpRemove f i) t = fst (RemoveChat f i t)"

lemma rows_ok_append:
  "rows_ok P n rows \<Longrightarrow> ValidConversationID c \<Longrightarrow> P c \<Longrightarrow>
   rows_ok P (n + 1) (rows @ [\<lparr>row_id = n, row_conv = c, row_rec = rec\<rparr>])"
  by (auto simp: rows_ok_def sorted_wrt_append)

lemma rows_ok_filter: "rows_ok P n rows \<Longrightarrow> rows_ok P n (filter Q rows)"
  by (auto simp: rows_ok_def sorted_wrt_map sorted_wrt_filter)

lemma rows_ok_map:
  "rows_ok P n rows \<Longrightarrow> (\<And>r. row_id (f r) = row_id r \<and> row_conv (f r) = row_conv r) \<Longrightarrow>
   rows_ok P n (map f rows)"
  by (auto simp: rows_ok_def sorted_wrt_map)

lemma mark_row_keys:
  "\<exists>g. map (mark_row status rec best) rows = map g rows \<and>
     (\<forall>r. row_id (g r) = row_id r \<and> row_conv (g r) = row_conv r)"
  by (rule exI [of _ "mark_row status rec best"]) (simp add: mark_row_def)

lemma update_ack_fields:
  assumes "updateRecentOutboundAck f c rec t = (t', ok)"
  shows "ct_public t' = ct_public t" "ct_next_public t' = ct_next_public t" "ct_next_dm t' = ct_next_dm t"
    "\<exists>g. ct_dm t' = map g (ct_dm t) \<and> (\<forall>r. row_id (g r) = row_id r \<and> row_conv (g r) = row_conv r)"
proof -
  have "t' = t \<or> (\<exists>status best. t' = t\<lparr>ct_dm := map (mark_row status rec best) (ct_dm t)\<rparr>)"
    using assms by (auto simp: updateRecentOutboundAck_def Let_def split: prod.splits if_splits option.splits)
  then show "ct_public t' = ct_public t" "ct_next_public t' = ct_next_public t"
    "ct_next_dm t' = ct_next_dm t"
    "\<exists>g. ct_dm t' = map g (ct_dm t) \<and> (\<forall>r. row_id (g r) = row_id r \<and> row_conv (g r) = row_conv r)"
    by (auto intro: exI [of _ "\<lambda>r. r"] simp: mark_row_keys simp del: map_eq_conv)
qed

lemma append_inv:
  assumes inv: "chat_inv t" and v: "ValidConversationID c" and a: "appendSQLite f1 f2 c rec t = (t', ok)"
  shows "chat_inv t'"
proof (cases "prefix ''DM_'' c \<and> \<not> f1")
  case True
  let ?t = "t\<lparr>ct_dm := ct_dm t @ [\<lparr>row_id = ct_next_dm t, row_conv = c, row_rec = rec\<rparr>],
                  ct_next_dm := ct_next_dm t + 1\<rparr>"
  from a True have u: "updateRecentOutboundAck f2 c rec ?t = (t', ok)" by (simp add: appendSQLite_def)
  obtain g where g: "ct_dm t' = map g (ct_dm ?t)" "\<And>r. row_id (g r) = row_id r \<and> row_conv (g r) = row_conv r"
    using update_ack_fields(4) [OF u] by blast
  have "rows_ok (prefix ''DM_'') (ct_next_dm t') (ct_dm t')"
    unfolding g(1) update_ack_fields(3) [OF u]
    using inv v True rows_ok_append [of "prefix ''DM_''" "ct_next_dm t" "ct_dm t" c rec]
    by (intro rows_ok_map g(2)) (simp add: chat_inv_def)
  with inv show ?thesis by (simp add: chat_inv_def update_ack_fields(1,2) [OF u])
next
  case False
  with inv v a rows_ok_append [of "\<lambda>i. \<not> prefix ''DM_'' i" "ct_next_public t" "ct_public t" c]
  show ?thesis by (auto simp: appendSQLite_def chat_inv_def split: if_splits)
qed

lemma name_nil: "filenameForMsg src dst my = [] \<or> ValidConversationID (trim_suffix jsonl (filenameForMsg src dst my))"
proof -
  have "filenameForMsg src dst my \<noteq> [] \<Longrightarrow> ConversationID src dst my \<noteq> []"
    by (auto simp: ConversationID_def filenameForMsg_def filename_stem Let_def split: if_splits)
       (auto simp: trim_suffix_def jsonl_def suffix_def filename_def split: if_splits)
  then show ?thesis using conversation_id_shape by (auto simp: ConversationID_def)
qed

lemma chat_apply_inv: "chat_inv t \<Longrightarrow> chat_inv (chat_apply op t)"
proof (cases op)
  case (OpAppend f1 f2 my msg at)
  assume "chat_inv t"
  with OpAppend name_nil [of "tm_Source msg" "tm_Destination msg" my] show ?thesis
    by (auto simp: AppendChat_def Let_def appendRecord_def intro: append_inv prod.collapse [symmetric])
next
  case (OpFailed f1 f2 src dst msg at)
  assume "chat_inv t"
  with OpFailed name_nil [of src dst src] show ?thesis
    by (auto simp: AppendFailed_def Let_def appendRecord_def split: prod.splits intro: append_inv)
next
  case (OpRemove f i)
  assume "chat_inv t"
  with OpRemove show ?thesis by (auto simp: RemoveChat_def chat_inv_def rows_ok_filter)
qed

lemma chat_run_inv: "chat_inv t \<Longrightarrow> chat_inv (fold chat_apply ops t)"
  by (induction ops arbitrary: t) (simp_all add: chat_apply_inv)

lemma empty_chat_inv: "chat_inv empty_chat"
  by (simp add: chat_inv_def rows_ok_def empty_chat_def)

section \<open>Acknowledgements of delivered messages\<close>

lemma row_before_cases: "row_before b r \<Longrightarrow> \<not> row_before b x \<Longrightarrow> \<not> row_before r x"
  by (auto simp: row_before_def)

lemma latest_row_spec:
  "(latest_row rows = None \<longleftrightarrow> rows = []) \<and>
   (\<forall>b. latest_row rows = Some b \<longrightarrow> b \<in> set rows \<and> (\<forall>r \<in> set rows. \<not> row_before b r))"
proof (induction rows rule: rev_induct)
  case (snoc r rows)
  have e: "latest_row (rows @ [r]) = later_row r (latest_row rows)" by (simp add: latest_row_def)
  show ?case
  proof (cases "latest_row rows")
    case None
    with snoc show ?thesis unfolding e by (simp add: later_row_def row_before_def)
  next
    case (Some b)
    with snoc have b: "b \<in> set rows" "\<forall>x \<in> set rows. \<not> row_before b x" by blast+
    have "\<not> row_before r r" "\<not> row_before b b" by (simp_all add: row_before_def)
    with Some b show ?thesis unfolding e
      by (cases "row_before b r") (auto simp: later_row_def dest: row_before_cases)
  qed
qed (simp add: latest_row_def)

lemma latest_row_time:
  "latest_row rows = Some b \<Longrightarrow> r \<in> set rows \<Longrightarrow> row_time r \<le> row_time b"
  using latest_row_spec [of rows] by (fastforce simp: row_before_def)

lemma latest_row_nil [simp]: "latest_row [] = None"
  by (simp add: latest_row_def)

text \<open>Rows an acknowledgement cannot match: not outbound, or without a sequence number.\<close>

definition unmatchable :: "chat_row \<Rightarrow> bool" where
  "unmatchable r \<longleftrightarrow> cr_AckStatus (row_rec r) = NoAck \<and>
     (cr_Direction (row_rec r) = ''outbound'' \<longrightarrow> cr_SequenceID (row_rec r) = [])"

lemma update_ack_unmatchable:
  assumes "\<forall>r \<in> set (ct_dm t). unmatchable r"
  shows "fst (updateRecentOutboundAck f c rec t) = t"
proof -
  have "filter (ack_candidate c s o1 at) (ct_dm t) = []" for s o1 at
    using assms by (auto simp: filter_empty_conv ack_candidate_def unmatchable_def)
  then show ?thesis by (auto simp: updateRecentOutboundAck_def Let_def split: prod.splits)
qed

lemma append_unmatchable:
  assumes "\<forall>r \<in> set (ct_dm t). unmatchable r" and "unmatchable \<lparr>row_id = 0, row_conv = [], row_rec = rec\<rparr>"
  shows "\<forall>r \<in> set (ct_dm (fst (appendSQLite f1 f2 c rec t))). unmatchable r"
proof -
  have "\<forall>r \<in> set (ct_dm (t\<lparr>ct_dm := ct_dm t @ [\<lparr>row_id = ct_next_dm t, row_conv = c, row_rec = rec\<rparr>],
                  ct_next_dm := ct_next_dm t + 1\<rparr>)). unmatchable r"
    using assms by (auto simp: unmatchable_def)
  from update_ack_unmatchable [OF this] this assms show ?thesis
    by (auto simp: appendSQLite_def)
qed

text \<open>No failed message ends in a sequence number "{digits}"; the node appends those, not the client.\<close>

definition plain_failures :: "chat_op list \<Rightarrow> bool" where
  "plain_failures ops \<longleftrightarrow>
     (\<forall>op \<in> set ops. case op of OpFailed _ _ _ _ msg _ \<Rightarrow> messageSequenceID msg = [] | _ \<Rightarrow> True)"

lemma chat_apply_unmatchable:
  assumes "\<forall>r \<in> set (ct_dm t). unmatchable r" and "plain_failures [op]"
  shows "\<forall>r \<in> set (ct_dm (chat_apply op t)). unmatchable r"
proof (cases op)
  case (OpAppend f1 f2 my msg at)
  have "unmatchable \<lparr>row_id = 0, row_conv = [], row_rec = record_of_message msg at\<rparr>"
    by (simp add: unmatchable_def record_of_message_def new_record_def split: prod.splits)
  from append_unmatchable [OF assms(1) this] assms(1) OpAppend show ?thesis
    by (simp add: AppendChat_def Let_def appendRecord_def)
next
  case (OpFailed f1 f2 src dst msg at)
  let ?rec = "(new_record at (fst (sourceOriginAndRelays src)) (snd (sourceOriginAndRelays src)) dst msg)
      \<lparr>cr_Direction := ''outbound'', cr_DeliveryStatus := ''failed''\<rparr>"
  have "unmatchable \<lparr>row_id = 0, row_conv = [], row_rec = ?rec\<rparr>"
    using assms(2) OpFailed by (simp add: unmatchable_def new_record_def plain_failures_def)
  from append_unmatchable [OF assms(1) this] assms(1) OpFailed show ?thesis
    by (auto simp: AppendFailed_def Let_def appendRecord_def case_prod_beta)
next
  case (OpRemove f i)
  with assms(1) show ?thesis by (auto simp: RemoveChat_def)
qed

lemma chat_run_unmatchable:
  "\<forall>r \<in> set (ct_dm t). unmatchable r \<Longrightarrow> plain_failures ops \<Longrightarrow>
   \<forall>r \<in> set (ct_dm (fold chat_apply ops t)). unmatchable r"
proof (induction ops arbitrary: t)
  case (Cons op ops)
  from Cons.prems have "plain_failures [op]" "plain_failures ops"
    by (simp_all add: plain_failures_def)
  with Cons.IH [OF chat_apply_unmatchable [OF Cons.prems(1)], of op] show ?case by simp
qed simp

section \<open>Deduplication\<close>

text \<open>The reference: keep a record unless a kept one is the same message.\<close>

definition dedupe :: "chat_record list \<Rightarrow> chat_record list" where
  "dedupe recs = fold (\<lambda>r kept. if isDuplicateRecord kept r then kept else kept @ [r]) recs []"

lemma duplicate_ids: "isDuplicateRecord seen r = isDuplicateRecord (filter (\<lambda>e. cr_MsgID e \<noteq> []) seen) r"
  by (auto simp: isDuplicateRecord_def list_ex_iff same_message_def)

lemma read_rows_dedupe:
  "read_rows since (filter (\<lambda>e. cr_MsgID e \<noteq> []) kept) recs
     = drop (length (filter (\<lambda>r. \<not> cr_ReceivedAt r < since) kept))
        (filter (\<lambda>r. \<not> cr_ReceivedAt r < since)
          (fold (\<lambda>r kept. if isDuplicateRecord kept r then kept else kept @ [r]) recs kept))
   \<and> prefix kept (fold (\<lambda>r kept. if isDuplicateRecord kept r then kept else kept @ [r]) recs kept)"
proof (induction recs arbitrary: kept)
  case (Cons r recs)
  show ?case
  proof (cases "isDuplicateRecord kept r")
    case True
    then show ?thesis using Cons duplicate_ids [of kept r] by simp
  next
    case False
    let ?F = "fold (\<lambda>r kept. if isDuplicateRecord kept r then kept else kept @ [r]) recs (kept @ [r])"
    from Cons [of "kept @ [r]"] obtain zs where zs: "?F = kept @ [r] @ zs" by (auto simp: prefix_def)
    with Cons [of "kept @ [r]"] False duplicate_ids [of kept r] show ?thesis
      by (cases "cr_MsgID r = []"; cases "cr_ReceivedAt r < since") (simp_all add: Let_def)
  qed
qed simp

lemma read_rows_filter: "read_rows since [] recs = filter (\<lambda>r. \<not> cr_ReceivedAt r < since) (dedupe recs)"
  using read_rows_dedupe [of since "[]" recs] by (simp add: dedupe_def)

lemma dedupe_pairs:
  "sorted_wrt (\<lambda>a b. \<not> (cr_MsgID b \<noteq> [] \<and> same_message a b)) kept \<Longrightarrow>
   sorted_wrt (\<lambda>a b. \<not> (cr_MsgID b \<noteq> [] \<and> same_message a b))
     (fold (\<lambda>r kept. if isDuplicateRecord kept r then kept else kept @ [r]) recs kept)"
  by (induction recs arbitrary: kept)
     (auto simp: sorted_wrt_append isDuplicateRecord_def list_ex_iff)

section \<open>Properties\<close>

text \<open>C25: The chat tables stay well-formed under every sequence of appended messages, failed sends and
  removals, failing statements included: ids increase, every stored conversation id matches the
  pattern, and direct messages are in chats_dm and nothing else is.\<close>

theorem chat_tables_well_formed:
  "chat_inv (fold chat_apply ops empty_chat)"
  by (intro chat_run_inv empty_chat_inv)

text \<open>No acknowledgement is ever recorded for a message that was sent: the update looks for a row marked
  outbound with the acknowledged sequence number, but only AppendFailed marks a row outbound, and
  it stores the text as the user typed it, without the "{digits}" the node adds. After any sequence
  of operations in which no failed text happens to end that way, every row is still without an
  acknowledgement.\<close>

theorem delivered_messages_never_acked:
  assumes "plain_failures ops"
  shows "\<forall>r \<in> set (ct_dm (fold chat_apply ops empty_chat)). cr_AckStatus (row_rec r) = NoAck"
  using chat_run_unmatchable [of empty_chat, OF _ assms] by (auto simp: empty_chat_def unmatchable_def)

definition example_message :: "string \<Rightarrow> string \<Rightarrow> string \<Rightarrow> text_message" where
  "example_message src dst msg = \<lparr>tm_Source = src, tm_Destination = dst, tm_Message = msg,
     tm_MessageID = ''1'', tm_SourceType = ''lora'', tm_Firmware = [], tm_FWSub = [],
     tm_RSSI = None, tm_SNR = None\<rparr>"

theorem delivered_messages_never_acked_witness:
  "let ops = [OpAppend False False ''IU5PMP-1'' (example_message ''IU5PMP-1'' ''IK5FCK-10'' ''ciao{042'') 0,
              OpAppend False False ''IU5PMP-1'' (example_message ''IK5FCK-10'' ''IU5PMP-1'' '':ack042'') second]
   in \<forall>r \<in> set (ct_dm (fold chat_apply ops empty_chat)). cr_AckStatus (row_rec r) = NoAck"
  unfolding Let_def by (rule delivered_messages_never_acked) (simp add: plain_failures_def)


definition example_rec :: "string \<Rightarrow> string \<Rightarrow> string \<Rightarrow> gotime \<Rightarrow> chat_record" where
  "example_rec src dst msg at = (new_record at src [] dst msg)\<lparr>cr_MsgID := ''7''\<rparr>"

definition example_outbound :: chat_row where
  "example_outbound = \<lparr>row_id = 1, row_conv = ''DM_IU5PMP_IK5FCK-10'',
     row_rec = (example_rec ''IU5PMP-1'' ''IK5FCK-10'' ''ciao{042'' (200 * second))\<lparr>cr_Direction := ''outbound''\<rparr>\<rparr>"

definition example_chat :: chat_tables where
  "example_chat = \<lparr>ct_dm = [example_outbound], ct_public = [], ct_next_dm = 2, ct_next_public = 1\<rparr>"

lemma example_texts:
  "time_column (100 * second) \<le> time_column (200 * second)"
  "time_column (200 * second) \<le> time_column (400 * second)"
  by (simp_all add: time_column_le layout_defs gostr_simps replicate_small less_char_def)

lemma example_strings:
  "messageSequenceID ''ciao{042'' = ''042''" "ackStatusAndSequenceID ''IU5PMP-1:ack042'' = (Ack, ''042'')"
  "to_upper (trim_space ''IK5FCK-10'') = ''IK5FCK-10''" "ValidConversationID ''DM_IU5PMP_IK5FCK-10''"
  "prefix ''DM_'' ''DM_IU5PMP_IK5FCK-10''"
  by code_simp+




end
