(* ===== verification/ChatStatus.thy ===== *)
theory ChatStatus
  imports ChatLog Persist
begin

text \<open>
  internal/chatstatus (status.go): the read marks kept in memory and in the table chat_reads, and the
  snapshot that derives unread counters and previews from the chat log.
\<close>

section \<open>Read marks\<close>

record status_entry =
  se_LastMsgReceived :: gotime
  se_LastRead :: gotime
  se_UnreadCount :: int
  se_LastMsg :: string

definition zero_status :: status_entry where
  "zero_status = \<lparr>se_LastMsgReceived = 0, se_LastRead = 0, se_UnreadCount = 0, se_LastMsg = []\<rparr>"

record status_store =
  cs_entries :: "string \<rightharpoonup> status_entry"
  cs_dirty :: bool

type_synonym reads_table = "string \<rightharpoonup> gotime"

definition load_status :: "reads_table \<Rightarrow> status_store" where
  "load_status table = \<lparr>cs_entries = (\<lambda>k. map_option (\<lambda>r. zero_status\<lparr>se_LastRead := r\<rparr>) (table k)),
     cs_dirty = False\<rparr>"

text \<open>RecordIncoming has an empty body.\<close>

definition RecordIncoming :: "string \<Rightarrow> gotime \<Rightarrow> string \<Rightarrow> status_store \<Rightarrow> status_store" where
  "RecordIncoming convID ts msg s = s"

definition MarkRead :: "string \<Rightarrow> gotime \<Rightarrow> status_store \<Rightarrow> status_store" where
  "MarkRead convID ts s =
     (let e = (case cs_entries s convID of None \<Rightarrow> zero_status | Some e \<Rightarrow> e) in
      s\<lparr>cs_entries := (cs_entries s)(convID \<mapsto> e\<lparr>se_UnreadCount := 0, se_LastRead := ts\<rparr>),
        cs_dirty := True\<rparr>)"

definition RemoveStatus :: "string \<Rightarrow> status_store \<Rightarrow> status_store" where
  "RemoveStatus convID s =
     (if cs_entries s convID = None then s
      else s\<lparr>cs_entries := (cs_entries s)(convID := None), cs_dirty := True\<rparr>)"

definition SnapshotReads :: "status_store \<Rightarrow> (string \<rightharpoonup> gotime)" where
  "SnapshotReads s = (\<lambda>k. map_option se_LastRead (cs_entries s k))"

text \<open>The two halves of SaveIfDirty; the write replaces the table, without zero marks.\<close>

definition status_begin :: "status_store \<Rightarrow> status_store \<times> (string \<rightharpoonup> status_entry) option" where
  "status_begin s = (if \<not> cs_dirty s then (s, None) else (s\<lparr>cs_dirty := False\<rparr>, Some (cs_entries s)))"

definition status_failed :: "(string \<rightharpoonup> status_entry) \<Rightarrow> status_store \<Rightarrow> status_store" where
  "status_failed snapshot s = s\<lparr>cs_dirty := True\<rparr>"

definition nonzero_reads :: "(string \<rightharpoonup> status_entry) \<Rightarrow> reads_table" where
  "nonzero_reads entries = (\<lambda>k. case entries k of None \<Rightarrow> None
     | Some e \<Rightarrow> if se_LastRead e = 0 then None else Some (se_LastRead e))"

definition status_write :: "(string \<rightharpoonup> status_entry) \<Rightarrow> reads_table \<Rightarrow> reads_table" where
  "status_write entries table = nonzero_reads entries"

section \<open>The snapshot\<close>

definition applySnapshotRecord ::
  "(string \<rightharpoonup> gotime) \<Rightarrow> string \<Rightarrow> gotime \<Rightarrow> string \<Rightarrow> (string \<rightharpoonup> status_entry) \<Rightarrow> (string \<rightharpoonup> status_entry)" where
  "applySnapshotRecord reads convID receivedAt msg snapshot =
     (if IsStoreNotice msg then snapshot
      else (let entry = (case snapshot convID of None \<Rightarrow> zero_status | Some e \<Rightarrow> e);
                lastRead = (case reads convID of None \<Rightarrow> 0 | Some r \<Rightarrow> r);
                e1 = entry\<lparr>se_LastRead := lastRead, se_LastMsgReceived := receivedAt, se_LastMsg := msg\<rparr>;
                e2 = (if lastRead = 0 \<or> lastRead < receivedAt
                      then e1\<lparr>se_UnreadCount := se_UnreadCount e1 + 1\<rparr> else e1)
            in snapshot(convID \<mapsto> e2)))"

definition sorted_rows :: "chat_row list \<Rightarrow> chat_row list" where
  "sorted_rows rows = sort_key (\<lambda>r. time_column (cr_ReceivedAt (row_rec r))) rows"

text \<open>The key of a public row is its conversation, that of a direct message dmStatusKey.\<close>

definition public_key :: "chat_row \<Rightarrow> string" where
  "public_key r = row_conv r"

definition dm_key :: "chat_row \<Rightarrow> string" where
  "dm_key r = dmStatusKey (row_conv r) (cr_Src (row_rec r)) (cr_Dst (row_rec r))"

definition apply_row ::
  "(string \<rightharpoonup> gotime) \<Rightarrow> (chat_row \<Rightarrow> string) \<Rightarrow> chat_row \<Rightarrow> (string \<rightharpoonup> status_entry) \<Rightarrow> (string \<rightharpoonup> status_entry)" where
  "apply_row reads key r snapshot =
     applySnapshotRecord reads (key r) (cr_ReceivedAt (row_rec r)) (cr_Msg (row_rec r)) snapshot"

definition applyPublicSnapshot ::
  "(string \<rightharpoonup> gotime) \<Rightarrow> chat_tables \<Rightarrow> (string \<rightharpoonup> status_entry) \<Rightarrow> (string \<rightharpoonup> status_entry)" where
  "applyPublicSnapshot reads t snapshot = fold (apply_row reads public_key) (sorted_rows (ct_public t)) snapshot"

definition applyDMSnapshot ::
  "(string \<rightharpoonup> gotime) \<Rightarrow> chat_tables \<Rightarrow> (string \<rightharpoonup> status_entry) \<Rightarrow> (string \<rightharpoonup> status_entry)" where
  "applyDMSnapshot reads t snapshot =
     fold (\<lambda>r m. if dm_key r = [] then m else apply_row reads dm_key r m) (sorted_rows (ct_dm t)) snapshot"

definition snapshotSQLite :: "chat_tables \<Rightarrow> status_store \<Rightarrow> (string \<rightharpoonup> status_entry)" where
  "snapshotSQLite t s =
     (let reads = SnapshotReads s;
          m = applyDMSnapshot reads t (applyPublicSnapshot reads t Map.empty)
      in (\<lambda>k. case reads k of None \<Rightarrow> m k
            | Some r \<Rightarrow> Some ((case m k of None \<Rightarrow> zero_status | Some e \<Rightarrow> e)\<lparr>se_LastRead := r\<rparr>)))"

section \<open>Saving\<close>

datatype status_change = Mark string gotime | Forget string

fun status_apply :: "status_change \<Rightarrow> status_store \<Rightarrow> status_store" where
  "status_apply (Mark c ts) s = MarkRead c ts s"
| "status_apply (Forget c) s = RemoveStatus c s"

definition status_agrees :: "status_store \<Rightarrow> reads_table \<Rightarrow> bool" where
  "status_agrees s table \<longleftrightarrow> cs_dirty s \<or> nonzero_reads (cs_entries (load_status table)) = nonzero_reads (cs_entries s)"

lemma nonzero_idem:
  "nonzero_reads (cs_entries (load_status (nonzero_reads m))) = nonzero_reads m"
  by (auto simp: nonzero_reads_def load_status_def fun_eq_iff split: option.splits)

interpretation chatstatus: dirty_store status_agrees cs_dirty "\<lambda>s. nonzero_reads (cs_entries s)"
  "\<lambda>table. nonzero_reads (cs_entries (load_status table))"
  status_apply status_begin status_failed status_write
proof
  fix s d c assume a: "status_agrees s d"
  then show "\<not> cs_dirty s \<Longrightarrow> nonzero_reads (cs_entries (load_status d)) = nonzero_reads (cs_entries s)"
    by (simp add: status_agrees_def)
  from a show "status_agrees (status_apply c s) d"
    by (cases c) (auto simp: status_agrees_def MarkRead_def RemoveStatus_def Let_def)
  assume "cs_dirty s"
  then show "\<exists>s' v. status_begin s = (s', Some v) \<and> \<not> cs_dirty s' \<and>
      nonzero_reads (cs_entries s') = nonzero_reads (cs_entries s) \<and> status_agrees s' (status_write v d)"
    by (simp add: status_begin_def status_agrees_def status_write_def nonzero_idem)
qed (simp_all add: status_begin_def status_agrees_def status_failed_def)

abbreviation status_run where
  "status_run \<equiv> save_run status_apply status_begin status_failed status_write"

section \<open>Counting unread messages\<close>

definition unread :: "(string \<rightharpoonup> gotime) \<Rightarrow> string \<Rightarrow> chat_row \<Rightarrow> bool" where
  "unread reads k r \<longleftrightarrow> \<not> IsStoreNotice (cr_Msg (row_rec r)) \<and>
     (case reads k of None \<Rightarrow> True | Some l \<Rightarrow> l = 0 \<or> l < cr_ReceivedAt (row_rec r))"

definition count_of :: "(string \<rightharpoonup> status_entry) \<Rightarrow> string \<Rightarrow> int" where
  "count_of m k = (case m k of None \<Rightarrow> 0 | Some e \<Rightarrow> se_UnreadCount e)"

lemma apply_row_count:
  "count_of (apply_row reads key r m) k
     = count_of m k + (if key r = k \<and> unread reads k r then 1 else 0)"
  by (auto simp: apply_row_def applySnapshotRecord_def count_of_def unread_def Let_def zero_status_def
      split: option.splits)

lemma fold_rows_count:
  "count_of (fold (apply_row reads key) rows m) k
     = count_of m k + int (length (filter (\<lambda>r. key r = k \<and> unread reads k r) rows))"
  by (induction rows arbitrary: m) (simp_all add: apply_row_count)

lemma fold_dm_rows_count:
  "count_of (fold (\<lambda>r m. if key r = [] then m else apply_row reads key r m) rows m) k
     = count_of m k + int (length (filter (\<lambda>r. key r = k \<and> key r \<noteq> [] \<and> unread reads k r) rows))"
  by (induction rows arbitrary: m) (auto simp: apply_row_count)

lemma length_filter_sorted: "length (filter P (sorted_rows rows)) = length (filter P rows)"
  by (simp add: sorted_rows_def filter_sort)

lemma snapshot_count:
  "count_of (snapshotSQLite t s) k =
     int (length (filter (\<lambda>r. public_key r = k \<and> unread (SnapshotReads s) k r) (ct_public t))) +
     int (length (filter (\<lambda>r. dm_key r = k \<and> dm_key r \<noteq> [] \<and> unread (SnapshotReads s) k r) (ct_dm t)))"
proof -
  have "count_of (snapshotSQLite t s) k
      = count_of (applyDMSnapshot (SnapshotReads s) t (applyPublicSnapshot (SnapshotReads s) t Map.empty)) k"
    by (auto simp: snapshotSQLite_def count_of_def Let_def zero_status_def split: option.splits)
  then show ?thesis
    unfolding applyDMSnapshot_def applyPublicSnapshot_def fold_dm_rows_count fold_rows_count
      length_filter_sorted
    by (simp add: count_of_def)
qed

section \<open>Properties\<close>


text \<open>Marking a conversation read clears its counter: after MarkRead with a time that no logged message
  of the conversation exceeds, the snapshot shows nothing unread, and no other conversation's
  counter changes.\<close>

theorem mark_read_clears:
  assumes "ts \<noteq> 0"
    and "\<forall>r \<in> set (ct_public t @ ct_dm t). (public_key r = k \<or> dm_key r = k) \<longrightarrow> cr_ReceivedAt (row_rec r) \<le> ts"
  shows "count_of (snapshotSQLite t (MarkRead k ts s)) k = 0 \<and>
    (\<forall>j. j \<noteq> k \<longrightarrow> count_of (snapshotSQLite t (MarkRead k ts s)) j = count_of (snapshotSQLite t s) j)"
proof -
  have k: "SnapshotReads (MarkRead k ts s) k = Some ts"
    by (simp add: SnapshotReads_def MarkRead_def Let_def)
  have other: "SnapshotReads (MarkRead k ts s) j = SnapshotReads s j" if "j \<noteq> k" for j
    using that by (simp add: SnapshotReads_def MarkRead_def Let_def)
  have "filter (\<lambda>r. public_key r = k \<and> unread (SnapshotReads (MarkRead k ts s)) k r) (ct_public t) = []"
    "filter (\<lambda>r. dm_key r = k \<and> dm_key r \<noteq> [] \<and> unread (SnapshotReads (MarkRead k ts s)) k r) (ct_dm t) = []"
    using assms by (auto simp: filter_empty_conv unread_def k not_less)
  moreover have "unread (SnapshotReads (MarkRead k ts s)) j = unread (SnapshotReads s) j" if "j \<noteq> k" for j
    using other [OF that] by (simp add: unread_def fun_eq_iff)
  ultimately show ?thesis by (simp add: snapshot_count)
qed

theorem mark_read_clears_witness:
  "count_of (snapshotSQLite example_chat (MarkRead ''DM_IU5PMP-1_IK5FCK-10'' (200 * second) (load_status Map.empty)))
     ''DM_IU5PMP-1_IK5FCK-10'' = 0"
proof -
  have "\<forall>r \<in> set (ct_public example_chat @ ct_dm example_chat).
      (public_key r = ''DM_IU5PMP-1_IK5FCK-10'' \<or> dm_key r = ''DM_IU5PMP-1_IK5FCK-10'') \<longrightarrow>
      cr_ReceivedAt (row_rec r) \<le> 200 * second"
    by (simp add: example_chat_def example_outbound_def example_rec_def new_record_def)
  from mark_read_clears [OF _ this] show ?thesis by simp
qed

text \<open>Acknowledgements count as unread messages and become the preview: the classifier IsAckOrReject says
  they must not, but the snapshot only skips custody notices (the check in the packet processor
  guards RecordIncoming, which does nothing).\<close>

theorem ack_counts_as_unread:
  assumes ack: "IsAckOrReject (cr_Msg (row_rec r))" and notice: "\<not> IsStoreNotice (cr_Msg (row_rec r))"
    and key: "dm_key r = k" "k \<noteq> []"
  shows "\<exists>e. snapshotSQLite \<lparr>ct_dm = [r], ct_public = [], ct_next_dm = n, ct_next_public = m\<rparr>
      (load_status Map.empty) k = Some e \<and> se_UnreadCount e = 1 \<and> se_LastMsg e = cr_Msg (row_rec r)"
  using assms
  by (simp add: snapshotSQLite_def applyDMSnapshot_def applyPublicSnapshot_def sorted_rows_def Let_def
      apply_row_def applySnapshotRecord_def SnapshotReads_def load_status_def zero_status_def)

definition example_ack_row :: chat_row where
  "example_ack_row = \<lparr>row_id = 1, row_conv = ''DM_IU5PMP_IK5FCK-10'',
     row_rec = example_rec ''IK5FCK-10'' ''IU5PMP-1'' '':ack042'' second\<rparr>"

theorem ack_counts_as_unread_witness:
  "\<exists>e. snapshotSQLite \<lparr>ct_dm = [example_ack_row], ct_public = [], ct_next_dm = 2, ct_next_public = 1\<rparr>
      (load_status Map.empty) ''DM_IU5PMP-1_IK5FCK-10'' = Some e \<and> se_UnreadCount e = 1 \<and>
      se_LastMsg e = '':ack042''"
proof -
  have m: "cr_Msg (row_rec example_ack_row) = '':ack042''" "cr_Src (row_rec example_ack_row) = ''IK5FCK-10''"
    "cr_Dst (row_rec example_ack_row) = ''IU5PMP-1''" "row_conv example_ack_row = ''DM_IU5PMP_IK5FCK-10''"
    by (simp_all add: example_ack_row_def example_rec_def new_record_def)
  have v: "IsAckOrReject '':ack042''" "\<not> IsStoreNotice '':ack042''"
    "dmStatusKey ''DM_IU5PMP_IK5FCK-10'' ''IK5FCK-10'' ''IU5PMP-1'' = ''DM_IU5PMP-1_IK5FCK-10''"
    by code_simp+
  have "dm_key example_ack_row = ''DM_IU5PMP-1_IK5FCK-10''" using v(3) by (simp only: dm_key_def m)
  from ack_counts_as_unread [OF _ _ this, where n = 2 and m = 1] v(1,2) show ?thesis
    by (simp only: m) blast
qed

text \<open>Read marks survive failing writes: with no save in flight and nothing marked dirty, a restart reads
  every non-zero mark, whatever sequence of marks, removals and saves of the periodic loop came
  before, failed writes included; and one more successful save always makes that so.\<close>

theorem read_marks_durable:
  assumes "status_run ops (load_status table0, table0, None) = (s, table, None)"
  shows "(\<not> cs_dirty s \<longrightarrow> nonzero_reads (cs_entries (load_status table)) = nonzero_reads (cs_entries s)) \<and>
    (\<exists>s' table'. status_run [BeginSave, EndSave True] (s, table, None) = (s', table', None) \<and>
       nonzero_reads (cs_entries (load_status table')) = nonzero_reads (cs_entries s))"
proof -
  have "status_agrees (load_status table0) table0" by (simp add: status_agrees_def)
  from chatstatus.durable [OF this assms] show ?thesis by blast
qed

theorem read_marks_durable_witness:
  "\<exists>s' table'. status_run [BeginSave, EndSave True] (MarkRead ''P_9'' 7 (load_status Map.empty), Map.empty, None)
      = (s', table', None) \<and>
    nonzero_reads (cs_entries (load_status table')) ''P_9'' = Some 7"
proof -
  let ?s = "MarkRead ''P_9'' 7 (load_status Map.empty)"
  have r: "status_run [Change (Mark ''P_9'' 7), BeginSave, EndSave False] (load_status Map.empty, Map.empty, None)
    = (?s, Map.empty, None)"
    by (simp add: MarkRead_def Let_def status_begin_def status_failed_def)
  have v: "nonzero_reads (cs_entries ?s) ''P_9'' = Some 7"
    by (simp add: nonzero_reads_def MarkRead_def Let_def)
  from read_marks_durable [OF r] obtain s' table' where
    "status_run [BeginSave, EndSave True] (?s, Map.empty, None) = (s', table', None)"
    "nonzero_reads (cs_entries (load_status table')) = nonzero_reads (cs_entries ?s)" by blast
  with v show ?thesis by (metis (no_types))
qed

end
