(* ===== verification/ParsePacket.thy ===== *)
theory ParsePacket
  imports Packets
begin

text \<open>
  ParsePacket and its helpers (internal/meshcom/packet.go): how a JSON datagram becomes an Envelope.
  The text level of encoding/json (the grammar, the number and error texts) is the record json_lib;
  what encoding/json does with the struct tags is written out: members are taken in order, a name
  matches a tag exactly or else up to case folding, null leaves a plain field alone and clears a
  pointer, a value of the wrong kind is remembered as an error while decoding goes on, and an error
  of a custom UnmarshalJSON ends the decoding.
\<close>

datatype json =
    VNull | VBool bool | VNumber string | VString string | VArray "json list"
  | VObject "(string \<times> json) list"

datatype json_error = SyntaxError string | TypeError string json | StringValueError json

datatype parse_error =
    DecodePacket json_error | TypeRequired | DecodeType json_error | DecodeText json_error
  | DecodePosition json_error | DecodeTelemetry json_error | Unsupported string

text \<open>
  jl_decode parses a text, jl_float a number literal (None when it is out of range), jl_zero is the
  float64 zero, jl_text and jl_quote are the error text of encoding/json and the verb q of fmt.
\<close>

record 'f json_lib =
  jl_decode :: "string \<Rightarrow> string + json"
  jl_float :: "string \<Rightarrow> 'f option"
  jl_zero :: 'f
  jl_text :: "json_error \<Rightarrow> string"
  jl_quote :: "string \<Rightarrow> string"

record 'f envelope =
  en_Type :: string
  en_Packet :: "'f packet"
  en_Raw :: string
  en_Unknown :: "string \<rightharpoonup> json"

section \<open>Matching member names to tags\<close>

text \<open>
  encoding/json's foldName on the names that can match an ASCII tag: letters are folded to upper
  case, and the long s (U+017F) and the Kelvin sign (U+212A) to the ASCII letter.
\<close>

fun fold_name :: "string \<Rightarrow> string" where
  "fold_name (c # d # e # s) =
     (if byte c = 226 \<and> byte d = 132 \<and> byte e = 170 then CHR ''K'' # fold_name s
      else if byte c = 197 \<and> byte d = 191 then CHR ''S'' # fold_name (e # s)
      else upper_char c # fold_name (d # e # s))"
| "fold_name [c, d] =
     (if byte c = 197 \<and> byte d = 191 then ''S'' else [upper_char c, upper_char d])"
| "fold_name [c] = [upper_char c]"
| "fold_name [] = []"

definition field_of :: "string list \<Rightarrow> string \<Rightarrow> string option" where
  "field_of tags key =
     (if key \<in> set tags then Some key else find (\<lambda>t. fold_name t = fold_name key) tags)"

section \<open>Values into fields\<close>

definition string_field :: "string \<Rightarrow> json \<Rightarrow> (string \<Rightarrow> 'r \<Rightarrow> 'r) \<Rightarrow> 'r \<Rightarrow> json_error + 'r" where
  "string_field tag v upd r =
     (case v of VString s \<Rightarrow> Inr (upd s r) | VNull \<Rightarrow> Inr r | _ \<Rightarrow> Inl (TypeError tag v))"

text \<open>StringValue.UnmarshalJSON: a string, a number's literal or a boolean's word.\<close>

definition UnmarshalStringValue :: "json \<Rightarrow> json_error + string" where
  "UnmarshalStringValue v =
     (case v of VString s \<Rightarrow> Inr s | VNull \<Rightarrow> Inr [] | VNumber n \<Rightarrow> Inr n
      | VBool b \<Rightarrow> Inr (if b then ''true'' else ''false'') | _ \<Rightarrow> Inl (StringValueError v))"

definition value_field :: "json \<Rightarrow> (string \<Rightarrow> 'r \<Rightarrow> 'r) \<Rightarrow> 'r \<Rightarrow> json_error + 'r" where
  "value_field v upd r = (case UnmarshalStringValue v of Inl e \<Rightarrow> Inl e | Inr s \<Rightarrow> Inr (upd s r))"

text \<open>A number field, whose literal num reads; null leaves it alone. Through a pointer, null clears it.\<close>

definition number_field ::
  "(string \<Rightarrow> 'n option) \<Rightarrow> string \<Rightarrow> json \<Rightarrow> ('n \<Rightarrow> 'r \<Rightarrow> 'r) \<Rightarrow> 'r \<Rightarrow> json_error + 'r" where
  "number_field num tag v upd r =
     (case v of VNull \<Rightarrow> Inr r
      | VNumber n \<Rightarrow> (case num n of None \<Rightarrow> Inl (TypeError tag v) | Some x \<Rightarrow> Inr (upd x r))
      | _ \<Rightarrow> Inl (TypeError tag v))"

definition pointer_field ::
  "(string \<Rightarrow> 'n option) \<Rightarrow> string \<Rightarrow> json \<Rightarrow> ('n option \<Rightarrow> 'r \<Rightarrow> 'r) \<Rightarrow> 'r \<Rightarrow> json_error + 'r" where
  "pointer_field num tag v upd r =
     (if v = VNull then Inr (upd None r) else number_field num tag v (\<lambda>x. upd (Some x)) r)"

definition is_abort :: "json_error \<Rightarrow> bool" where
  "is_abort e = (case e of StringValueError _ \<Rightarrow> True | _ \<Rightarrow> False)"

fun decode_members ::
  "(string \<Rightarrow> json \<Rightarrow> 'r \<Rightarrow> json_error + 'r) \<Rightarrow> (string \<times> json) list \<Rightarrow> 'r \<Rightarrow> json_error option
   \<Rightarrow> json_error + 'r" where
  "decode_members step [] r saved = (case saved of None \<Rightarrow> Inr r | Some e \<Rightarrow> Inl e)"
| "decode_members step ((k, v) # kvs) r saved =
     (case step k v r of
        Inr r' \<Rightarrow> decode_members step kvs r' saved
      | Inl e \<Rightarrow> if is_abort e then Inl e
          else decode_members step kvs r (if saved = None then Some e else saved))"

section \<open>The three packets\<close>

definition text_tags :: "string list" where
  "text_tags = [''type'', ''src'', ''dst'', ''msg'', ''msg_id'', ''src_type'', ''firmware'', ''fw_sub'',
     ''rssi'', ''snr'']"

definition text_step :: "string \<Rightarrow> json \<Rightarrow> text_message \<Rightarrow> json_error + text_message" where
  "text_step k v r =
     (case field_of text_tags k of None \<Rightarrow> Inr r
      | Some t \<Rightarrow>
        if t = ''type'' then string_field t v (\<lambda>_ r. r) r
        else if t = ''src'' then string_field t v (\<lambda>s r. r\<lparr>tm_Source := s\<rparr>) r
        else if t = ''dst'' then string_field t v (\<lambda>s r. r\<lparr>tm_Destination := s\<rparr>) r
        else if t = ''msg'' then string_field t v (\<lambda>s r. r\<lparr>tm_Message := s\<rparr>) r
        else if t = ''msg_id'' then string_field t v (\<lambda>s r. r\<lparr>tm_MessageID := s\<rparr>) r
        else if t = ''src_type'' then string_field t v (\<lambda>s r. r\<lparr>tm_SourceType := s\<rparr>) r
        else if t = ''firmware'' then value_field v (\<lambda>s r. r\<lparr>tm_Firmware := s\<rparr>) r
        else if t = ''fw_sub'' then value_field v (\<lambda>s r. r\<lparr>tm_FWSub := s\<rparr>) r
        else if t = ''rssi'' then pointer_field atoi t v (\<lambda>n r. r\<lparr>tm_RSSI := n\<rparr>) r
        else pointer_field atoi t v (\<lambda>n r. r\<lparr>tm_SNR := n\<rparr>) r)"

definition text_zero :: text_message where
  "text_zero = \<lparr>tm_Source = [], tm_Destination = [], tm_Message = [], tm_MessageID = [],
     tm_SourceType = [], tm_Firmware = [], tm_FWSub = [], tm_RSSI = None, tm_SNR = None\<rparr>"

definition position_tags :: "string list" where
  "position_tags = [''type'', ''src'', ''msg'', ''msg_id'', ''src_type'', ''lat'', ''lat_dir'', ''long'',
     ''long_dir'', ''aprs_symbol'', ''aprs_symbol_group'', ''hw_id'', ''alt'', ''batt'', ''firmware'',
     ''fw_sub'', ''rssi'', ''snr'']"

definition position_step ::
  "(string \<Rightarrow> 'f option) \<Rightarrow> string \<Rightarrow> json \<Rightarrow> 'f position \<Rightarrow> json_error + 'f position" where
  "position_step fl k v r =
     (case field_of position_tags k of None \<Rightarrow> Inr r
      | Some t \<Rightarrow>
        if t = ''type'' then string_field t v (\<lambda>_ r. r) r
        else if t = ''src'' then string_field t v (\<lambda>s r. r\<lparr>po_Source := s\<rparr>) r
        else if t = ''msg'' then string_field t v (\<lambda>s r. r\<lparr>po_Message := s\<rparr>) r
        else if t = ''msg_id'' then string_field t v (\<lambda>s r. r\<lparr>po_MessageID := s\<rparr>) r
        else if t = ''src_type'' then string_field t v (\<lambda>s r. r\<lparr>po_SourceType := s\<rparr>) r
        else if t = ''lat'' then number_field fl t v (\<lambda>x r. r\<lparr>po_Latitude := x\<rparr>) r
        else if t = ''lat_dir'' then string_field t v (\<lambda>s r. r\<lparr>po_LatitudeDir := s\<rparr>) r
        else if t = ''long'' then number_field fl t v (\<lambda>x r. r\<lparr>po_Longitude := x\<rparr>) r
        else if t = ''long_dir'' then string_field t v (\<lambda>s r. r\<lparr>po_LongitudeDir := s\<rparr>) r
        else if t = ''aprs_symbol'' then string_field t v (\<lambda>s r. r\<lparr>po_APRSSymbol := s\<rparr>) r
        else if t = ''aprs_symbol_group'' then string_field t v (\<lambda>s r. r\<lparr>po_APRSSymbolGroup := s\<rparr>) r
        else if t = ''hw_id'' then value_field v (\<lambda>s r. r\<lparr>po_HardwareID := s\<rparr>) r
        else if t = ''alt'' then number_field atoi t v (\<lambda>n r. r\<lparr>po_Altitude := n\<rparr>) r
        else if t = ''batt'' then number_field atoi t v (\<lambda>n r. r\<lparr>po_Battery := n\<rparr>) r
        else if t = ''firmware'' then value_field v (\<lambda>s r. r\<lparr>po_Firmware := s\<rparr>) r
        else if t = ''fw_sub'' then value_field v (\<lambda>s r. r\<lparr>po_FWSub := s\<rparr>) r
        else if t = ''rssi'' then pointer_field atoi t v (\<lambda>n r. r\<lparr>po_RSSI := n\<rparr>) r
        else pointer_field atoi t v (\<lambda>n r. r\<lparr>po_SNR := n\<rparr>) r)"

definition position_zero :: "'f \<Rightarrow> 'f position" where
  "position_zero z = \<lparr>po_Source = [], po_Message = [], po_MessageID = [], po_SourceType = [],
     po_Latitude = z, po_LatitudeDir = [], po_Longitude = z, po_LongitudeDir = [], po_APRSSymbol = [],
     po_APRSSymbolGroup = [], po_HardwareID = [], po_Altitude = 0, po_Battery = 0, po_Firmware = [],
     po_FWSub = [], po_RSSI = None, po_SNR = None\<rparr>"

definition telemetry_tags :: "string list" where
  "telemetry_tags = [''type'', ''src'', ''src_type'', ''rssi'', ''snr'', ''temp1'', ''temp2'', ''hum'',
     ''batt'', ''qfe'', ''qnh'', ''gas'', ''co2'']"

definition telemetry_step ::
  "(string \<Rightarrow> 'f option) \<Rightarrow> string \<Rightarrow> json \<Rightarrow> 'f telemetry \<Rightarrow> json_error + 'f telemetry" where
  "telemetry_step fl k v r =
     (case field_of telemetry_tags k of None \<Rightarrow> Inr r
      | Some t \<Rightarrow>
        if t = ''type'' then string_field t v (\<lambda>_ r. r) r
        else if t = ''src'' then string_field t v (\<lambda>s r. r\<lparr>te_Source := s\<rparr>) r
        else if t = ''src_type'' then string_field t v (\<lambda>s r. r\<lparr>te_SourceType := s\<rparr>) r
        else if t = ''rssi'' then pointer_field atoi t v (\<lambda>n r. r\<lparr>te_RSSI := n\<rparr>) r
        else if t = ''snr'' then pointer_field atoi t v (\<lambda>n r. r\<lparr>te_SNR := n\<rparr>) r
        else if t = ''temp1'' then pointer_field fl t v (\<lambda>x r. r\<lparr>te_Temp1 := x\<rparr>) r
        else if t = ''temp2'' then pointer_field fl t v (\<lambda>x r. r\<lparr>te_Temp2 := x\<rparr>) r
        else if t = ''hum'' then pointer_field fl t v (\<lambda>x r. r\<lparr>te_Humidity := x\<rparr>) r
        else if t = ''batt'' then pointer_field atoi t v (\<lambda>n r. r\<lparr>te_Battery := n\<rparr>) r
        else if t = ''qfe'' then pointer_field fl t v (\<lambda>x r. r\<lparr>te_QFE := x\<rparr>) r
        else if t = ''qnh'' then pointer_field fl t v (\<lambda>x r. r\<lparr>te_QNH := x\<rparr>) r
        else if t = ''gas'' then pointer_field fl t v (\<lambda>x r. r\<lparr>te_Gas := x\<rparr>) r
        else pointer_field fl t v (\<lambda>x r. r\<lparr>te_CO2 := x\<rparr>) r)"

definition telemetry_zero :: "'f telemetry" where
  "telemetry_zero = \<lparr>te_Source = [], te_SourceType = [], te_RSSI = None, te_SNR = None, te_Temp1 = None,
     te_Temp2 = None, te_Humidity = None, te_Battery = None, te_QFE = None, te_QNH = None,
     te_Gas = None, te_CO2 = None\<rparr>"

section \<open>ParsePacket\<close>

text \<open>json.Unmarshal into a map: null gives the empty map, and of two equal names the last wins.\<close>

definition fields_of :: "json \<Rightarrow> json_error + (string \<times> json) list" where
  "fields_of v = (case v of VObject kvs \<Rightarrow> Inr kvs | VNull \<Rightarrow> Inr [] | _ \<Rightarrow> Inl (TypeError [] v))"

definition member :: "(string \<times> json) list \<Rightarrow> string \<rightharpoonup> json" where
  "member kvs = map_of (rev kvs)"

definition readPacketType :: "(string \<times> json) list \<Rightarrow> parse_error + string" where
  "readPacketType kvs =
     (case member kvs ''type'' of
        None \<Rightarrow> Inl TypeRequired
      | Some v \<Rightarrow> (case string_field ''type'' v (\<lambda>s _. s) [] of
          Inl e \<Rightarrow> Inl (DecodeType e)
        | Inr t \<Rightarrow> if t = [] then Inl TypeRequired else Inr t))"

definition knownFields :: "string \<Rightarrow> string list" where
  "knownFields t =
     [''type'', ''src_type'', ''src'', ''dst'', ''msg'', ''msg_id'', ''firmware'', ''fw_sub'', ''rssi'', ''snr'']
     @ (if t = ''pos'' then [''lat'', ''lat_dir'', ''long'', ''long_dir'', ''aprs_symbol'',
          ''aprs_symbol_group'', ''hw_id'', ''alt'', ''batt'']
        else if t = ''tele'' then [''temp1'', ''temp2'', ''hum'', ''batt'', ''qfe'', ''qnh'', ''gas'', ''co2'']
        else [])"

definition unknownFields :: "(string \<times> json) list \<Rightarrow> string list \<Rightarrow> string \<rightharpoonup> json" where
  "unknownFields kvs known = (\<lambda>k. if k \<in> set known then None else member kvs k)"

definition ParsePacket :: "'f json_lib \<Rightarrow> string \<Rightarrow> parse_error + 'f envelope" where
  "ParsePacket jl data =
     (case jl_decode jl data of
        Inl e \<Rightarrow> Inl (DecodePacket (SyntaxError e))
      | Inr v \<Rightarrow> (case fields_of v of
          Inl e \<Rightarrow> Inl (DecodePacket e)
        | Inr kvs \<Rightarrow> (case readPacketType kvs of
            Inl e \<Rightarrow> Inl e
          | Inr t \<Rightarrow>
              let env = (\<lambda>p. Inr \<lparr>en_Type = t, en_Packet = p, en_Raw = data,
                           en_Unknown = unknownFields kvs (knownFields t)\<rparr>) in
              if t = ''msg'' then
                (case decode_members text_step kvs text_zero None of
                   Inl e \<Rightarrow> Inl (DecodeText e) | Inr m \<Rightarrow> env (TextPacket m))
              else if t = ''pos'' then
                (case decode_members (position_step (jl_float jl)) kvs (position_zero (jl_zero jl)) None of
                   Inl e \<Rightarrow> Inl (DecodePosition e) | Inr p \<Rightarrow> env (PositionPacket p))
              else if t = ''tele'' then
                (case decode_members (telemetry_step (jl_float jl)) kvs telemetry_zero None of
                   Inl e \<Rightarrow> Inl (DecodeTelemetry e) | Inr p \<Rightarrow> env (TelemetryPacket p))
              else Inl (Unsupported t))))"

text \<open>The text of an error, what err.Error() gives.\<close>

definition parse_error_text :: "'f json_lib \<Rightarrow> parse_error \<Rightarrow> string" where
  "parse_error_text jl e =
     (case e of
        DecodePacket j \<Rightarrow> ''decode packet: '' @ jl_text jl j
      | TypeRequired \<Rightarrow> ''packet type is required''
      | DecodeType j \<Rightarrow> ''decode packet type: '' @ jl_text jl j
      | DecodeText j \<Rightarrow> ''decode text message: '' @ jl_text jl j
      | DecodePosition j \<Rightarrow> ''decode position: '' @ jl_text jl j
      | DecodeTelemetry j \<Rightarrow> ''decode telemetry: '' @ jl_text jl j
      | Unsupported t \<Rightarrow> ''unsupported packet type '' @ jl_quote jl t)"

section \<open>What a field holds after decoding\<close>

text \<open>The texts the members for a tag carry, in order, and the one that counts.\<close>

definition strings_of :: "string list \<Rightarrow> string \<Rightarrow> (string \<times> json) list \<Rightarrow> string list" where
  "strings_of tags t kvs =
     concat (map (\<lambda>(k, v). if field_of tags k = Some t then (case v of VString s \<Rightarrow> [s] | _ \<Rightarrow> []) else []) kvs)"

definition last_string :: "string list \<Rightarrow> string \<Rightarrow> (string \<times> json) list \<Rightarrow> string" where
  "last_string tags t kvs = (if strings_of tags t kvs = [] then [] else last (strings_of tags t kvs))"

lemma strings_of_simps [simp]:
  "strings_of tags t [] = []"
  "strings_of tags t ((k, v) # kvs) =
     (if field_of tags k = Some t then (case v of VString s \<Rightarrow> [s] | _ \<Rightarrow> []) else []) @ strings_of tags t kvs"
  by (simp_all add: strings_of_def)

lemma decode_members_saved: "decode_members step kvs r (Some e) \<noteq> Inr m"
proof (induction kvs arbitrary: r e)
  case (Cons kv kvs)
  then show ?case by (cases kv) (simp split: sum.splits)
qed simp

lemma decode_members_Cons:
  assumes "decode_members step ((k, v) # kvs) r None = Inr m"
  obtains r' where "step k v r = Inr r'" "decode_members step kvs r' None = Inr m"
  using assms by (auto simp: decode_members_saved split: sum.splits if_splits)

text \<open>A string field ends as the last text among the members that match its tag.\<close>

lemma decode_members_string:
  assumes own: "\<And>k v r r'. step k v r = Inr r' \<Longrightarrow> field_of tags k = Some t \<Longrightarrow>
      get r' = (case v of VString s \<Rightarrow> s | _ \<Rightarrow> get r)"
    and frame: "\<And>k v r r'. step k v r = Inr r' \<Longrightarrow> field_of tags k \<noteq> Some t \<Longrightarrow> get r' = get r"
    and run: "decode_members step kvs r None = Inr m"
  shows "get m = (if strings_of tags t kvs = [] then get r else last (strings_of tags t kvs))"
  using run
proof (induction kvs arbitrary: r)
  case (Cons kv kvs)
  obtain k v where kv: "kv = (k, v)" by (cases kv)
  with Cons.prems obtain r' where r': "step k v r = Inr r'" "decode_members step kvs r' None = Inr m"
    using decode_members_Cons by metis
  show ?case
  proof (cases "field_of tags k = Some t")
    case True
    from own [OF r'(1) True] Cons.IH [OF r'(2)] kv True show ?thesis by (cases v) auto
  next
    case False
    from frame [OF r'(1) False] Cons.IH [OF r'(2)] kv False show ?thesis by simp
  qed
qed simp

lemma string_field_Inr:
  "string_field tag v upd r = Inr r' \<longleftrightarrow> (\<exists>s. v = VString s \<and> r' = upd s r) \<or> v = VNull \<and> r' = r"
  by (auto simp: string_field_def split: json.splits)

lemma value_field_Inr: "value_field v upd r = Inr r' \<Longrightarrow> \<exists>s. r' = upd s r"
  by (auto simp: value_field_def split: sum.splits)

lemma number_field_Inr: "number_field num tag v upd r = Inr r' \<Longrightarrow> r' = r \<or> (\<exists>x. r' = upd x r)"
  by (auto simp: number_field_def split: json.splits option.splits)

lemma pointer_field_Inr: "pointer_field num tag v upd r = Inr r' \<Longrightarrow> r' = r \<or> (\<exists>x. r' = upd x r)"
  by (auto simp: pointer_field_def split: if_splits dest!: number_field_Inr)

lemmas field_Inr = string_field_Inr value_field_Inr number_field_Inr pointer_field_Inr

lemma text_step_own:
  assumes "text_step k v r = Inr r'" and "field_of text_tags k = Some t"
  shows "t = ''src'' \<Longrightarrow> tm_Source r' = (case v of VString s \<Rightarrow> s | _ \<Rightarrow> tm_Source r)"
    "t = ''dst'' \<Longrightarrow> tm_Destination r' = (case v of VString s \<Rightarrow> s | _ \<Rightarrow> tm_Destination r)"
    "t = ''msg'' \<Longrightarrow> tm_Message r' = (case v of VString s \<Rightarrow> s | _ \<Rightarrow> tm_Message r)"
    "t = ''msg_id'' \<Longrightarrow> tm_MessageID r' = (case v of VString s \<Rightarrow> s | _ \<Rightarrow> tm_MessageID r)"
    "t = ''src_type'' \<Longrightarrow> tm_SourceType r' = (case v of VString s \<Rightarrow> s | _ \<Rightarrow> tm_SourceType r)"
  using assms by (auto simp: text_step_def string_field_Inr)

lemma text_step_frame:
  assumes "text_step k v r = Inr r'"
  shows "field_of text_tags k \<noteq> Some ''src'' \<Longrightarrow> tm_Source r' = tm_Source r"
    "field_of text_tags k \<noteq> Some ''dst'' \<Longrightarrow> tm_Destination r' = tm_Destination r"
    "field_of text_tags k \<noteq> Some ''msg'' \<Longrightarrow> tm_Message r' = tm_Message r"
    "field_of text_tags k \<noteq> Some ''msg_id'' \<Longrightarrow> tm_MessageID r' = tm_MessageID r"
    "field_of text_tags k \<noteq> Some ''src_type'' \<Longrightarrow> tm_SourceType r' = tm_SourceType r"
  using assms
  by (auto simp: text_step_def string_field_Inr split: option.splits if_splits
      dest!: value_field_Inr pointer_field_Inr)

lemma text_fields:
  assumes "decode_members text_step kvs text_zero None = Inr m"
  shows "tm_Source m = last_string text_tags ''src'' kvs"
    "tm_Destination m = last_string text_tags ''dst'' kvs"
    "tm_Message m = last_string text_tags ''msg'' kvs"
    "tm_MessageID m = last_string text_tags ''msg_id'' kvs"
    "tm_SourceType m = last_string text_tags ''src_type'' kvs"
  using decode_members_string [where get = tm_Source, OF text_step_own(1) text_step_frame(1) assms]
    decode_members_string [where get = tm_Destination, OF text_step_own(2) text_step_frame(2) assms]
    decode_members_string [where get = tm_Message, OF text_step_own(3) text_step_frame(3) assms]
    decode_members_string [where get = tm_MessageID, OF text_step_own(4) text_step_frame(4) assms]
    decode_members_string [where get = tm_SourceType, OF text_step_own(5) text_step_frame(5) assms]
  by (simp_all add: last_string_def text_zero_def)

lemma ParsePacket_object:
  assumes "ParsePacket jl data = Inr e"
  obtains kvs where "jl_decode jl data = Inr (VObject kvs)"
  using assms
  by (auto simp: ParsePacket_def fields_of_def readPacketType_def member_def split: sum.splits json.splits)

section \<open>Properties\<close>

text \<open>C26: A datagram ParsePacket accepts is a JSON object whose exact member "type" names the kind of the
  packet: the envelope keeps the raw bytes and carries the packet of that kind. Each text field of a
  text message is the last text among the members that match its tag (case folded, as
  encoding/json does), empty when there is none, and Unknown holds exactly the members whose exact
  name is not a known field, so a field written in another case is both decoded and reported as
  unknown.\<close>

theorem parse_packet_faithful:
  assumes "ParsePacket jl data = Inr e" and "jl_decode jl data = Inr (VObject kvs)"
  shows "member kvs ''type'' = Some (VString (en_Type e)) \<and> en_Raw e = data \<and>
    en_Type e = type_text (type_of_packet (en_Packet e)) \<and>
    (\<forall>k. en_Unknown e k = (if k \<in> set (knownFields (en_Type e)) then None else member kvs k)) \<and>
    (case en_Packet e of
       TextPacket m \<Rightarrow>
         tm_Source m = last_string text_tags ''src'' kvs \<and>
         tm_Destination m = last_string text_tags ''dst'' kvs \<and>
         tm_Message m = last_string text_tags ''msg'' kvs \<and>
         tm_MessageID m = last_string text_tags ''msg_id'' kvs \<and>
         tm_SourceType m = last_string text_tags ''src_type'' kvs
     | _ \<Rightarrow> True)"
proof -
  have f: "fields_of (VObject kvs) = Inr kvs" by (simp add: fields_of_def)
  from assms f obtain t where t: "readPacketType kvs = Inr t"
    by (auto simp: ParsePacket_def split: sum.splits)
  then have ty: "member kvs ''type'' = Some (VString t)"
    by (auto simp: readPacketType_def string_field_def split: option.splits json.splits if_splits sum.splits)
  note run = assms(1) [unfolded ParsePacket_def assms(2) sum.case f t Let_def]
  note tt = type_text_def type_of_packet_def unknownFields_def
  consider "t = ''msg''" | "t = ''pos''" | "t = ''tele''"
    using run by (auto split: if_splits)
  then show ?thesis
  proof cases
    case 1
    with run obtain m where "decode_members text_step kvs text_zero None = Inr m"
      "e = \<lparr>en_Type = t, en_Packet = TextPacket m, en_Raw = data, en_Unknown = unknownFields kvs (knownFields t)\<rparr>"
      by (auto split: sum.splits)
    with text_fields 1 ty show ?thesis by (simp add: tt)
  next
    case 2
    with run ty show ?thesis by (auto simp: tt split: sum.splits)
  next
    case 3
    with run ty show ?thesis by (auto simp: tt split: sum.splits)
  qed
qed

definition example_members :: "(string \<times> json) list" where
  "example_members = [(''type'', VString ''msg''), (''src'', VString ''N0CALL-1''),
     (''MSG'', VString ''hi''), (''firmware'', VNumber ''4.35''), (''SRC'', VString ''N0CALL-2'')]"

definition example_lib :: "int json_lib" where
  "example_lib = \<lparr>jl_decode = (\<lambda>_. Inr (VObject example_members)),
     jl_float = atoi, jl_zero = 0, jl_text = (\<lambda>_. []), jl_quote = id\<rparr>"

definition example_text :: text_message where
  "example_text = text_zero\<lparr>tm_Source := ''N0CALL-2'', tm_Message := ''hi'', tm_Firmware := ''4.35''\<rparr>"

definition example_envelope :: "int envelope" where
  "example_envelope = \<lparr>en_Type = ''msg'', en_Packet = TextPacket example_text, en_Raw = ''{}'',
     en_Unknown = unknownFields example_members (knownFields ''msg'')\<rparr>"

lemma example_parsed: "ParsePacket example_lib ''{}'' = Inr example_envelope"
proof -
  have d: "jl_decode example_lib ''{}'' = Inr (VObject example_members)" by (simp add: example_lib_def)
  have m: "decode_members text_step example_members text_zero None = Inr example_text" by code_simp
  have r: "readPacketType example_members = Inr ''msg''" by code_simp
  show ?thesis
    by (simp only: ParsePacket_def d sum.case fields_of_def json.case r Let_def m if_True simp_thms
        example_envelope_def)
qed

theorem parse_packet_faithful_witness:
  "en_Raw example_envelope = ''{}'' \<and> en_Unknown example_envelope ''MSG'' = Some (VString ''hi'') \<and>
     tm_Source example_text = last_string text_tags ''src'' example_members"
proof -
  have d: "jl_decode example_lib ''{}'' = Inr (VObject example_members)" by (simp add: example_lib_def)
  have u: "''MSG'' \<notin> set (knownFields (en_Type example_envelope))"
    by (simp add: knownFields_def example_envelope_def)
  have k: "member example_members ''MSG'' = Some (VString ''hi'')"
    by (simp add: member_def example_members_def)
  have t: "en_Packet example_envelope = TextPacket example_text" by (simp add: example_envelope_def)
  show ?thesis using parse_packet_faithful [OF example_parsed d] u k t by auto
qed

end
