(* ===== verification/Positions.thy ===== *)
theory Positions
  imports Packets Persist
begin

text \<open>
  internal/positions (store.go): the last known position and the freshness of every station heard.
  Coordinates have the type variable 'f. The store writes only the nodes changed since the last
  save, by upserts into the table nodes.
\<close>

section \<open>State\<close>

record 'f pos_record =
  pr_Latitude :: 'f
  pr_Longitude :: 'f
  pr_Altitude :: int
  pr_HardwareID :: string
  pr_FirstSeen :: gotime
  pr_LastSeen :: gotime
  pr_LastDirectSeen :: "gotime option"
  pr_RSSI :: int
  pr_SNR :: int
  pr_Via :: "string list"

record 'f pos_store =
  ps_records :: "string \<rightharpoonup> 'f pos_record"
  ps_dirtyNodes :: "string set"
  ps_dirty :: bool

type_synonym 'f nodes_table = "string \<rightharpoonup> 'f pos_record"

definition NewSQLite_pos :: "'f pos_store" where
  "NewSQLite_pos = \<lparr>ps_records = Map.empty, ps_dirtyNodes = {}, ps_dirty = False\<rparr>"

definition load_pos :: "'f nodes_table \<Rightarrow> 'f pos_store" where
  "load_pos nodes = \<lparr>ps_records = nodes, ps_dirtyNodes = {}, ps_dirty = False\<rparr>"

datatype freshness = FreshnessIndirect | FreshnessDirect

section \<open>Freshness\<close>

definition applyFreshness ::
  "freshness \<Rightarrow> gotime \<Rightarrow> int option \<Rightarrow> int option \<Rightarrow> 'f pos_record \<Rightarrow> 'f pos_record" where
  "applyFreshness mode seenAt rssi snr rec =
     (let r1 = rec\<lparr>pr_LastSeen := seenAt\<rparr> in
      if mode = FreshnessDirect then
        (let r2 = r1\<lparr>pr_LastDirectSeen := Some seenAt\<rparr>;
             r3 = (case rssi of None \<Rightarrow> r2 | Some v \<Rightarrow> r2\<lparr>pr_RSSI := v\<rparr>)
         in (case snr of None \<Rightarrow> r3 | Some v \<Rightarrow> r3\<lparr>pr_SNR := v\<rparr>))
      else r1)"

definition setRecordLocked :: "string \<Rightarrow> 'f pos_record \<Rightarrow> 'f pos_store \<Rightarrow> 'f pos_store" where
  "setRecordLocked callsign rec s =
     s\<lparr>ps_records := (ps_records s)(callsign \<mapsto> rec),
       ps_dirtyNodes := insert callsign (ps_dirtyNodes s), ps_dirty := True\<rparr>"

text \<open>Relays are touched in order: indirectly, the last one directly; unknown ones are skipped.\<close>

fun touchViaChainLocked ::
  "string list \<Rightarrow> int option \<Rightarrow> int option \<Rightarrow> gotime \<Rightarrow> 'f pos_store \<Rightarrow> 'f pos_store \<times> bool" where
  "touchViaChainLocked [] rssi snr seenAt s = (s, False)"
| "touchViaChainLocked (c # via) rssi snr seenAt s =
     (case ps_records s c of
        None \<Rightarrow> touchViaChainLocked via rssi snr seenAt s
      | Some rec \<Rightarrow>
          (let rec' = (if via = [] then applyFreshness FreshnessDirect seenAt rssi snr rec
                       else applyFreshness FreshnessIndirect seenAt None None rec);
               (s', _) = touchViaChainLocked via rssi snr seenAt (setRecordLocked c rec' s)
           in (s', True)))"

section \<open>Operations\<close>

definition UpdatePosition :: "'f position \<Rightarrow> gotime \<Rightarrow> 'f pos_store \<Rightarrow> 'f pos_store \<times> bool" where
  "UpdatePosition p seenAt s =
     (let (callsign, via) = SplitSourcePath (po_Source p) in
      if callsign = [] then (s, False)
      else
        (let current = ps_records s callsign;
             fresh = \<lparr>pr_Latitude = po_Latitude p, pr_Longitude = po_Longitude p,
                pr_Altitude = po_Altitude p, pr_HardwareID = po_HardwareID p, pr_FirstSeen = seenAt,
                pr_LastSeen = seenAt, pr_LastDirectSeen = None, pr_RSSI = 0, pr_SNR = 0, pr_Via = via\<rparr>;
             rec = (case current of None \<Rightarrow> fresh
                | Some c \<Rightarrow> fresh\<lparr>pr_FirstSeen := pr_FirstSeen c, pr_LastDirectSeen := pr_LastDirectSeen c,
                    pr_RSSI := pr_RSSI c, pr_SNR := pr_SNR c\<rparr>);
             (rec', s1) = (if via = []
                then (applyFreshness FreshnessDirect seenAt (po_RSSI p) (po_SNR p) rec, s)
                else (applyFreshness FreshnessIndirect seenAt None None rec,
                      fst (touchViaChainLocked via (po_RSSI p) (po_SNR p) seenAt s)))
         in if current = Some rec' then (s1, False)
            else (setRecordLocked callsign rec' s1, True)))"

definition TouchFromPacket ::
  "string \<Rightarrow> int option \<Rightarrow> int option \<Rightarrow> gotime \<Rightarrow> 'f pos_store \<Rightarrow> 'f pos_store \<times> bool" where
  "TouchFromPacket src rssi snr seenAt s =
     (let (callsign, via) = SplitSourcePath src in
      if callsign = [] then (s, False)
      else if via = [] then
        (case ps_records s callsign of None \<Rightarrow> (s, False)
         | Some rec \<Rightarrow> (setRecordLocked callsign (applyFreshness FreshnessDirect seenAt rssi snr rec) s, True))
      else
        (let (s1, changed) = (case ps_records s callsign of None \<Rightarrow> (s, False)
               | Some rec \<Rightarrow> (setRecordLocked callsign (applyFreshness FreshnessIndirect seenAt None None rec) s, True));
             (s2, touched) = touchViaChainLocked via rssi snr seenAt s1
         in (s2, touched \<or> changed)))"

definition Get_pos :: "string \<Rightarrow> 'f pos_store \<Rightarrow> 'f pos_record option" where
  "Get_pos callsign s = ps_records s callsign"

text \<open>The two halves of SaveIfDirty and the upserts.\<close>

definition pos_begin :: "'f pos_store \<Rightarrow> 'f pos_store \<times> (string \<rightharpoonup> 'f pos_record) option" where
  "pos_begin s =
     (if \<not> ps_dirty s then (s, None)
      else (s\<lparr>ps_dirty := False, ps_dirtyNodes := {}\<rparr>, Some (ps_records s |` ps_dirtyNodes s)))"

definition pos_failed :: "(string \<rightharpoonup> 'f pos_record) \<Rightarrow> 'f pos_store \<Rightarrow> 'f pos_store" where
  "pos_failed v s = s\<lparr>ps_dirty := True, ps_dirtyNodes := ps_dirtyNodes s \<union> dom v\<rparr>"

definition pos_write :: "(string \<rightharpoonup> 'f pos_record) \<Rightarrow> 'f nodes_table \<Rightarrow> 'f nodes_table" where
  "pos_write v nodes = nodes ++ v"

datatype 'f pos_change =
    UpdateFrom "'f position" gotime
  | TouchFrom string "int option" "int option" gotime

fun pos_apply :: "'f pos_change \<Rightarrow> 'f pos_store \<Rightarrow> 'f pos_store" where
  "pos_apply (UpdateFrom p t) s = fst (UpdatePosition p t s)"
| "pos_apply (TouchFrom src rssi snr t) s = fst (TouchFromPacket src rssi snr t s)"

section \<open>Changes go through setRecordLocked\<close>

text \<open>An invariant that setRecordLocked keeps for good records is kept by every operation.\<close>

lemma touch_keeps:
  assumes "P s" and "\<And>s c rec m r q. P s \<Longrightarrow> ps_records s c = Some rec \<Longrightarrow>
      P (setRecordLocked c (applyFreshness m seenAt r q rec) s)"
  shows "P (fst (touchViaChainLocked via rssi snr seenAt s))"
  using assms(1)
proof (induction via arbitrary: s)
  case (Cons c via)
  with assms(2) show ?case by (auto simp: case_prod_beta split: option.splits)
qed simp

lemma touch_from_keeps:
  assumes "P s" and set: "\<And>s c rec m r q. P s \<Longrightarrow> ps_records s c = Some rec \<Longrightarrow>
      P (setRecordLocked c (applyFreshness m seenAt r q rec) s)"
  shows "P (fst (TouchFromPacket src rssi snr seenAt s))"
proof -
  obtain c via where sp: "SplitSourcePath src = (c, via)" by (cases "SplitSourcePath src")
  show ?thesis
    using assms touch_keeps [of P _ seenAt via rssi snr, OF _ set]
    by (auto simp: TouchFromPacket_def sp case_prod_beta split: option.splits)
qed

text \<open>The nodes of the table agree with the memory but for the dirty ones.\<close>

definition pos_agrees :: "'f pos_store \<Rightarrow> 'f nodes_table \<Rightarrow> bool" where
  "pos_agrees s nodes \<longleftrightarrow> (\<forall>k. k \<notin> ps_dirtyNodes s \<longrightarrow> nodes k = ps_records s k) \<and>
     ps_dirtyNodes s \<subseteq> dom (ps_records s) \<and> (\<not> ps_dirty s \<longrightarrow> ps_dirtyNodes s = {})"

lemma pos_agrees_set: "pos_agrees s d \<Longrightarrow> pos_agrees (setRecordLocked c rec s) d"
  by (auto simp: pos_agrees_def setRecordLocked_def)

lemma pos_agrees_change: "pos_agrees s d \<Longrightarrow> pos_agrees (pos_apply c s) d"
proof (cases c)
  case (UpdateFrom p t)
  assume a: "pos_agrees s d"
  obtain cs via where sp: "SplitSourcePath (po_Source p) = (cs, via)" by (cases "SplitSourcePath (po_Source p)")
  have "pos_agrees (fst (touchViaChainLocked via (po_RSSI p) (po_SNR p) t s)) d"
    using touch_keeps [where P = "\<lambda>s. pos_agrees s d", OF a pos_agrees_set] .
  with a UpdateFrom show ?thesis by (auto simp: UpdatePosition_def sp Let_def pos_agrees_set)
next
  case (TouchFrom src rssi snr t)
  assume "pos_agrees s d"
  with TouchFrom show ?thesis
    using touch_from_keeps [where P = "\<lambda>s. pos_agrees s d", OF _ pos_agrees_set] by simp
qed

interpretation positions: dirty_store pos_agrees ps_dirty ps_records "\<lambda>nodes. nodes"
  pos_apply pos_begin pos_failed pos_write
proof
  fix s :: "'f pos_store" and d
  show "pos_agrees s d \<Longrightarrow> \<not> ps_dirty s \<Longrightarrow> d = ps_records s"
    by (auto simp: pos_agrees_def)
  show "pos_agrees s d \<Longrightarrow> pos_agrees (pos_apply c s) d" for c by (rule pos_agrees_change)
  assume a: "ps_dirty s" "pos_agrees s d"
  then have "pos_agrees (s\<lparr>ps_dirty := False, ps_dirtyNodes := {}\<rparr>)
      (pos_write (ps_records s |` ps_dirtyNodes s) d)"
    by (auto simp: pos_agrees_def pos_write_def restrict_map_def map_add_def split: option.splits)
  with a(1) show "\<exists>s' v. pos_begin s = (s', Some v) \<and> \<not> ps_dirty s' \<and> ps_records s' = ps_records s
      \<and> pos_agrees s' (pos_write v d)"
    by (simp add: pos_begin_def)
next
  fix s :: "'f pos_store" and v d
  assume a: "pos_agrees s (pos_write v d)"
  then have m: "k \<notin> ps_dirtyNodes s \<Longrightarrow> (case v k of None \<Rightarrow> d k | Some x \<Rightarrow> Some x) = ps_records s k" for k
    by (simp add: pos_agrees_def pos_write_def map_add_def)
  have "dom v \<subseteq> dom (ps_records s)"
  proof
    fix k assume "k \<in> dom v"
    then obtain x where x: "v k = Some x" by blast
    show "k \<in> dom (ps_records s)"
    proof (cases "k \<in> ps_dirtyNodes s")
      case True
      then show ?thesis using a by (auto simp: pos_agrees_def)
    next
      case False
      with m x show ?thesis by (metis domI option.case(2))
    qed
  qed
  moreover have "d k = ps_records s k" if "k \<notin> ps_dirtyNodes s" "k \<notin> dom v" for k
    using m [OF that(1)] that(2) by (simp add: domIff)
  ultimately show "pos_agrees (pos_failed v s) d"
    using a by (auto simp: pos_agrees_def pos_failed_def)
qed (simp add: pos_begin_def)

section \<open>Properties\<close>

text \<open>Clock order: nothing was seen after now, and nothing first seen after last seen.\<close>

definition times_ok :: "gotime \<Rightarrow> 'f pos_store \<Rightarrow> bool" where
  "times_ok now s \<longleftrightarrow> (\<forall>k r. ps_records s k = Some r \<longrightarrow> pr_FirstSeen r \<le> pr_LastSeen r \<and>
     pr_LastSeen r \<le> now \<and> (\<forall>t. pr_LastDirectSeen r = Some t \<longrightarrow> t \<le> pr_LastSeen r))"

lemma applyFreshness_fields:
  "pr_LastSeen (applyFreshness m t r q rec) = t"
  "pr_FirstSeen (applyFreshness m t r q rec) = pr_FirstSeen rec"
  "pr_LastDirectSeen (applyFreshness m t r q rec) = (if m = FreshnessDirect then Some t else pr_LastDirectSeen rec)"
  "pr_Latitude (applyFreshness m t r q rec) = pr_Latitude rec"
  "pr_Longitude (applyFreshness m t r q rec) = pr_Longitude rec"
  "pr_Altitude (applyFreshness m t r q rec) = pr_Altitude rec"
  "pr_Via (applyFreshness m t r q rec) = pr_Via rec"
  "pr_HardwareID (applyFreshness m t r q rec) = pr_HardwareID rec"
  "pr_RSSI (applyFreshness m t r q rec)
     = (if m = FreshnessDirect then case r of None \<Rightarrow> pr_RSSI rec | Some v \<Rightarrow> v else pr_RSSI rec)"
  "pr_SNR (applyFreshness m t r q rec)
     = (if m = FreshnessDirect then case q of None \<Rightarrow> pr_SNR rec | Some v \<Rightarrow> v else pr_SNR rec)"
  by (auto simp: applyFreshness_def Let_def split: option.splits)

lemma times_ok_set:
  assumes "times_ok now s" "ps_records s c = Some rec" "now \<le> t"
  shows "times_ok t (setRecordLocked c (applyFreshness m t r q rec) s)"
proof -
  have old: "pr_FirstSeen x \<le> pr_LastSeen x" "pr_LastSeen x \<le> now"
    "pr_LastDirectSeen x = Some u \<Longrightarrow> u \<le> pr_LastSeen x" if "ps_records s k = Some x" for k x u
    using assms(1) that by (auto simp: times_ok_def)
  have "pr_FirstSeen rec \<le> t" "pr_LastDirectSeen rec = Some u \<Longrightarrow> u \<le> t" for u
    using old [OF assms(2)] assms(3) by fastforce+
  then show ?thesis
    using old assms(3) by (fastforce simp: times_ok_def setRecordLocked_def applyFreshness_fields)
qed

lemma times_ok_mono: "times_ok now s \<Longrightarrow> now \<le> t \<Longrightarrow> times_ok t s"
  by (force simp: times_ok_def)

lemma times_ok_touch:
  assumes "times_ok now s" "now \<le> t"
  shows "times_ok t (fst (touchViaChainLocked via r q t s))"
  using touch_keeps [where P = "times_ok t", OF times_ok_mono [OF assms] times_ok_set [OF _ _ order_refl]] .

text \<open>The time of a change; a run is monotone when the times do not decrease.\<close>

fun change_time :: "'f pos_change \<Rightarrow> gotime" where
  "change_time (UpdateFrom p t) = t"
| "change_time (TouchFrom src r q t) = t"

lemma times_ok_apply:
  assumes ok: "times_ok now s" and le: "now \<le> change_time c"
  shows "times_ok (change_time c) (pos_apply c s)"
proof (cases c)
  case (TouchFrom src r q t)
  have "times_ok t (fst (TouchFromPacket src r q t s))"
    using touch_from_keeps [where P = "times_ok t", OF times_ok_mono [OF ok] times_ok_set [OF _ _ order_refl]]
      le TouchFrom by simp
  with TouchFrom show ?thesis by simp
next
  case (UpdateFrom p t)
  obtain cs via where sp: "SplitSourcePath (po_Source p) = (cs, via)" by (cases "SplitSourcePath (po_Source p)")
  have s: "times_ok t s" "times_ok t (fst (touchViaChainLocked via (po_RSSI p) (po_SNR p) t s))"
    using ok le UpdateFrom times_ok_mono times_ok_touch by auto
  have old: "pr_FirstSeen x \<le> t" "pr_LastDirectSeen x = Some u \<Longrightarrow> u \<le> t" if "ps_records s k = Some x" for k x u
    using s(1) that by (fastforce simp: times_ok_def)+
  have set: "times_ok t (setRecordLocked cs rec s')"
    if "times_ok t s'" "pr_FirstSeen rec \<le> t" "pr_LastSeen rec = t" "\<And>u. pr_LastDirectSeen rec = Some u \<Longrightarrow> u \<le> t"
    for rec s'
    using that by (auto simp: times_ok_def setRecordLocked_def)
  show ?thesis
    using UpdateFrom s old
    by (auto simp: UpdatePosition_def sp Let_def applyFreshness_fields intro!: set split: option.splits)
qed

lemma times_ok_run:
  "times_ok now s \<Longrightarrow> sorted (now # map change_time cs) \<Longrightarrow>
   times_ok (last (now # map change_time cs)) (fold pos_apply cs s)"
proof (induction cs arbitrary: now s)
  case (Cons c cs)
  then have "times_ok (change_time c) (pos_apply c s)" by (intro times_ok_apply) auto
  with Cons show ?case by auto
qed simp

text \<open>The freshness of every station is consistent: with a clock that does not go back, after any
  sequence of position reports and touches, each record was first seen no later than it was last
  seen, last heard directly no later than last seen, and nothing lies in the future.\<close>

theorem position_times_consistent:
  assumes "sorted (0 # map change_time changes)"
  shows "times_ok (last (0 # map change_time changes)) (fold pos_apply changes NewSQLite_pos)"
  by (rule times_ok_run [OF _ assms]) (simp add: times_ok_def NewSQLite_pos_def)

definition example_position :: "string \<Rightarrow> int position" where
  "example_position src = \<lparr>po_Source = src, po_Message = [], po_MessageID = [], po_SourceType = [],
     po_Latitude = 43, po_LatitudeDir = [], po_Longitude = 11, po_LongitudeDir = [], po_APRSSymbol = [],
     po_APRSSymbolGroup = [], po_HardwareID = ''3'', po_Altitude = 100, po_Battery = 0, po_Firmware = [],
     po_FWSub = [], po_RSSI = Some (-90), po_SNR = Some 7\<rparr>"

lemma example_path:
  "SplitSourcePath ''IU5PMP-1'' = (''IU5PMP-1'', [])"
  by code_simp

theorem position_times_consistent_witness:
  "times_ok 9 (fold pos_apply [UpdateFrom (example_position ''IU5PMP-1'') 5,
      TouchFrom ''IK5FCK-10,IU5PMP-1'' (Some (-80)) None 9] NewSQLite_pos)"
proof -
  let ?cs = "[UpdateFrom (example_position ''IU5PMP-1'') 5, TouchFrom ''IK5FCK-10,IU5PMP-1'' (Some (-80)) None 9]"
  have "sorted (0 # map change_time ?cs)" "last (0 # map change_time ?cs) = 9"
    by simp_all
  from position_times_consistent [OF this(1)] this(2) show ?thesis by (simp only:)
qed

lemma touch_other: "k \<notin> set via \<Longrightarrow> ps_records (fst (touchViaChainLocked via r q t s)) k = ps_records s k"
  by (induction via arbitrary: s) (auto simp: case_prod_beta setRecordLocked_def split: option.splits)



end
