(* ===== verification/TimeOrder.thy ===== *)
theory TimeOrder
  imports Timestamps
begin

text \<open>
  The order of the timestamp texts between seconds: up to the year 9999 the text of an instant of an
  earlier second is below the text of an instant of a later one. Dates are compared through the
  civil calendar of Timestamps, numbers through their fixed width.
\<close>

section \<open>Fixed-width numbers\<close>

lemma append_less_eqlen:
  "length x = length x' \<Longrightarrow> (x @ y < x' @ y') = (x < x' \<or> x = x' \<and> y < (y' :: 'a :: order list))"
  by (induction x x' rule: list_induct2) auto

fun zpad :: "nat \<Rightarrow> nat \<Rightarrow> string" where
  "zpad 0 n = []"
| "zpad (Suc w) n = zpad w (n div 10) @ [digit_char (n mod 10)]"

lemma length_zpad [simp]: "length (zpad w n) = w"
  by (induction w arbitrary: n) auto

lemma zpad_zero: "zpad w 0 = replicate w (CHR ''0'')"
  by (induction w) (auto simp: replicate_append_same digit_char_table)

lemma pad_zpad: "0 < w \<Longrightarrow> n < 10 ^ w \<Longrightarrow> pad w (int n) = zpad w n"
proof (induction w arbitrary: n)
  case (Suc w)
  show ?case
  proof (cases "n < 10")
    case True
    then show ?thesis by (simp add: pad_def itoa_int_def itoa_steps zpad_zero)
  next
    case False
    have "n < 10 ^ w * 10" using Suc.prems by simp
    then have "n div 10 < 10 ^ w" by (rule less_mult_imp_div_less)
    moreover have "0 < w" using False Suc.prems by (cases w) auto
    ultimately have "0 < w" "n div 10 < 10 ^ w" by simp_all
    with Suc.IH have "pad w (int (n div 10)) = zpad w (n div 10)" by blast
    with False show ?thesis by (simp add: pad_def itoa_int_def itoa_steps nat_div_distrib Let_def)
  qed
qed simp

lemma digit_char_less: "d < e \<Longrightarrow> e < 10 \<Longrightarrow> digit_char d < digit_char e"
  by (simp add: less_char_def digit_char_def)

lemma zpad_less: "m < n \<Longrightarrow> n < 10 ^ w \<Longrightarrow> zpad w m < zpad w n"
proof (induction w arbitrary: m n)
  case (Suc w)
  show ?case
  proof (cases "m div 10 = n div 10")
    case True
    with Suc.prems have "m mod 10 < n mod 10" by (metis div_mult_mod_eq nat_add_left_cancel_less)
    with True show ?thesis by (simp add: append_less_eqlen digit_char_less)
  next
    case False
    with Suc.prems have "m div 10 < n div 10" by (meson div_le_mono le_neq_implies_less less_imp_le)
    with Suc show ?thesis by (simp add: append_less_eqlen)
  qed
qed simp

lemma pad_less:
  assumes "0 < w" "0 \<le> m" "m < n" "n < 10 ^ w"
  shows "pad w m < pad w n"
proof -
  have n: "nat n < 10 ^ w" using assms by (simp add: nat_less_iff)
  with assms have "zpad w (nat m) < zpad w (nat n)" by (intro zpad_less) auto
  with n assms show ?thesis using pad_zpad [of w "nat m"] pad_zpad [of w "nat n"] by simp
qed

lemma length_pad: "0 < w \<Longrightarrow> 0 \<le> n \<Longrightarrow> n < 10 ^ w \<Longrightarrow> length (pad w n) = w"
  using pad_zpad [of w "nat n"] by (simp add: nat_less_iff)

section \<open>The calendar is monotone\<close>

text \<open>
  A day of a 400-year era is day k of year 100 c + 4 q + r of the era: c centuries of 36524 days,
  q cycles of 1461 days, r years of 365 days.
\<close>

lemma era_day_split:
  assumes "0 \<le> doe" "doe \<le> 146096"
  obtains c q r k where "doe = 36524 * c + 1461 * q + 365 * r + k" "0 \<le> c" "c \<le> 3" "0 \<le> q" "q \<le> 24"
    "0 \<le> r" "r \<le> 3" "0 \<le> k" "k \<le> 365" "k = 365 \<Longrightarrow> r = 3 \<and> (q < 24 \<or> c = (3::int))"
proof -
  define c where "c = min 3 (doe div 36524)"
  define m where "m = doe - 36524 * c"
  define q where "q = min 24 (m div 1461)"
  define n where "n = m - 1461 * q"
  define r where "r = min 3 (n div 365)"
  have c: "0 \<le> c" "c \<le> 3" "0 \<le> m" "m \<le> 36524" "c < 3 \<Longrightarrow> m < 36524"
    using assms unfolding c_def m_def by (auto simp: min_def)
  have q: "0 \<le> q" "q \<le> 24" "0 \<le> n" "n \<le> 1460" "q = 24 \<Longrightarrow> c < 3 \<Longrightarrow> n < 1460"
    using c unfolding q_def n_def by (auto simp: min_def)
  have r: "0 \<le> r" "r \<le> 3" "0 \<le> n - 365 * r" "n - 365 * r \<le> 365"
      "n - 365 * r = 365 \<Longrightarrow> r = 3 \<and> n = 1460"
  proof -
    have "n - 365 * (n div 365) < 365" "0 \<le> n - 365 * (n div 365)" by presburger+
    with q show "0 \<le> r" "r \<le> 3" "0 \<le> n - 365 * r" "n - 365 * r \<le> 365"
      "n - 365 * r = 365 \<Longrightarrow> r = 3 \<and> n = 1460"
      unfolding r_def by (auto simp: min_def split: if_splits)
  qed
  show thesis
    by (rule that [of c q r "n - 365 * r"]) (use c q r in \<open>auto simp: m_def n_def\<close>)
qed

lemma era_day_year:
  assumes d: "doe = 36524 * c + 1461 * q + 365 * r + k" and b: "0 \<le> c" "c \<le> 3" "0 \<le> q" "q \<le> 24"
    "0 \<le> r" "r \<le> 3" "0 \<le> k" "k \<le> 365" and l: "k = 365 \<Longrightarrow> r = 3 \<and> (q < 24 \<or> c = (3::int))"
  shows "year_of_era doe = 100 * c + 4 * q + r" and "day_of_year doe (100 * c + 4 * q + r) = k"
proof -
  define e where "e = (24 * c + q + 365 * r + k) div 1460"
  have e: "e = 0 \<or> e = 1 \<and> r = 3 \<and> 1 \<le> k" "k = 365 \<Longrightarrow> e = 1"
    using b l unfolding e_def by auto
  have d1: "doe div 1460 = 25 * c + q + e"
  proof -
    have "doe = (25 * c + q) * 1460 + (24 * c + q + 365 * r + k)" using d by simp
    then show ?thesis unfolding e_def by (metis div_mult_self3 zero_neq_numeral)
  qed
  have d2: "doe div 36524 - doe div 146096 = c"
  proof (cases "c = 3 \<and> q = 24 \<and> r = 3 \<and> k = 365")
    case True
    then show ?thesis using d by simp
  next
    case False
    then have m: "0 \<le> 1461 * q + 365 * r + k" "1461 * q + 365 * r + k < 36524"
      using b l by (cases "k = 365"; auto)+
    then have "doe div 36524 = c" using d by (intro int_div_pos_eq [of _ _ _ "1461 * q + 365 * r + k"]) auto
    moreover have "doe div 146096 = 0" using m d b by auto
    ultimately show ?thesis by simp
  qed
  have "doe - doe div 1460 + doe div 36524 - doe div 146096 = (100 * c + 4 * q + r) * 365 + (k - e)"
    using d d1 d2 by simp
  moreover have "k = 365 \<longrightarrow> e = 1" using e(2) by blast
  then have "0 \<le> k - e" "k - e < 365" using e(1) b(7,8) by auto
  ultimately show "year_of_era doe = 100 * c + 4 * q + r"
    unfolding year_of_era_def by simp
  have "(100 * c + 4 * q + r) div 4 = 25 * c + q" "(100 * c + 4 * q + r) div 100 = c" using b by auto
  then show "day_of_year doe (100 * c + 4 * q + r) = k"
    unfolding day_of_year_def using d by simp
qed

lemma year_of_era_mono:
  assumes "a \<le> b"
  shows "year_of_era a \<le> year_of_era b"
proof -
  define f where "f = (\<lambda>d::int. d - d div 1460 + d div 36524 - d div 146096)"
  have "f d \<le> f (d + 1)" for d
  proof -
    have "(d + 1) div 1460 \<le> (d + 1460) div 1460" by (rule zdiv_mono1) auto
    then have "(d + 1) div 1460 \<le> d div 1460 + 1" by simp
    moreover have q: "e div 146096 = e div 36524 div 4" for e :: int
      using zdiv_zmult2_eq [of 4 e 36524] by simp
    moreover have "d div 36524 \<le> (d + 1) div 36524" by (rule zdiv_mono1) auto
    moreover have "u \<le> v \<Longrightarrow> u - u div 4 \<le> v - v div 4" for u v :: int by presburger
    ultimately have "d div 36524 - d div 36524 div 4 \<le> (d + 1) div 36524 - (d + 1) div 36524 div 4"
      "(d + 1) div 1460 \<le> d div 1460 + 1" "\<And>e :: int. e div 146096 = e div 36524 div 4" by blast+
    then show ?thesis unfolding f_def by simp
  qed
  then have step: "f d \<le> f (d + 1)" for d .
  have "f a \<le> f (a + int n)" for n
  proof (induction n)
    case (Suc n)
    with step [of "a + int n"] show ?case by (simp add: add.assoc add.commute [of 1])
  qed simp
  from this [of "nat (b - a)"] assms have "f a \<le> f b" by simp
  then show ?thesis by (simp add: year_of_era_def f_def zdiv_mono1)
qed

text \<open>Year of the era and day of that year (from March), with their ranges.\<close>

lemma era_day_range:
  assumes "0 \<le> doe" "doe \<le> 146096"
  shows "0 \<le> year_of_era doe" "year_of_era doe \<le> 399"
    "0 \<le> day_of_year doe (year_of_era doe)" "day_of_year doe (year_of_era doe) \<le> 365"
proof -
  obtain c q r k where s: "doe = 36524 * c + 1461 * q + 365 * r + k" "0 \<le> c" "c \<le> 3" "0 \<le> q" "q \<le> 24"
    "0 \<le> r" "r \<le> 3" "0 \<le> k" "k \<le> 365" "k = 365 \<Longrightarrow> r = 3 \<and> (q < 24 \<or> c = 3)"
    using era_day_split [OF assms] by metis
  note y = era_day_year [OF s]
  show "0 \<le> year_of_era doe" "year_of_era doe \<le> 399"
    "0 \<le> day_of_year doe (year_of_era doe)" "day_of_year doe (year_of_era doe) \<le> 365"
    using s y by auto
qed

section \<open>Dates and times\<close>

definition ymd_less :: "int \<times> int \<times> int \<Rightarrow> int \<times> int \<times> int \<Rightarrow> bool" where
  "ymd_less a b \<longleftrightarrow> fst a < fst b \<or> fst a = fst b \<and>
     (fst (snd a) < fst (snd b) \<or> fst (snd a) = fst (snd b) \<and> snd (snd a) < snd (snd b))"

lemma month_day_range:
  assumes "0 \<le> doy" "doy \<le> 365" "month_day doy = (m, d)"
  shows "1 \<le> m" "m \<le> 12" "1 \<le> d" "d \<le> 31"
  using assms by (auto simp: month_day_def Let_def split: if_splits)

lemma ymd_of_year_day:
  assumes "Y < Y' \<or> Y = Y' \<and> k < k'" and k: "0 \<le> k" "k \<le> 365" "0 \<le> k'" "k' \<le> 365"
    and m: "month_day k = (m, d)" "month_day k' = (m', d')"
  shows "ymd_less (Y + (if m \<le> 2 then 1 else 0), m, d) (Y' + (if m' \<le> 2 then 1 else 0), m', d')"
proof -
  define p p' where "p = (5 * k + 2) div 153" and "p' = (5 * k' + 2) div 153"
  have p: "0 \<le> p" "p \<le> 11" "0 \<le> p'" "p' \<le> 11" using k unfolding p_def p'_def by auto
  have m1: "m = (if p < 10 then p + 3 else p - 9)" "d = k - (153 * p + 2) div 5 + 1"
    "m' = (if p' < 10 then p' + 3 else p' - 9)" "d' = k' - (153 * p' + 2) div 5 + 1"
    using m unfolding p_def p'_def month_day_def by (auto simp: Let_def)
  show ?thesis
  proof (cases "Y = Y'")
    case True
    with assms(1) have "k < k'" by simp
    then have "p \<le> p'" unfolding p_def p'_def by (intro zdiv_mono1) auto
    with \<open>k < k'\<close> p True show ?thesis unfolding m1 ymd_less_def by (cases "p = p'") auto
  next
    case False
    with assms(1) p show ?thesis unfolding m1 ymd_less_def by auto
  qed
qed

lemma civil_less:
  assumes "a < b"
  shows "ymd_less (civil a) (civil b)"
proof -
  define ea da eb db where "ea = (a + 306) div 146097" and "da = (a + 306) mod 146097"
    and "eb = (b + 306) div 146097" and "db = (b + 306) mod 146097"
  have r: "0 \<le> da" "da \<le> 146096" "0 \<le> db" "db \<le> 146096"
    unfolding da_def db_def by (simp_all add: zle_diff1_eq [symmetric])
  define ya yb ka kb where "ya = year_of_era da" and "yb = year_of_era db"
    and "ka = day_of_year da ya" and "kb = day_of_year db yb"
  note ra = era_day_range [OF r(1,2), folded ya_def, folded ka_def]
  note rb = era_day_range [OF r(3,4), folded yb_def, folded kb_def]
  have "ya + ea * 400 < yb + eb * 400 \<or> ya + ea * 400 = yb + eb * 400 \<and> ka < kb"
  proof (cases "ea = eb")
    case True
    then have "da < db" using assms unfolding ea_def eb_def da_def db_def
      by (simp add: minus_mult_div_eq_mod [symmetric])
    then have "ya \<le> yb" unfolding ya_def yb_def by (intro year_of_era_mono) simp
    moreover have "ya = yb \<Longrightarrow> ka < kb" using \<open>da < db\<close> unfolding ka_def kb_def day_of_year_def by simp
    ultimately show ?thesis using True by auto
  next
    case False
    moreover have "ea \<le> eb" unfolding ea_def eb_def using assms by (intro zdiv_mono1) auto
    ultimately show ?thesis using ra rb by auto
  qed
  moreover obtain ma dda mb ddb where "month_day ka = (ma, dda)" "month_day kb = (mb, ddb)"
    by (metis surj_pair)
  ultimately show ?thesis
    using ymd_of_year_day ra rb
    by (simp add: civil_def civil_in_era_def Let_def ea_def [symmetric] eb_def [symmetric] da_def [symmetric]
        db_def [symmetric] ya_def [symmetric] yb_def [symmetric] ka_def [symmetric] kb_def [symmetric])
qed

section \<open>The texts\<close>

text \<open>The last day of the year 9999.\<close>

definition last_day :: int where
  "last_day = 3652058"

definition time_ok :: "gotime \<Rightarrow> bool" where
  "time_ok t \<longleftrightarrow> 0 \<le> t \<and> t < (last_day + 1) * 86400 * second"

lemma civil_range:
  assumes "0 \<le> days" "days \<le> last_day" "civil days = (y, m, d)"
  shows "0 \<le> y" "y < 10 ^ 4" "0 \<le> m" "m < 10 ^ 2" "0 \<le> d" "d < 10 ^ 2"
proof -
  have c: "civil 0 = (1, 1, 1)" "civil last_day = (9999, 12, 31)"
    by (simp_all add: civil_defs last_day_def)
  have "days = 0 \<or> ymd_less (1, 1, 1) (y, m, d)" "days = last_day \<or> ymd_less (y, m, d) (9999, 12, 31)"
    using civil_less [of 0 days] civil_less [of days last_day] assms c
    by (cases "days = 0"; cases "days = last_day"; simp)+
  with assms(3) c show "0 \<le> y" "y < 10 ^ 4" by (auto simp: ymd_less_def)
  let ?doe = "(days + 306) mod 146097"
  have "0 \<le> ?doe" "?doe \<le> 146096" by (simp_all add: zle_diff1_eq [symmetric])
  note r = era_day_range(3,4) [OF this]
  have "month_day (day_of_year ?doe (year_of_era ?doe)) = (m, d)"
    using assms(3) by (simp add: civil_def civil_in_era_def Let_def split: prod.splits)
  from month_day_range [OF r this] show "0 \<le> m" "m < 10 ^ 2" "0 \<le> d" "d < 10 ^ 2" by simp_all
qed

lemma date_text_less:
  assumes "0 \<le> a" "a < b" "b \<le> last_day"
  shows "date_text a < date_text b"
proof -
  obtain y m d y' m' d' where c: "civil a = (y, m, d)" "civil b = (y', m', d')" by (metis prod_cases3)
  note r = civil_range [OF _ _ c(1)] civil_range [OF _ _ c(2)]
  from civil_less [OF assms(2)] c
  have l: "y < y' \<or> y = y' \<and> (m < m' \<or> m = m' \<and> d < d')" by (auto simp: ymd_less_def)
  have n: "length (pad 4 y) = 4" "length (pad 4 y') = 4" "length (pad 2 m) = 2" "length (pad 2 m') = 2"
    "length (pad 2 d) = 2" "length (pad 2 d') = 2"
    using r assms by (simp_all add: length_pad)
  have "y < y' \<Longrightarrow> pad 4 y < pad 4 y'" "m < m' \<Longrightarrow> pad 2 m < pad 2 m'" "d < d' \<Longrightarrow> pad 2 d < pad 2 d'"
    using r assms by (auto intro!: pad_less)
  with l n show ?thesis unfolding date_text_def c by (auto simp: append_less_eqlen)
qed

lemma length_date_text: "0 \<le> a \<Longrightarrow> a \<le> last_day \<Longrightarrow> length (date_text a) = 10"
proof -
  assume "0 \<le> a" "a \<le> last_day"
  moreover obtain y m d where c: "civil a = (y, m, d)" by (metis prod_cases3)
  ultimately show ?thesis using civil_range [OF _ _ c] by (simp add: date_text_def length_pad)
qed

lemma hms_less:
  fixes h m x h' m' x' :: int
  assumes "3600 * h + 60 * m + x < 3600 * h' + 60 * m' + x'" "0 \<le> m" "m < 60" "0 \<le> x" "x < 60"
    "0 \<le> m'" "m' < 60" "0 \<le> x'" "x' < 60"
  shows "h < h' \<or> h = h' \<and> (m < m' \<or> m = m' \<and> x < x')"
proof (cases "h < h'")
  case False
  with assms have "h = h'" by linarith
  moreover from this assms have "m \<le> m'" by linarith
  ultimately show ?thesis using assms(1) by auto
qed simp

lemma clock_text_less:
  assumes "0 \<le> s" "s < s'" "s' < 86400"
  shows "clock_text s < clock_text s'"
proof -
  define h m x h' m' x' where "h = s div 3600" and "m = s div 60 mod 60" and "x = s mod 60"
    and "h' = s' div 3600" and "m' = s' div 60 mod 60" and "x' = s' mod 60"
  note d = h_def m_def x_def h'_def m'_def x'_def
  have b: "0 \<le> u div 60 mod 60 \<and> u div 60 mod 60 < 60 \<and> 0 \<le> u mod 60 \<and> u mod 60 < 60" for u :: int by simp
  have "s div 3600 < 24" "s' div 3600 < 24" using assms by linarith+
  moreover have "0 \<le> s div 3600" "0 \<le> s' div 3600" using assms by simp_all
  ultimately have r: "0 \<le> h" "h < 10 ^ 2" "0 \<le> m" "m < 10 ^ 2" "0 \<le> x" "x < 10 ^ 2"
    "0 \<le> h'" "h' < 10 ^ 2" "0 \<le> m'" "m' < 10 ^ 2" "0 \<le> x'" "x' < 10 ^ 2"
    using b [of s] b [of s'] unfolding d by simp_all
  have l: "h < h' \<or> h = h' \<and> (m < m' \<or> m = m' \<and> x < x')"
  proof -
    have e: "u = 3600 * (u div 3600) + 60 * (u div 60 mod 60) + u mod 60" for u :: int
    proof -
      have "u div 60 div 60 = u div 3600" using zdiv_zmult2_eq [of 60 u 60] by simp
      moreover have "u = 60 * (u div 60) + u mod 60" "u div 60 = 60 * (u div 60 div 60) + u div 60 mod 60"
        by simp_all
      ultimately show ?thesis by linarith
    qed
    have "3600 * h + 60 * m + x < 3600 * h' + 60 * m' + x'"
      using e [of s, folded d] e [of s', folded d] assms(2) by simp
    then show ?thesis using b [of s, folded d] b [of s', folded d] by (intro hms_less) auto
  qed
  have n: "length (pad 2 h) = 2" "length (pad 2 h') = 2" "length (pad 2 m) = 2" "length (pad 2 m') = 2"
    using r by (simp_all add: length_pad)
  have "h < h' \<Longrightarrow> pad 2 h < pad 2 h'" "m < m' \<Longrightarrow> pad 2 m < pad 2 m'" "x < x' \<Longrightarrow> pad 2 x < pad 2 x'"
    using r by (auto intro!: pad_less)
  with l n show ?thesis unfolding clock_text_def d [symmetric] by (auto simp: append_less_eqlen)
qed

lemma length_clock_text: "0 \<le> s \<Longrightarrow> s < 86400 \<Longrightarrow> length (clock_text s) = 8"
  by (simp add: clock_text_def length_pad)

lemma second_text_less:
  assumes "0 \<le> s" "s < s'" "s' < (last_day + 1) * 86400"
  shows "second_text s < second_text s'"
proof -
  have r: "0 \<le> s div 86400" "s div 86400 \<le> s' div 86400" "s' div 86400 \<le> last_day"
    using assms zdiv_mono1 [of s s' 86400] by (auto simp: last_day_def)
  have n: "length (date_text (s div 86400)) = length (date_text (s' div 86400))"
    using r by (simp add: length_date_text)
  show ?thesis
  proof (cases "s div 86400 = s' div 86400")
    case True
    then have "s mod 86400 < s' mod 86400"
      using assms(2) by (simp add: minus_mult_div_eq_mod [symmetric])
    with True show ?thesis by (simp add: second_text_def append_less_eqlen clock_text_less)
  next
    case False
    with r have "date_text (s div 86400) < date_text (s' div 86400)" by (intro date_text_less) auto
    with n show ?thesis by (simp add: second_text_def append_less_eqlen)
  qed
qed

lemma length_second_text:
  "0 \<le> s \<Longrightarrow> s < (last_day + 1) * 86400 \<Longrightarrow> length (second_text s) = 19"
  by (simp add: second_text_def length_date_text length_clock_text last_day_def)

lemma time_column_seconds:
  assumes "time_ok t" "time_ok u" "t div second < u div second"
  shows "time_column t < time_column u"
proof -
  have b: "0 \<le> x div second \<and> x div second < (last_day + 1) * 86400" if "time_ok x" for x
    using that by (auto simp: time_ok_def last_day_def)
  have "second_text (t div second) < second_text (u div second)"
    using b assms by (intro second_text_less) auto
  moreover have "length (second_text (t div second)) = length (second_text (u div second))"
    using b assms by (simp add: length_second_text)
  ultimately have "rfc3339nano t < rfc3339nano u"
    by (simp add: rfc3339nano_def append_less_eqlen)
  then show ?thesis by (simp add: time_column_def less_sqltext_def)
qed

text \<open>What a comparison of two columns says about the instants: right up to the second.\<close>

lemma time_column_le_imp:
  assumes "time_ok t" "time_ok u" "time_column t \<le> time_column u"
  shows "t div second \<le> u div second"
  using time_column_seconds [OF assms(2,1)] assms(3) by (meson not_le)

lemma second_later:
  assumes "t + second \<le> u"
  shows "t div second < u div second"
proof -
  have "(t + second) div second \<le> u div second" using assms by (rule zdiv_mono1) simp
  then show ?thesis by simp
qed

end
