(* ===== verification/Storage.thy ===== *)
theory Storage
  imports ChatLog Positions TimeOrder
begin

text \<open>
  The tables of the database beside the chat log: internal/receivelog (logger.go), internal/telemetry
  (store.go), and the retention of internal/storage (storage.go). A transaction either applies all
  its statements or, when one fails, none; the argument fails says so. float64 is 'f, and float is
  the conversion of an int to it.
\<close>

section \<open>Receive log (receivelog/logger.go)\<close>

record receive_record =
  rr_ReceivedAt :: gotime
  rr_RemoteAddr :: string
  rr_Bytes :: int
  rr_Raw :: string
  rr_PacketType :: string
  rr_ParseError :: string

record receive_logger =
  rl_Enabled :: bool
  rl_db :: bool

text \<open>Append on the table: a zero time is replaced by the current one; the result says whether it succeeded.\<close>

definition AppendReceive ::
  "bool \<Rightarrow> gotime \<Rightarrow> receive_logger \<Rightarrow> receive_record \<Rightarrow> receive_record list \<Rightarrow> receive_record list \<times> bool" where
  "AppendReceive fails now l record table =
     (if \<not> rl_Enabled l then (table, True)
      else if \<not> rl_db l then (table, False)
      else (let receivedAt = (if rr_ReceivedAt record = 0 then now else rr_ReceivedAt record) in
            if fails then (table, False)
            else (table @ [record\<lparr>rr_ReceivedAt := receivedAt\<rparr>], True)))"

text \<open>SELECT ... WHERE received_at >= ? ORDER BY received_at, id.\<close>

definition ReadReceiveSince :: "gotime \<Rightarrow> receive_logger \<Rightarrow> receive_record list \<Rightarrow> receive_record list option" where
  "ReadReceiveSince cutoff l table =
     (if \<not> rl_Enabled l then Some []
      else if \<not> rl_db l then None
      else Some (sort_key (\<lambda>r. time_column (rr_ReceivedAt r))
             (filter (\<lambda>r. time_column cutoff \<le> time_column (rr_ReceivedAt r)) table)))"

section \<open>Telemetry (telemetry/store.go)\<close>

record 'f sample_row =
  sa_received_at :: gotime
  sa_src :: string
  sa_src_origin :: string
  sa_src_type :: "string option"
  sa_metric :: string
  sa_value :: 'f

record signal_row =
  si_received_at :: gotime
  si_src :: string
  si_src_origin :: string
  si_src_type :: "string option"
  si_rssi :: "int option"
  si_snr :: "int option"

record 'f telemetry_tables =
  tt_samples :: "'f sample_row list"
  tt_signals :: "signal_row list"

definition nullString :: "string \<Rightarrow> string option" where
  "nullString value = (if trim_space value = [] then None else Some value)"

definition appendSample :: "string \<Rightarrow> 'f option \<Rightarrow> (string \<times> 'f) list \<Rightarrow> (string \<times> 'f) list" where
  "appendSample metric value samples = (case value of None \<Rightarrow> samples | Some v \<Rightarrow> samples @ [(metric, v)])"

definition telemetrySamples :: "(int \<Rightarrow> 'f) \<Rightarrow> 'f telemetry \<Rightarrow> (string \<times> 'f) list" where
  "telemetrySamples flt p =
     appendSample ''co2'' (te_CO2 p) (appendSample ''gas'' (te_Gas p)
      (appendSample ''qnh'' (te_QNH p) (appendSample ''qfe'' (te_QFE p)
       (appendSample ''hum'' (te_Humidity p) (appendSample ''temp2'' (te_Temp2 p)
        (appendSample ''temp1'' (te_Temp1 p)
         (appendSample ''batt'' (map_option flt (te_Battery p)) [])))))))"

definition sample_rows :: "(int \<Rightarrow> 'f) \<Rightarrow> 'f telemetry \<Rightarrow> string \<Rightarrow> string \<Rightarrow> gotime \<Rightarrow> 'f sample_row list" where
  "sample_rows flt p source origin at =
     map (\<lambda>(m, v). \<lparr>sa_received_at = at, sa_src = source, sa_src_origin = origin,
         sa_src_type = nullString (te_SourceType p), sa_metric = m, sa_value = v\<rparr>) (telemetrySamples flt p)"

definition signal_rows :: "'f telemetry \<Rightarrow> string \<Rightarrow> string \<Rightarrow> gotime \<Rightarrow> signal_row list" where
  "signal_rows p source origin at =
     (if te_RSSI p = None \<and> te_SNR p = None then []
      else [\<lparr>si_received_at = at, si_src = source, si_src_origin = origin,
         si_src_type = nullString (te_SourceType p), si_rssi = te_RSSI p, si_snr = te_SNR p\<rparr>])"

definition AppendTelemetry ::
  "(int \<Rightarrow> 'f) \<Rightarrow> bool \<Rightarrow> 'f telemetry \<Rightarrow> gotime \<Rightarrow> 'f telemetry_tables \<Rightarrow> 'f telemetry_tables \<times> bool" where
  "AppendTelemetry flt fails p at t =
     (let source = trim_space (te_Source p) in
      if source = [] then (t, True)
      else (let (origin, via) = SplitSourcePath source in
            if fails then (t, False)
            else (t\<lparr>tt_samples := tt_samples t @ sample_rows flt p source origin at,
                    tt_signals := tt_signals t @ (if via = [] then signal_rows p source origin at else [])\<rparr>,
                  True)))"

section \<open>Retention (storage/storage.go)\<close>

record purge_policy =
  pp_Interval :: duration
  pp_ReceiveLogRetention :: duration
  pp_PublicChatRetention :: duration
  pp_NodesRetention :: duration
  pp_TelemetryRetention :: duration

record 'f database =
  db_receive :: "receive_record list"
  db_chat :: chat_tables
  db_nodes :: "'f nodes_table"
  db_telemetry :: "'f telemetry_tables"

text \<open>DELETE FROM table WHERE column < cutoff, on text; a retention that is not positive keeps everything.\<close>

definition expired :: "duration \<Rightarrow> gotime \<Rightarrow> gotime \<Rightarrow> bool" where
  "expired retention now at \<longleftrightarrow>
     retention > 0 \<and> time_column at < time_column (now + wrap64 (- retention))"

definition purgeRows :: "duration \<Rightarrow> gotime \<Rightarrow> ('r \<Rightarrow> gotime) \<Rightarrow> 'r list \<Rightarrow> 'r list" where
  "purgeRows retention now at rows = filter (\<lambda>r. \<not> expired retention now (at r)) rows"

definition Purge :: "bool \<Rightarrow> purge_policy \<Rightarrow> gotime \<Rightarrow> 'f database \<Rightarrow> 'f database \<times> bool" where
  "Purge fails policy now db =
     (if fails then (db, False)
      else
        (db\<lparr>db_receive := purgeRows (pp_ReceiveLogRetention policy) now rr_ReceivedAt (db_receive db),
           db_chat := (db_chat db)\<lparr>ct_public := purgeRows (pp_PublicChatRetention policy) now
               (\<lambda>r. cr_ReceivedAt (row_rec r)) (ct_public (db_chat db))\<rparr>,
           db_nodes := (\<lambda>k. case db_nodes db k of None \<Rightarrow> None
               | Some r \<Rightarrow> if expired (pp_NodesRetention policy) now (pr_LastSeen r) then None else Some r),
           db_telemetry :=
             \<lparr>tt_samples = purgeRows (pp_TelemetryRetention policy) now sa_received_at (tt_samples (db_telemetry db)),
              tt_signals = purgeRows (pp_TelemetryRetention policy) now si_received_at (tt_signals (db_telemetry db))\<rparr>\<rparr>,
         True))"

section \<open>Properties\<close>

definition schema_metrics :: "string list" where
  "schema_metrics = [''batt'', ''temp1'', ''temp2'', ''hum'', ''qfe'', ''qnh'', ''gas'', ''co2'']"

lemma map_fst_appendSample:
  "map fst (appendSample m v xs) = map fst xs @ (if v = None then [] else [m])"
  by (auto simp: appendSample_def split: option.splits)

lemma telemetry_metrics: "subseq (map fst (telemetrySamples flt p)) schema_metrics"
  by (simp add: telemetrySamples_def map_fst_appendSample schema_metrics_def)

text \<open>A telemetry packet is stored atomically and within the schema: either nothing changes, or one
  sample row per reading the packet carries is added, each metric at most once and one the schema's
  check accepts, and a direct-signal row exactly when the packet came without relays and carries a
  signal, so the check that one of rssi and snr is set holds.\<close>

theorem telemetry_append_correct:
  assumes "AppendTelemetry flt fails p at t = (t', ok)"
  shows "if \<not> ok \<or> trim_space (te_Source p) = [] then t' = t
    else \<exists>samples signals. tt_samples t' = tt_samples t @ samples \<and> tt_signals t' = tt_signals t @ signals \<and>
      subseq (map sa_metric samples) schema_metrics \<and>
      length samples = length (filter (\<lambda>x. x) [te_Battery p \<noteq> None, te_Temp1 p \<noteq> None, te_Temp2 p \<noteq> None,
        te_Humidity p \<noteq> None, te_QFE p \<noteq> None, te_QNH p \<noteq> None, te_Gas p \<noteq> None, te_CO2 p \<noteq> None]) \<and>
      (signals \<noteq> [] \<longleftrightarrow> snd (SplitSourcePath (trim_space (te_Source p))) = [] \<and>
         (te_RSSI p \<noteq> None \<or> te_SNR p \<noteq> None)) \<and>
      (\<forall>r \<in> set signals. si_rssi r \<noteq> None \<or> si_snr r \<noteq> None)"
proof (cases "trim_space (te_Source p) = [] \<or> fails")
  case True
  with assms show ?thesis by (auto simp: AppendTelemetry_def Let_def split: prod.splits if_splits)
next
  case False
  obtain origin via where sp: "SplitSourcePath (trim_space (te_Source p)) = (origin, via)" by force
  let ?sa = "sample_rows flt p (trim_space (te_Source p)) origin at"
  let ?si = "if via = [] then signal_rows p (trim_space (te_Source p)) origin at else []"
  from assms False sp have t': "tt_samples t' = tt_samples t @ ?sa" "tt_signals t' = tt_signals t @ ?si" "ok"
    by (auto simp: AppendTelemetry_def Let_def)
  have m: "map sa_metric ?sa = map fst (telemetrySamples flt p)"
    by (auto simp: sample_rows_def)
  have "length ?sa = length (map fst (telemetrySamples flt p))" by (simp add: sample_rows_def)
  also have "\<dots> = length (filter (\<lambda>x. x) [te_Battery p \<noteq> None, te_Temp1 p \<noteq> None, te_Temp2 p \<noteq> None,
        te_Humidity p \<noteq> None, te_QFE p \<noteq> None, te_QNH p \<noteq> None, te_Gas p \<noteq> None, te_CO2 p \<noteq> None])"
    unfolding telemetrySamples_def map_fst_appendSample by simp
  finally have len: "length ?sa = length (filter (\<lambda>x. x) [te_Battery p \<noteq> None, te_Temp1 p \<noteq> None, te_Temp2 p \<noteq> None,
        te_Humidity p \<noteq> None, te_QFE p \<noteq> None, te_QNH p \<noteq> None, te_Gas p \<noteq> None, te_CO2 p \<noteq> None])" .
  have sig: "?si \<noteq> [] \<longleftrightarrow> snd (SplitSourcePath (trim_space (te_Source p))) = [] \<and>
         (te_RSSI p \<noteq> None \<or> te_SNR p \<noteq> None)" "\<forall>r \<in> set ?si. si_rssi r \<noteq> None \<or> si_snr r \<noteq> None"
    using sp by (auto simp: signal_rows_def)
  have sub: "subseq (map sa_metric ?sa) schema_metrics" using m telemetry_metrics [of flt p] by simp
  have "\<not> (\<not> ok \<or> trim_space (te_Source p) = [])" using t'(3) False by simp
  then show ?thesis
    unfolding if_not_P [OF \<open>\<not> (\<not> ok \<or> trim_space (te_Source p) = [])\<close>]
    using t'(1,2) len sig sub by blast
qed

definition example_telemetry :: "int telemetry" where
  "example_telemetry = \<lparr>te_Source = ''IU5PMP-1'', te_SourceType = ''lora'', te_RSSI = Some (-90), te_SNR = None,
     te_Temp1 = Some 21, te_Temp2 = None, te_Humidity = None, te_Battery = Some 88, te_QFE = None,
     te_QNH = None, te_Gas = None, te_CO2 = None\<rparr>"

theorem telemetry_append_correct_witness:
  "\<exists>samples signals. tt_samples (fst (AppendTelemetry (\<lambda>x. x) False example_telemetry 5
        \<lparr>tt_samples = [], tt_signals = []\<rparr>)) = samples \<and> length samples = 2 \<and>
      tt_signals (fst (AppendTelemetry (\<lambda>x. x) False example_telemetry 5
        \<lparr>tt_samples = [], tt_signals = []\<rparr>)) = signals \<and> signals \<noteq> []"
proof -
  let ?t = "\<lparr>tt_samples = [], tt_signals = []\<rparr>"
  have s: "trim_space (te_Source example_telemetry) = ''IU5PMP-1''" "SplitSourcePath ''IU5PMP-1'' = (''IU5PMP-1'', [])"
    by code_simp+
  obtain t' ok where a: "AppendTelemetry (\<lambda>x. x) False example_telemetry 5 ?t = (t', ok)"
    by (metis prod.collapse)
  have ok: "ok" using a by (auto simp: AppendTelemetry_def Let_def s)
  note c = telemetry_append_correct [OF a]
  from c ok s have "length (tt_samples t') = 2" "tt_signals t' \<noteq> []"
    by (auto simp: example_telemetry_def)
  with a show ?thesis by simp
qed

text \<open>The receive log loses packets of the second the reader asks from: RFC3339Nano drops trailing
  zeros, so the text of an instant with a fraction compares below the text of the whole second it
  follows, and a query since that second leaves out a packet received later within it.\<close>

theorem receive_query_misses_fraction:
  assumes "t mod second = 0" and "0 < d" and "d < second"
    and "rl_Enabled l" and "rl_db l" and "rr_ReceivedAt r = t + d"
  shows "t < rr_ReceivedAt r \<and> ReadReceiveSince t l [r] = Some []"
  using time_column_not_chronological [OF assms(1,2,3)] assms(4,5,6)
  by (simp add: ReadReceiveSince_def not_le)

theorem receive_query_misses_fraction_witness:
  "ReadReceiveSince (63902822399 * second) \<lparr>rl_Enabled = True, rl_db = True\<rparr>
     [\<lparr>rr_ReceivedAt = 63902822399 * second + 500000000, rr_RemoteAddr = [], rr_Bytes = 0, rr_Raw = [],
        rr_PacketType = [], rr_ParseError = []\<rparr>] = Some []"
  using receive_query_misses_fraction [of "63902822399 * second" 500000000
      "\<lparr>rl_Enabled = True, rl_db = True\<rparr>"] by simp

section \<open>Retention\<close>

text \<open>rows' is what a purge with this retention leaves of rows, right up to one second at the cutoff.\<close>

definition purged :: "duration \<Rightarrow> gotime \<Rightarrow> ('r \<Rightarrow> gotime) \<Rightarrow> 'r list \<Rightarrow> 'r list \<Rightarrow> bool" where
  "purged retention now at rows rows' \<longleftrightarrow> subseq rows' rows \<and>
     (\<forall>r \<in> set rows.
        (retention \<le> 0 \<or> now - retention + second \<le> at r \<longrightarrow> r \<in> set rows') \<and>
        (0 < retention \<and> at r + second \<le> now - retention \<longrightarrow> r \<notin> set rows'))"

definition retention_ok :: "duration \<Rightarrow> gotime \<Rightarrow> bool" where
  "retention_ok retention now \<longleftrightarrow> retention \<le> max_int64 \<and> (0 < retention \<longrightarrow> time_ok (now - retention))"

lemma expired_iff:
  assumes "retention_ok retention now" "time_ok at"
  shows "retention \<le> 0 \<or> now - retention + second \<le> at \<Longrightarrow> \<not> expired retention now at"
    and "0 < retention \<Longrightarrow> at + second \<le> now - retention \<Longrightarrow> expired retention now at"
proof -
  have w: "0 < retention \<Longrightarrow> now + wrap64 (- retention) = now - retention"
    using assms(1) by (subst wrap64_id) (auto simp: retention_ok_def min_int64_def max_int64_def)
  show "\<not> expired retention now at" if "retention \<le> 0 \<or> now - retention + second \<le> at"
  proof
    assume e: "expired retention now at"
    then have "0 < retention" by (simp add: expired_def)
    with e w assms that have "time_column at < time_column (now - retention)"
      "time_column (now - retention) < time_column at"
      by (auto simp: expired_def retention_ok_def intro!: time_column_seconds second_later)
    then show False by simp
  qed
  show "expired retention now at" if "0 < retention" "at + second \<le> now - retention"
    using that w assms by (simp add: expired_def retention_ok_def time_column_seconds second_later)
qed

lemma subseq_of_none: "subseq l rows \<Longrightarrow> \<forall>r \<in> set rows. r \<notin> set l \<Longrightarrow> l = []"
  by (cases l) (auto elim: list_emb_set)

lemma purgeRows_purged:
  assumes "retention_ok retention now" "\<forall>r \<in> set rows. time_ok (at r)"
  shows "purged retention now at rows (purgeRows retention now at rows)"
  using assms expired_iff by (auto simp: purged_def purgeRows_def)


definition example_db :: "int database" where
  "example_db = \<lparr>db_receive = [], db_chat = \<lparr>ct_dm = [], ct_public = [], ct_next_dm = 1, ct_next_public = 1\<rparr>,
     db_nodes = Map.empty,
     db_telemetry = \<lparr>tt_samples = [], tt_signals =
       [\<lparr>si_received_at = 63902822399 * second, si_src = ''A'', si_src_origin = ''A'', si_src_type = None,
          si_rssi = Some (- 90), si_snr = None\<rparr>]\<rparr>\<rparr>"

definition example_policy :: purge_policy where
  "example_policy = \<lparr>pp_Interval = 0, pp_ReceiveLogRetention = 0, pp_PublicChatRetention = 0,
     pp_NodesRetention = 0, pp_TelemetryRetention = 10 * second\<rparr>"


end
