(* ===== verification/Ingest.thy ===== *)
theory Ingest
  imports ParsePacket Storage ChatStatus Queues
begin

text \<open>
  internal/packetingest (processor.go): what happens to a datagram. It is decoded by ParsePacket,
  logged, stored by kind and published on the event bus. Every dependency may be nil, hence an
  option. A write that fails is only logged; the record faults says which of them fail. None as a
  result is a panic of the bus.
\<close>

record packet_source =
  so_Transport :: string
  so_Endpoint :: string

datatype 'f event_data =
    ErrorData string
  | ReceivedData packet_source "'f packet" gotime
  | DeliveredData chat_record
  | OtherData

record 'f ingest =
  ig_bus :: "'f event_data bus option"
  ig_receive :: "(receive_logger \<times> receive_record list) option"
  ig_chat :: "chat_tables option"
  ig_status :: "status_store option"
  ig_identity :: "string option"
  ig_positions :: "'f pos_store option"
  ig_telemetry :: "'f telemetry_tables option"

record faults =
  fa_receive :: bool
  fa_chat_insert :: bool
  fa_chat_update :: bool
  fa_telemetry :: bool

definition ig_myCall :: "'f ingest \<Rightarrow> string" where
  "ig_myCall s = (case ig_identity s of None \<Rightarrow> [] | Some c \<Rightarrow> c)"

definition updatePositionStore :: "'f position \<Rightarrow> gotime \<Rightarrow> 'f ingest \<Rightarrow> 'f ingest" where
  "updatePositionStore p at s = s\<lparr>ig_positions := map_option (\<lambda>ps. fst (UpdatePosition p at ps)) (ig_positions s)\<rparr>"

definition touchPositionFreshness ::
  "string \<Rightarrow> int option \<Rightarrow> int option \<Rightarrow> gotime \<Rightarrow> 'f ingest \<Rightarrow> 'f ingest" where
  "touchPositionFreshness src rssi snr at s =
     s\<lparr>ig_positions := map_option (\<lambda>ps. fst (TouchFromPacket src rssi snr at ps)) (ig_positions s)\<rparr>"

definition logTelemetry :: "(int \<Rightarrow> 'f) \<Rightarrow> faults \<Rightarrow> 'f telemetry \<Rightarrow> gotime \<Rightarrow> 'f ingest \<Rightarrow> 'f ingest" where
  "logTelemetry flt f p at s =
     s\<lparr>ig_telemetry := map_option (\<lambda>t. fst (AppendTelemetry flt (fa_telemetry f) p at t)) (ig_telemetry s)\<rparr>"

definition recordIncomingStatus :: "text_message \<Rightarrow> gotime \<Rightarrow> 'f ingest \<Rightarrow> 'f ingest" where
  "recordIncomingStatus m at s =
     (case ig_status s of None \<Rightarrow> s
      | Some st \<Rightarrow>
          if IsAckOrReject (tm_Message m) then s
          else (let myCall = ig_myCall s; origin = origin_of (tm_Source m) in
                if BaseCall origin = BaseCall myCall then s
                else (let statusKey = StatusKey (tm_Source m) (tm_Destination m) myCall in
                      if statusKey \<noteq> [] then s\<lparr>ig_status := Some (RecordIncoming statusKey at (tm_Message m) st)\<rparr>
                      else s)))"

definition logChatMessage :: "faults \<Rightarrow> text_message \<Rightarrow> gotime \<Rightarrow> 'f ingest \<Rightarrow> 'f ingest" where
  "logChatMessage f m at s =
     (case ig_chat s of None \<Rightarrow> s
      | Some t \<Rightarrow> recordIncomingStatus m at
          (s\<lparr>ig_chat := Some (fst (AppendChat (fa_chat_insert f) (fa_chat_update f) (ig_myCall s) m at t))\<rparr>))"

definition logReceivedPacket ::
  "faults \<Rightarrow> gotime \<Rightarrow> string \<Rightarrow> string \<Rightarrow> string \<Rightarrow> string \<Rightarrow> gotime \<Rightarrow> 'f ingest \<Rightarrow> 'f ingest" where
  "logReceivedPacket f now endpoint data packetType parseError at s =
     (case ig_receive s of None \<Rightarrow> s
      | Some (l, table) \<Rightarrow>
          s\<lparr>ig_receive := Some (l, fst (AppendReceive (fa_receive f) now l
              \<lparr>rr_ReceivedAt = at, rr_RemoteAddr = endpoint, rr_Bytes = int (length data), rr_Raw = data,
               rr_PacketType = packetType, rr_ParseError = parseError\<rparr> table))\<rparr>)"

fun storePacket :: "(int \<Rightarrow> 'f) \<Rightarrow> faults \<Rightarrow> 'f packet \<Rightarrow> gotime \<Rightarrow> 'f ingest \<Rightarrow> 'f ingest" where
  "storePacket flt f (PositionPacket p) at s = updatePositionStore p at s"
| "storePacket flt f (TextPacket m) at s =
     touchPositionFreshness (tm_Source m) (tm_RSSI m) (tm_SNR m) at
       (if \<not> IsStoreNotice (tm_Message m) then logChatMessage f m at s else s)"
| "storePacket flt f (TelemetryPacket p) at s =
     logTelemetry flt f p at (touchPositionFreshness (te_Source p) (te_RSSI p) (te_SNR p) at s)"

definition publish :: "'f event_data event \<Rightarrow> 'f ingest \<Rightarrow> 'f ingest option" where
  "publish e s =
     (case ig_bus s of None \<Rightarrow> Some s
      | Some b \<Rightarrow> (case Publish e b of None \<Rightarrow> None | Some b' \<Rightarrow> Some (s\<lparr>ig_bus := Some b'\<rparr>)))"

definition publishReceived :: "packet_source \<Rightarrow> 'f packet \<Rightarrow> gotime \<Rightarrow> 'f ingest \<Rightarrow> 'f ingest option" where
  "publishReceived src p at s =
     publish \<lparr>ev_Type = ''packet.received'', ev_Data = ReceivedData src p at\<rparr> s"

definition Process ::
  "'f json_lib \<Rightarrow> (int \<Rightarrow> 'f) \<Rightarrow> faults \<Rightarrow> gotime \<Rightarrow> packet_source \<Rightarrow> string
   \<Rightarrow> 'f ingest \<Rightarrow> ('f ingest \<times> parse_error option) option" where
  "Process jl flt f now src data s =
     (case ParsePacket jl data of
        Inl err \<Rightarrow>
          map_option (\<lambda>s'. (s', Some err))
            (publish \<lparr>ev_Type = ''packet.error'', ev_Data = ErrorData (parse_error_text jl err)\<rparr>
              (logReceivedPacket f now (so_Endpoint src) data [] (parse_error_text jl err) now s))
      | Inr e \<Rightarrow>
          map_option (\<lambda>s'. (s', None))
            (publishReceived src (en_Packet e) now
              (storePacket flt f (en_Packet e) now
                (logReceivedPacket f now (so_Endpoint src) data (en_Type e) [] now s))))"

section \<open>Facts\<close>

lemma recordIncomingStatus_id [simp]: "recordIncomingStatus m at s = s"
  by (auto simp: recordIncomingStatus_def RecordIncoming_def Let_def split: option.splits)

lemma publish_effect:
  assumes "\<And>b. ig_bus s = Some b \<Longrightarrow> bus_inv b"
  shows "\<exists>s'. publish e s = Some s' \<and> s' = s\<lparr>ig_bus := ig_bus s'\<rparr> \<and>
    (\<forall>b b'. ig_bus s = Some b \<longrightarrow> ig_bus s' = Some b' \<longrightarrow> bus_inv b')"
proof (cases "ig_bus s")
  case None
  then show ?thesis by (simp add: publish_def)
next
  case (Some b)
  obtain b' where "bus_step (OpPublish e) b = Some b'" "bus_inv b'"
    using bus_step_inv [OF assms [OF Some]] by metis
  with Some show ?thesis by (simp add: publish_def)
qed

lemma storePacket_frame:
  "ig_bus (storePacket flt f p at s) = ig_bus s"
  "ig_receive (storePacket flt f p at s) = ig_receive s"
  "ig_identity (storePacket flt f p at s) = ig_identity s"
  "ig_status (storePacket flt f p at s) = ig_status s"
  by (cases p; auto simp: updatePositionStore_def touchPositionFreshness_def logTelemetry_def
      logChatMessage_def split: option.splits)+

lemma logReceivedPacket_frame:
  "ig_bus (logReceivedPacket f now e d t pe at s) = ig_bus s"
  "ig_chat (logReceivedPacket f now e d t pe at s) = ig_chat s"
  "ig_status (logReceivedPacket f now e d t pe at s) = ig_status s"
  "ig_positions (logReceivedPacket f now e d t pe at s) = ig_positions s"
  "ig_telemetry (logReceivedPacket f now e d t pe at s) = ig_telemetry s"
  "ig_identity (logReceivedPacket f now e d t pe at s) = ig_identity s"
  by (auto simp: logReceivedPacket_def split: option.splits)

section \<open>Properties\<close>

text \<open>C12: Processing a datagram never panics and is confined to what the datagram is. A datagram that does
  not decode returns its error and changes only the receive log and the bus; a position report never
  touches the chat log or the telemetry, a telemetry packet never the chat log; a text message is
  logged in the chat unless it is a custody notice of the store-and-forward network, and never
  reaches the telemetry tables.\<close>

theorem process_confined:
  assumes bus: "\<And>b. ig_bus s = Some b \<Longrightarrow> bus_inv b"
  shows "\<exists>s' err. Process jl flt f now src data s = Some (s', err) \<and>
    (case ParsePacket jl data of
       Inl e \<Rightarrow> err = Some e \<and> ig_chat s' = ig_chat s \<and> ig_positions s' = ig_positions s \<and>
         ig_telemetry s' = ig_telemetry s \<and> ig_status s' = ig_status s
     | Inr env \<Rightarrow> err = None \<and> (case en_Packet env of
         PositionPacket p \<Rightarrow> ig_chat s' = ig_chat s \<and> ig_telemetry s' = ig_telemetry s \<and>
           ig_positions s' = map_option (\<lambda>ps. fst (UpdatePosition p now ps)) (ig_positions s)
       | TelemetryPacket p \<Rightarrow> ig_chat s' = ig_chat s \<and>
           ig_telemetry s' = map_option (\<lambda>t. fst (AppendTelemetry flt (fa_telemetry f) p now t)) (ig_telemetry s)
       | TextPacket m \<Rightarrow> ig_telemetry s' = ig_telemetry s \<and>
           ig_chat s' = (if IsStoreNotice (tm_Message m) then ig_chat s
              else map_option (\<lambda>t. fst (AppendChat (fa_chat_insert f) (fa_chat_update f) (ig_myCall s) m now t)) (ig_chat s))))"
proof (cases "ParsePacket jl data")
  case (Inl e)
  let ?s = "logReceivedPacket f now (so_Endpoint src) data [] (parse_error_text jl e) now s"
  obtain s' where s': "publish \<lparr>ev_Type = ''packet.error'', ev_Data = ErrorData (parse_error_text jl e)\<rparr> ?s = Some s'"
      "s' = ?s\<lparr>ig_bus := ig_bus s'\<rparr>"
    using publish_effect [of ?s] bus by (metis logReceivedPacket_frame(1))
  have "ig_chat s' = ig_chat ?s \<and> ig_positions s' = ig_positions ?s \<and> ig_telemetry s' = ig_telemetry ?s
      \<and> ig_status s' = ig_status ?s"
    by (subst (1 2 3 4) s'(2)) simp
  with Inl s'(1) show ?thesis by (simp add: Process_def logReceivedPacket_frame)
next
  case (Inr env)
  let ?r = "logReceivedPacket f now (so_Endpoint src) data (en_Type env) [] now s"
  let ?s = "storePacket flt f (en_Packet env) now ?r"
  obtain s' where s': "publishReceived src (en_Packet env) now ?s = Some s'" "s' = ?s\<lparr>ig_bus := ig_bus s'\<rparr>"
    unfolding publishReceived_def
    using publish_effect [of ?s] bus by (metis logReceivedPacket_frame(1) storePacket_frame(1))
  have k: "ig_chat s' = ig_chat ?s" "ig_positions s' = ig_positions ?s" "ig_telemetry s' = ig_telemetry ?s"
    by (subst s'(2), simp)+
  have my: "ig_myCall ?r = ig_myCall s" by (simp add: ig_myCall_def logReceivedPacket_frame)
  have run: "Process jl flt f now src data s = Some (s', None)"
    by (simp only: Process_def Inr sum.case s'(1) option.map prod.case)
  show ?thesis
  proof (cases "en_Packet env")
    case (PositionPacket x)
    have "ig_chat s' = ig_chat s" "ig_telemetry s' = ig_telemetry s"
      "ig_positions s' = map_option (\<lambda>ps. fst (UpdatePosition x now ps)) (ig_positions s)"
      unfolding k by (simp_all add: PositionPacket updatePositionStore_def logReceivedPacket_frame)
    with run show ?thesis by (simp add: Inr PositionPacket)
  next
    case (TextPacket m)
    have "ig_telemetry s' = ig_telemetry s"
      "ig_chat s' = (if IsStoreNotice (tm_Message m) then ig_chat s
         else map_option (\<lambda>t. fst (AppendChat (fa_chat_insert f) (fa_chat_update f) (ig_myCall s) m now t)) (ig_chat s))"
      using my unfolding k by (simp_all add: TextPacket touchPositionFreshness_def logChatMessage_def
        logReceivedPacket_frame split: option.splits)
    with run show ?thesis by (simp add: Inr TextPacket)
  next
    case (TelemetryPacket x)
    have "ig_chat s' = ig_chat s"
      "ig_telemetry s' = map_option (\<lambda>t. fst (AppendTelemetry flt (fa_telemetry f) x now t)) (ig_telemetry s)"
      unfolding k by (simp_all add: TelemetryPacket logTelemetry_def touchPositionFreshness_def logReceivedPacket_frame)
    with run show ?thesis by (simp add: Inr TelemetryPacket)
  qed
qed

definition example_ingest :: "int ingest" where
  "example_ingest = \<lparr>ig_bus = Some NewBus, ig_receive = None, ig_chat = Some empty_chat, ig_status = None,
     ig_identity = Some ''N0CALL-9'', ig_positions = Some NewSQLite_pos, ig_telemetry = None\<rparr>"

definition no_faults :: faults where
  "no_faults = \<lparr>fa_receive = False, fa_chat_insert = False, fa_chat_update = False, fa_telemetry = False\<rparr>"

theorem process_confined_witness:
  "\<exists>s'. Process example_lib id no_faults 1 \<lparr>so_Transport = ''udp'', so_Endpoint = ''n''\<rparr> ''{}'' example_ingest
       = Some (s', None) \<and>
     ig_chat s' = Some (fst (AppendChat False False ''N0CALL-9'' example_text 1 empty_chat))"
proof -
  have "\<And>b. ig_bus example_ingest = Some b \<Longrightarrow> bus_inv b"
    by (simp add: example_ingest_def NewBus_def bus_inv_def)
  from process_confined [of example_ingest example_lib id no_faults 1
      "\<lparr>so_Transport = ''udp'', so_Endpoint = ''n''\<rparr>" "''{}''", OF this]
  obtain s' where "Process example_lib id no_faults 1 \<lparr>so_Transport = ''udp'', so_Endpoint = ''n''\<rparr> ''{}'' example_ingest
       = Some (s', None)"
    "ig_chat s' = (if IsStoreNotice (tm_Message example_text) then ig_chat example_ingest
        else map_option (\<lambda>t. fst (AppendChat (fa_chat_insert no_faults) (fa_chat_update no_faults)
          (ig_myCall example_ingest) example_text 1 t)) (ig_chat example_ingest))"
    by (auto simp: example_parsed example_envelope_def)
  moreover have "\<not> IsStoreNotice (tm_Message example_text)" by code_simp
  ultimately show ?thesis
    by (auto simp: no_faults_def example_ingest_def ig_myCall_def)
qed

end
