(* ===== verification/Collector.thy ===== *)
theory Collector
  imports Ingest Stats
begin

text \<open>
  internal/stats (collector.go): the consumer of the event bus that counts packets and deliveries.
  The haversine formula is a parameter: km gives the distance of two positions, zero tells a zero
  coordinate. The received_at text of an event is the instant it renders.
\<close>

record 'f collector =
  co_store :: stats_store
  co_pos :: "'f pos_store"
  co_identity :: "string option"

record 'f geo =
  geo_zero :: "'f \<Rightarrow> bool"
  geo_km :: "'f \<Rightarrow> 'f \<Rightarrow> 'f \<Rightarrow> 'f \<Rightarrow> rat"

definition myCall_co :: "'f collector \<Rightarrow> string" where
  "myCall_co c = (case co_identity c of None \<Rightarrow> [] | Some cs \<Rightarrow> cs)"

definition publicKey :: "string \<Rightarrow> string" where
  "publicKey dst = (if dst = [] \<or> dst = ''*'' then ''broadcast'' else ''ch:'' @ dst)"

definition dmKey :: "string \<Rightarrow> string" where
  "dmKey callsign = (if callsign = [] then [] else ''dm:'' @ to_upper callsign)"

definition originCallsign :: "string \<Rightarrow> string" where
  "originCallsign src = to_upper (before CHR '','' src)"

definition distance_to :: "'f geo \<Rightarrow> 'f collector \<Rightarrow> 'f position \<Rightarrow> rat option" where
  "distance_to g c p =
     (if myCall_co c = [] then None
      else (case Get_pos (myCall_co c) (co_pos c) of None \<Rightarrow> None
            | Some own \<Rightarrow> if \<not> geo_zero g (pr_Latitude own) \<and> \<not> geo_zero g (pr_Longitude own)
                then Some (geo_km g (pr_Latitude own) (pr_Longitude own) (po_Latitude p) (po_Longitude p))
                else None))"

definition handlePacket :: "'f geo \<Rightarrow> 'f event_data \<Rightarrow> 'f collector \<Rightarrow> 'f collector" where
  "handlePacket g data c =
     (case data of
        ReceivedData src packet receivedAt \<Rightarrow>
          (case packet of
             TextPacket m \<Rightarrow>
               if IsDM (tm_Destination m)
               then c\<lparr>co_store := RecordChannel (dmKey (originCallsign (tm_Source m))) receivedAt
                        (RecordPacket KindDM receivedAt None (co_store c))\<rparr>
               else c\<lparr>co_store := RecordChannel (publicKey (tm_Destination m)) receivedAt
                        (RecordPacket KindPublic receivedAt None (co_store c))\<rparr>
           | PositionPacket p \<Rightarrow>
               c\<lparr>co_store := RecordPacket KindPosition receivedAt (distance_to g c p) (co_store c)\<rparr>
           | TelemetryPacket t \<Rightarrow> c\<lparr>co_store := RecordPacket KindTelemetry receivedAt None (co_store c)\<rparr>)
      | _ \<Rightarrow> c)"

definition handleDelivered :: "gotime \<Rightarrow> 'f event_data \<Rightarrow> 'f collector \<Rightarrow> 'f collector" where
  "handleDelivered now data c =
     (case data of
        DeliveredData rec \<Rightarrow>
          if IsDM (cr_Dst rec)
          then c\<lparr>co_store := RecordChannel (dmKey (cr_Dst rec)) now (RecordDMAck now (co_store c))\<rparr>
          else c
      | _ \<Rightarrow> c)"

definition handle :: "'f geo \<Rightarrow> gotime \<Rightarrow> 'f event_data event \<Rightarrow> 'f collector \<Rightarrow> 'f collector" where
  "handle g now ev c =
     (if ev_Type ev = ''packet.received'' then handlePacket g (ev_Data ev) c
      else if ev_Type ev = ''packet.error'' then c\<lparr>co_store := RecordPacket KindError now None (co_store c)\<rparr>
      else if ev_Type ev = ''message.delivered'' then handleDelivered now (ev_Data ev) c
      else c)"

text \<open>Run on the events it receives, each with the clock at that moment.\<close>

definition collect :: "'f geo \<Rightarrow> (gotime \<times> 'f event_data event) list \<Rightarrow> 'f collector \<Rightarrow> 'f collector" where
  "collect g evs c = fold (\<lambda>(now, ev). handle g now ev) evs c"

section \<open>The collector as a sequence of store changes\<close>

text \<open>What the handling of one event does to the store, as changes of Stats.\<close>

fun packet_changes :: "rat option \<Rightarrow> gotime \<Rightarrow> 'f packet \<Rightarrow> stats_change list" where
  "packet_changes d rt (TextPacket m) =
     (if IsDM (tm_Destination m)
      then [Packet KindDM rt None, Channel (dmKey (originCallsign (tm_Source m))) rt]
      else [Packet KindPublic rt None, Channel (publicKey (tm_Destination m)) rt])"
| "packet_changes d rt (PositionPacket p) = [Packet KindPosition rt d]"
| "packet_changes d rt (TelemetryPacket t) = [Packet KindTelemetry rt None]"

definition event_changes :: "'f geo \<Rightarrow> 'f collector \<Rightarrow> gotime \<Rightarrow> 'f event_data event \<Rightarrow> stats_change list" where
  "event_changes g c now ev =
     (case ev_Data ev of
        ReceivedData src p rt \<Rightarrow> if ev_Type ev = ''packet.received'' then
            packet_changes (case p of PositionPacket q \<Rightarrow> distance_to g c q | _ \<Rightarrow> None) rt p else []
      | DeliveredData rec \<Rightarrow> if ev_Type ev = ''message.delivered'' \<and> IsDM (cr_Dst rec)
          then [DMAck now, Channel (dmKey (cr_Dst rec)) now] else []
      | _ \<Rightarrow> []) @ (if ev_Type ev = ''packet.error'' then [Packet KindError now None] else [])"

lemma handle_changes: "co_store (handle g now ev c) = fold stats_apply (event_changes g c now ev) (co_store c)"
  by (auto simp: handle_def handlePacket_def handleDelivered_def event_changes_def
      split: event_data.splits packet.splits)

lemma handle_frame: "co_pos (handle g now ev c) = co_pos c" "co_identity (handle g now ev c) = co_identity c"
  by (auto simp: handle_def handlePacket_def handleDelivered_def split: event_data.splits packet.splits)

lemma distance_to_frame: "distance_to g (handle g now ev c) p = distance_to g c p"
  by (simp add: distance_to_def myCall_co_def handle_frame)

lemma event_changes_frame: "event_changes g (handle g now ev c) n e = event_changes g c n e"
  by (simp add: event_changes_def distance_to_frame split: event_data.split packet.split)

definition all_changes :: "'f geo \<Rightarrow> 'f collector \<Rightarrow> (gotime \<times> 'f event_data event) list \<Rightarrow> stats_change list" where
  "all_changes g c evs = concat (map (\<lambda>(now, ev). event_changes g c now ev) evs)"

lemma all_changes_frame: "all_changes g (handle g now ev c) evs = all_changes g c evs"
  by (simp add: all_changes_def event_changes_frame cong: map_cong)

lemma collect_changes: "co_store (collect g evs c) = fold stats_apply (all_changes g c evs) (co_store c)"
proof (induction evs arbitrary: c)
  case (Cons e evs)
  obtain now ev where e: "e = (now, ev)" by (cases e)
  show ?case
    using Cons.IH [of "handle g now ev c"]
    by (simp add: collect_def e handle_changes all_changes_frame) (simp add: all_changes_def)
qed (simp_all add: collect_def all_changes_def)

section \<open>Sums over the buckets\<close>

definition total :: "(bucket \<Rightarrow> int) \<Rightarrow> stats_store \<Rightarrow> int" where
  "total f s = sum_list (map (\<lambda>hb. f (snd hb)) (sts_buckets s))"

definition chan :: "string \<Rightarrow> bucket \<Rightarrow> int" where
  "chan k b = (case map_of (b_Channels b) k of None \<Rightarrow> 0 | Some n \<Rightarrow> n)"

lemma sum_update:
  "sum_list (map (\<lambda>hb. f (snd hb)) (AList.update h b xs)) =
     sum_list (map (\<lambda>hb. f (snd hb)) xs) + f b - (case map_of xs h of None \<Rightarrow> 0 | Some b' \<Rightarrow> (f b' :: int))"
  by (induction xs) auto

lemma total_put:
  assumes "f (empty_bucket h) = 0"
  shows "total f (put_bucket h b s) = total f s + f b - f (getOrCreate h s)"
  using assms by (simp add: total_def put_bucket_def sum_update getOrCreate_def split: option.split)

lemma chan_bump: "chan k (b\<lparr>b_Channels := bump j (b_Channels b)\<rparr>) = chan k b + (if j = k then 1 else 0)"
  by (simp add: chan_def bump_def update_conv' split: option.split)

lemma chan_other [simp]:
  "chan k (count_kind kd d b) = chan k b" "chan k (b\<lparr>b_DMAck := n\<rparr>) = chan k b" "chan k (empty_bucket h) = 0"
  by (cases kd) (simp_all add: chan_def empty_bucket_def)

fun counted :: "stats_change \<Rightarrow> int" where
  "counted (Packet k t d) = (if k = KindError then 0 else 1)"
| "counted _ = 0"

fun failed_packet :: "stats_change \<Rightarrow> int" where
  "failed_packet (Packet k t d) = (if k = KindError then 1 else 0)"
| "failed_packet _ = 0"

fun acked :: "stats_change \<Rightarrow> int" where
  "acked (DMAck t) = 1"
| "acked _ = 0"

fun on_channel :: "string \<Rightarrow> stats_change \<Rightarrow> int" where
  "on_channel k (Channel j t) = (if j = k then 1 else 0)"
| "on_channel k _ = 0"

fun no_prune :: "stats_change \<Rightarrow> bool" where
  "no_prune (Prune t) = False"
| "no_prune _ = True"

lemma count_kind_total:
  "b_Total (count_kind k d b) = b_Total b + (if k = KindError then 0 else 1)"
  "b_Errors (count_kind k d b) = b_Errors b + (if k = KindError then 1 else 0)"
  "b_DMAck (count_kind k d b) = b_DMAck b"
  by (cases k; simp)+

lemma empty_totals:
  "b_Total (empty_bucket h) = 0" "b_Errors (empty_bucket h) = 0" "b_DMAck (empty_bucket h) = 0"
  by (simp_all add: empty_bucket_def)

lemma change_totals:
  assumes "no_prune ch"
  shows "total b_Total (stats_apply ch s) = total b_Total s + counted ch"
    and "total b_Errors (stats_apply ch s) = total b_Errors s + failed_packet ch"
    and "total b_DMAck (stats_apply ch s) = total b_DMAck s + acked ch"
    and "k \<noteq> [] \<Longrightarrow> total (chan k) (stats_apply ch s) = total (chan k) s + on_channel k ch"
  using assms
  by (cases ch; simp add: RecordPacket_def RecordDMAck_def RecordChannel_def Let_def total_put empty_totals
      count_kind_total chan_bump)+

lemma fold_totals:
  assumes "\<forall>ch \<in> set chs. no_prune ch"
  shows "total b_Total (fold stats_apply chs s) = total b_Total s + sum_list (map counted chs)"
    and "total b_Errors (fold stats_apply chs s) = total b_Errors s + sum_list (map failed_packet chs)"
    and "total b_DMAck (fold stats_apply chs s) = total b_DMAck s + sum_list (map acked chs)"
    and "k \<noteq> [] \<Longrightarrow> total (chan k) (fold stats_apply chs s) = total (chan k) s + sum_list (map (on_channel k) chs)"
  using assms by (induction chs arbitrary: s) (simp_all add: change_totals)

section \<open>What each event counts for\<close>

definition is_packet :: "'f event_data event \<Rightarrow> bool" where
  "is_packet ev \<longleftrightarrow> ev_Type ev = ''packet.received'' \<and>
     (case ev_Data ev of ReceivedData src p rt \<Rightarrow> True | _ \<Rightarrow> False)"

definition is_ack :: "'f event_data event \<Rightarrow> bool" where
  "is_ack ev \<longleftrightarrow> ev_Type ev = ''message.delivered'' \<and>
     (case ev_Data ev of DeliveredData rec \<Rightarrow> IsDM (cr_Dst rec) | _ \<Rightarrow> False)"

text \<open>The channel an event belongs to, empty when it has none.\<close>

definition event_key :: "'f event_data event \<Rightarrow> string" where
  "event_key ev =
     (if is_packet ev then
        (case ev_Data ev of ReceivedData src (TextPacket m) rt \<Rightarrow>
           if IsDM (tm_Destination m) then dmKey (originCallsign (tm_Source m)) else publicKey (tm_Destination m)
         | _ \<Rightarrow> [])
      else if is_ack ev then (case ev_Data ev of DeliveredData rec \<Rightarrow> dmKey (cr_Dst rec) | _ \<Rightarrow> [])
      else [])"

definition occurrences :: "('f event_data event \<Rightarrow> bool) \<Rightarrow> (gotime \<times> 'f event_data event) list \<Rightarrow> int" where
  "occurrences P evs = int (length (filter (\<lambda>e. P (snd e)) evs))"

lemma no_prune_packet: "\<forall>ch \<in> set (packet_changes d rt p). no_prune ch"
  by (cases p) auto

lemma no_prune_event: "\<forall>ch \<in> set (event_changes g c now ev). no_prune ch"
  using no_prune_packet by (auto simp: event_changes_def split: event_data.splits if_splits)

lemma event_counts:
  "sum_list (map counted (event_changes g c now ev)) = (if is_packet ev then 1 else 0)"
  "sum_list (map failed_packet (event_changes g c now ev)) = (if ev_Type ev = ''packet.error'' then 1 else 0)"
  "sum_list (map acked (event_changes g c now ev)) = (if is_ack ev then 1 else 0)"
  "k \<noteq> [] \<Longrightarrow> sum_list (map (on_channel k) (event_changes g c now ev)) = (if event_key ev = k then 1 else 0)"
  by (auto simp: event_changes_def is_packet_def is_ack_def event_key_def
      split: event_data.splits packet.splits)

lemma all_changes_simps:
  "all_changes g c [] = []"
  "all_changes g c ((now, ev) # evs) = event_changes g c now ev @ all_changes g c evs"
  by (simp_all add: all_changes_def)

lemma all_counts:
  "sum_list (map counted (all_changes g c evs)) = occurrences is_packet evs"
  "sum_list (map failed_packet (all_changes g c evs)) = occurrences (\<lambda>ev. ev_Type ev = ''packet.error'') evs"
  "sum_list (map acked (all_changes g c evs)) = occurrences is_ack evs"
  "k \<noteq> [] \<Longrightarrow> sum_list (map (on_channel k) (all_changes g c evs)) = occurrences (\<lambda>ev. event_key ev = k) evs"
  by (induction evs) (auto simp: all_changes_simps occurrences_def event_counts)

lemma all_no_prune: "\<forall>ch \<in> set (all_changes g c evs). no_prune ch"
  by (induction evs) (auto simp: all_changes_simps dest: bspec [OF no_prune_event])

section \<open>The collector only records what the tables can hold\<close>

definition change_storable :: "stats_change \<Rightarrow> bool" where
  "change_storable ch =
     (case ch of Packet k t d \<Rightarrow> (case d of None \<Rightarrow> True | Some km \<Rightarrow> 0 \<le> km)
      | Channel k t \<Rightarrow> k = [] \<or> chan_key_ok k | _ \<Rightarrow> True)"

definition store_storable :: "stats_store \<Rightarrow> bool" where
  "store_storable s \<longleftrightarrow> buckets_ok (sts_buckets s) \<and> (\<forall>b \<in> snd ` set (sts_buckets s). bucket_storable b)"

lemma storable_iff:
  "bucket_storable b \<longleftrightarrow> bucket_ok b \<and> fst ` set (b_Channels b) \<subseteq> Collect chan_key_ok \<and>
     fst ` set (b_DistanceKm b) \<subseteq> Collect label_ok"
  by (auto simp: bucket_storable_def)

lemma getOrCreate_storable:
  assumes "store_storable s"
  shows "bucket_storable (getOrCreate h s)"
proof (cases "map_of (sts_buckets s) h")
  case None
  then show ?thesis by (simp add: getOrCreate_def empty_bucket_def bucket_storable_def bucket_ok_def)
next
  case (Some b)
  then have "(h, b) \<in> set (sts_buckets s)" by (rule map_of_SomeD)
  with assms Some show ?thesis by (auto simp: store_storable_def getOrCreate_def)
qed

lemma put_storable:
  assumes "store_storable s" "bucket_storable b" "b_HourUnix b = h"
  shows "store_storable (put_bucket h b s)"
proof -
  have "buckets_ok (sts_buckets (put_bucket h b s))"
    using assms by (intro put_bucket_ok) (auto simp: store_storable_def bucket_storable_def)
  moreover have "\<forall>x \<in> snd ` set (sts_buckets (put_bucket h b s)). bucket_storable x"
    using assms by (auto simp: store_storable_def put_bucket_def dest!: set_AList_update)
  ultimately show ?thesis by (simp add: store_storable_def)
qed

lemma bump_keys: "fst ` set (bump k m) = insert k (fst ` set m)"
  by (simp add: bump_def dom_update)

lemma count_kind_storable:
  assumes "bucket_storable b" "\<And>km. d = Some km \<Longrightarrow> 0 \<le> km"
  shows "bucket_storable (count_kind k d b)"
  using assms count_kind_ok [of b k d]
  by (cases k; cases d) (auto simp: storable_iff label_ok_def bump_keys)

lemma field_storable:
  "bucket_storable b \<Longrightarrow> bucket_storable (b\<lparr>b_DMAck := b_DMAck b + 1\<rparr>)"
  "bucket_storable b \<Longrightarrow> chan_key_ok k \<Longrightarrow> bucket_storable (b\<lparr>b_Channels := bump k (b_Channels b)\<rparr>)"
  by (simp_all add: storable_iff bucket_ok_updates bump_keys)

lemma apply_storable:
  assumes s: "store_storable s" and ch: "change_storable ch" "no_prune ch"
  shows "store_storable (stats_apply ch s)"
proof -
  have b: "bucket_storable (getOrCreate h s)" "b_HourUnix (getOrCreate h s) = h" for h
    using getOrCreate_storable [OF s] getOrCreate_ok s by (auto simp: store_storable_def)
  show ?thesis
  proof (cases ch)
    case (Packet k t d)
    then have "bucket_storable (count_kind k d (getOrCreate (hourKey t) s))"
      using ch b by (intro count_kind_storable) (auto simp: change_storable_def)
    moreover have "b_HourUnix (count_kind k d (getOrCreate (hourKey t) s)) = hourKey t"
      using count_kind_ok b by (simp add: storable_iff)
    ultimately show ?thesis using s Packet by (simp add: RecordPacket_def Let_def put_storable)
  next
    case (DMAck t)
    with b s show ?thesis by (simp add: RecordDMAck_def Let_def put_storable field_storable)
  next
    case (Channel k t)
    with b ch s show ?thesis
      by (auto simp: RecordChannel_def Let_def change_storable_def put_storable field_storable)
  qed (use ch in auto)
qed

lemma fold_storable:
  "store_storable s \<Longrightarrow> \<forall>ch \<in> set chs. change_storable ch \<and> no_prune ch \<Longrightarrow>
   store_storable (fold stats_apply chs s)"
  by (induction chs arbitrary: s) (simp_all add: apply_storable)

lemma key_storable: "change_storable (Channel (dmKey x) t)" "change_storable (Channel (publicKey x) t)"
  by (auto simp: change_storable_def dmKey_def publicKey_def chan_key_ok_def)

lemma event_storable:
  assumes "\<And>a b c d. 0 \<le> geo_km g a b c d"
  shows "\<forall>ch \<in> set (event_changes g c now ev). change_storable ch"
  using assms
  by (auto simp: event_changes_def key_storable distance_to_def change_storable_def [of "Packet _ _ _"]
      change_storable_def [of "DMAck _"] split: event_data.splits packet.splits option.splits if_splits)

lemma all_storable:
  assumes "\<And>a b c d. 0 \<le> geo_km g a b c d"
  shows "\<forall>ch \<in> set (all_changes g c evs). change_storable ch \<and> no_prune ch"
  using all_no_prune [of g c evs]
  by (induction evs) (auto simp: all_changes_simps dest: bspec [OF event_storable [OF assms]])

section \<open>Properties\<close>

text \<open>The collector counts every event exactly once: over any sequence of events, the totals of the
  buckets grow by the number of received packets, the error counters by the number of undecodable
  datagrams, the acknowledgements by the number of delivered direct messages, and the counter of
  every channel by the number of messages that belong to it, each inbound direct message under its
  sender and each delivered one under its destination.\<close>

theorem collector_counts_once:
  "total b_Total (co_store (collect g evs c)) = total b_Total (co_store c) + occurrences is_packet evs \<and>
   total b_Errors (co_store (collect g evs c))
     = total b_Errors (co_store c) + occurrences (\<lambda>ev. ev_Type ev = ''packet.error'') evs \<and>
   total b_DMAck (co_store (collect g evs c)) = total b_DMAck (co_store c) + occurrences is_ack evs \<and>
   (\<forall>k. k \<noteq> [] \<longrightarrow> total (chan k) (co_store (collect g evs c))
     = total (chan k) (co_store c) + occurrences (\<lambda>ev. event_key ev = k) evs)"
  by (simp add: collect_changes fold_totals all_no_prune all_counts)

theorem collector_counts_once_witness:
  "total b_Errors (co_store (collect \<lparr>geo_zero = (\<lambda>x. x = 0), geo_km = (\<lambda>a b c d. 1)\<rparr>
     [(1, \<lparr>ev_Type = ''packet.error'', ev_Data = ErrorData []\<rparr>)]
     \<lparr>co_store = NewSQLite_stats 7, co_pos = (NewSQLite_pos :: int pos_store), co_identity = None\<rparr>)) = 1"
  using collector_counts_once [of "\<lparr>geo_zero = (\<lambda>x. x = 0), geo_km = (\<lambda>a b c d. 1)\<rparr>"
     "[(1, \<lparr>ev_Type = ''packet.error'', ev_Data = ErrorData []\<rparr>)]"
     "\<lparr>co_store = NewSQLite_stats 7, co_pos = (NewSQLite_pos :: int pos_store), co_identity = None\<rparr>"]
  by (simp add: occurrences_def total_def NewSQLite_stats_def)


definition example_collector :: "int collector" where
  "example_collector = \<lparr>co_store = NewSQLite_stats 7, co_pos = NewSQLite_pos, co_identity = None\<rparr>"

definition example_geo :: "int geo" where
  "example_geo = \<lparr>geo_zero = (\<lambda>x. x = 0), geo_km = (\<lambda>a b c d. 1)\<rparr>"


end
