(* ===== verification/LowerCase.thy ===== *)
theory LowerCase
  imports Prelude
begin

text \<open>Lower-casing a trimmed string: doing it twice changes nothing, as for upper case in Prelude.\<close>

lemma byte_lower_char: "byte (lower_char c) = (if is_upper c then byte c + 32 else byte c)"
  by (auto simp: lower_char_def is_upper_def)

lemma lower_char_idem [simp]: "lower_char (lower_char c) = lower_char c"
  by (auto simp: lower_char_def is_upper_def)

lemma lower_char_not_lower: "\<not> is_lower (lower_char c) \<Longrightarrow> lower_char c = c"
  by (auto simp: lower_char_def is_upper_def is_lower_def split: if_splits)

lemma lower_char_high: "128 \<le> byte (lower_char c) \<Longrightarrow> lower_char c = c"
  by (auto simp: lower_char_def is_upper_def split: if_splits)

lemma lower_letters: "is_lower (CHR ''k'')" "is_lower (CHR ''i'')" "byte (CHR ''k'') < 128" "byte (CHR ''i'') < 128"
  by (simp_all add: is_lower_def)

lemma to_lower_plain: "byte c \<noteq> 226 \<Longrightarrow> byte c \<noteq> 196 \<Longrightarrow> to_lower (c # s) = lower_char c # to_lower s"
  by (cases s rule: to_lower.cases) (auto split: if_splits)

lemma to_lower_not_nil: "to_lower (d # s) \<noteq> []"
  by (cases s rule: to_lower.cases) auto

text \<open>A non-ASCII byte of the result was there before.\<close>

lemma to_lower_high:
  "to_lower s = y # w \<Longrightarrow> 128 \<le> byte y \<Longrightarrow> \<exists>t. s = y # t \<and> w = to_lower t"
  by (cases s rule: to_lower.cases) (auto split: if_splits dest: lower_char_high)

lemma to_lower_idem [simp]: "to_lower (to_lower s) = to_lower s"
proof (induction s rule: to_lower.induct)
  case (1 c d e s)
  consider "byte c = 226 \<and> byte d = 132 \<and> byte e = 170"
    | "byte c = 196 \<and> byte d = 176" "\<not> (byte c = 226 \<and> byte d = 132 \<and> byte e = 170)"
    | "\<not> (byte c = 226 \<and> byte d = 132 \<and> byte e = 170)" "\<not> (byte c = 196 \<and> byte d = 176)" by blast
  then show ?case
  proof cases
    case a: 1
    with 1 show ?thesis by (simp add: to_lower_plain lower_char_def is_upper_def)
  next
    case b: 2
    with 1 show ?thesis by (simp add: to_lower_plain lower_char_def is_upper_def)
  next
    case c: 3
    then have out: "to_lower (c # d # e # s) = lower_char c # to_lower (d # e # s)" by auto
    note ih = "1.IH"(3) [OF c]
    show ?thesis
    proof (cases "byte (lower_char c) = 226 \<or> byte (lower_char c) = 196")
      case False
      then show ?thesis using ih unfolding out by (simp add: to_lower_plain)
    next
      case True
      then have lc: "lower_char c = c" by (intro lower_char_high) auto
      obtain y w where y: "to_lower (d # e # s) = y # w" using to_lower_not_nil by (meson list.exhaust)
      have no_i: "\<not> (byte c = 196 \<and> byte y = 176)"
        using to_lower_high [OF y] c(2) by auto
      have no_k: "\<not> (byte c = 226 \<and> byte y = 132 \<and> w \<noteq> [] \<and> byte (hd w) = 170)"
      proof
        assume a: "byte c = 226 \<and> byte y = 132 \<and> w \<noteq> [] \<and> byte (hd w) = 170"
        then have d: "d = y" "w = to_lower (e # s)" using to_lower_high [OF y] by auto
        obtain z v where z: "w = z # v" using a by (cases w) auto
        with a have bz: "byte z = 170" by simp
        have "to_lower (e # s) = z # v" using d(2) z by simp
        then have "e = z" using to_lower_high [of "e # s" z v] bz by auto
        with a d(1) bz c(1) show False by auto
      qed
      have "to_lower (c # y # w) = c # to_lower (y # w)"
        using no_i no_k lc by (cases w) (auto simp: lower_char_def split: if_splits)
      then show ?thesis using ih unfolding out lc y by simp
    qed
  qed
next
  case (2 c d)
  have "\<not> (byte (lower_char c) = 196 \<and> byte (lower_char d) = 176) \<or> byte c = 196 \<and> byte d = 176"
    using lower_char_high [of c] lower_char_high [of d] by auto
  then show ?case by (auto simp: lower_char_def [of "CHR ''i''"] is_upper_def)
qed simp_all

lemma to_lower_prefix_back:
  "prefix p (to_lower s) \<Longrightarrow> \<forall>c \<in> set p. \<not> is_lower c \<Longrightarrow> prefix p s"
proof (induction s arbitrary: p rule: to_lower.induct)
  case (1 c d e s)
  show ?case
  proof (cases p)
    case (Cons x q)
    with 1 show ?thesis by (auto split: if_splits dest: lower_char_not_lower simp: lower_letters)
  qed simp
next
  case (2 c d)
  then show ?case by (cases p; cases "tl p") (auto split: if_splits dest: lower_char_not_lower simp: lower_letters)
next
  case (3 c)
  then show ?case by (cases p) (auto dest: lower_char_not_lower)
qed simp

lemma to_lower_unchanged: "\<forall>c \<in> set (to_lower s). \<not> is_lower c \<Longrightarrow> to_lower s = s"
  by (induction s rule: to_lower.induct)
     (auto split: if_splits dest: lower_char_not_lower simp: lower_letters)

lemma to_lower_suffix_back:
  "to_lower s = u @ p \<Longrightarrow> \<forall>c \<in> set p. \<not> is_lower c \<Longrightarrow> suffix p s"
proof (induction s arbitrary: u rule: to_lower.induct)
  case (1 c d e s)
  then show ?case
  proof (cases u)
    case Nil
    with 1(4,5) have "to_lower (c # d # e # s) = c # d # e # s"
      by (intro to_lower_unchanged) (simp only: append_Nil)
    with 1(4) Nil show ?thesis by (metis append_Nil suffix_order.refl)
  next
    case (Cons x v)
    with 1 show ?thesis by (auto split: if_splits simp: suffix_Cons)
  qed
next
  case (2 c d)
  then show ?case
    using to_lower_unchanged [of "[c, d]"] lower_char_not_lower [of d]
    by (cases u; cases "tl u") (auto split: if_splits simp: suffix_Cons lower_letters)
next
  case (3 c)
  then show ?case using to_lower_unchanged [of "[c]"] by (cases u) auto
qed simp

lemma space_seqs_not_lower: "p \<in> set space_seqs \<Longrightarrow> c \<in> set p \<Longrightarrow> \<not> is_lower c"
  by (auto simp: space_seqs_def is_lower_def)

lemma trim_lower_trim [simp]: "trim_space (to_lower (trim_space s)) = to_lower (trim_space s)"
  by (rule trim_space_id)
     (metis to_lower_prefix_back to_lower_suffix_back space_seqs_not_lower suffix_def
       trim_space_no_prefix trim_space_no_suffix)

end
