(* ===== verification/Durations.thy ===== *)
theory Durations
  imports Timestamps
begin

text \<open>
  Durations as text: String and ParseDuration of Go's package time, the days of
  internal/config (ParseDuration in toml.go) and the shorter form its storage section uses
  (formatTomlDuration). ParseDuration reads a fraction through float64; the product it truncates,
  uint64(float64(f) * (float64(unit) / scale)), is the parameter fmul, and the proofs use that it is
  exact when the scale divides the unit.
\<close>

section \<open>Duration.String\<close>

text \<open>fmtFrac: the last prec digits of u as a fraction without trailing zeros, and the rest of u.\<close>

definition fmt_frac :: "nat \<Rightarrow> nat \<Rightarrow> string" where
  "fmt_frac u prec =
     (let ds = dropWhile (\<lambda>d. d = 0) (map (\<lambda>i. u div 10 ^ i mod 10) [0..<prec]) in
      if ds = [] then [] else CHR ''.'' # map digit_char (rev ds))"

definition micro_sign :: string where
  "micro_sign = bytes_of [194, 181]"

definition unsigned_text :: "nat \<Rightarrow> string" where
  "unsigned_text u =
     (if u < 1000000000 then
        if u = 0 then ''0s''
        else if u < 1000 then itoa u @ ''ns''
        else if u < 1000000 then itoa (u div 1000) @ fmt_frac u 3 @ micro_sign @ ''s''
        else itoa (u div 1000000) @ fmt_frac u 6 @ ''ms''
      else
        (let secs = u div 1000000000; mins = secs div 60; s = itoa (secs mod 60) @ fmt_frac u 9 @ ''s'' in
         if mins = 0 then s
         else if mins div 60 = 0 then itoa (mins mod 60) @ ''m'' @ s
         else itoa (mins div 60) @ ''h'' @ itoa (mins mod 60) @ ''m'' @ s))"

definition duration_text :: "duration \<Rightarrow> string" where
  "duration_text d =
     (if d < 0 then CHR ''-'' # unsigned_text (nat (- d)) else unsigned_text (nat d))"

section \<open>time.ParseDuration\<close>

definition two63 :: nat where
  "two63 = 9223372036854775808"

text \<open>Digits so far; None when the value leaves 2^63.\<close>

fun leading_int :: "nat \<Rightarrow> string \<Rightarrow> (nat \<times> string) option" where
  "leading_int x [] = Some (x, [])"
| "leading_int x (c # s) =
     (if \<not> is_digit c then Some (x, c # s)
      else if x > two63 div 10 then None
      else (let y = x * 10 + digit_val c in if y > two63 then None else leading_int y s))"

text \<open>A fraction: its digits and the scale, further digits ignored once the value is full.\<close>

fun leading_fraction :: "nat \<Rightarrow> nat \<Rightarrow> bool \<Rightarrow> string \<Rightarrow> nat \<times> nat \<times> string" where
  "leading_fraction x scale ovf [] = (x, scale, [])"
| "leading_fraction x scale ovf (c # s) =
     (if \<not> is_digit c then (x, scale, c # s)
      else if ovf then leading_fraction x scale True s
      else if x > (two63 - 1) div 10 then leading_fraction x scale True s
      else (let y = x * 10 + digit_val c in
            if y > two63 then leading_fraction x scale True s else leading_fraction y (scale * 10) False s))"

definition unit_of :: "string \<Rightarrow> nat option" where
  "unit_of u =
     (if u = ''ns'' then Some 1
      else if u = ''us'' \<or> u = micro_sign @ ''s'' \<or> u = bytes_of [206, 188] @ ''s'' then Some 1000
      else if u = ''ms'' then Some 1000000
      else if u = ''s'' then Some 1000000000
      else if u = ''m'' then Some 60000000000
      else if u = ''h'' then Some 3600000000000
      else None)"

text \<open>One number with its unit: the value it adds and the rest of the text.\<close>

definition is_unit_char :: "char \<Rightarrow> bool" where
  "is_unit_char c \<longleftrightarrow> c \<noteq> CHR ''.'' \<and> \<not> is_digit c"

definition parse_part :: "(nat \<Rightarrow> nat \<Rightarrow> nat \<Rightarrow> nat) \<Rightarrow> string \<Rightarrow> (nat \<times> string) option" where
  "parse_part fmul s =
     (if s = [] \<or> \<not> (hd s = CHR ''.'' \<or> is_digit (hd s)) then None
      else (case leading_int 0 s of None \<Rightarrow> None
        | Some (v, s1) \<Rightarrow>
          (let (f, scale, s2) = (if s1 \<noteq> [] \<and> hd s1 = CHR ''.'' then leading_fraction 0 1 False (tl s1) else (0, 1, s1));
               pre = (length s \<noteq> length s1);
               post = (s1 \<noteq> [] \<and> hd s1 = CHR ''.'' \<and> length s2 \<noteq> length (tl s1));
               u = takeWhile is_unit_char s2; rest = dropWhile is_unit_char s2 in
           if \<not> pre \<and> \<not> post then None
           else if u = [] then None
           else (case unit_of u of None \<Rightarrow> None
             | Some unit \<Rightarrow>
                 if v > two63 div unit then None
                 else (let w = v * unit + (if f > 0 then fmul f unit scale else 0) in
                       if f > 0 \<and> w > two63 then None else Some (w, rest))))))"

text \<open>The loop over the parts; every part consumes a character, so the length is enough fuel.\<close>

fun parse_parts :: "(nat \<Rightarrow> nat \<Rightarrow> nat \<Rightarrow> nat) \<Rightarrow> nat \<Rightarrow> nat \<Rightarrow> string \<Rightarrow> nat option" where
  "parse_parts fmul fuel d [] = Some d"
| "parse_parts fmul 0 d (c # s) = None"
| "parse_parts fmul (Suc n) d (c # s) =
     (case parse_part fmul (c # s) of None \<Rightarrow> None
      | Some (v, rest) \<Rightarrow> if d + v > two63 then None else parse_parts fmul n (d + v) rest)"

definition parse_unsigned :: "(nat \<Rightarrow> nat \<Rightarrow> nat \<Rightarrow> nat) \<Rightarrow> string \<Rightarrow> nat option" where
  "parse_unsigned fmul s =
     (if s = ''0'' then Some 0 else if s = [] then None else parse_parts fmul (length s) 0 s)"

definition parse_go_duration :: "(nat \<Rightarrow> nat \<Rightarrow> nat \<Rightarrow> nat) \<Rightarrow> string \<Rightarrow> duration option" where
  "parse_go_duration fmul s =
     (if s \<noteq> [] \<and> hd s = CHR ''-'' then map_option (\<lambda>d. - int d) (parse_unsigned fmul (tl s))
      else (case parse_unsigned fmul (if s \<noteq> [] \<and> hd s = CHR ''+'' then tl s else s) of
              None \<Rightarrow> None
            | Some d \<Rightarrow> if d > two63 - 1 then None else Some (int d)))"

section \<open>The durations of the configuration (toml.go)\<close>

definition ParseDuration :: "(nat \<Rightarrow> nat \<Rightarrow> nat \<Rightarrow> nat) \<Rightarrow> string \<Rightarrow> duration option" where
  "ParseDuration fmul value =
     (let trimmed = trim_space value in
      if suffix ''d'' trimmed
      then map_option (\<lambda>days. wrap64 (wrap64 (days * 24) * hour)) (atoi (trim_suffix ''d'' trimmed))
      else parse_go_duration fmul trimmed)"

definition formatTomlDuration :: "duration \<Rightarrow> string" where
  "formatTomlDuration d =
     (if d > 0 \<and> d mod (24 * hour) = 0 then itoa_int (d div (24 * hour)) @ ''d''
      else if d > 0 \<and> d mod hour = 0 then itoa_int (d div hour) @ ''h''
      else duration_text d)"

section \<open>Reading back numbers and fractions\<close>

definition digits_from :: "nat \<Rightarrow> string \<Rightarrow> nat" where
  "digits_from x ds = foldl (\<lambda>n c. 10 * n + digit_val c) x ds"

lemma digits_from_simps [simp]:
  "digits_from x [] = x" "digits_from x (c # ds) = digits_from (10 * x + digit_val c) ds"
  by (simp_all add: digits_from_def)

lemma digits_from_ge: "x \<le> digits_from x ds"
proof (induction ds arbitrary: x)
  case (Cons c ds)
  have "x \<le> 10 * x + digit_val c" by simp
  also have "\<dots> \<le> digits_from (10 * x + digit_val c) ds" by (rule Cons.IH)
  finally show ?case by simp
qed simp

lemma digits_from_itoa [simp]: "digits_from 0 (itoa n) = n"
  using dec_val_itoa [of n] by (simp add: digits_from_def dec_val_def)

definition no_digit :: "string \<Rightarrow> bool" where
  "no_digit s \<longleftrightarrow> s = [] \<or> \<not> is_digit (hd s)"

lemma leading_int_stop: "no_digit s \<Longrightarrow> leading_int x s = Some (x, s)"
  by (cases s) (auto simp: no_digit_def)

lemma leading_int_digits:
  "list_all is_digit ds \<Longrightarrow> digits_from x ds \<le> two63 \<Longrightarrow>
   leading_int x (ds @ rest) = leading_int (digits_from x ds) rest"
proof (induction ds arbitrary: x)
  case (Cons c ds)
  have y: "10 * x + digit_val c \<le> two63"
    using digits_from_ge [of "10 * x + digit_val c" ds] Cons.prems(2) by simp
  then have "\<not> x > two63 div 10" by (simp add: two63_def)
  with y Cons show ?case by (simp add: mult.commute)
qed simp

lemma leading_fraction_stop: "no_digit s \<Longrightarrow> leading_fraction x sc ovf s = (x, sc, s)"
  by (cases s) (auto simp: no_digit_def)

lemma leading_fraction_digits:
  "list_all is_digit ds \<Longrightarrow> digits_from x ds \<le> 1000000000 \<Longrightarrow>
   leading_fraction x sc False (ds @ rest) = leading_fraction (digits_from x ds) (sc * 10 ^ length ds) False rest"
proof (induction ds arbitrary: x sc)
  case (Cons c ds)
  have y: "10 * x + digit_val c \<le> 1000000000"
    using digits_from_ge [of "10 * x + digit_val c" ds] Cons.prems(2) by simp
  with Cons show ?case by (simp add: two63_def mult.commute mult.assoc)
qed simp

section \<open>The value of a printed fraction\<close>

text \<open>The value of digits, the lowest first.\<close>

definition low_val :: "nat list \<Rightarrow> nat" where
  "low_val ds = foldr (\<lambda>d n. d + 10 * n) ds 0"

lemma low_val_simps [simp]: "low_val [] = 0" "low_val (d # ds) = d + 10 * low_val ds"
  by (simp_all add: low_val_def)

lemma low_val_append: "low_val (ds @ es) = low_val ds + 10 ^ length ds * low_val es"
  by (induction ds) (simp_all add: algebra_simps)

lemma low_val_zeros: "\<forall>d \<in> set ds. d = 0 \<Longrightarrow> low_val ds = 0"
  by (induction ds) simp_all

lemma low_val_digits: "low_val (map (\<lambda>i. u div 10 ^ i mod 10) [0..<p]) = u mod 10 ^ p"
proof (induction p)
  case (Suc p)
  have "u mod 10 ^ Suc p = u mod 10 ^ p + 10 ^ p * (u div 10 ^ p mod 10)"
    by (metis mod_mult2_eq mult.commute power_Suc2 add.commute)
  with Suc show ?case by (simp add: low_val_append)
qed simp

lemma digits_from_rev:
  "\<forall>d \<in> set ds. d < 10 \<Longrightarrow> digits_from 0 (map digit_char (rev ds)) = low_val ds"
proof (induction ds)
  case (Cons d ds)
  have "digits_from 0 (map digit_char (rev (d # ds)))
      = 10 * digits_from 0 (map digit_char (rev ds)) + digit_val (digit_char d)"
    by (simp add: digits_from_def)
  with Cons show ?case by simp
qed simp

text \<open>What fmt_frac prints: nothing for a whole number, else a point and digits of known value.\<close>

lemma fmt_frac_cases:
  obtains "fmt_frac u p = []" "u mod 10 ^ p = 0"
  | ds k where "fmt_frac u p = CHR ''.'' # ds" "list_all is_digit ds" "ds \<noteq> []" "k + length ds = p"
      "u mod 10 ^ p = 10 ^ k * digits_from 0 ds" "0 < digits_from 0 ds"
proof -
  let ?all = "map (\<lambda>i. u div 10 ^ i mod 10) [0..<p]"
  define z where "z = takeWhile (\<lambda>d. d = 0) ?all"
  define ds where "ds = dropWhile (\<lambda>d. d = 0) ?all"
  have all: "?all = z @ ds" unfolding z_def ds_def by simp
  have z: "\<forall>d \<in> set z. d = 0" unfolding z_def by (auto dest: set_takeWhileD)
  have lt: "\<forall>d \<in> set ds. d < 10"
  proof
    fix d assume "d \<in> set ds"
    then have "d \<in> set ?all" unfolding all by simp
    then show "d < 10" by auto
  qed
  have v: "u mod 10 ^ p = 10 ^ length z * low_val ds"
    using low_val_digits [of u p] unfolding all by (simp add: low_val_append low_val_zeros [OF z])
  show thesis
  proof (cases "ds = []")
    case True
    then have "fmt_frac u p = []" by (simp only: fmt_frac_def Let_def ds_def [symmetric] if_True simp_thms)
    moreover have "u mod 10 ^ p = 0" using v True by (simp only: low_val_simps mult_0_right)
    ultimately show thesis by (rule that(1))
  next
    case False
    then have "hd ds \<noteq> 0" unfolding ds_def by (rule hd_dropWhile)
    then have "0 < low_val ds" using False by (cases ds) auto
    moreover have "length z + length ds = p" using arg_cong [OF all, of length] by simp
    moreover have "list_all is_digit (map digit_char (rev ds))" using lt by (simp add: list_all_iff)
    ultimately show thesis
      using that(2) [of "map digit_char (rev ds)" "length z"] False v digits_from_rev [OF lt]
      by (simp add: fmt_frac_def Let_def ds_def [symmetric])
  qed
qed

lemma fmt_frac_whole: "u mod 10 ^ p = 0 \<Longrightarrow> fmt_frac u p = []"
  by (cases rule: fmt_frac_cases [of u p]) auto

lemma digit_chars:
  "digit_char 0 = CHR ''0''" "digit_char 1 = CHR ''1''" "digit_char 2 = CHR ''2''" "digit_char 3 = CHR ''3''"
  "digit_char 4 = CHR ''4''" "digit_char 5 = CHR ''5''" "digit_char 6 = CHR ''6''" "digit_char 7 = CHR ''7''"
  by code_simp+

section \<open>Round trip\<close>

text \<open>The float product is exact when the scale divides the unit, as it is for what String prints.\<close>

definition exact_fraction :: "(nat \<Rightarrow> nat \<Rightarrow> nat \<Rightarrow> nat) \<Rightarrow> bool" where
  "exact_fraction fmul \<longleftrightarrow>
     (\<forall>f unit scale. scale dvd unit \<and> f < scale \<and> unit \<le> 1000000000 \<longrightarrow> fmul f unit scale = f * (unit div scale))"

lemma itoa_hd: "is_digit (hd (itoa n))"
  using set_itoa [of "hd (itoa n)" n] by simp

lemma unit_char_stop:
  assumes "list_all is_unit_char un" "rest = [] \<or> is_digit (hd rest)"
  shows "takeWhile is_unit_char (un @ rest) = un" "dropWhile is_unit_char (un @ rest) = rest"
  using assms by (cases rest; auto simp: list_all_iff is_unit_char_def takeWhile_append dropWhile_append)+

lemma unit_no_digit: "list_all is_unit_char un \<Longrightarrow> un \<noteq> [] \<Longrightarrow> no_digit (un @ rest)"
  by (cases un) (auto simp: no_digit_def is_unit_char_def)

lemma digits_bound: "list_all is_digit ds \<Longrightarrow> digits_from x ds < (x + 1) * 10 ^ length ds"
proof (induction ds arbitrary: x)
  case (Cons c ds)
  have "digit_val c < 10" using Cons.prems by (auto simp: digit_val_def is_digit_def)
  then have "10 * x + digit_val c + 1 \<le> (x + 1) * 10" by simp
  then have "(10 * x + digit_val c + 1) * 10 ^ length ds \<le> (x + 1) * 10 * 10 ^ length ds"
    by (rule mult_right_mono) simp
  with Cons.IH [of "10 * x + digit_val c"] Cons.prems
  have "digits_from (10 * x + digit_val c) ds < (x + 1) * 10 * 10 ^ length ds"
    by (auto intro: less_le_trans)
  then show ?case by (simp add: algebra_simps)
qed simp

lemma parse_part_text:
  assumes ex: "exact_fraction fmul" and un: "unit_of un = Some unit" "list_all is_unit_char un" "un \<noteq> []"
    and rest: "rest = [] \<or> is_digit (hd rest)" and p: "p \<le> 9" "10 ^ p dvd unit" "p = 0 \<or> unit \<le> 1000000000"
    and fits: "n * unit + (u mod 10 ^ p) * (unit div 10 ^ p) \<le> two63" and pos: "0 < unit"
  shows "parse_part fmul (itoa n @ fmt_frac u p @ un @ rest)
    = Some (n * unit + (u mod 10 ^ p) * (unit div 10 ^ p), rest)"
proof -
  have nfit: "n \<le> two63 div unit"
    using fits pos by (simp add: less_eq_div_iff_mult_less_eq)
  then have n63: "digits_from 0 (itoa n) \<le> two63"
    using pos by simp (metis div_le_dividend le_trans)
  have start: "itoa n @ s \<noteq> []" "is_digit (hd (itoa n @ s))" for s
    using itoa_hd [of n] by (simp_all add: hd_append)
  have len: "length (itoa n @ s) \<noteq> length s" for s by simp
  have lead: "leading_int 0 (itoa n @ s) = leading_int n s" for s
    using leading_int_digits [OF itoa_digits n63] by simp
  note stop = leading_int_stop [OF unit_no_digit [OF un(2,3)]]
  show ?thesis
  proof (cases u p rule: fmt_frac_cases)
    case 1
    have "hd (un @ rest) \<noteq> CHR ''.''" using un(2,3) by (cases un) (auto simp: is_unit_char_def)
    with 1 start [of "un @ rest"] len [of "un @ rest"] lead [of "un @ rest"] stop [of n rest] nfit un(1,3)
    show ?thesis by (simp add: parse_part_def unit_char_stop [OF un(2) rest])
  next
    case (2 ds k)
    have b: "digits_from 0 ds < 10 ^ length ds" using digits_bound [OF 2(2), of 0] by simp
    moreover have "(10 :: nat) ^ length ds \<le> 10 ^ 9" using 2(4) p(1) by (intro power_increasing) auto
    ultimately have small: "digits_from 0 ds \<le> 1000000000" by simp
    have frac: "leading_fraction 0 1 False (ds @ un @ rest) = (digits_from 0 ds, 10 ^ length ds, un @ rest)"
      using leading_fraction_digits [OF 2(2) small, of 1 "un @ rest"]
        leading_fraction_stop [OF unit_no_digit [OF un(2,3)]] by simp
    have dv: "10 ^ length ds dvd unit" using 2(4) p(2) by (metis dvd_trans le_add2 le_imp_power_dvd)
    have "p \<noteq> 0" using 2(3,4) by auto
    with p(3) have "fmul (digits_from 0 ds) unit (10 ^ length ds) = digits_from 0 ds * (unit div 10 ^ length ds)"
      using ex dv b unfolding exact_fraction_def by blast
    also have "unit div 10 ^ length ds = 10 ^ k * (unit div 10 ^ p)"
      using 2(4) p(2) by (auto simp: dvd_def power_add)
    finally have f: "fmul (digits_from 0 ds) unit (10 ^ length ds) = (u mod 10 ^ p) * (unit div 10 ^ p)"
      by (simp add: 2(5))
    show ?thesis
      using 2(1,3,6) start [of "CHR ''.'' # ds @ un @ rest"] len [of "CHR ''.'' # ds @ un @ rest"]
        lead [of "CHR ''.'' # ds @ un @ rest"] frac f nfit un(1,3) fits
      by (simp add: parse_part_def unit_char_stop [OF un(2) rest] is_digit_def)
  qed
qed

lemma parse_parts_step:
  assumes "parse_part fmul s = Some (v, rest)" "d + v \<le> two63" "s \<noteq> []"
  shows "parse_parts fmul (Suc n) d s = parse_parts fmul n (d + v) rest"
  using assms by (cases s) simp_all

text \<open>A whole number of a unit, at the start of a text.\<close>

lemma parse_whole:
  assumes "exact_fraction fmul" "unit_of un = Some unit" "list_all is_unit_char un" "un \<noteq> []"
    "rest = [] \<or> is_digit (hd rest)" "n * unit \<le> two63" "0 < unit"
  shows "parse_part fmul (itoa n @ un @ rest) = Some (n * unit, rest)"
  using parse_part_text [of fmul un unit rest 0 n 0] assms by (simp add: fmt_frac_def)

lemmas unit_facts = unit_of_def is_unit_char_def is_digit_def micro_sign_def two63_def

lemma micro_unit:
  "unit_of (micro_sign @ ''s'') = Some 1000" "list_all is_unit_char (micro_sign @ ''s'')" "micro_sign @ ''s'' \<noteq> []"
  by code_simp+

lemma split_seconds: "u div 1000000000 * 1000000000 + u mod 1000000000 = (u :: nat)"
  by simp

lemma parse_seconds:
  assumes "exact_fraction fmul" "n * 1000000000 + u mod 1000000000 \<le> two63"
  shows "parse_part fmul (itoa n @ fmt_frac u 9 @ ''s'') = Some (n * 1000000000 + u mod 1000000000, [])"
  using parse_part_text [of fmul "''s''" 1000000000 "[]" 9 n u] assms by (simp add: unit_facts)

lemma small_unsigned:
  assumes ex: "exact_fraction fmul" and u: "u < 1000000000"
  shows "parse_unsigned fmul (unsigned_text u) = Some u"
proof -
  have one: "parse_unsigned fmul s = Some u" if "parse_part fmul s = Some (u, [])" "s \<noteq> ''0''" "s \<noteq> []" for s
    using that parse_parts_step [OF that(1), of 0 "length s - 1"] u
    by (cases s) (auto simp: parse_unsigned_def two63_def)
  have ns: "itoa n @ c # s \<noteq> ''0''" "itoa n @ f @ c # d # s \<noteq> ''0''" for n f c d s
    using itoa_not_nil [of n] by (cases "itoa n"; simp)+
  consider "u = 0" | "0 < u" "u < 1000" | "1000 \<le> u" "u < 1000000" | "1000000 \<le> u" by linarith
  then show ?thesis
  proof cases
    case 1
    have "parse_part fmul (itoa 0 @ ''s'') = Some (0, [])"
      using parse_whole [OF ex, of "''s''" 1000000000 "[]" 0] by (simp add: unit_facts)
    then show ?thesis using one [of "''0s''"] 1 by (simp add: unsigned_text_def itoa_steps digit_char_table)
  next
    case 2
    have "parse_part fmul (itoa u @ ''ns'') = Some (u, [])"
      using parse_whole [OF ex, of "''ns''" 1 "[]" u] 2 by (simp add: unit_facts)
    then show ?thesis using one 2 ns by (simp add: unsigned_text_def)
  next
    case 3
    have "parse_part fmul (itoa (u div 1000) @ fmt_frac u 3 @ micro_sign @ ''s'') = Some (u, [])"
      using parse_part_text [OF ex micro_unit, of "[]" 3 "u div 1000" u] 3 u by (simp add: two63_def)
    then show ?thesis using one 3 u ns by (simp add: unsigned_text_def micro_sign_def)
  next
    case 4
    have "parse_part fmul (itoa (u div 1000000) @ fmt_frac u 6 @ ''ms'') = Some (u, [])"
      using parse_part_text [OF ex, of "''ms''" 1000000 "[]" 6 "u div 1000000" u] 4 u
      by (simp add: unit_facts)
    then show ?thesis using one 4 u ns by (simp add: unsigned_text_def)
  qed
qed

lemma parse_parts_mono:
  "parse_parts fmul n d s = Some r \<Longrightarrow> n \<le> m \<Longrightarrow> parse_parts fmul m d s = Some r"
proof (induction fmul n d s arbitrary: m rule: parse_parts.induct)
  case (3 fmul n d c s)
  obtain v rest where p: "parse_part fmul (c # s) = Some (v, rest)" "\<not> d + v > two63"
    "parse_parts fmul n (d + v) rest = Some r"
    using "3.prems"(1) by (auto split: option.splits if_splits)
  obtain k where "m = Suc k" "n \<le> k" using "3.prems"(2) by (cases m) auto
  with "3.IH" [OF p(1) refl p(2,3)] p show ?case by simp
qed auto

lemma parse_unsigned_parts:
  assumes "parse_parts fmul n 0 s = Some u" "n \<le> length s" "s \<noteq> ''0''" "s \<noteq> []"
  shows "parse_unsigned fmul s = Some u"
  using parse_parts_mono [OF assms(1,2)] assms(3,4) by (simp add: parse_unsigned_def)

lemma parse_hms:
  assumes ex: "exact_fraction fmul"
    and fits: "h * 3600000000000 + m * 60000000000 + (s * 1000000000 + u mod 1000000000) \<le> two63"
  defines "st \<equiv> itoa s @ fmt_frac u 9 @ ''s''"
  shows "parse_parts fmul 1 0 st = Some (s * 1000000000 + u mod 1000000000)"
    and "parse_parts fmul 2 0 (itoa m @ ''m'' @ st) = Some (m * 60000000000 + (s * 1000000000 + u mod 1000000000))"
    and "parse_parts fmul 3 0 (itoa h @ ''h'' @ itoa m @ ''m'' @ st)
      = Some (h * 3600000000000 + m * 60000000000 + (s * 1000000000 + u mod 1000000000))"
proof -
  have hd: "is_digit (hd (itoa n @ t))" for n t using itoa_hd [of n] by (simp add: hd_append)
  have sec: "parse_part fmul st = Some (s * 1000000000 + u mod 1000000000, [])"
    unfolding st_def by (rule parse_seconds [OF ex]) (use fits in linarith)
  have min: "parse_part fmul (itoa m @ ''m'' @ st) = Some (m * 60000000000, st)"
    using hd fits unfolding st_def by (intro parse_whole [OF ex]) (simp_all add: unit_facts)
  have hou: "parse_part fmul (itoa h @ ''h'' @ itoa m @ ''m'' @ st)
      = Some (h * 3600000000000, itoa m @ ''m'' @ st)"
    using hd fits by (intro parse_whole [OF ex]) (simp_all add: unit_facts)
  have e: "parse_parts fmul (Suc 0) d st = Some (d + (s * 1000000000 + u mod 1000000000))"
    if "d + (s * 1000000000 + u mod 1000000000) \<le> two63" for d
    by (subst parse_parts_step [OF sec that]) (simp_all add: st_def)
  have m: "parse_parts fmul (Suc (Suc 0)) d (itoa m @ ''m'' @ st)
      = Some (d + m * 60000000000 + (s * 1000000000 + u mod 1000000000))"
    if "d + m * 60000000000 + (s * 1000000000 + u mod 1000000000) \<le> two63" for d
    using that e [of "d + m * 60000000000"] by (subst parse_parts_step [OF min]) simp_all
  show "parse_parts fmul 1 0 st = Some (s * 1000000000 + u mod 1000000000)"
    using e [of 0] fits by simp
  show "parse_parts fmul 2 0 (itoa m @ ''m'' @ st) = Some (m * 60000000000 + (s * 1000000000 + u mod 1000000000))"
    using m [of 0] fits by (simp add: numeral_2_eq_2)
  show "parse_parts fmul 3 0 (itoa h @ ''h'' @ itoa m @ ''m'' @ st)
      = Some (h * 3600000000000 + m * 60000000000 + (s * 1000000000 + u mod 1000000000))"
    using m [of "h * 3600000000000"] fits unfolding numeral_3_eq_3
    by (subst parse_parts_step [OF hou]) simp_all
qed

lemma itoa_pos_length: "0 < length (itoa n)"
  by simp

lemma large_unsigned:
  assumes ex: "exact_fraction fmul" and u: "1000000000 \<le> u" "u \<le> two63"
  shows "parse_unsigned fmul (unsigned_text u) = Some u"
proof -
  define secs mins where "secs = u div 1000000000" and "mins = secs div 60"
  let ?s = "itoa (secs mod 60) @ fmt_frac u 9 @ ''s''"
  have val: "mins div 60 * 3600000000000 + mins mod 60 * 60000000000 + (secs mod 60 * 1000000000 + u mod 1000000000) = u"
    using div_mult_mod_eq [of mins 60] div_mult_mod_eq [of secs 60] div_mult_mod_eq [of u 1000000000]
    unfolding secs_def [symmetric] mins_def [symmetric] by linarith
  note p = parse_hms [OF ex, of "mins div 60" "mins mod 60" "secs mod 60" u, unfolded val, OF u(2)]
  have l: "1 \<le> length ?s" "2 \<le> length (itoa (mins mod 60) @ ''m'' @ ?s)"
    "3 \<le> length (itoa (mins div 60) @ ''h'' @ itoa (mins mod 60) @ ''m'' @ ?s)"
    using itoa_pos_length [of "mins mod 60"] itoa_pos_length [of "mins div 60"] by simp_all
  have n: "?s \<noteq> ''0''" "itoa k @ c # t @ [d] \<noteq> ''0''" for k c t d
    by (cases "itoa (secs mod 60)"; simp; fail) (cases "itoa k"; simp)
  consider "mins = 0" | "mins \<noteq> 0" "mins div 60 = 0" | "mins div 60 \<noteq> 0" by blast
  then show ?thesis
  proof cases
    case 1
    then have "unsigned_text u = ?s" using u by (simp add: unsigned_text_def Let_def secs_def mins_def)
    moreover have "secs mod 60 * 1000000000 + u mod 1000000000 = u" using val 1 by simp
    ultimately show ?thesis using parse_unsigned_parts [OF p(1) l(1) n(1)] by simp
  next
    case 2
    then have t: "unsigned_text u = itoa (mins mod 60) @ ''m'' @ ?s"
      using u by (simp add: unsigned_text_def Let_def secs_def mins_def)
    have "mins mod 60 * 60000000000 + (secs mod 60 * 1000000000 + u mod 1000000000) = u" using val 2 by simp
    then show ?thesis using parse_unsigned_parts [OF p(2) l(2)] unfolding t by (cases "itoa (mins mod 60)") auto
  next
    case 3
    then have t: "unsigned_text u = itoa (mins div 60) @ ''h'' @ itoa (mins mod 60) @ ''m'' @ ?s"
      using u by (auto simp: unsigned_text_def Let_def secs_def mins_def)
    show ?thesis using parse_unsigned_parts [OF p(3) l(3)] unfolding t by (cases "itoa (mins div 60)") auto
  qed
qed

lemma unsigned_roundtrip:
  "exact_fraction fmul \<Longrightarrow> u \<le> two63 \<Longrightarrow> parse_unsigned fmul (unsigned_text u) = Some u"
  using small_unsigned large_unsigned by (meson not_le)

lemma unsigned_shape: "unsigned_text u \<noteq> []" "is_digit (hd (unsigned_text u))" "last (unsigned_text u) = CHR ''s''"
proof -
  have h: "is_digit (hd (itoa n @ t))" for n t using itoa_hd [of n] by (simp add: hd_append)
  show "unsigned_text u \<noteq> []" by (auto simp: unsigned_text_def Let_def)
  show "last (unsigned_text u) = CHR ''s''" by (auto simp: unsigned_text_def Let_def)
  show "is_digit (hd (unsigned_text u))"
    using h by (cases "u < 1000000000") (simp_all add: unsigned_text_def Let_def is_digit_def [of "CHR ''0''"])
qed

lemma duration_roundtrip:
  assumes "exact_fraction fmul" "min_int64 \<le> d" "d \<le> max_int64"
  shows "parse_go_duration fmul (duration_text d) = Some d"
proof (cases "d < 0")
  case True
  then have "nat (- d) \<le> two63" using assms(2) by (simp add: min_int64_def two63_def)
  then show ?thesis
    using True unsigned_roundtrip [OF assms(1)] by (simp add: parse_go_duration_def duration_text_def)
next
  case False
  then have "nat d \<le> two63 - 1" using assms(3) by (simp add: max_int64_def two63_def)
  moreover have "hd (unsigned_text (nat d)) \<noteq> CHR ''-''" "hd (unsigned_text (nat d)) \<noteq> CHR ''+''"
    using unsigned_shape(2) [of "nat d"] by (auto simp: is_digit_def)
  ultimately show ?thesis
    using False unsigned_roundtrip [OF assms(1), of "nat d"]
    by (simp add: parse_go_duration_def duration_text_def)
qed

lemma text_trimmed:
  assumes "s \<noteq> []" "is_digit (hd s) \<or> hd s = CHR ''-''" "last s = CHR ''s'' \<or> last s = CHR ''d'' \<or> last s = CHR ''h''"
  shows "trim_space s = s"
  using assms by (intro trim_space_fix) (auto simp: space_first_def space_last_def is_digit_def)

lemma duration_text_shape:
  "duration_text d \<noteq> []" "is_digit (hd (duration_text d)) \<or> hd (duration_text d) = CHR ''-''"
  "last (duration_text d) = CHR ''s''"
  using unsigned_shape [of "nat d"] unsigned_shape [of "nat (- d)"] by (auto simp: duration_text_def)

lemma suffix_last: "suffix [c] s \<longleftrightarrow> s \<noteq> [] \<and> last s = c"
  by (cases s rule: rev_cases) (auto simp: suffix_def)

lemma parse_duration_text:
  assumes "exact_fraction fmul" "min_int64 \<le> d" "d \<le> max_int64"
  shows "ParseDuration fmul (duration_text d) = Some d"
  using duration_roundtrip [OF assms] duration_text_shape [of d]
  by (simp add: ParseDuration_def text_trimmed suffix_last)

lemma parse_toml_duration:
  assumes ex: "exact_fraction fmul" and d: "min_int64 \<le> d" "d \<le> max_int64"
  shows "ParseDuration fmul (formatTomlDuration d) = Some d"
proof -
  have h: "is_digit (hd (itoa n @ t))" for n t using itoa_hd [of n] by (simp add: hd_append)
  consider "d > 0" "d mod (24 * hour) = 0" | "\<not> (d > 0 \<and> d mod (24 * hour) = 0)" "d > 0" "d mod hour = 0"
    | "\<not> (d > 0 \<and> d mod (24 * hour) = 0)" "\<not> (d > 0 \<and> d mod hour = 0)" by blast
  then show ?thesis
  proof cases
    case 1
    define n where "n = d div (24 * hour)"
    have n: "d = n * (24 * hour)" "0 \<le> n" "n \<le> max_int64" using 1 d unfolding n_def max_int64_def by auto
    have e: "d div 86400000000000 = n" by (simp add: n_def)
    have "formatTomlDuration d = itoa (nat n) @ ''d''"
      using 1 n(2) e by (simp add: formatTomlDuration_def itoa_int_def)
    moreover have "trim_space (itoa (nat n) @ ''d'') = itoa (nat n) @ ''d''"
      using h by (intro text_trimmed) simp_all
    moreover have "atoi (itoa (nat n)) = Some n" using n by (subst atoi_itoa) auto
    moreover have "wrap64 (n * 24) = n * 24" "wrap64 (n * 24 * hour) = d"
      using n(1,2) d by (subst wrap64_id; simp add: min_int64_def max_int64_def)+
    ultimately show ?thesis
      by (simp add: ParseDuration_def suffix_last)
  next
    case 2
    define n where "n = d div hour"
    have n: "d = n * hour" "0 \<le> n" using 2 unfolding n_def by auto
    have e: "d div 3600000000000 = n" by (simp add: n_def)
    have t: "formatTomlDuration d = itoa (nat n) @ ''h''"
      using 2 n(2) e by (simp add: formatTomlDuration_def itoa_int_def)
    have fit: "nat n * 3600000000000 = nat d" "nat d \<le> two63 - 1"
      using n d by (simp_all add: nat_mult_distrib two63_def max_int64_def)
    have p: "parse_part fmul (itoa (nat n) @ ''h'') = Some (nat d, [])"
      using parse_whole [OF ex, of "''h''" 3600000000000 "[]" "nat n"] fit by (simp add: unit_facts)
    have "parse_parts fmul 1 0 (itoa (nat n) @ ''h'') = Some (nat d)"
      using fit by (simp only: One_nat_def, subst parse_parts_step [OF p]) (simp_all add: two63_def)
    then have "parse_unsigned fmul (itoa (nat n) @ ''h'') = Some (nat d)"
      by (rule parse_unsigned_parts) (use itoa_pos_length [of "nat n"] in \<open>auto simp: append_eq_Cons_conv\<close>)
    moreover have "trim_space (itoa (nat n) @ ''h'') = itoa (nat n) @ ''h''"
      using h by (intro text_trimmed) simp_all
    moreover have "hd (itoa (nat n) @ ''h'') \<noteq> CHR ''-''" "hd (itoa (nat n) @ ''h'') \<noteq> CHR ''+''"
      using h [of "nat n" "''h''"] by (auto simp: is_digit_def)
    ultimately show ?thesis using fit 2 unfolding t
      by (simp add: ParseDuration_def suffix_last parse_go_duration_def)
  next
    case 3
    then have "formatTomlDuration d = duration_text d" by (simp only: formatTomlDuration_def if_False)
    then show ?thesis using parse_duration_text [OF assms] by simp
  qed
qed

text \<open>a duration written to the configuration file, in the long form or in whole days or hours, is
  read back as it was.\<close>

theorem config_duration_roundtrip:
  assumes "exact_fraction fmul" "min_int64 \<le> d" "d \<le> max_int64"
  shows "ParseDuration fmul (formatTomlDuration d) = Some d \<and> ParseDuration fmul (duration_text d) = Some d"
  using parse_toml_duration [OF assms] parse_duration_text [OF assms] by simp

theorem config_duration_roundtrip_witness:
  "ParseDuration (\<lambda>f u s. f * (u div s)) (formatTomlDuration (- 1500000001)) = Some (- 1500000001) \<and>
   ParseDuration (\<lambda>f u s. f * (u div s)) (duration_text (- 1500000001)) = Some (- 1500000001)"
  by (rule config_duration_roundtrip) (simp_all add: exact_fraction_def min_int64_def max_int64_def)

lemma parse_days:
  assumes "atoi ds = Some n" "ds \<noteq> []" "is_digit (hd ds)"
  shows "ParseDuration fmul (ds @ ''d'') = Some (wrap64 (wrap64 (n * 24) * hour))"
proof -
  have "trim_space (ds @ ''d'') = ds @ ''d''"
    using assms(2,3) by (intro text_trimmed) simp_all
  then show ?thesis using assms(1) by (simp add: ParseDuration_def suffix_last)
qed

text \<open>a number of days is multiplied out without a check, so a long retention wraps: 106752 days are
  a negative duration, and 213504 days are a little over 25 minutes.\<close>

theorem day_counts_wrap:
  "ParseDuration fmul ''106751d'' = Some (106751 * 24 * hour) \<and>
   ParseDuration fmul ''106752d'' = Some (- 9223371273709551616) \<and>
   ParseDuration fmul ''213504d'' = Some 1526290448384"
proof -
  have w: "ParseDuration fmul (itoa n @ ''d'') = Some (wrap64 (wrap64 (int n * 24) * hour))" if "n < 10 ^ 6" for n
  proof (rule parse_days)
    show "atoi (itoa n) = Some (int n)" using that by (intro atoi_itoa) (simp add: max_int64_def)
    show "itoa n \<noteq> []" by simp
    show "is_digit (hd (itoa n))" by (rule itoa_hd)
  qed
  have "itoa 106751 = ''106751''" "itoa 106752 = ''106752''" "itoa 213504 = ''213504''"
    by (simp_all add: itoa.simps digit_chars del: One_nat_def)
  then show ?thesis
    using w [of 106751] w [of 106752] w [of 213504] by (simp add: wrap64_def)
qed

end
