(* ===== verification/Config.thy ===== *)
theory Config
  imports Callsign LowerCase Durations
begin

text \<open>
  internal/config (config.go, and the TOML wire types and the merge of toml.go): the configuration,
  its normal form, its validation and how values of the file override the defaults where the
  environment does not. Resolving an address may ask the network, so net.ResolveTCPAddr and
  net.ResolveUDPAddr are parameters giving the error text, if any. An error is its text.
\<close>

section \<open>The configuration\<close>

record serial_cfg =
  sr_Device :: string
  sr_Baud :: int
  sr_DataBits :: int
  sr_Parity :: string
  sr_StopBits :: int
  sr_FlowControl :: string
  sr_DTR :: bool
  sr_RTS :: bool
  sr_ReadTimeout :: duration
  sr_ReconnectInitial :: duration
  sr_ReconnectMax :: duration
  sr_StableResetAfter :: duration
  sr_MaxRecordBytes :: int

record netconsole_cfg =
  nc_Address :: string
  nc_Password :: string
  nc_ConnectTimeout :: duration
  nc_AuthTimeout :: duration
  nc_WriteTimeout :: duration
  nc_ReconnectInitial :: duration
  nc_ReconnectMax :: duration
  nc_StableResetAfter :: duration
  nc_MaxAuthLineBytes :: int
  nc_MaxRecordBytes :: int

record receive_log_cfg =
  rv_Enabled :: bool
  rv_ReplayWindow :: duration

record stats_cfg =
  sa_Enabled :: bool
  sa_RetentionDays :: int

record chat_log_cfg =
  cl_HistoryWindow :: duration
  cl_MaxHistoryWindow :: duration

record send_cfg =
  sd_DedupTTL :: duration

record forward_cfg =
  fw_Targets :: string

record auth_cfg =
  au_Username :: string
  au_Password :: string
  au_SessionTTL :: duration
  au_CookieName :: string

record request_log_cfg =
  rq_Enabled :: bool

record compression_cfg =
  cm_Enabled :: bool
  cm_MinimumSize :: int

record storage_cfg =
  sg_SQLitePath :: string
  sg_PurgeInterval :: duration
  sg_ReceiveLogRetention :: duration
  sg_PublicChatRetention :: duration
  sg_NodesRetention :: duration
  sg_TelemetryRetention :: duration

record config =
  cf_HTTPAddr :: string
  cf_TransportMode :: string
  cf_UDPListenAddr :: string
  cf_NodeAddr :: string
  cf_MyCall :: string
  cf_DataDir :: string
  cf_MaxMessageLength :: int
  cf_DemoMode :: bool
  cf_LogLevel :: string
  cf_ReceiveLog :: receive_log_cfg
  cf_Stats :: stats_cfg
  cf_ChatLog :: chat_log_cfg
  cf_Send :: send_cfg
  cf_Forward :: forward_cfg
  cf_Auth :: auth_cfg
  cf_RequestLog :: request_log_cfg
  cf_Compression :: compression_cfg
  cf_Storage :: storage_cfg
  cf_Serial :: serial_cfg
  cf_NetConsole :: netconsole_cfg

section \<open>The file (toml.go)\<close>

text \<open>A key absent from the file is None, and so is an absent section.\<close>

record toml_serial =
  tsr_Device :: "string option"
  tsr_Baud :: "int option"
  tsr_DataBits :: "int option"
  tsr_Parity :: "string option"
  tsr_StopBits :: "int option"
  tsr_FlowControl :: "string option"
  tsr_DTR :: "bool option"
  tsr_RTS :: "bool option"
  tsr_ReadTimeout :: "duration option"
  tsr_ReconnectInitial :: "duration option"
  tsr_ReconnectMax :: "duration option"
  tsr_StableResetAfter :: "duration option"
  tsr_MaxRecordBytes :: "int option"

record toml_netconsole =
  tnc_Address :: "string option"
  tnc_Password :: "string option"
  tnc_ConnectTimeout :: "duration option"
  tnc_AuthTimeout :: "duration option"
  tnc_WriteTimeout :: "duration option"
  tnc_ReconnectInitial :: "duration option"
  tnc_ReconnectMax :: "duration option"
  tnc_StableResetAfter :: "duration option"
  tnc_MaxAuthLineBytes :: "int option"
  tnc_MaxRecordBytes :: "int option"

record toml_receive_log =
  trv_Enabled :: "bool option"
  trv_ReplayWindow :: "duration option"

record toml_stats =
  tsa_Enabled :: "bool option"
  tsa_RetentionDays :: "int option"

record toml_chat_log =
  tcl_HistoryWindow :: "duration option"
  tcl_MaxHistoryWindow :: "duration option"

record toml_send =
  tsd_DedupTTL :: "duration option"

record toml_forward =
  tfw_Targets :: "string option"

record toml_auth =
  tau_Username :: "string option"
  tau_Password :: "string option"
  tau_SessionTTL :: "duration option"
  tau_CookieName :: "string option"

record toml_request_log =
  trq_Enabled :: "bool option"

record toml_compression =
  tcm_Enabled :: "bool option"
  tcm_MinimumSize :: "int option"

record toml_storage =
  tsg_SQLitePath :: "string option"
  tsg_PurgeInterval :: "duration option"
  tsg_ReceiveLogRetention :: "duration option"
  tsg_PublicChatRetention :: "duration option"
  tsg_NodesRetention :: "duration option"
  tsg_TelemetryRetention :: "duration option"

record toml_file =
  tf_HTTPAddr :: "string option"
  tf_TransportMode :: "string option"
  tf_UDPListenAddr :: "string option"
  tf_NodeAddr :: "string option"
  tf_MyCall :: "string option"
  tf_DataDir :: "string option"
  tf_MaxMessageLength :: "int option"
  tf_DemoMode :: "bool option"
  tf_LogLevel :: "string option"
  tf_ReceiveLog :: "toml_receive_log option"
  tf_Stats :: "toml_stats option"
  tf_ChatLog :: "toml_chat_log option"
  tf_Send :: "toml_send option"
  tf_Forward :: "toml_forward option"
  tf_Auth :: "toml_auth option"
  tf_RequestLog :: "toml_request_log option"
  tf_Compression :: "toml_compression option"
  tf_Storage :: "toml_storage option"
  tf_Serial :: "toml_serial option"
  tf_NetConsole :: "toml_netconsole option"

section \<open>Merging\<close>

text \<open>env says which variables are set; a value of the file counts unless its variable is.\<close>

definition pick :: "bool \<Rightarrow> 'a option \<Rightarrow> 'a \<Rightarrow> 'a" where
  "pick overridden v old = (case v of None \<Rightarrow> old | Some x \<Rightarrow> if overridden then old else x)"

definition merge_section :: "('t \<Rightarrow> 'c \<Rightarrow> 'c) \<Rightarrow> 't option \<Rightarrow> 'c \<Rightarrow> 'c" where
  "merge_section merge t c = (case t of None \<Rightarrow> c | Some s \<Rightarrow> merge s c)"

definition mergeSerialToml :: "(string \<Rightarrow> bool) \<Rightarrow> toml_serial \<Rightarrow> serial_cfg \<Rightarrow> serial_cfg" where
  "mergeSerialToml env t c = c\<lparr>
     sr_Device := pick (env ''SERIAL_DEVICE'') (tsr_Device t) (sr_Device c),
     sr_Baud := pick (env ''SERIAL_BAUD'') (tsr_Baud t) (sr_Baud c),
     sr_DataBits := pick (env ''SERIAL_DATA_BITS'') (tsr_DataBits t) (sr_DataBits c),
     sr_Parity := pick (env ''SERIAL_PARITY'') (tsr_Parity t) (sr_Parity c),
     sr_StopBits := pick (env ''SERIAL_STOP_BITS'') (tsr_StopBits t) (sr_StopBits c),
     sr_FlowControl := pick (env ''SERIAL_FLOW_CONTROL'') (tsr_FlowControl t) (sr_FlowControl c),
     sr_DTR := pick (env ''SERIAL_DTR'') (tsr_DTR t) (sr_DTR c),
     sr_RTS := pick (env ''SERIAL_RTS'') (tsr_RTS t) (sr_RTS c),
     sr_ReadTimeout := pick (env ''SERIAL_READ_TIMEOUT'') (tsr_ReadTimeout t) (sr_ReadTimeout c),
     sr_ReconnectInitial := pick (env ''SERIAL_RECONNECT_INITIAL'') (tsr_ReconnectInitial t) (sr_ReconnectInitial c),
     sr_ReconnectMax := pick (env ''SERIAL_RECONNECT_MAX'') (tsr_ReconnectMax t) (sr_ReconnectMax c),
     sr_StableResetAfter := pick (env ''SERIAL_STABLE_RESET_AFTER'') (tsr_StableResetAfter t) (sr_StableResetAfter c),
     sr_MaxRecordBytes := pick (env ''SERIAL_MAX_RECORD_BYTES'') (tsr_MaxRecordBytes t) (sr_MaxRecordBytes c)\<rparr>"

definition mergeNetConsoleToml :: "(string \<Rightarrow> bool) \<Rightarrow> toml_netconsole \<Rightarrow> netconsole_cfg \<Rightarrow> netconsole_cfg" where
  "mergeNetConsoleToml env t c = c\<lparr>
     nc_Address := pick (env ''NETCONSOLE_ADDRESS'') (tnc_Address t) (nc_Address c),
     nc_Password := pick (env ''NETCONSOLE_PASSWORD'') (tnc_Password t) (nc_Password c),
     nc_ConnectTimeout := pick (env ''NETCONSOLE_CONNECT_TIMEOUT'') (tnc_ConnectTimeout t) (nc_ConnectTimeout c),
     nc_AuthTimeout := pick (env ''NETCONSOLE_AUTH_TIMEOUT'') (tnc_AuthTimeout t) (nc_AuthTimeout c),
     nc_WriteTimeout := pick (env ''NETCONSOLE_WRITE_TIMEOUT'') (tnc_WriteTimeout t) (nc_WriteTimeout c),
     nc_ReconnectInitial := pick (env ''NETCONSOLE_RECONNECT_INITIAL'') (tnc_ReconnectInitial t) (nc_ReconnectInitial c),
     nc_ReconnectMax := pick (env ''NETCONSOLE_RECONNECT_MAX'') (tnc_ReconnectMax t) (nc_ReconnectMax c),
     nc_StableResetAfter := pick (env ''NETCONSOLE_STABLE_RESET_AFTER'') (tnc_StableResetAfter t) (nc_StableResetAfter c),
     nc_MaxAuthLineBytes := pick (env ''NETCONSOLE_MAX_AUTH_LINE_BYTES'') (tnc_MaxAuthLineBytes t) (nc_MaxAuthLineBytes c),
     nc_MaxRecordBytes := pick (env ''NETCONSOLE_MAX_RECORD_BYTES'') (tnc_MaxRecordBytes t) (nc_MaxRecordBytes c)\<rparr>"

definition merge_receive_log :: "(string \<Rightarrow> bool) \<Rightarrow> toml_receive_log \<Rightarrow> receive_log_cfg \<Rightarrow> receive_log_cfg" where
  "merge_receive_log env t c = c\<lparr>
     rv_Enabled := pick (env ''RECEIVE_LOG_ENABLED'') (trv_Enabled t) (rv_Enabled c),
     rv_ReplayWindow := pick (env ''RECEIVE_LOG_REPLAY_WINDOW'') (trv_ReplayWindow t) (rv_ReplayWindow c)\<rparr>"

definition merge_stats :: "(string \<Rightarrow> bool) \<Rightarrow> toml_stats \<Rightarrow> stats_cfg \<Rightarrow> stats_cfg" where
  "merge_stats env t c = c\<lparr>
     sa_Enabled := pick (env ''STATS_ENABLED'') (tsa_Enabled t) (sa_Enabled c),
     sa_RetentionDays := pick (env ''STATS_RETENTION_DAYS'') (tsa_RetentionDays t) (sa_RetentionDays c)\<rparr>"

definition merge_chat_log :: "(string \<Rightarrow> bool) \<Rightarrow> toml_chat_log \<Rightarrow> chat_log_cfg \<Rightarrow> chat_log_cfg" where
  "merge_chat_log env t c = c\<lparr>
     cl_HistoryWindow := pick (env ''CHAT_LOG_HISTORY_WINDOW'') (tcl_HistoryWindow t) (cl_HistoryWindow c),
     cl_MaxHistoryWindow := pick (env ''CHAT_LOG_MAX_HISTORY_WINDOW'') (tcl_MaxHistoryWindow t) (cl_MaxHistoryWindow c)\<rparr>"

definition merge_send :: "(string \<Rightarrow> bool) \<Rightarrow> toml_send \<Rightarrow> send_cfg \<Rightarrow> send_cfg" where
  "merge_send env t c = c\<lparr>
     sd_DedupTTL := pick (env ''SEND_DEDUP_TTL'') (tsd_DedupTTL t) (sd_DedupTTL c)\<rparr>"

definition merge_forward :: "(string \<Rightarrow> bool) \<Rightarrow> toml_forward \<Rightarrow> forward_cfg \<Rightarrow> forward_cfg" where
  "merge_forward env t c = c\<lparr>
     fw_Targets := pick (env ''FORWARD_TARGETS'') (tfw_Targets t) (fw_Targets c)\<rparr>"

definition merge_auth :: "(string \<Rightarrow> bool) \<Rightarrow> toml_auth \<Rightarrow> auth_cfg \<Rightarrow> auth_cfg" where
  "merge_auth env t c = c\<lparr>
     au_Username := pick (env ''AUTH_USERNAME'') (tau_Username t) (au_Username c),
     au_Password := pick (env ''AUTH_PASSWORD'') (tau_Password t) (au_Password c),
     au_SessionTTL := pick (env ''AUTH_SESSION_TTL'') (tau_SessionTTL t) (au_SessionTTL c),
     au_CookieName := pick (env ''AUTH_COOKIE_NAME'') (tau_CookieName t) (au_CookieName c)\<rparr>"

definition merge_request_log :: "(string \<Rightarrow> bool) \<Rightarrow> toml_request_log \<Rightarrow> request_log_cfg \<Rightarrow> request_log_cfg" where
  "merge_request_log env t c = c\<lparr>
     rq_Enabled := pick (env ''REQUEST_LOG_ENABLED'') (trq_Enabled t) (rq_Enabled c)\<rparr>"

definition merge_compression :: "(string \<Rightarrow> bool) \<Rightarrow> toml_compression \<Rightarrow> compression_cfg \<Rightarrow> compression_cfg" where
  "merge_compression env t c = c\<lparr>
     cm_Enabled := pick (env ''COMPRESSION_ENABLED'') (tcm_Enabled t) (cm_Enabled c),
     cm_MinimumSize := pick (env ''COMPRESSION_MINIMUM_SIZE'') (tcm_MinimumSize t) (cm_MinimumSize c)\<rparr>"

definition merge_storage :: "(string \<Rightarrow> bool) \<Rightarrow> toml_storage \<Rightarrow> storage_cfg \<Rightarrow> storage_cfg" where
  "merge_storage env t c = c\<lparr>
     sg_SQLitePath := pick (env ''STORAGE_SQLITE_PATH'') (tsg_SQLitePath t) (sg_SQLitePath c),
     sg_PurgeInterval := pick (env ''STORAGE_PURGE_INTERVAL'') (tsg_PurgeInterval t) (sg_PurgeInterval c),
     sg_ReceiveLogRetention := pick (env ''STORAGE_RECEIVE_LOG_RETENTION'') (tsg_ReceiveLogRetention t) (sg_ReceiveLogRetention c),
     sg_PublicChatRetention := pick (env ''STORAGE_PUBLIC_CHAT_RETENTION'') (tsg_PublicChatRetention t) (sg_PublicChatRetention c),
     sg_NodesRetention := pick (env ''STORAGE_NODES_RETENTION'') (tsg_NodesRetention t) (sg_NodesRetention c),
     sg_TelemetryRetention := pick (env ''STORAGE_TELEMETRY_RETENTION'') (tsg_TelemetryRetention t) (sg_TelemetryRetention c)\<rparr>"

definition mergeToml :: "config \<Rightarrow> toml_file option \<Rightarrow> (string \<Rightarrow> bool) \<Rightarrow> config" where
  "mergeToml cfg tf env =
     (case tf of None \<Rightarrow> cfg
      | Some t \<Rightarrow> cfg\<lparr>
     cf_HTTPAddr := pick (env ''HTTP_ADDR'') (tf_HTTPAddr t) (cf_HTTPAddr cfg),
     cf_TransportMode := pick (env ''TRANSPORT_MODE'') (tf_TransportMode t) (cf_TransportMode cfg),
     cf_UDPListenAddr := pick (env ''UDP_LISTEN_ADDR'') (tf_UDPListenAddr t) (cf_UDPListenAddr cfg),
     cf_NodeAddr := pick (env ''NODE_ADDR'') (tf_NodeAddr t) (cf_NodeAddr cfg),
     cf_MyCall := pick (env ''MY_CALL'') (tf_MyCall t) (cf_MyCall cfg),
     cf_MaxMessageLength := pick (env ''MAX_MESSAGE_LENGTH'') (tf_MaxMessageLength t) (cf_MaxMessageLength cfg),
     cf_DemoMode := pick (env ''DEMO_MODE'') (tf_DemoMode t) (cf_DemoMode cfg),
     cf_LogLevel := pick (env ''LOG_LEVEL'') (tf_LogLevel t) (cf_LogLevel cfg),
     cf_ReceiveLog := merge_section (merge_receive_log env) (tf_ReceiveLog t) (cf_ReceiveLog cfg),
     cf_Stats := merge_section (merge_stats env) (tf_Stats t) (cf_Stats cfg),
     cf_ChatLog := merge_section (merge_chat_log env) (tf_ChatLog t) (cf_ChatLog cfg),
     cf_Send := merge_section (merge_send env) (tf_Send t) (cf_Send cfg),
     cf_Forward := merge_section (merge_forward env) (tf_Forward t) (cf_Forward cfg),
     cf_Auth := merge_section (merge_auth env) (tf_Auth t) (cf_Auth cfg),
     cf_RequestLog := merge_section (merge_request_log env) (tf_RequestLog t) (cf_RequestLog cfg),
     cf_Compression := merge_section (merge_compression env) (tf_Compression t) (cf_Compression cfg),
     cf_Storage := merge_section (merge_storage env) (tf_Storage t) (cf_Storage cfg),
     cf_Serial := merge_section (mergeSerialToml env) (tf_Serial t) (cf_Serial cfg),
     cf_NetConsole := merge_section (mergeNetConsoleToml env) (tf_NetConsole t) (cf_NetConsole cfg)\<rparr>)"

section \<open>Normal form (config.go)\<close>

definition normalizeStorage :: "storage_cfg \<Rightarrow> storage_cfg" where
  "normalizeStorage s =
     (if sg_PurgeInterval s \<noteq> 0 \<or> sg_ReceiveLogRetention s \<noteq> 0 \<or> sg_PublicChatRetention s \<noteq> 0
         \<or> sg_NodesRetention s \<noteq> 0 then s
      else s\<lparr>sg_PurgeInterval := 4 * hour, sg_ReceiveLogRetention := 30 * 24 * hour,
             sg_PublicChatRetention := 30 * 24 * hour, sg_NodesRetention := 7 * 24 * hour\<rparr>)"

definition normalize_config :: "config \<Rightarrow> config" where
  "normalize_config cfg = cfg\<lparr>
     cf_TransportMode := (let m = to_lower (trim_space (cf_TransportMode cfg)) in if m = [] then ''udp'' else m),
     cf_MyCall := normalize (cf_MyCall cfg),
     cf_Serial := (cf_Serial cfg)\<lparr>
       sr_Device := trim_space (sr_Device (cf_Serial cfg)),
       sr_Parity := to_lower (trim_space (sr_Parity (cf_Serial cfg))),
       sr_FlowControl := to_lower (trim_space (sr_FlowControl (cf_Serial cfg)))\<rparr>,
     cf_NetConsole := (cf_NetConsole cfg)\<lparr>nc_Address := trim_space (nc_Address (cf_NetConsole cfg))\<rparr>,
     cf_Storage := normalizeStorage (cf_Storage cfg)\<rparr>"

section \<open>Validation (config.go)\<close>

record net_lib =
  nl_tcp :: "string \<Rightarrow> string option"
  nl_udp :: "string \<Rightarrow> string option"

text \<open>The first check that fails, in order.\<close>

fun first_error :: "(bool \<times> string) list \<Rightarrow> string option" where
  "first_error [] = None"
| "first_error ((bad, err) # checks) = (if bad then Some err else first_error checks)"

text \<open>net.SplitHostPort; the address in its error texts is left out.\<close>

definition SplitHostPort :: "string \<Rightarrow> string + string \<times> string" where
  "SplitHostPort hostport =
     (case last_index_of CHR '':'' hostport of
        None \<Rightarrow> Inl ''missing port in address''
      | Some i \<Rightarrow>
          let port = drop (i + 1) hostport in
          if hd hostport = CHR ''['' then
            (case index_of CHR '']'' hostport of
               None \<Rightarrow> Inl ''missing ']' in address''
             | Some e \<Rightarrow>
                 if e + 1 = length hostport then Inl ''missing port in address''
                 else if e + 1 \<noteq> i then
                   Inl (if hostport ! (e + 1) = CHR '':'' then ''too many colons in address'' else ''missing port in address'')
                 else if CHR ''['' \<in> set (drop 1 hostport) then Inl ''unexpected '[' in address''
                 else if CHR '']'' \<in> set (drop (e + 1) hostport) then Inl ''unexpected ']' in address''
                 else Inr (take (e - 1) (drop 1 hostport), port))
          else
            let host = take i hostport in
            if CHR '':'' \<in> set host then Inl ''too many colons in address''
            else if CHR ''['' \<in> set hostport then Inl ''unexpected '[' in address''
            else if CHR '']'' \<in> set hostport then Inl ''unexpected ']' in address''
            else Inr (host, port))"

definition validateUDPTransport :: "net_lib \<Rightarrow> config \<Rightarrow> string option" where
  "validateUDPTransport nl cfg =
     (case nl_udp nl (cf_UDPListenAddr cfg) of
        Some e \<Rightarrow> Some (''udp listen addr: '' @ e)
      | None \<Rightarrow>
          if cf_NodeAddr cfg \<noteq> [] then
            (case nl_udp nl (cf_NodeAddr cfg) of Some e \<Rightarrow> Some (''node addr: '' @ e) | None \<Rightarrow> None)
          else None)"

definition validateSerialTransport :: "serial_cfg \<Rightarrow> string option" where
  "validateSerialTransport s = first_error
     [(sr_Device s = [], ''serial device is required''),
      (sr_Baud s \<le> 0, ''serial baud must be greater than zero''),
      (sr_DataBits s \<notin> {5, 6, 7, 8}, ''serial data bits must be 5, 6, 7, or 8''),
      (sr_Parity s \<notin> {''none'', ''odd'', ''even'', ''mark'', ''space''},
       ''serial parity must be none, odd, even, mark, or space''),
      (sr_StopBits s \<notin> {1, 2}, ''serial stop bits must be 1 or 2''),
      (sr_FlowControl s \<noteq> ''none'', ''serial flow control must be none''),
      (sr_ReadTimeout s \<le> 0, ''serial read timeout must be greater than zero''),
      (sr_ReconnectInitial s \<le> 0, ''serial reconnect initial delay must be greater than zero''),
      (sr_ReconnectMax s \<le> 0, ''serial reconnect maximum delay must be greater than zero''),
      (sr_ReconnectInitial s > sr_ReconnectMax s, ''serial reconnect initial delay must not exceed maximum delay''),
      (sr_StableResetAfter s \<le> 0, ''serial stable reset duration must be greater than zero''),
      (sr_MaxRecordBytes s \<le> 0 \<or> sr_MaxRecordBytes s > 1048576,
       ''serial maximum record size must be between 1 and 1048576 bytes'')]"

definition netconsole_checks :: "netconsole_cfg \<Rightarrow> (bool \<times> string) list" where
  "netconsole_checks n =
     [(length (nc_Password n) > 14, ''netconsole password must not exceed 14 bytes''),
      (\<exists>c \<in> set (nc_Password n). byte c \<in> {0, 13, 10}, ''netconsole password contains a forbidden control byte''),
      (nc_ConnectTimeout n \<le> 0, ''netconsole connect timeout must be greater than zero''),
      (nc_AuthTimeout n \<le> 0, ''netconsole authentication timeout must be greater than zero''),
      (nc_WriteTimeout n \<le> 0, ''netconsole write timeout must be greater than zero''),
      (nc_ReconnectInitial n \<le> 0, ''netconsole reconnect initial delay must be greater than zero''),
      (nc_ReconnectMax n \<le> 0, ''netconsole reconnect maximum delay must be greater than zero''),
      (nc_ReconnectInitial n > nc_ReconnectMax n, ''netconsole reconnect initial delay must not exceed maximum delay''),
      (nc_StableResetAfter n \<le> 0, ''netconsole stable reset duration must be greater than zero''),
      (nc_MaxAuthLineBytes n < 72 \<or> nc_MaxAuthLineBytes n > 4096,
       ''netconsole maximum authentication line size must be between 72 and 4096 bytes''),
      (nc_MaxRecordBytes n \<le> 0 \<or> nc_MaxRecordBytes n > 1048576,
       ''netconsole maximum record size must be between 1 and 1048576 bytes'')]"

definition validateNetConsoleTransport :: "netconsole_cfg \<Rightarrow> string option" where
  "validateNetConsoleTransport n =
     (case SplitHostPort (nc_Address n) of
        Inl e \<Rightarrow> Some (''netconsole address: '' @ e)
      | Inr (host, portValue) \<Rightarrow>
          if host = [] then Some ''netconsole address host is required''
          else (case atoi portValue of
                  None \<Rightarrow> Some ''netconsole address port must be between 1 and 65535''
                | Some port \<Rightarrow>
                    if port < 1 \<or> port > 65535 then Some ''netconsole address port must be between 1 and 65535''
                    else first_error (netconsole_checks n)))"

text \<open>ParseForwardTargets: the first target that does not resolve is the error.\<close>

fun forward_targets :: "net_lib \<Rightarrow> string list \<Rightarrow> string list \<Rightarrow> string + string list" where
  "forward_targets nl seen [] = Inr (rev seen)"
| "forward_targets nl seen (raw # rest) =
     (let t = trim_space raw in
      if t = [] \<or> t \<in> set seen then forward_targets nl seen rest
      else (case nl_udp nl t of
              Some e \<Rightarrow> Inl (CHR 0x22 # t @ [CHR 0x22] @ '': '' @ e)
            | None \<Rightarrow> forward_targets nl (t # seen) rest))"

definition ParseForwardTargets :: "net_lib \<Rightarrow> string \<Rightarrow> string + string list" where
  "ParseForwardTargets nl csv = forward_targets nl [] (split_on CHR '','' csv)"

definition validateTransport :: "net_lib \<Rightarrow> config \<Rightarrow> string option" where
  "validateTransport nl cfg =
     (if cf_TransportMode cfg = ''udp'' then validateUDPTransport nl cfg
      else if cf_TransportMode cfg = ''serial'' then validateSerialTransport (cf_Serial cfg)
      else if cf_TransportMode cfg = ''netconsole'' then validateNetConsoleTransport (cf_NetConsole cfg)
      else Some ''transport mode must be udp, serial, or netconsole'')"

definition general_checks :: "config \<Rightarrow> (bool \<times> string) list" where
  "general_checks cfg =
     [(cf_MaxMessageLength cfg \<le> 0, ''max message length must be greater than zero''),
      (cf_DataDir cfg = [], ''data dir is required''),
      (\<not> is_valid (cf_MyCall cfg),
       ''my call must be 3-10 alphanumeric characters with an optional numeric SSID (e.g. IU5PMP-1)''),
      (rv_Enabled (cf_ReceiveLog cfg) \<and> rv_ReplayWindow (cf_ReceiveLog cfg) < 0,
       ''receive log replay window must not be negative''),
      (cl_HistoryWindow (cf_ChatLog cfg) \<le> 0, ''chat log history window must be greater than zero''),
      (cl_MaxHistoryWindow (cf_ChatLog cfg) < cl_HistoryWindow (cf_ChatLog cfg),
       ''chat log max history window must be >= history window''),
      (sd_DedupTTL (cf_Send cfg) < 0, ''send dedup TTL must not be negative'')]"

definition auth_checks :: "config \<Rightarrow> (bool \<times> string) list" where
  "auth_checks cfg =
     (let a = cf_Auth cfg; authEnabled = (au_Username a \<noteq> [] \<or> au_Password a \<noteq> []) in
     [(authEnabled \<and> (au_Username a = [] \<or> au_Password a = []), ''auth username and password must be set together''),
      (authEnabled \<and> au_SessionTTL a \<le> 0, ''auth session TTL must be greater than zero''),
      (authEnabled \<and> au_CookieName a = [], ''auth cookie name is required'')])"

definition storage_checks :: "config \<Rightarrow> (bool \<times> string) list" where
  "storage_checks cfg =
     (let s = cf_Storage cfg in
     [(cf_LogLevel cfg \<notin> {''debug'', ''info'', ''warn'', ''error''}, ''log level must be debug, info, warn, or error''),
      (sg_SQLitePath s = [], ''storage sqlite path is required''),
      (sg_PurgeInterval s \<le> 0, ''storage purge interval must be greater than zero''),
      (sg_ReceiveLogRetention s < 0, ''storage receive log retention must not be negative''),
      (sg_PublicChatRetention s < 0, ''storage public chat retention must not be negative''),
      (sg_NodesRetention s < 0, ''storage nodes retention must not be negative''),
      (sg_TelemetryRetention s < 0, ''storage telemetry retention must not be negative'')])"

definition Validate :: "net_lib \<Rightarrow> config \<Rightarrow> string option" where
  "Validate nl cfg0 =
     (let cfg = normalize_config cfg0 in
      case nl_tcp nl (cf_HTTPAddr cfg) of
        Some e \<Rightarrow> Some (''http addr: '' @ e)
      | None \<Rightarrow>
        (case validateTransport nl cfg of Some e \<Rightarrow> Some e
         | None \<Rightarrow>
          (case first_error (general_checks cfg) of Some e \<Rightarrow> Some e
           | None \<Rightarrow>
            (case (if fw_Targets (cf_Forward cfg) \<noteq> [] then ParseForwardTargets nl (fw_Targets (cf_Forward cfg)) else Inr []) of
               Inl e \<Rightarrow> Some (''forward targets: '' @ e)
             | Inr _ \<Rightarrow> first_error (auth_checks cfg @ storage_checks cfg)))))"

end
