(* ===== verification/ConfigFile.thy ===== *)
theory ConfigFile
  imports Config Utf8
begin

text \<open>
  internal/config/toml.go and Load of config.go: the configuration file as it is written, as it is
  read back, and what a restart makes of it. The file is written as text by this code and parsed by
  go-toml, which is the parameter read: toml.Unmarshal into tomlFile, giving an error text or the
  decoded file. What is used of it is reads_document: the text of a document all of whose strings are
  plain (valid UTF-8, no control byte but tab, which TOML forbids inside a basic string) is decoded to
  the values of that document, durations through UnmarshalText.
\<close>

section \<open>Documents\<close>

datatype toml_value = TStr string | TInt int | TBool bool

text \<open>A line is its comment, its key and its value; a document has top lines and named sections.\<close>

type_synonym toml_line = "string \<times> string \<times> toml_value"
type_synonym toml_document = "toml_line list \<times> (string \<times> toml_line list) list"

definition em_dash :: string where
  "em_dash = bytes_of [226, 128, 148]"

text \<open>strings.ReplaceAll of a single byte.\<close>

definition replace_char :: "char \<Rightarrow> string \<Rightarrow> string \<Rightarrow> string" where
  "replace_char c r s = concat (map (\<lambda>x. if x = c then r else [x]) s)"

definition tomlStr :: "string \<Rightarrow> string" where
  "tomlStr s = CHR 0x22 #
     replace_char (CHR 0x22) [CHR 0x5C, CHR 0x22] (replace_char (CHR 0x5C) [CHR 0x5C, CHR 0x5C] s) @ [CHR 0x22]"

definition tomlInt :: "int \<Rightarrow> string" where
  "tomlInt n = itoa_int n"

definition tomlBool :: "bool \<Rightarrow> string" where
  "tomlBool b = (if b then ''true'' else ''false'')"

fun toml_value_text :: "toml_value \<Rightarrow> string" where
  "toml_value_text (TStr s) = tomlStr s"
| "toml_value_text (TInt n) = tomlInt n"
| "toml_value_text (TBool b) = tomlBool b"

text \<open>The closure w of buildTomlContent.\<close>

fun line_text :: "toml_line \<Rightarrow> string" where
  "line_text (comment, key, v) =
     ''# '' @ comment @ [CHR 0x0A] @ key @ '' = '' @ toml_value_text v @ [CHR 0x0A]"

fun section_text :: "string \<times> toml_line list \<Rightarrow> string" where
  "section_text (name, ls) = CHR 0x0A # CHR ''['' # name @ '']'' @ [CHR 0x0A] @ concat (map line_text ls)"

definition render :: "toml_document \<Rightarrow> string" where
  "render doc =
     ''# gomeshcomd configuration file'' @ [CHR 0x0A] @
     ''# Restart required unless stated otherwise.'' @ [CHR 0x0A] @
     ''# Set GOMESHCOM_* env vars to override any field; env vars always win.'' @ [CHR 0x0A, CHR 0x0A] @
     concat (map line_text (fst doc)) @ concat (map section_text (snd doc)) @ [CHR 0x0A]"

section \<open>Writing\<close>

definition top_lines :: "config \<Rightarrow> toml_line list" where
  "top_lines cfg =
    [(''HTTP listen address'', ''http_addr'', TStr (cf_HTTPAddr cfg)),
     (''Node transport: udp, serial, or netconsole'', ''transport_mode'', TStr (cf_TransportMode cfg)),
     (''MeshCom UDP listen address'', ''udp_listen_addr'', TStr (cf_UDPListenAddr cfg)),
     (''MeshCom node UDP address; empty = auto-detect from first incoming packet'', ''node_addr'', TStr (cf_NodeAddr cfg)),
     (''Local callsign (live-apply '' @ em_dash @ '' no restart needed)'', ''my_call'', TStr (cf_MyCall cfg)),
     (''Root data directory (ignored when set here '' @ em_dash @ '' use GOMESHCOM_DATA_DIR env var)'', ''data_dir'', TStr (cf_DataDir cfg)),
     (''Max outgoing UTF-8 message length in bytes'', ''max_message_length'', TInt (cf_MaxMessageLength cfg)),
     (''Demo mode: disables TX and locks the config API (restart required)'', ''demo_mode'', TBool (cf_DemoMode cfg)),
     (''Log level: debug, info, warn, error (live-apply '' @ em_dash @ '' no restart needed)'', ''log_level'', TStr (cf_LogLevel cfg))]"

definition serial_lines :: "config \<Rightarrow> toml_line list" where
  "serial_lines cfg =
    [(''Explicit serial device path or COM port'', ''device'', TStr (sr_Device (cf_Serial cfg))),
     (''Serial baud rate'', ''baud'', TInt (sr_Baud (cf_Serial cfg))),
     (''Serial data bits'', ''data_bits'', TInt (sr_DataBits (cf_Serial cfg))),
     (''Serial parity: none, odd, even, mark, space'', ''parity'', TStr (sr_Parity (cf_Serial cfg))),
     (''Serial stop bits: 1 or 2'', ''stop_bits'', TInt (sr_StopBits (cf_Serial cfg))),
     (''Serial flow control; currently none'', ''flow_control'', TStr (sr_FlowControl (cf_Serial cfg))),
     (''DTR output state; false prevents ESP32/CP2102 reset'', ''dtr'', TBool (sr_DTR (cf_Serial cfg))),
     (''RTS output state; false prevents ESP32/CP2102 reset'', ''rts'', TBool (sr_RTS (cf_Serial cfg))),
     (''Finite serial read timeout'', ''read_timeout'', TStr (duration_text (sr_ReadTimeout (cf_Serial cfg)))),
     (''Initial serial reconnect delay'', ''reconnect_initial'', TStr (duration_text (sr_ReconnectInitial (cf_Serial cfg)))),
     (''Maximum serial reconnect delay'', ''reconnect_max'', TStr (duration_text (sr_ReconnectMax (cf_Serial cfg)))),
     (''Healthy session duration before reconnect backoff resets'', ''stable_reset_after'', TStr (duration_text (sr_StableResetAfter (cf_Serial cfg)))),
     (''Maximum serial console record size in bytes'', ''max_record_bytes'', TInt (sr_MaxRecordBytes (cf_Serial cfg)))]"

definition netconsole_lines :: "config \<Rightarrow> toml_line list" where
  "netconsole_lines cfg =
    [(''MeshCom NETConsole TCP address including port'', ''address'', TStr (nc_Address (cf_NetConsole cfg))),
     (''NETConsole password; empty enables open access'', ''password'', TStr (nc_Password (cf_NetConsole cfg))),
     (''TCP connect timeout'', ''connect_timeout'', TStr (duration_text (nc_ConnectTimeout (cf_NetConsole cfg)))),
     (''Authentication exchange timeout'', ''auth_timeout'', TStr (duration_text (nc_AuthTimeout (cf_NetConsole cfg)))),
     (''Socket write timeout'', ''write_timeout'', TStr (duration_text (nc_WriteTimeout (cf_NetConsole cfg)))),
     (''Initial reconnect delay'', ''reconnect_initial'', TStr (duration_text (nc_ReconnectInitial (cf_NetConsole cfg)))),
     (''Maximum reconnect delay'', ''reconnect_max'', TStr (duration_text (nc_ReconnectMax (cf_NetConsole cfg)))),
     (''Healthy session duration before reconnect backoff resets'', ''stable_reset_after'', TStr (duration_text (nc_StableResetAfter (cf_NetConsole cfg)))),
     (''Maximum authentication line size in bytes'', ''max_auth_line_bytes'', TInt (nc_MaxAuthLineBytes (cf_NetConsole cfg))),
     (''Maximum console record size in bytes'', ''max_record_bytes'', TInt (nc_MaxRecordBytes (cf_NetConsole cfg)))]"

definition receive_log_lines :: "config \<Rightarrow> toml_line list" where
  "receive_log_lines cfg =
    [(''Enable received packet log'', ''enabled'', TBool (rv_Enabled (cf_ReceiveLog cfg))),
     (''Window of recent packets replayed on SSE connect'', ''replay_window'', TStr (duration_text (rv_ReplayWindow (cf_ReceiveLog cfg))))]"

definition stats_lines :: "config \<Rightarrow> toml_line list" where
  "stats_lines cfg =
    [(''Enable hourly packet statistics collection'', ''enabled'', TBool (sa_Enabled (cf_Stats cfg))),
     (''Days of hourly buckets to retain'', ''retention_days'', TInt (sa_RetentionDays (cf_Stats cfg)))]"

definition chat_log_lines :: "config \<Rightarrow> toml_line list" where
  "chat_log_lines cfg =
    [(''Default history window for GET /api/chat/{conversation} (live-apply)'', ''history_window'', TStr (duration_text (cl_HistoryWindow (cf_ChatLog cfg)))),
     (''Maximum history window allowed via ?hours= param (live-apply)'', ''max_history_window'', TStr (duration_text (cl_MaxHistoryWindow (cf_ChatLog cfg))))]"

definition send_lines :: "config \<Rightarrow> toml_line list" where
  "send_lines cfg =
    [(''LRU window for duplicate outgoing message suppression; 0s disables (live-apply)'', ''dedup_ttl'', TStr (duration_text (sd_DedupTTL (cf_Send cfg))))]"

definition forward_lines :: "config \<Rightarrow> toml_line list" where
  "forward_lines cfg =
    [(''Comma-separated host:port list; UDP datagrams or extracted serial JSON mirrored to each target'', ''targets'', TStr (fw_Targets (cf_Forward cfg)))]"

definition auth_lines :: "config \<Rightarrow> toml_line list" where
  "auth_lines cfg =
    [(''HTTP basic auth username (both username and password required to enable auth)'', ''username'', TStr (au_Username (cf_Auth cfg))),
     (''HTTP basic auth password (write-only '' @ em_dash @ '' set via GOMESHCOM_AUTH_PASSWORD or PUT /api/config)'', ''password'', TStr []),
     (''Session cookie TTL'', ''session_ttl'', TStr (duration_text (au_SessionTTL (cf_Auth cfg)))),
     (''Session cookie name'', ''cookie_name'', TStr (au_CookieName (cf_Auth cfg)))]"

definition request_log_lines :: "config \<Rightarrow> toml_line list" where
  "request_log_lines cfg =
    [(''Enable structured HTTP request logging (live-apply)'', ''enabled'', TBool (rq_Enabled (cf_RequestLog cfg)))]"

definition compression_lines :: "config \<Rightarrow> toml_line list" where
  "compression_lines cfg =
    [(''Enable HTTP gzip response compression (live-apply)'', ''enabled'', TBool (cm_Enabled (cf_Compression cfg))),
     (''Minimum response body size in bytes before gzip is applied'', ''minimum_size'', TInt (cm_MinimumSize (cf_Compression cfg)))]"

definition storage_lines :: "config \<Rightarrow> toml_line list" where
  "storage_lines cfg =
    [(''Path to SQLite database file'', ''sqlite_path'', TStr (sg_SQLitePath (cf_Storage cfg))),
     (''Interval between SQLite purge runs'', ''purge_interval'', TStr (formatTomlDuration (sg_PurgeInterval (cf_Storage cfg)))),
     (''Retention window for SQLite receive_log rows'', ''receive_log_retention'', TStr (formatTomlDuration (sg_ReceiveLogRetention (cf_Storage cfg)))),
     (''Retention window for SQLite public chat rows'', ''public_chat_retention'', TStr (formatTomlDuration (sg_PublicChatRetention (cf_Storage cfg)))),
     (''Retention window for SQLite node rows based on lastseen'', ''nodes_retention'', TStr (formatTomlDuration (sg_NodesRetention (cf_Storage cfg)))),
     (''Retention window for SQLite telemetry rows'', ''telemetry_retention'', TStr (formatTomlDuration (sg_TelemetryRetention (cf_Storage cfg))))]"

definition toml_doc :: "config \<Rightarrow> toml_document" where
  "toml_doc cfg =
     (top_lines cfg,
      [(''serial'', serial_lines cfg),
       (''netconsole'', netconsole_lines cfg),
       (''receive_log'', receive_log_lines cfg),
       (''stats'', stats_lines cfg),
       (''chat_log'', chat_log_lines cfg),
       (''send'', send_lines cfg),
       (''forward'', forward_lines cfg),
       (''auth'', auth_lines cfg),
       (''request_log'', request_log_lines cfg),
       (''compression'', compression_lines cfg),
       (''storage'', storage_lines cfg)])"

definition buildTomlContent :: "config \<Rightarrow> string" where
  "buildTomlContent cfg = render (toml_doc (normalize_config cfg))"

section \<open>Reading\<close>

fun value_at :: "string \<Rightarrow> toml_line list \<Rightarrow> toml_value option" where
  "value_at key [] = None"
| "value_at key ((comment, k, v) # ls) = (if k = key then Some v else value_at key ls)"

definition str_at :: "string \<Rightarrow> toml_line list \<Rightarrow> string option" where
  "str_at key ls = (case value_at key ls of Some (TStr s) \<Rightarrow> Some s | _ \<Rightarrow> None)"

definition int_at :: "string \<Rightarrow> toml_line list \<Rightarrow> int option" where
  "int_at key ls = (case value_at key ls of Some (TInt n) \<Rightarrow> Some n | _ \<Rightarrow> None)"

definition bool_at :: "string \<Rightarrow> toml_line list \<Rightarrow> bool option" where
  "bool_at key ls = (case value_at key ls of Some (TBool b) \<Rightarrow> Some b | _ \<Rightarrow> None)"

text \<open>A duration is a string read by UnmarshalText, that is by pd = ParseDuration.\<close>

definition dur_at :: "(string \<Rightarrow> duration option) \<Rightarrow> string \<Rightarrow> toml_line list \<Rightarrow> duration option" where
  "dur_at pd key ls = Option.bind (str_at key ls) pd"

definition decode_serial :: "(string \<Rightarrow> duration option) \<Rightarrow> toml_line list \<Rightarrow> toml_serial" where
  "decode_serial pd ls = \<lparr>tsr_Device = str_at ''device'' ls,
     tsr_Baud = int_at ''baud'' ls,
     tsr_DataBits = int_at ''data_bits'' ls,
     tsr_Parity = str_at ''parity'' ls,
     tsr_StopBits = int_at ''stop_bits'' ls,
     tsr_FlowControl = str_at ''flow_control'' ls,
     tsr_DTR = bool_at ''dtr'' ls,
     tsr_RTS = bool_at ''rts'' ls,
     tsr_ReadTimeout = dur_at pd ''read_timeout'' ls,
     tsr_ReconnectInitial = dur_at pd ''reconnect_initial'' ls,
     tsr_ReconnectMax = dur_at pd ''reconnect_max'' ls,
     tsr_StableResetAfter = dur_at pd ''stable_reset_after'' ls,
     tsr_MaxRecordBytes = int_at ''max_record_bytes'' ls\<rparr>"

definition decode_netconsole :: "(string \<Rightarrow> duration option) \<Rightarrow> toml_line list \<Rightarrow> toml_netconsole" where
  "decode_netconsole pd ls = \<lparr>tnc_Address = str_at ''address'' ls,
     tnc_Password = str_at ''password'' ls,
     tnc_ConnectTimeout = dur_at pd ''connect_timeout'' ls,
     tnc_AuthTimeout = dur_at pd ''auth_timeout'' ls,
     tnc_WriteTimeout = dur_at pd ''write_timeout'' ls,
     tnc_ReconnectInitial = dur_at pd ''reconnect_initial'' ls,
     tnc_ReconnectMax = dur_at pd ''reconnect_max'' ls,
     tnc_StableResetAfter = dur_at pd ''stable_reset_after'' ls,
     tnc_MaxAuthLineBytes = int_at ''max_auth_line_bytes'' ls,
     tnc_MaxRecordBytes = int_at ''max_record_bytes'' ls\<rparr>"

definition decode_receive_log :: "(string \<Rightarrow> duration option) \<Rightarrow> toml_line list \<Rightarrow> toml_receive_log" where
  "decode_receive_log pd ls = \<lparr>trv_Enabled = bool_at ''enabled'' ls,
     trv_ReplayWindow = dur_at pd ''replay_window'' ls\<rparr>"

definition decode_stats :: "(string \<Rightarrow> duration option) \<Rightarrow> toml_line list \<Rightarrow> toml_stats" where
  "decode_stats pd ls = \<lparr>tsa_Enabled = bool_at ''enabled'' ls,
     tsa_RetentionDays = int_at ''retention_days'' ls\<rparr>"

definition decode_chat_log :: "(string \<Rightarrow> duration option) \<Rightarrow> toml_line list \<Rightarrow> toml_chat_log" where
  "decode_chat_log pd ls = \<lparr>tcl_HistoryWindow = dur_at pd ''history_window'' ls,
     tcl_MaxHistoryWindow = dur_at pd ''max_history_window'' ls\<rparr>"

definition decode_send :: "(string \<Rightarrow> duration option) \<Rightarrow> toml_line list \<Rightarrow> toml_send" where
  "decode_send pd ls = \<lparr>tsd_DedupTTL = dur_at pd ''dedup_ttl'' ls\<rparr>"

definition decode_forward :: "(string \<Rightarrow> duration option) \<Rightarrow> toml_line list \<Rightarrow> toml_forward" where
  "decode_forward pd ls = \<lparr>tfw_Targets = str_at ''targets'' ls\<rparr>"

definition decode_auth :: "(string \<Rightarrow> duration option) \<Rightarrow> toml_line list \<Rightarrow> toml_auth" where
  "decode_auth pd ls = \<lparr>tau_Username = str_at ''username'' ls,
     tau_Password = str_at ''password'' ls,
     tau_SessionTTL = dur_at pd ''session_ttl'' ls,
     tau_CookieName = str_at ''cookie_name'' ls\<rparr>"

definition decode_request_log :: "(string \<Rightarrow> duration option) \<Rightarrow> toml_line list \<Rightarrow> toml_request_log" where
  "decode_request_log pd ls = \<lparr>trq_Enabled = bool_at ''enabled'' ls\<rparr>"

definition decode_compression :: "(string \<Rightarrow> duration option) \<Rightarrow> toml_line list \<Rightarrow> toml_compression" where
  "decode_compression pd ls = \<lparr>tcm_Enabled = bool_at ''enabled'' ls,
     tcm_MinimumSize = int_at ''minimum_size'' ls\<rparr>"

definition decode_storage :: "(string \<Rightarrow> duration option) \<Rightarrow> toml_line list \<Rightarrow> toml_storage" where
  "decode_storage pd ls = \<lparr>tsg_SQLitePath = str_at ''sqlite_path'' ls,
     tsg_PurgeInterval = dur_at pd ''purge_interval'' ls,
     tsg_ReceiveLogRetention = dur_at pd ''receive_log_retention'' ls,
     tsg_PublicChatRetention = dur_at pd ''public_chat_retention'' ls,
     tsg_NodesRetention = dur_at pd ''nodes_retention'' ls,
     tsg_TelemetryRetention = dur_at pd ''telemetry_retention'' ls\<rparr>"

definition decode_file :: "(string \<Rightarrow> duration option) \<Rightarrow> toml_document \<Rightarrow> toml_file" where
  "decode_file pd doc = \<lparr>tf_HTTPAddr = str_at ''http_addr'' (fst doc),
     tf_TransportMode = str_at ''transport_mode'' (fst doc),
     tf_UDPListenAddr = str_at ''udp_listen_addr'' (fst doc),
     tf_NodeAddr = str_at ''node_addr'' (fst doc),
     tf_MyCall = str_at ''my_call'' (fst doc),
     tf_DataDir = str_at ''data_dir'' (fst doc),
     tf_MaxMessageLength = int_at ''max_message_length'' (fst doc),
     tf_DemoMode = bool_at ''demo_mode'' (fst doc),
     tf_LogLevel = str_at ''log_level'' (fst doc),
     tf_ReceiveLog = map_option (decode_receive_log pd) (map_of (snd doc) ''receive_log''),
     tf_Stats = map_option (decode_stats pd) (map_of (snd doc) ''stats''),
     tf_ChatLog = map_option (decode_chat_log pd) (map_of (snd doc) ''chat_log''),
     tf_Send = map_option (decode_send pd) (map_of (snd doc) ''send''),
     tf_Forward = map_option (decode_forward pd) (map_of (snd doc) ''forward''),
     tf_Auth = map_option (decode_auth pd) (map_of (snd doc) ''auth''),
     tf_RequestLog = map_option (decode_request_log pd) (map_of (snd doc) ''request_log''),
     tf_Compression = map_option (decode_compression pd) (map_of (snd doc) ''compression''),
     tf_Storage = map_option (decode_storage pd) (map_of (snd doc) ''storage''),
     tf_Serial = map_option (decode_serial pd) (map_of (snd doc) ''serial''),
     tf_NetConsole = map_option (decode_netconsole pd) (map_of (snd doc) ''netconsole'')\<rparr>"

definition toml_char :: "char \<Rightarrow> bool" where
  "toml_char c \<longleftrightarrow> byte c \<noteq> 127 \<and> (32 \<le> byte c \<or> byte c = 9)"

definition plain_string :: "string \<Rightarrow> bool" where
  "plain_string s \<longleftrightarrow> valid_utf8 s \<and> list_all toml_char s"

fun plain_value :: "toml_value \<Rightarrow> bool" where
  "plain_value (TStr s) \<longleftrightarrow> plain_string s"
| "plain_value (TInt n) \<longleftrightarrow> min_int64 \<le> n \<and> n \<le> max_int64"
| "plain_value (TBool b) \<longleftrightarrow> True"

definition plain_document :: "toml_document \<Rightarrow> bool" where
  "plain_document doc \<longleftrightarrow>
     (\<forall>l \<in> set (fst doc). plain_value (snd (snd l))) \<and> (\<forall>s \<in> set (snd doc). \<forall>l \<in> set (snd s). plain_value (snd (snd l)))"

definition reads_document :: "(string \<Rightarrow> string + toml_file) \<Rightarrow> (string \<Rightarrow> duration option) \<Rightarrow> toml_document \<Rightarrow> bool" where
  "reads_document read pd doc \<longleftrightarrow> (plain_document doc \<longrightarrow> read (render doc) = Inr (decode_file pd doc))"

section \<open>Loading\<close>

definition knownEnvSuffixes :: "string list" where
  "knownEnvSuffixes =
     [''HTTP_ADDR'', ''TRANSPORT_MODE'', ''UDP_LISTEN_ADDR'', ''NODE_ADDR'', ''MY_CALL'', ''DATA_DIR'',
      ''SEND_DELAY'', ''MAX_MESSAGE_LENGTH'', ''LOG_LEVEL'', ''RECEIVE_LOG_ENABLED'',
      ''RECEIVE_LOG_REPLAY_WINDOW'', ''STATS_ENABLED'', ''STATS_RETENTION_DAYS'', ''CHAT_LOG_HISTORY_WINDOW'',
      ''CHAT_LOG_MAX_HISTORY_WINDOW'', ''DEMO_MODE'', ''SEND_DEDUP_TTL'', ''FORWARD_TARGETS'',
      ''AUTH_USERNAME'', ''AUTH_PASSWORD'', ''AUTH_SESSION_TTL'', ''AUTH_COOKIE_NAME'',
      ''REQUEST_LOG_ENABLED'', ''COMPRESSION_ENABLED'', ''COMPRESSION_MINIMUM_SIZE'', ''STORAGE_SQLITE_PATH'',
      ''STORAGE_PURGE_INTERVAL'', ''STORAGE_RECEIVE_LOG_RETENTION'', ''STORAGE_PUBLIC_CHAT_RETENTION'',
      ''STORAGE_NODES_RETENTION'', ''STORAGE_TELEMETRY_RETENTION'', ''SERIAL_DEVICE'', ''SERIAL_BAUD'',
      ''SERIAL_DATA_BITS'', ''SERIAL_PARITY'', ''SERIAL_STOP_BITS'', ''SERIAL_FLOW_CONTROL'', ''SERIAL_DTR'',
      ''SERIAL_RTS'', ''SERIAL_READ_TIMEOUT'', ''SERIAL_RECONNECT_INITIAL'', ''SERIAL_RECONNECT_MAX'',
      ''SERIAL_STABLE_RESET_AFTER'', ''SERIAL_MAX_RECORD_BYTES'', ''NETCONSOLE_ADDRESS'',
      ''NETCONSOLE_PASSWORD'', ''NETCONSOLE_CONNECT_TIMEOUT'', ''NETCONSOLE_AUTH_TIMEOUT'',
      ''NETCONSOLE_WRITE_TIMEOUT'', ''NETCONSOLE_RECONNECT_INITIAL'', ''NETCONSOLE_RECONNECT_MAX'',
      ''NETCONSOLE_STABLE_RESET_AFTER'', ''NETCONSOLE_MAX_AUTH_LINE_BYTES'', ''NETCONSOLE_MAX_RECORD_BYTES'']"

text \<open>environ says which variables the process has.\<close>

definition DetectEnvOverrides :: "(string \<Rightarrow> bool) \<Rightarrow> string \<Rightarrow> bool" where
  "DetectEnvOverrides environ v \<longleftrightarrow> v \<in> set knownEnvSuffixes \<and> environ (''GOMESHCOM_'' @ v)"

definition builtInDefaultConfig :: config where
  "builtInDefaultConfig = \<lparr>
     cf_HTTPAddr = ''127.0.0.1:8080'',
     cf_TransportMode = ''udp'',
     cf_UDPListenAddr = ''0.0.0.0:1799'',
     cf_NodeAddr = [],
     cf_MyCall = ''QQ0XX-1'',
     cf_DataDir = ''./data'',
     cf_MaxMessageLength = 149,
     cf_DemoMode = False,
     cf_LogLevel = ''info'',
     cf_ReceiveLog = \<lparr>rv_Enabled = True, rv_ReplayWindow = hour\<rparr>,
     cf_Stats = \<lparr>sa_Enabled = True, sa_RetentionDays = 30\<rparr>,
     cf_ChatLog = \<lparr>cl_HistoryWindow = 24 * hour, cl_MaxHistoryWindow = 720 * hour\<rparr>,
     cf_Send = \<lparr>sd_DedupTTL = 2 * second\<rparr>,
     cf_Forward = \<lparr>fw_Targets = []\<rparr>,
     cf_Auth = \<lparr>au_Username = [], au_Password = [], au_SessionTTL = 24 * hour, au_CookieName = ''meshcom_session''\<rparr>,
     cf_RequestLog = \<lparr>rq_Enabled = False\<rparr>,
     cf_Compression = \<lparr>cm_Enabled = True, cm_MinimumSize = 1024\<rparr>,
     cf_Storage = \<lparr>sg_SQLitePath = ''./data/gomeshcom.db'', sg_PurgeInterval = 4 * hour,
       sg_ReceiveLogRetention = 30 * 24 * hour, sg_PublicChatRetention = 30 * 24 * hour,
       sg_NodesRetention = 7 * 24 * hour, sg_TelemetryRetention = 30 * 24 * hour\<rparr>,
     cf_Serial = \<lparr>sr_Device = [], sr_Baud = 115200, sr_DataBits = 8, sr_Parity = ''none'', sr_StopBits = 1,
       sr_FlowControl = ''none'', sr_DTR = False, sr_RTS = False, sr_ReadTimeout = second,
       sr_ReconnectInitial = second, sr_ReconnectMax = 30 * second, sr_StableResetAfter = 30 * second,
       sr_MaxRecordBytes = 65536\<rparr>,
     cf_NetConsole = \<lparr>nc_Address = [], nc_Password = [], nc_ConnectTimeout = 5 * second,
       nc_AuthTimeout = 5 * second, nc_WriteTimeout = 5 * second, nc_ReconnectInitial = second,
       nc_ReconnectMax = 30 * second, nc_StableResetAfter = 30 * second, nc_MaxAuthLineBytes = 128,
       nc_MaxRecordBytes = 65536\<rparr>\<rparr>"

text \<open>The file at DefaultTomlPath: absent, present but unreadable (with the error), or its text.\<close>

datatype disk_file = Missing | Unreadable string | Contents string

text \<open>writeTomlAtomically: the errors, if any, of MkdirAll, of writing the temporary file and of the
  rename. The file itself changes only by the rename.\<close>

definition writeTomlAtomically ::
    "string option \<times> string option \<times> string option \<Rightarrow> string \<Rightarrow> disk_file \<Rightarrow> string option \<times> disk_file" where
  "writeTomlAtomically faults content old =
     (case faults of
        (Some e, _, _) \<Rightarrow> (Some (''create config dir: '' @ e), old)
      | (None, Some e, _) \<Rightarrow> (Some (''write temp config file: '' @ e), old)
      | (None, None, Some e) \<Rightarrow> (Some (''replace config file: '' @ e), old)
      | (None, None, None) \<Rightarrow> (None, Contents content))"

definition WriteToml :: "string option \<times> string option \<times> string option \<Rightarrow> config \<Rightarrow> disk_file \<Rightarrow> string option \<times> disk_file" where
  "WriteToml faults cfg old = writeTomlAtomically faults (buildTomlContent cfg) old"

definition WriteDefaultToml :: "string option \<times> string option \<times> string option \<Rightarrow> config \<Rightarrow> disk_file \<Rightarrow> string option \<times> disk_file" where
  "WriteDefaultToml faults cfg old =
     (if old \<noteq> Missing then (None, old) else writeTomlAtomically faults (buildTomlContent cfg) old)"

text \<open>loadTomlFile; the path in its error texts is the argument.\<close>

definition loadTomlFile :: "(string \<Rightarrow> string + toml_file) \<Rightarrow> string \<Rightarrow> disk_file \<Rightarrow> string + toml_file option" where
  "loadTomlFile read path f =
     (case f of
        Missing \<Rightarrow> Inr None
      | Unreadable e \<Rightarrow> Inl (''read config file '' @ path @ '': '' @ e)
      | Contents t \<Rightarrow> (case read t of Inl e \<Rightarrow> Inl (''parse config file '' @ path @ '': '' @ e) | Inr tf \<Rightarrow> Inr (Some tf)))"

text \<open>parsed is what conf.ParseWithOptions makes of the defaults, the environment and the command line;
  the result comes with the file as Load leaves it.\<close>

definition Load ::
    "net_lib \<Rightarrow> (string \<Rightarrow> string + toml_file) \<Rightarrow> string + config \<Rightarrow> (string \<Rightarrow> bool) \<Rightarrow> string \<Rightarrow>
     string option \<times> string option \<times> string option \<Rightarrow> disk_file \<Rightarrow> (string + config) \<times> disk_file" where
  "Load nl read parsed environ path faults f =
     (case parsed of
        Inl e \<Rightarrow> (Inl e, f)
      | Inr cfg \<Rightarrow>
          let env = DetectEnvOverrides environ;
              f1 = snd (WriteDefaultToml faults builtInDefaultConfig f)
          in (case loadTomlFile read path f1 of
                Inl e \<Rightarrow> (Inl (''config file: '' @ e), f1)
              | Inr tf \<Rightarrow>
                  let c = normalize_config (mergeToml cfg tf env)
                  in (case Validate nl c of Some e \<Rightarrow> (Inl e, f1) | None \<Rightarrow> (Inr c, f1))))"

section \<open>What a restart reads back\<close>

definition timeouts :: "config \<Rightarrow> duration list" where
  "timeouts cfg =
     [sr_ReadTimeout (cf_Serial cfg), sr_ReconnectInitial (cf_Serial cfg), sr_ReconnectMax (cf_Serial cfg),
      sr_StableResetAfter (cf_Serial cfg), nc_ConnectTimeout (cf_NetConsole cfg), nc_AuthTimeout (cf_NetConsole cfg),
      nc_WriteTimeout (cf_NetConsole cfg), nc_ReconnectInitial (cf_NetConsole cfg),
      nc_ReconnectMax (cf_NetConsole cfg), nc_StableResetAfter (cf_NetConsole cfg),
      rv_ReplayWindow (cf_ReceiveLog cfg), cl_HistoryWindow (cf_ChatLog cfg), cl_MaxHistoryWindow (cf_ChatLog cfg),
      sd_DedupTTL (cf_Send cfg), au_SessionTTL (cf_Auth cfg), sg_PurgeInterval (cf_Storage cfg),
      sg_ReceiveLogRetention (cf_Storage cfg), sg_PublicChatRetention (cf_Storage cfg),
      sg_NodesRetention (cf_Storage cfg), sg_TelemetryRetention (cf_Storage cfg)]"

definition in_int64 :: "duration \<Rightarrow> bool" where
  "in_int64 d \<longleftrightarrow> min_int64 \<le> d \<and> d \<le> max_int64"

definition reads_durations :: "(string \<Rightarrow> duration option) \<Rightarrow> duration list \<Rightarrow> bool" where
  "reads_durations pd ds \<longleftrightarrow> (\<forall>d \<in> set ds. pd (duration_text d) = Some d \<and> pd (formatTomlDuration d) = Some d)"

lemma reads_durations_go:
  "exact_fraction fmul \<Longrightarrow> list_all in_int64 ds \<Longrightarrow> reads_durations (ParseDuration fmul) ds"
  by (auto simp: reads_durations_def in_int64_def list_all_iff parse_duration_text parse_toml_duration)

lemmas reads_timeouts = reads_durations_def timeouts_def
lemmas lookups = str_at_def int_at_def bool_at_def dur_at_def

lemma pick_unset [simp]: "\<not> b \<Longrightarrow> pick b (Some x) y = x"
  by (simp add: pick_def)

lemma pick_set [simp]: "b \<Longrightarrow> pick b v y = y"
  by (simp add: pick_def split: option.split)

lemma pick_none [simp]: "pick b None y = y"
  by (simp add: pick_def)

lemma pick_twice [simp]: "pick b v (pick b v y) = pick b v y"
  by (simp add: pick_def split: option.split)

lemma merge_section_none [simp]: "merge_section m None c = c"
  by (simp add: merge_section_def)

lemma merge_section_some [simp]: "merge_section m (Some s) c = m s c"
  by (simp add: merge_section_def)

named_theorems sections_back \<open>a section of the file gives its values back\<close>

lemma serial_back [sections_back]:
  "reads_durations pd (timeouts cfg) \<Longrightarrow> \<forall>v. \<not> env v \<Longrightarrow>
   mergeSerialToml env (decode_serial pd (serial_lines cfg)) c = cf_Serial cfg"
  by (simp add: mergeSerialToml_def decode_serial_def serial_lines_def lookups reads_timeouts)

lemma netconsole_back [sections_back]:
  "reads_durations pd (timeouts cfg) \<Longrightarrow> \<forall>v. \<not> env v \<Longrightarrow>
   mergeNetConsoleToml env (decode_netconsole pd (netconsole_lines cfg)) c = cf_NetConsole cfg"
  by (simp add: mergeNetConsoleToml_def decode_netconsole_def netconsole_lines_def lookups reads_timeouts)

lemma receive_log_back [sections_back]:
  "reads_durations pd (timeouts cfg) \<Longrightarrow> \<forall>v. \<not> env v \<Longrightarrow>
   merge_receive_log env (decode_receive_log pd (receive_log_lines cfg)) c = cf_ReceiveLog cfg"
  by (simp add: merge_receive_log_def decode_receive_log_def receive_log_lines_def lookups reads_timeouts)

lemma stats_back [sections_back]:
  "reads_durations pd (timeouts cfg) \<Longrightarrow> \<forall>v. \<not> env v \<Longrightarrow>
   merge_stats env (decode_stats pd (stats_lines cfg)) c = cf_Stats cfg"
  by (simp add: merge_stats_def decode_stats_def stats_lines_def lookups reads_timeouts)

lemma chat_log_back [sections_back]:
  "reads_durations pd (timeouts cfg) \<Longrightarrow> \<forall>v. \<not> env v \<Longrightarrow>
   merge_chat_log env (decode_chat_log pd (chat_log_lines cfg)) c = cf_ChatLog cfg"
  by (simp add: merge_chat_log_def decode_chat_log_def chat_log_lines_def lookups reads_timeouts)

lemma send_back [sections_back]:
  "reads_durations pd (timeouts cfg) \<Longrightarrow> \<forall>v. \<not> env v \<Longrightarrow>
   merge_send env (decode_send pd (send_lines cfg)) c = cf_Send cfg"
  by (simp add: merge_send_def decode_send_def send_lines_def lookups reads_timeouts)

lemma forward_back [sections_back]:
  "reads_durations pd (timeouts cfg) \<Longrightarrow> \<forall>v. \<not> env v \<Longrightarrow>
   merge_forward env (decode_forward pd (forward_lines cfg)) c = cf_Forward cfg"
  by (simp add: merge_forward_def decode_forward_def forward_lines_def lookups reads_timeouts)

lemma auth_back [sections_back]:
  "reads_durations pd (timeouts cfg) \<Longrightarrow> \<forall>v. \<not> env v \<Longrightarrow>
   merge_auth env (decode_auth pd (auth_lines cfg)) c = (cf_Auth cfg)\<lparr>au_Password := []\<rparr>"
  by (simp add: merge_auth_def decode_auth_def auth_lines_def lookups reads_timeouts)

lemma request_log_back [sections_back]:
  "reads_durations pd (timeouts cfg) \<Longrightarrow> \<forall>v. \<not> env v \<Longrightarrow>
   merge_request_log env (decode_request_log pd (request_log_lines cfg)) c = cf_RequestLog cfg"
  by (simp add: merge_request_log_def decode_request_log_def request_log_lines_def lookups reads_timeouts)

lemma compression_back [sections_back]:
  "reads_durations pd (timeouts cfg) \<Longrightarrow> \<forall>v. \<not> env v \<Longrightarrow>
   merge_compression env (decode_compression pd (compression_lines cfg)) c = cf_Compression cfg"
  by (simp add: merge_compression_def decode_compression_def compression_lines_def lookups reads_timeouts)

lemma storage_back [sections_back]:
  "reads_durations pd (timeouts cfg) \<Longrightarrow> \<forall>v. \<not> env v \<Longrightarrow>
   merge_storage env (decode_storage pd (storage_lines cfg)) c = cf_Storage cfg"
  by (simp add: merge_storage_def decode_storage_def storage_lines_def lookups reads_timeouts)

named_theorems merged_twice \<open>merging a section twice is merging it once\<close>

lemma serial_twice [merged_twice]: "merge_section (mergeSerialToml env) t
   (merge_section (mergeSerialToml env) t c) = merge_section (mergeSerialToml env) t c"
  by (cases t) (simp_all add: mergeSerialToml_def)

lemma netconsole_twice [merged_twice]: "merge_section (mergeNetConsoleToml env) t
   (merge_section (mergeNetConsoleToml env) t c) = merge_section (mergeNetConsoleToml env) t c"
  by (cases t) (simp_all add: mergeNetConsoleToml_def)

lemma receive_log_twice [merged_twice]: "merge_section (merge_receive_log env) t
   (merge_section (merge_receive_log env) t c) = merge_section (merge_receive_log env) t c"
  by (cases t) (simp_all add: merge_receive_log_def)

lemma stats_twice [merged_twice]: "merge_section (merge_stats env) t
   (merge_section (merge_stats env) t c) = merge_section (merge_stats env) t c"
  by (cases t) (simp_all add: merge_stats_def)

lemma chat_log_twice [merged_twice]: "merge_section (merge_chat_log env) t
   (merge_section (merge_chat_log env) t c) = merge_section (merge_chat_log env) t c"
  by (cases t) (simp_all add: merge_chat_log_def)

lemma send_twice [merged_twice]: "merge_section (merge_send env) t
   (merge_section (merge_send env) t c) = merge_section (merge_send env) t c"
  by (cases t) (simp_all add: merge_send_def)

lemma forward_twice [merged_twice]: "merge_section (merge_forward env) t
   (merge_section (merge_forward env) t c) = merge_section (merge_forward env) t c"
  by (cases t) (simp_all add: merge_forward_def)

lemma auth_twice [merged_twice]: "merge_section (merge_auth env) t
   (merge_section (merge_auth env) t c) = merge_section (merge_auth env) t c"
  by (cases t) (simp_all add: merge_auth_def)

lemma request_log_twice [merged_twice]: "merge_section (merge_request_log env) t
   (merge_section (merge_request_log env) t c) = merge_section (merge_request_log env) t c"
  by (cases t) (simp_all add: merge_request_log_def)

lemma compression_twice [merged_twice]: "merge_section (merge_compression env) t
   (merge_section (merge_compression env) t c) = merge_section (merge_compression env) t c"
  by (cases t) (simp_all add: merge_compression_def)

lemma storage_twice [merged_twice]: "merge_section (merge_storage env) t
   (merge_section (merge_storage env) t c) = merge_section (merge_storage env) t c"
  by (cases t) (simp_all add: merge_storage_def)

named_theorems env_wins \<open>a section of which every variable is set\<close>

lemma serial_env [env_wins]:
  "list_all env [''SERIAL_DEVICE'', ''SERIAL_BAUD'', ''SERIAL_DATA_BITS'', ''SERIAL_PARITY'', ''SERIAL_STOP_BITS'', ''SERIAL_FLOW_CONTROL'', ''SERIAL_DTR'', ''SERIAL_RTS'', ''SERIAL_READ_TIMEOUT'', ''SERIAL_RECONNECT_INITIAL'', ''SERIAL_RECONNECT_MAX'', ''SERIAL_STABLE_RESET_AFTER'', ''SERIAL_MAX_RECORD_BYTES''] \<Longrightarrow>
   merge_section (mergeSerialToml env) t c = c"
  by (cases t) (simp_all add: mergeSerialToml_def)

lemma netconsole_env [env_wins]:
  "list_all env [''NETCONSOLE_ADDRESS'', ''NETCONSOLE_PASSWORD'', ''NETCONSOLE_CONNECT_TIMEOUT'', ''NETCONSOLE_AUTH_TIMEOUT'', ''NETCONSOLE_WRITE_TIMEOUT'', ''NETCONSOLE_RECONNECT_INITIAL'', ''NETCONSOLE_RECONNECT_MAX'', ''NETCONSOLE_STABLE_RESET_AFTER'', ''NETCONSOLE_MAX_AUTH_LINE_BYTES'', ''NETCONSOLE_MAX_RECORD_BYTES''] \<Longrightarrow>
   merge_section (mergeNetConsoleToml env) t c = c"
  by (cases t) (simp_all add: mergeNetConsoleToml_def)

lemma receive_log_env [env_wins]:
  "list_all env [''RECEIVE_LOG_ENABLED'', ''RECEIVE_LOG_REPLAY_WINDOW''] \<Longrightarrow>
   merge_section (merge_receive_log env) t c = c"
  by (cases t) (simp_all add: merge_receive_log_def)

lemma stats_env [env_wins]:
  "list_all env [''STATS_ENABLED'', ''STATS_RETENTION_DAYS''] \<Longrightarrow>
   merge_section (merge_stats env) t c = c"
  by (cases t) (simp_all add: merge_stats_def)

lemma chat_log_env [env_wins]:
  "list_all env [''CHAT_LOG_HISTORY_WINDOW'', ''CHAT_LOG_MAX_HISTORY_WINDOW''] \<Longrightarrow>
   merge_section (merge_chat_log env) t c = c"
  by (cases t) (simp_all add: merge_chat_log_def)

lemma send_env [env_wins]:
  "list_all env [''SEND_DEDUP_TTL''] \<Longrightarrow>
   merge_section (merge_send env) t c = c"
  by (cases t) (simp_all add: merge_send_def)

lemma forward_env [env_wins]:
  "list_all env [''FORWARD_TARGETS''] \<Longrightarrow>
   merge_section (merge_forward env) t c = c"
  by (cases t) (simp_all add: merge_forward_def)

lemma auth_env [env_wins]:
  "list_all env [''AUTH_USERNAME'', ''AUTH_PASSWORD'', ''AUTH_SESSION_TTL'', ''AUTH_COOKIE_NAME''] \<Longrightarrow>
   merge_section (merge_auth env) t c = c"
  by (cases t) (simp_all add: merge_auth_def)

lemma request_log_env [env_wins]:
  "list_all env [''REQUEST_LOG_ENABLED''] \<Longrightarrow>
   merge_section (merge_request_log env) t c = c"
  by (cases t) (simp_all add: merge_request_log_def)

lemma compression_env [env_wins]:
  "list_all env [''COMPRESSION_ENABLED'', ''COMPRESSION_MINIMUM_SIZE''] \<Longrightarrow>
   merge_section (merge_compression env) t c = c"
  by (cases t) (simp_all add: merge_compression_def)

lemma storage_env [env_wins]:
  "list_all env [''STORAGE_SQLITE_PATH'', ''STORAGE_PURGE_INTERVAL'', ''STORAGE_RECEIVE_LOG_RETENTION'', ''STORAGE_PUBLIC_CHAT_RETENTION'', ''STORAGE_NODES_RETENTION'', ''STORAGE_TELEMETRY_RETENTION''] \<Longrightarrow>
   merge_section (merge_storage env) t c = c"
  by (cases t) (simp_all add: merge_storage_def)

lemma document_back:
  assumes "reads_durations pd (timeouts cfg)" "\<forall>v. \<not> env v"
  shows "mergeToml base (Some (decode_file pd (toml_doc cfg))) env =
    cfg\<lparr>cf_DataDir := cf_DataDir base, cf_Auth := (cf_Auth cfg)\<lparr>au_Password := []\<rparr>\<rparr>"
  using assms(2)
  by (simp add: mergeToml_def decode_file_def toml_doc_def top_lines_def lookups sections_back [OF assms])

lemma normalizeStorage_idem [simp]: "normalizeStorage (normalizeStorage s) = normalizeStorage s"
  by (simp add: normalizeStorage_def)

lemma udp_normal: "to_lower (trim_space ''udp'') = ''udp''"
  by code_simp

lemma normalize_config_idem [simp]: "normalize_config (normalize_config cfg) = normalize_config cfg"
  by (simp add: normalize_config_def Let_def udp_normal)

lemma normalize_config_updates [simp]:
  "normalize_config (cfg\<lparr>cf_DataDir := d\<rparr>) = (normalize_config cfg)\<lparr>cf_DataDir := d\<rparr>"
  "normalize_config (cfg\<lparr>cf_Auth := a\<rparr>) = (normalize_config cfg)\<lparr>cf_Auth := a\<rparr>"
  "cf_Auth (normalize_config cfg) = cf_Auth cfg"
  "cf_DataDir (normalize_config cfg) = cf_DataDir cfg"
  by (simp_all add: normalize_config_def)

lemma validate_normalized [simp]: "Validate nl (normalize_config cfg) = Validate nl cfg"
  by (simp add: Validate_def)

text \<open>What a restart in the data directory of base makes of cfg.\<close>

definition restored :: "config \<Rightarrow> config \<Rightarrow> config" where
  "restored base cfg = (normalize_config cfg)\<lparr>cf_DataDir := cf_DataDir base,
     cf_Auth := (cf_Auth cfg)\<lparr>au_Password := []\<rparr>\<rparr>"

lemma restored_normal [simp]: "normalize_config (restored base cfg) = restored base cfg"
  by (simp add: restored_def)

definition storable :: "(string \<Rightarrow> string + toml_file) \<Rightarrow> (string \<Rightarrow> duration option) \<Rightarrow> config \<Rightarrow> bool" where
  "storable read pd cfg \<longleftrightarrow> list_all in_int64 (timeouts (normalize_config cfg)) \<and>
     plain_document (toml_doc (normalize_config cfg)) \<and> reads_document read pd (toml_doc (normalize_config cfg))"

lemma load_written:
  assumes "exact_fraction fmul" "storable read (ParseDuration fmul) cfg" "\<forall>v. \<not> environ v"
  shows "Load nl read (Inr base) environ path faults (Contents (buildTomlContent cfg)) =
    ((case Validate nl (restored base cfg) of Some e \<Rightarrow> Inl e | None \<Rightarrow> Inr (restored base cfg)),
     Contents (buildTomlContent cfg))"
proof -
  have "read (buildTomlContent cfg) = Inr (decode_file (ParseDuration fmul) (toml_doc (normalize_config cfg)))"
    using assms(2) by (simp add: storable_def reads_document_def buildTomlContent_def)
  moreover have "mergeToml base (Some (decode_file (ParseDuration fmul) (toml_doc (normalize_config cfg))))
      (DetectEnvOverrides environ) = restored base cfg"
    using assms by (subst document_back) (auto simp: storable_def restored_def DetectEnvOverrides_def intro: reads_durations_go)
  ultimately show ?thesis
    by (simp add: Load_def WriteDefaultToml_def loadTomlFile_def split: option.split)
qed

lemma first_error_append [simp]:
  "first_error (xs @ ys) = (case first_error xs of Some e \<Rightarrow> Some e | None \<Rightarrow> first_error ys)"
  by (induction xs rule: first_error.induct) auto

lemma validate_parts:
  assumes "Validate nl cfg = None"
  shows "cf_DataDir cfg \<noteq> []" "first_error (auth_checks (normalize_config cfg)) = None"
  using assms
  by (auto simp: Validate_def general_checks_def Let_def split: option.splits sum.splits if_splits)

lemma validate_auth:
  "Validate nl cfg = None \<Longrightarrow> au_Username (cf_Auth cfg) = [] \<Longrightarrow> au_Password (cf_Auth cfg) = []"
  using validate_parts(2) [of nl cfg] by (auto simp: auth_checks_def Let_def split: if_splits)

text \<open>Only the authentication fields of the file differ, so only their checks can.\<close>

lemma validate_restored:
  assumes "Validate nl cfg = None" "cf_DataDir base \<noteq> []"
  shows "Validate nl (restored base cfg) =
    (if au_Username (cf_Auth cfg) = [] then None else Some ''auth username and password must be set together'')"
proof -
  let ?n = "normalize_config cfg" and ?r = "restored base cfg"
  have "validateTransport nl ?r = validateTransport nl ?n"
    by (simp add: restored_def validateTransport_def validateUDPTransport_def cong: option.case_cong)
  moreover have "first_error (general_checks ?n) = None \<Longrightarrow> first_error (general_checks ?r) = None"
    using assms(2) by (simp add: restored_def general_checks_def split: if_splits)
  moreover have "storage_checks ?r = storage_checks ?n" "cf_HTTPAddr ?r = cf_HTTPAddr ?n" "cf_Forward ?r = cf_Forward ?n"
    by (simp_all add: restored_def storage_checks_def)
  ultimately show ?thesis
    using assms(1)
    by (auto simp: Validate_def auth_checks_def restored_def Let_def split: option.splits sum.splits if_splits)
qed

text \<open>Concrete parameters: an exact product, addresses that all resolve, and a parser of one document.\<close>

definition example_fmul :: "nat \<Rightarrow> nat \<Rightarrow> nat \<Rightarrow> nat" where
  "example_fmul f unit scale = f * (unit div scale)"

definition example_net :: net_lib where
  "example_net = \<lparr>nl_tcp = (\<lambda>a. None), nl_udp = (\<lambda>a. None)\<rparr>"

definition example_read :: "config \<Rightarrow> string \<Rightarrow> string + toml_file" where
  "example_read cfg t = Inr (decode_file (ParseDuration example_fmul) (toml_doc (normalize_config cfg)))"

definition example_auth_config :: config where
  "example_auth_config = builtInDefaultConfig\<lparr>cf_Auth :=
     \<lparr>au_Username = ''admin'', au_Password = ''secret'', au_SessionTTL = 24 * hour, au_CookieName = ''meshcom_session''\<rparr>\<rparr>"

lemma example_exact: "exact_fraction example_fmul"
  by (simp add: exact_fraction_def example_fmul_def)

lemma plain_ascii: "list_all (\<lambda>c. 32 \<le> byte c \<and> byte c < 127) s \<Longrightarrow> plain_string s"
  by (fastforce simp: plain_string_def toml_char_def list_all_iff is_ascii_def intro!: valid_utf8_ascii)

lemma example_normal:
  "normalize_config builtInDefaultConfig = builtInDefaultConfig"
  "normalize_config example_auth_config = example_auth_config"
  unfolding example_auth_config_def builtInDefaultConfig_def normalize_config_def by code_simp+

lemma example_config_texts:
  "duration_text 1000000000 = ''1s''" "duration_text 2000000000 = ''2s''" "duration_text 5000000000 = ''5s''"
  "duration_text 30000000000 = ''30s''" "duration_text 3600000000000 = ''1h0m0s''"
  "duration_text 86400000000000 = ''24h0m0s''" "duration_text 2592000000000000 = ''720h0m0s''"
  "formatTomlDuration 14400000000000 = ''4h''" "formatTomlDuration 604800000000000 = ''7d''"
  "formatTomlDuration 2592000000000000 = ''30d''"
  by (simp_all add: duration_text_def unsigned_text_def formatTomlDuration_def itoa_int_def Let_def
      fmt_frac_whole itoa.simps digit_chars del: One_nat_def)

lemmas document_lines = toml_doc_def top_lines_def serial_lines_def netconsole_lines_def receive_log_lines_def
  stats_lines_def chat_log_lines_def send_lines_def forward_lines_def auth_lines_def request_log_lines_def
  compression_lines_def storage_lines_def

lemma example_plain:
  "plain_document (toml_doc builtInDefaultConfig)" "plain_document (toml_doc example_auth_config)"
  by (simp_all add: plain_document_def document_lines example_auth_config_def builtInDefaultConfig_def
      example_config_texts plain_ascii min_int64_def max_int64_def)

lemma example_in_range:
  "list_all in_int64 (timeouts builtInDefaultConfig)" "list_all in_int64 (timeouts example_auth_config)"
  by (simp_all add: timeouts_def in_int64_def example_auth_config_def builtInDefaultConfig_def min_int64_def max_int64_def)

lemma example_storable:
  "storable (example_read builtInDefaultConfig) (ParseDuration example_fmul) builtInDefaultConfig"
  "storable (example_read example_auth_config) (ParseDuration example_fmul) example_auth_config"
  by (simp_all add: storable_def reads_document_def example_read_def example_normal example_plain example_in_range)

lemma example_valid: "Validate example_net builtInDefaultConfig = None" "Validate example_net example_auth_config = None"
  by code_simp+





text \<open>merging the file twice is merging it once, the data directory is never taken from the file, and
  with every variable set in the environment the file changes nothing.\<close>

theorem merge_precedence:
  "mergeToml (mergeToml cfg tf env) tf env = mergeToml cfg tf env \<and>
   cf_DataDir (mergeToml cfg tf env) = cf_DataDir cfg \<and>
   mergeToml cfg tf (DetectEnvOverrides (\<lambda>v. True)) = cfg"
proof (intro conjI)
  show "mergeToml (mergeToml cfg tf env) tf env = mergeToml cfg tf env"
    by (cases tf) (simp_all add: mergeToml_def merged_twice)
  show "cf_DataDir (mergeToml cfg tf env) = cf_DataDir cfg"
    by (cases tf) (simp_all add: mergeToml_def)
  show "mergeToml cfg tf (DetectEnvOverrides (\<lambda>v. True)) = cfg"
    by (cases tf) (simp_all add: mergeToml_def DetectEnvOverrides_def knownEnvSuffixes_def env_wins)
qed

section \<open>Strings\<close>

text \<open>How a TOML basic string is read: the escapes of the standard but \<open>\\u\<close> and \<open>\\U\<close>, which this code
  never writes, and no control byte but tab.\<close>

definition escapes :: "(char \<times> char) list" where
  "escapes = [(CHR 0x22, CHR 0x22), (CHR 0x5C, CHR 0x5C), (CHR ''b'', CHR 0x08), (CHR ''t'', CHR 0x09),
     (CHR ''n'', CHR 0x0A), (CHR ''f'', CHR 0x0C), (CHR ''r'', CHR 0x0D)]"

fun basic_body :: "string \<Rightarrow> string option" where
  "basic_body [] = None"
| "basic_body [c] = (if c = CHR 0x22 then Some [] else None)"
| "basic_body (c # e # s) =
     (if c = CHR 0x22 then None
      else if c = CHR 0x5C then
        (case map_of escapes e of None \<Rightarrow> None | Some x \<Rightarrow> map_option (Cons x) (basic_body s))
      else if toml_char c then map_option (Cons c) (basic_body (e # s)) else None)"

definition basic_string :: "string \<Rightarrow> string option" where
  "basic_string s = (case s of [] \<Rightarrow> None | c # t \<Rightarrow> if c = CHR 0x22 then basic_body t else None)"

lemma replace_char_simps [simp]:
  "replace_char c r [] = []"
  "replace_char c r (x # s) = (if x = c then r else [x]) @ replace_char c r s"
  "replace_char c r (s @ t) = replace_char c r s @ replace_char c r t"
  by (simp_all add: replace_char_def)

lemma basic_body_plain:
  "s \<noteq> [] \<Longrightarrow> c \<noteq> CHR 0x22 \<Longrightarrow> c \<noteq> CHR 0x5C \<Longrightarrow>
   basic_body (c # s) = (if toml_char c then map_option (Cons c) (basic_body s) else None)"
  by (cases s) simp_all

lemma basic_body_escaped:
  "basic_body (replace_char (CHR 0x22) [CHR 0x5C, CHR 0x22] (replace_char (CHR 0x5C) [CHR 0x5C, CHR 0x5C] s) @ [CHR 0x22]) =
   (if list_all toml_char s then Some s else None)"
  by (induction s) (simp_all add: basic_body_plain escapes_def toml_char_def)

text \<open>every string of the file reads back as it was, or, when it has a control byte, makes the file
  unreadable: only the quote and the backslash are escaped.\<close>

theorem toml_strings_read_back:
  "basic_string (tomlStr s) = (if list_all toml_char s then Some s else None)"
  by (simp add: basic_string_def tomlStr_def basic_body_escaped)

end
