(* ===== verification/Links.thy ===== *)
theory Links
  imports Prelude
begin

text \<open>
  The part the net console and the serial bridge share (internal/transport/status.go,
  internal/netconsole/bridge.go and internal/serialbridge/bridge.go): the status, the session that is
  installed for writing, and the two goroutines that use them, Run with its sessions and SendText. Each
  mutex section of the code is one action, so that the actions of Run and of any number of concurrent
  SendText calls interleave as the mutexes allow. What the two bridges do differently is a record of
  operations.
\<close>

section \<open>Status\<close>

datatype link_state = Disconnected | Connecting | Connected | Degraded | Stopped

text \<open>RetryCount is a uint64; 2^64 attempts are out of reach.\<close>

record link_status =
  ls_Mode :: string
  ls_State :: link_state
  ls_Endpoint :: string
  ls_LastError :: string
  ls_LastErrorAt :: "gotime option"
  ls_ConnectedAt :: "gotime option"
  ls_RetryCount :: nat

section \<open>The bridge\<close>

text \<open>Sessions are numbered; a failed one has an error and is closed.\<close>

record bridge =
  br_running :: bool
  br_status :: link_status
  br_session :: "nat option"
  br_failures :: "nat \<rightharpoonup> string"
  br_closed :: "nat list"

definition setConnecting :: "nat \<Rightarrow> bridge \<Rightarrow> bridge" where
  "setConnecting retryCount b = b\<lparr>br_status := (br_status b)\<lparr>ls_State := Connecting,
     ls_RetryCount := retryCount, ls_ConnectedAt := None\<rparr>\<rparr>"

definition setConnected :: "gotime \<Rightarrow> bridge \<Rightarrow> bridge" where
  "setConnected now b = b\<lparr>br_status := (br_status b)\<lparr>ls_State := Connected,
     ls_LastError := [], ls_LastErrorAt := None, ls_ConnectedAt := Some now\<rparr>\<rparr>"

definition setStopped :: "bridge \<Rightarrow> bridge" where
  "setStopped b = b\<lparr>br_status := (br_status b)\<lparr>ls_State := Stopped, ls_ConnectedAt := None\<rparr>\<rparr>"

definition installSession :: "nat \<Rightarrow> bridge \<Rightarrow> bridge" where
  "installSession n b = b\<lparr>br_session := Some n\<rparr>"

definition removeSession :: "nat \<Rightarrow> bridge \<Rightarrow> bridge" where
  "removeSession n b = (if br_session b = Some n then b\<lparr>br_session := None\<rparr> else b)"

definition connectedSession :: "bridge \<Rightarrow> nat option" where
  "connectedSession b = (if ls_State (br_status b) \<noteq> Connected then None else br_session b)"

definition close_session :: "nat \<Rightarrow> bridge \<Rightarrow> bridge" where
  "close_session n b = b\<lparr>br_closed := List.insert n (br_closed b)\<rparr>"

definition fail_session :: "nat \<Rightarrow> string \<Rightarrow> bridge \<Rightarrow> bridge" where
  "fail_session n err b = close_session n
     (if br_failures b n = None then b\<lparr>br_failures := (br_failures b)(n \<mapsto> err)\<rparr> else b)"

section \<open>Run and SendText as actions\<close>

record link_ops =
  lo_initial :: duration
  lo_max :: duration
  lo_stable :: duration
  lo_next :: "duration \<Rightarrow> duration \<Rightarrow> duration"
  lo_degrade :: "string option \<Rightarrow> gotime \<Rightarrow> nat \<Rightarrow> link_status \<Rightarrow> link_status"

definition setDegraded :: "link_ops \<Rightarrow> string option \<Rightarrow> gotime \<Rightarrow> nat \<Rightarrow> bridge \<Rightarrow> bridge" where
  "setDegraded ops err now retryCount b = b\<lparr>br_status := lo_degrade ops err now retryCount (br_status b)\<rparr>"

text \<open>
  Where Run is: not running, at the head of its loop, opening the connection, with an open connection
  (on which the net console authenticates), with the session installed, reading, back from runSession
  after some time with some error, or waiting to retry.
\<close>

datatype runner =
    Idle | Head | Opening | Opened nat | Installed nat | Reading nat
  | Back duration "string option" | Waiting

text \<open>Where a SendText call is: it has read the status, it has a session, its write has failed, the session is
  failed, it has read the retry count.\<close>

datatype sender =
    SawConnected | HasSession nat | WriteFailed nat string | MustMark string | Marks string nat

record link =
  lk_bridge :: bridge
  lk_runner :: runner
  lk_delay :: duration
  lk_retries :: nat
  lk_fresh :: nat
  lk_senders :: "nat \<rightharpoonup> sender"

datatype action =
    Start | TryOpen | OpenFails duration string | OpenWorks | Refused duration string | Install
  | EnableFails duration string | Enabled gotime | ReadEnds duration string | Cancelled
  | Retry gotime | Waited | Stop
  | CheckStatus nat | TakeSession nat | WriteWorks nat | WriteFails nat string | FailSession nat
  | ReadCount nat | MarkDegraded nat gotime

text \<open>The deferred end of Run; no other Run is started between its two statements.\<close>

definition stop_bridge :: "bridge \<Rightarrow> bridge" where
  "stop_bridge b = setStopped (b\<lparr>br_running := False\<rparr>)"

definition to_runner :: "runner \<Rightarrow> (bridge \<Rightarrow> bridge) \<Rightarrow> link \<Rightarrow> link" where
  "to_runner r f s = s\<lparr>lk_runner := r, lk_bridge := f (lk_bridge s)\<rparr>"

definition to_sender :: "nat \<Rightarrow> sender option \<Rightarrow> (bridge \<Rightarrow> bridge) \<Rightarrow> link \<Rightarrow> link" where
  "to_sender t p f s = s\<lparr>lk_senders := (lk_senders s)(t := p), lk_bridge := f (lk_bridge s)\<rparr>"

definition run_action :: "link_ops \<Rightarrow> action \<Rightarrow> link \<Rightarrow> link option" where
  "run_action ops a s =
     (case lk_runner s of
        Idle \<Rightarrow>
          (case a of
             Start \<Rightarrow> Some (to_runner Head (\<lambda>b. b\<lparr>br_running := True\<rparr>) s\<lparr>lk_delay := lo_initial ops, lk_retries := 0\<rparr>)
           | _ \<Rightarrow> None)
      | Head \<Rightarrow>
          (case a of
             TryOpen \<Rightarrow> Some (to_runner Opening (setConnecting (lk_retries s)) s)
           | Stop \<Rightarrow> Some (to_runner Idle stop_bridge s)
           | _ \<Rightarrow> None)
      | Opening \<Rightarrow>
          (case a of
             OpenFails d e \<Rightarrow> Some (to_runner (Back d (Some e)) id s)
           | OpenWorks \<Rightarrow> Some (to_runner (Opened (lk_fresh s)) id s\<lparr>lk_fresh := lk_fresh s + 1\<rparr>)
           | _ \<Rightarrow> None)
      | Opened n \<Rightarrow>
          (case a of
             Refused d e \<Rightarrow> Some (to_runner (Back d (Some e)) (close_session n) s)
           | Install \<Rightarrow> Some (to_runner (Installed n) (installSession n) s)
           | Cancelled \<Rightarrow> Some (to_runner (Opened n) (close_session n) s)
           | _ \<Rightarrow> None)
      | Installed n \<Rightarrow>
          (case a of
             EnableFails d e \<Rightarrow> Some (to_runner (Back d (Some e)) (close_session n \<circ> removeSession n) s)
           | Enabled now \<Rightarrow> Some (to_runner (Reading n) (setConnected now) s)
           | Cancelled \<Rightarrow> Some (to_runner (Installed n) (close_session n) s)
           | _ \<Rightarrow> None)
      | Reading n \<Rightarrow>
          (case a of
             ReadEnds d e \<Rightarrow> Some (to_runner (Back d (Some e)) (close_session n \<circ> removeSession n) s)
           | Cancelled \<Rightarrow> Some (to_runner (Reading n) (close_session n) s)
           | _ \<Rightarrow> None)
      | Back d e \<Rightarrow>
          (case a of
             Retry now \<Rightarrow>
               Some (to_runner Waiting (setDegraded ops e now (lk_retries s + 1)) s\<lparr>lk_retries := lk_retries s + 1,
                 lk_delay := if d \<ge> lo_stable ops then lo_initial ops else lk_delay s\<rparr>)
           | Stop \<Rightarrow> Some (to_runner Idle stop_bridge s)
           | _ \<Rightarrow> None)
      | Waiting \<Rightarrow>
          (case a of
             Waited \<Rightarrow> Some (to_runner Head id s\<lparr>lk_delay := lo_next ops (lk_delay s) (lo_max ops)\<rparr>)
           | Stop \<Rightarrow> Some (to_runner Idle stop_bridge s)
           | _ \<Rightarrow> None))"

text \<open>
  SendText after its command is encoded. A call that finds no connection or no session returns
  ErrDisconnected and changes nothing; a write on a closed session cannot succeed.
\<close>

definition link_action :: "link_ops \<Rightarrow> action \<Rightarrow> link \<Rightarrow> link option" where
  "link_action ops a s =
     (case a of
        CheckStatus t \<Rightarrow>
          if lk_senders s t \<noteq> None then None
          else if ls_State (br_status (lk_bridge s)) = Connected then Some (to_sender t (Some SawConnected) id s)
          else Some s
      | TakeSession t \<Rightarrow>
          if lk_senders s t \<noteq> Some SawConnected then None
          else Some (to_sender t (map_option HasSession (br_session (lk_bridge s))) id s)
      | WriteWorks t \<Rightarrow>
          (case lk_senders s t of
             Some (HasSession n) \<Rightarrow> if n \<in> set (br_closed (lk_bridge s)) then None else Some (to_sender t None id s)
           | _ \<Rightarrow> None)
      | WriteFails t e \<Rightarrow>
          (case lk_senders s t of Some (HasSession n) \<Rightarrow> Some (to_sender t (Some (WriteFailed n e)) id s) | _ \<Rightarrow> None)
      | FailSession t \<Rightarrow>
          (case lk_senders s t of
             Some (WriteFailed n e) \<Rightarrow> Some (to_sender t (Some (MustMark e)) (fail_session n e) s) | _ \<Rightarrow> None)
      | ReadCount t \<Rightarrow>
          (case lk_senders s t of
             Some (MustMark e) \<Rightarrow> Some (to_sender t (Some (Marks e (ls_RetryCount (br_status (lk_bridge s))))) id s)
           | _ \<Rightarrow> None)
      | MarkDegraded t now \<Rightarrow>
          (case lk_senders s t of
             Some (Marks e c) \<Rightarrow> Some (to_sender t None (setDegraded ops (Some e) now c) s) | _ \<Rightarrow> None)
      | _ \<Rightarrow> run_action ops a s)"

inductive link_reach :: "link_ops \<Rightarrow> link \<Rightarrow> link \<Rightarrow> bool" for ops s0 where
  start: "link_reach ops s0 s0"
| step: "link_reach ops s0 s \<Longrightarrow> link_action ops a s = Some s' \<Longrightarrow> link_reach ops s0 s'"

fun link_run :: "link_ops \<Rightarrow> action list \<Rightarrow> link \<Rightarrow> link option" where
  "link_run ops [] s = Some s"
| "link_run ops (a # as) s = Option.bind (link_action ops a s) (link_run ops as)"

definition new_link :: "string \<Rightarrow> string \<Rightarrow> link" where
  "new_link mode endpoint = \<lparr>lk_bridge = \<lparr>br_running = False,
     br_status = \<lparr>ls_Mode = mode, ls_State = Disconnected, ls_Endpoint = endpoint, ls_LastError = [],
       ls_LastErrorAt = None, ls_ConnectedAt = None, ls_RetryCount = 0\<rparr>,
     br_session = None, br_failures = Map.empty, br_closed = []\<rparr>,
     lk_runner = Idle, lk_delay = 0, lk_retries = 0, lk_fresh = 0, lk_senders = Map.empty\<rparr>"

section \<open>The contract\<close>

text \<open>What the proofs use of the two bridges: the next delay grows up to the maximum, and setDegraded leaves
  the status degraded and not connected.\<close>

locale link_provider =
  fixes ops :: link_ops
  assumes next_grows: "0 < d \<Longrightarrow> d \<le> m \<Longrightarrow> d \<le> lo_next ops d m"
    and next_bounded: "0 < d \<Longrightarrow> d \<le> m \<Longrightarrow> lo_next ops d m \<le> m"
    and degrade_state: "ls_State (lo_degrade ops e now c st) = Degraded"
    and degrade_disconnected: "ls_ConnectedAt (lo_degrade ops e now c st) = None"

definition live :: "runner \<Rightarrow> nat \<Rightarrow> bool" where
  "live r n \<longleftrightarrow> r = Installed n \<or> r = Reading n"

definition may_be_connected :: "runner \<Rightarrow> bool" where
  "may_be_connected r = (case r of Reading n \<Rightarrow> True | Back d e \<Rightarrow> True | _ \<Rightarrow> False)"

text \<open>The session and the status follow Run, and the delay is within its bounds.\<close>

definition session_inv :: "link \<Rightarrow> bool" where
  "session_inv s \<longleftrightarrow>
     (br_running (lk_bridge s) \<longleftrightarrow> lk_runner s \<noteq> Idle) \<and>
     (\<forall>n. br_session (lk_bridge s) = Some n \<longleftrightarrow> live (lk_runner s) n)"

definition status_inv :: "link \<Rightarrow> bool" where
  "status_inv s \<longleftrightarrow>
     (ls_State (br_status (lk_bridge s)) = Connected \<longrightarrow> may_be_connected (lk_runner s)) \<and>
     (ls_ConnectedAt (br_status (lk_bridge s)) \<noteq> None \<longrightarrow> ls_State (br_status (lk_bridge s)) = Connected)"

definition delay_inv :: "link_ops \<Rightarrow> link \<Rightarrow> bool" where
  "delay_inv ops s \<longleftrightarrow>
     (lk_runner s \<noteq> Idle \<longrightarrow> lo_initial ops \<le> lk_delay s \<and> lk_delay s \<le> lo_max ops)"

lemma bridge_fields [simp]:
  "br_running (setConnecting r b) = br_running b" "br_session (setConnecting r b) = br_session b"
  "br_status (setConnecting r b) = (br_status b)\<lparr>ls_State := Connecting, ls_RetryCount := r, ls_ConnectedAt := None\<rparr>"
  "br_running (setConnected now b) = br_running b" "br_session (setConnected now b) = br_session b"
  "br_status (setConnected now b) = (br_status b)\<lparr>ls_State := Connected, ls_LastError := [], ls_LastErrorAt := None,
     ls_ConnectedAt := Some now\<rparr>"
  "br_running (stop_bridge b) = False" "br_session (stop_bridge b) = br_session b"
  "br_status (stop_bridge b) = (br_status b)\<lparr>ls_State := Stopped, ls_ConnectedAt := None\<rparr>"
  "br_running (installSession n b) = br_running b" "br_session (installSession n b) = Some n"
  "br_status (installSession n b) = br_status b"
  "br_running (removeSession n b) = br_running b" "br_status (removeSession n b) = br_status b"
  "br_session (removeSession n b) = (if br_session b = Some n then None else br_session b)"
  "br_running (close_session n b) = br_running b" "br_session (close_session n b) = br_session b"
  "br_status (close_session n b) = br_status b"
  "br_running (fail_session n e b) = br_running b" "br_session (fail_session n e b) = br_session b"
  "br_status (fail_session n e b) = br_status b"
  "br_running (setDegraded ops x now c b) = br_running b" "br_session (setDegraded ops x now c b) = br_session b"
  "br_status (setDegraded ops x now c b) = lo_degrade ops x now c (br_status b)"
  by (simp_all add: setConnecting_def setConnected_def setStopped_def stop_bridge_def installSession_def
      removeSession_def close_session_def fail_session_def setDegraded_def)

lemma link_fields [simp]:
  "lk_runner (to_runner r f s) = r" "lk_bridge (to_runner r f s) = f (lk_bridge s)" "lk_delay (to_runner r f s) = lk_delay s"
  "lk_runner (to_sender t p f s) = lk_runner s" "lk_bridge (to_sender t p f s) = f (lk_bridge s)"
  "lk_delay (to_sender t p f s) = lk_delay s"
  by (simp_all add: to_runner_def to_sender_def)

lemmas run_splits = runner.split_asm action.split_asm

text \<open>What each action of Run does.\<close>

lemma run_action_cases [consumes 1]:
  assumes "run_action ops a s = Some s'"
  obtains
    (start) "lk_runner s = Idle" "s' = to_runner Head (\<lambda>b. b\<lparr>br_running := True\<rparr>) s\<lparr>lk_delay := lo_initial ops, lk_retries := 0\<rparr>"
  | (try_open) "lk_runner s = Head" "s' = to_runner Opening (setConnecting (lk_retries s)) s"
  | (stop) "lk_runner s \<in> {Head, Waiting} \<or> (\<exists>d e. lk_runner s = Back d e)" "s' = to_runner Idle stop_bridge s"
  | (open_fails) d e where "lk_runner s = Opening" "s' = to_runner (Back d (Some e)) id s"
  | (open_works) "lk_runner s = Opening" "s' = to_runner (Opened (lk_fresh s)) id s\<lparr>lk_fresh := lk_fresh s + 1\<rparr>"
  | (refused) n d e where "lk_runner s = Opened n" "s' = to_runner (Back d (Some e)) (close_session n) s"
  | (install) n where "lk_runner s = Opened n" "s' = to_runner (Installed n) (installSession n) s"
  | (cancelled) n where "lk_runner s = Opened n \<or> live (lk_runner s) n" "s' = to_runner (lk_runner s) (close_session n) s"
  | (left) n d e where "live (lk_runner s) n" "s' = to_runner (Back d (Some e)) (close_session n \<circ> removeSession n) s"
  | (enabled) n now where "lk_runner s = Installed n" "s' = to_runner (Reading n) (setConnected now) s"
  | (retry) d e now where "lk_runner s = Back d e"
      "s' = to_runner Waiting (setDegraded ops e now (lk_retries s + 1)) s\<lparr>lk_retries := lk_retries s + 1,
         lk_delay := if d \<ge> lo_stable ops then lo_initial ops else lk_delay s\<rparr>"
  | (waited) "lk_runner s = Waiting" "s' = to_runner Head id s\<lparr>lk_delay := lo_next ops (lk_delay s) (lo_max ops)\<rparr>"
  using assms by (simp add: run_action_def live_def split: run_splits; metis)

lemma new_link_inv: "session_inv (new_link mode endpoint)" "status_inv (new_link mode endpoint)"
  "delay_inv ops (new_link mode endpoint)"
  by (simp_all add: session_inv_def status_inv_def delay_inv_def new_link_def live_def may_be_connected_def)

text \<open>SendText changes neither where Run is nor the delay, and the bridge by a failure and the status only.\<close>

lemma link_action_cases [consumes 1]:
  assumes "link_action ops a s = Some s'"
  obtains
    (run) "run_action ops a s = Some s'"
  | (send) st where "lk_runner s' = lk_runner s" "lk_delay s' = lk_delay s"
      "br_running (lk_bridge s') = br_running (lk_bridge s)" "br_session (lk_bridge s') = br_session (lk_bridge s)"
      "br_status (lk_bridge s') = st"
      "st = br_status (lk_bridge s) \<or> (\<exists>e now c. st = lo_degrade ops e now c (br_status (lk_bridge s)))"
proof (cases a)
  case (MarkDegraded t now)
  with assms obtain e c where "s' = to_sender t None (setDegraded ops (Some e) now c) s"
    by (auto simp: link_action_def split: option.splits sender.splits)
  then show thesis by (intro send) auto
qed (insert assms, auto simp: link_action_def intro: run send split: if_splits option.splits sender.splits)

lemma run_session: "session_inv s \<Longrightarrow> run_action ops a s = Some s' \<Longrightarrow> session_inv s'"
  by (erule run_action_cases) (auto simp: session_inv_def live_def split: if_splits)

lemma session_step: "session_inv s \<Longrightarrow> link_action ops a s = Some s' \<Longrightarrow> session_inv s'"
  by (erule link_action_cases, erule (1) run_session, simp add: session_inv_def)

lemma session_reach: "link_reach ops s0 s \<Longrightarrow> session_inv s0 \<Longrightarrow> session_inv s"
  by (induction rule: link_reach.induct) (auto dest: session_step)

context link_provider
begin

lemma run_status: "status_inv s \<Longrightarrow> run_action ops a s = Some s' \<Longrightarrow> status_inv s'"
  by (erule run_action_cases)
     (auto simp: status_inv_def may_be_connected_def live_def degrade_state degrade_disconnected)

lemma status_step: "status_inv s \<Longrightarrow> link_action ops a s = Some s' \<Longrightarrow> status_inv s'"
  by (erule link_action_cases, erule (1) run_status)
     (auto simp: status_inv_def degrade_state degrade_disconnected)

lemma status_reach: "link_reach ops s0 s \<Longrightarrow> status_inv s0 \<Longrightarrow> status_inv s"
  by (induction rule: link_reach.induct) (auto dest: status_step)

lemma run_delay:
  "0 < lo_initial ops \<Longrightarrow> lo_initial ops \<le> lo_max ops \<Longrightarrow>
   delay_inv ops s \<Longrightarrow> run_action ops a s = Some s' \<Longrightarrow> delay_inv ops s'"
  by (erule run_action_cases)
     (use next_grows [of "lk_delay s" "lo_max ops"] next_bounded [of "lk_delay s" "lo_max ops"]
      in \<open>auto simp: delay_inv_def live_def\<close>)

lemma delay_step:
  "0 < lo_initial ops \<Longrightarrow> lo_initial ops \<le> lo_max ops \<Longrightarrow>
   delay_inv ops s \<Longrightarrow> link_action ops a s = Some s' \<Longrightarrow> delay_inv ops s'"
  by (erule link_action_cases, erule (3) run_delay, simp add: delay_inv_def)

lemma delay_reach:
  "link_reach ops s0 s \<Longrightarrow> 0 < lo_initial ops \<Longrightarrow> lo_initial ops \<le> lo_max ops \<Longrightarrow>
   delay_inv ops s0 \<Longrightarrow> delay_inv ops s"
  by (induction rule: link_reach.induct) (auto dest: delay_step)

text \<open>A session is given to SendText only while Run reads from it.\<close>

lemma picked_is_read:
  assumes "session_inv s" "status_inv s" "connectedSession (lk_bridge s) = Some n"
  shows "lk_runner s = Reading n"
  using assms
  by (cases "lk_runner s") (auto simp: session_inv_def status_inv_def connectedSession_def live_def may_be_connected_def split: if_splits)

end

lemma link_run_reach: "link_run ops as s = Some s' \<Longrightarrow> link_reach ops s0 s \<Longrightarrow> link_reach ops s0 s'"
  by (induction as arbitrary: s) (auto split: bind_splits intro: link_reach.step)

end
