(* ===== verification/NetAuth.thy ===== *)
theory NetAuth
  imports Prelude
begin

text \<open>
  internal/netconsole/auth.go: the bounded lines of the authentication exchange, the challenge and its
  response, and the exchange itself. A connection is what it will deliver, the bytes up to the first
  failing read and that failure (''EOF'' for io.EOF), and what its n-th Write returns. crypto/hmac
  over crypto/sha256 is the parameter mac of a key and a message.
\<close>

section \<open>Reading and writing\<close>

record conn_input =
  in_bytes :: string
  in_error :: string

datatype line_error = LineTooLong | UnexpectedEOF | ReadFailed string

fun read_line_from :: "nat \<Rightarrow> string \<Rightarrow> string \<Rightarrow> string \<Rightarrow> line_error + string \<times> string" where
  "read_line_from maxBytes line [] err =
     Inl (if err = ''EOF'' \<and> line \<noteq> [] then UnexpectedEOF else ReadFailed err)"
| "read_line_from maxBytes line (value # rest) err =
     (if length line \<ge> maxBytes then Inl LineTooLong
      else if value = CHR 0x0A then Inr (line, rest)
      else read_line_from maxBytes (line @ [value]) rest err)"

definition readBoundedLine :: "nat \<Rightarrow> conn_input \<Rightarrow> line_error + string \<times> conn_input" where
  "readBoundedLine maxBytes i =
     (case read_line_from maxBytes [] (in_bytes i) (in_error i) of
        Inl e \<Rightarrow> Inl e
      | Inr (line, rest) \<Rightarrow> Inr (trim_suffix [CHR 0x0D] line, i\<lparr>in_bytes := rest\<rparr>))"

text \<open>
  w n data is what the n-th Write gives: the number of bytes taken and an error. The loop goes on with
  the rest, so it ends: a Write that takes nothing is an error.
\<close>

type_synonym writer = "nat \<Rightarrow> string \<Rightarrow> nat \<times> string option"

function writeAll :: "writer \<Rightarrow> nat \<Rightarrow> string \<Rightarrow> string option \<times> string" where
  "writeAll w n data =
     (if data = [] then (None, [])
      else case w n data of
             (written, Some e) \<Rightarrow> (Some e, take written data)
           | (written, None) \<Rightarrow>
               if written = 0 then (Some ''short write'', [])
               else (let r = writeAll w (n + 1) (drop written data) in (fst r, take written data @ snd r)))"
  by pat_completeness auto
termination
  by (relation "measure (\<lambda>(w, n, data). length data)") auto

declare writeAll.simps [simp del]

section \<open>The challenge\<close>

definition hex_val :: "char \<Rightarrow> nat option" where
  "hex_val c =
     (if is_digit c then Some (byte c - 48)
      else if 97 \<le> byte c \<and> byte c \<le> 102 then Some (byte c - 87)
      else if 65 \<le> byte c \<and> byte c \<le> 70 then Some (byte c - 55) else None)"

text \<open>hex.DecodeString: an odd length or another byte is an error.\<close>

fun hex_decode :: "string \<Rightarrow> string option" where
  "hex_decode [] = Some []"
| "hex_decode [c] = None"
| "hex_decode (a # b # s) =
     (case (hex_val a, hex_val b, hex_decode s) of
        (Some x, Some y, Some t) \<Rightarrow> Some (char_of (16 * x + y) # t)
      | _ \<Rightarrow> None)"

definition hex_digit :: "nat \<Rightarrow> char" where
  "hex_digit n = (if n < 10 then char_of (48 + n) else char_of (87 + n))"

definition hex_encode :: "string \<Rightarrow> string" where
  "hex_encode s = concat (map (\<lambda>c. [hex_digit (byte c div 16), hex_digit (byte c mod 16)]) s)"

datatype auth_error =
    DeadlineError string
  | GreetingError line_error
  | UnexpectedAuthLine
  | NonceLength
  | NonceInvalid
  | ResponseError string
  | ResultError line_error
  | AuthenticationFailed

definition hmacResponse :: "(string \<Rightarrow> string \<Rightarrow> string) \<Rightarrow> string \<Rightarrow> string \<Rightarrow> auth_error + string" where
  "hmacResponse mac password nonceHex =
     (if length nonceHex \<noteq> 32 then Inl NonceLength
      else (case hex_decode nonceHex of
              None \<Rightarrow> Inl NonceInvalid
            | Some nonce \<Rightarrow>
                if length nonce \<noteq> 16 then Inl NonceInvalid else Inr (hex_encode (mac password nonce))))"

definition noncePrefix :: string where
  "noncePrefix = ''NONCE: ''"

text \<open>The result: the error if any, the bytes sent, and the input that is left for the session.\<close>

definition authenticate ::
    "(string \<Rightarrow> string \<Rightarrow> string) \<Rightarrow> string option \<Rightarrow> writer \<Rightarrow> string \<Rightarrow> nat \<Rightarrow> conn_input
     \<Rightarrow> auth_error option \<times> string \<times> conn_input" where
  "authenticate mac deadline w password maxLineBytes i =
     (case deadline of
        Some e \<Rightarrow> (Some (DeadlineError e), [], i)
      | None \<Rightarrow>
     (case readBoundedLine maxLineBytes i of
        Inl e \<Rightarrow> (Some (GreetingError e), [], i)
      | Inr (firstLine, i1) \<Rightarrow>
        if firstLine = ''OK'' then (None, [], i1)
        else if \<not> prefix noncePrefix firstLine then (Some UnexpectedAuthLine, [], i1)
        else
     (case hmacResponse mac password (trim_prefix noncePrefix firstLine) of
        Inl e \<Rightarrow> (Some e, [], i1)
      | Inr response \<Rightarrow>
     (case writeAll w 0 (response @ [CHR 0x0D, CHR 0x0A]) of
        (Some e, sent) \<Rightarrow> (Some (ResponseError e), sent, i1)
      | (None, sent) \<Rightarrow>
     (case readBoundedLine maxLineBytes i1 of
        Inl e \<Rightarrow> (Some (ResultError e), sent, i1)
      | Inr (result, i2) \<Rightarrow>
        if result = ''OK'' then (None, sent, i2)
        else if result = ''FAIL'' then (Some AuthenticationFailed, sent, i2)
        else (Some UnexpectedAuthLine, sent, i2))))))"

section \<open>Facts\<close>

lemma writeAll_prefix: "prefix (snd (writeAll w n data)) data"
proof (induction w n data rule: writeAll.induct)
  case (1 w n data)
  show ?case
  proof (cases "data = []")
    case False
    obtain k e where k: "w n data = (k, e)" by fastforce
    show ?thesis
    proof (cases "e = None \<and> k \<noteq> 0")
      case True
      then obtain r where "drop k data = snd (writeAll w (n + 1) (drop k data)) @ r"
        using 1 [OF False k [symmetric]] k by (auto simp: prefix_def)
      then have "data = take k data @ snd (writeAll w (n + 1) (drop k data)) @ r"
        by (metis append_take_drop_id)
      then show ?thesis
        using True False k by (subst writeAll.simps) (auto simp: Let_def prefix_def)
    qed (use False k in \<open>subst writeAll.simps, auto simp: take_is_prefix split: option.split\<close>)
  qed (simp add: writeAll.simps)
qed

text \<open>Without an error everything was written.\<close>

lemma writeAll_complete: "fst (writeAll w n data) = None \<Longrightarrow> snd (writeAll w n data) = data"
proof (induction w n data rule: writeAll.induct)
  case (1 w n data)
  show ?case
  proof (cases "data = []")
    case False
    obtain k e where k: "w n data = (k, e)" by fastforce
    have "e = None" "k \<noteq> 0" and rest: "fst (writeAll w (n + 1) (drop k data)) = None"
      using 1(2) False k by (subst (asm) writeAll.simps; simp add: Let_def split: option.splits if_splits)+
    then have "snd (writeAll w (n + 1) (drop k data)) = drop k data"
      using 1(1) [OF False k [symmetric]] by simp
    then show ?thesis using False k \<open>e = None\<close> \<open>k \<noteq> 0\<close> by (subst writeAll.simps) (simp add: Let_def)
  qed (simp add: writeAll.simps)
qed

lemma read_line_bound:
  "read_line_from m line bs err = Inr (l, rest) \<Longrightarrow> length l < m \<and> prefix line l \<and>
   drop (length line) l @ CHR 0x0A # rest = bs \<and> CHR 0x0A \<notin> set (drop (length line) l)"
proof (induction bs arbitrary: line)
  case (Cons v bs)
  show ?case
  proof (cases "v = CHR 0x0A")
    case False
    then have l: "length line < m" "read_line_from m (line @ [v]) bs err = Inr (l, rest)"
      using Cons.prems by (auto split: if_splits)
    then obtain t where "l = line @ [v] @ t" using Cons.IH by (force simp: prefix_def)
    then show ?thesis using Cons.IH [OF l(2)] False by auto
  qed (use Cons.prems in \<open>auto split: if_splits\<close>)
qed simp

lemma bounded_line:
  assumes "readBoundedLine m i = Inr (l, i')"
  obtains cr where "in_bytes i = l @ cr @ CHR 0x0A # in_bytes i'" "cr = [] \<or> cr = [CHR 0x0D]" "length (l @ cr) < m"
    "CHR 0x0A \<notin> set l" "in_error i' = in_error i"
proof -
  obtain raw where r: "read_line_from m [] (in_bytes i) (in_error i) = Inr (raw, in_bytes i')"
      "l = trim_suffix [CHR 0x0D] raw" "in_error i' = in_error i"
    using assms by (auto simp: readBoundedLine_def split: sum.splits)
  have raw: "length raw < m" "in_bytes i = raw @ CHR 0x0A # in_bytes i'" "CHR 0x0A \<notin> set raw"
    using read_line_bound [OF r(1)] by auto
  show thesis
  proof (cases "suffix [CHR 0x0D] raw")
    case True
    then have "raw = l @ [CHR 0x0D]" using r(2) by (auto simp: trim_suffix_def suffix_def)
    then show thesis using raw r(3) by (intro that [of "[CHR 0x0D]"]) auto
  next
    case False
    then have "raw = l" using r(2) by (simp add: trim_suffix_def)
    then show thesis using raw r(3) by (intro that [of "[]"]) auto
  qed
qed

lemma byte_bound: "byte c < 256"
  by (metis of_char_mod_256 mod_less_divisor zero_less_numeral)

lemma byte_char_of [simp]: "n < 256 \<Longrightarrow> byte (char_of n) = n"
  by simp

lemma hex_val_digit [simp]: "n < 16 \<Longrightarrow> hex_val (hex_digit n) = Some n"
  by (simp add: hex_val_def hex_digit_def is_digit_def)

lemma hex_decode_encode: "hex_decode (hex_encode s) = Some s"
proof (induction s)
  case (Cons c s)
  have "byte c div 16 < 16" using byte_bound [of c] by (simp add: less_mult_imp_div_less)
  then show ?case using Cons by (simp add: hex_encode_def)
qed (simp add: hex_encode_def)

lemma hex_encode_length: "length (hex_encode s) = 2 * length s"
  by (induction s) (simp_all add: hex_encode_def)

lemma hex_lower: "list_all (\<lambda>c. is_digit c \<or> is_lower c) (hex_encode s)"
proof (induction s)
  case (Cons c s)
  have "n < 16 \<Longrightarrow> is_digit (hex_digit n) \<or> is_lower (hex_digit n)" for n
    by (auto simp: hex_digit_def is_digit_def is_lower_def)
  moreover have "byte c div 16 < 16" "byte c mod 16 < 16" using byte_bound [of c] by (simp_all add: less_mult_imp_div_less)
  ultimately show ?case using Cons by (simp add: hex_encode_def)
qed (simp add: hex_encode_def)

text \<open>The response a challenge line asks for, if it is one.\<close>

definition challenge_response :: "(string \<Rightarrow> string \<Rightarrow> string) \<Rightarrow> string \<Rightarrow> string \<Rightarrow> string option" where
  "challenge_response mac password line =
     (if prefix noncePrefix line \<and> length line = 39
      then map_option (\<lambda>nonce. hex_encode (mac password nonce) @ [CHR 0x0D, CHR 0x0A]) (hex_decode (drop 7 line))
      else None)"

lemma hex_decode_length: "hex_decode s = Some t \<Longrightarrow> length s = 2 * length t"
  by (induction s arbitrary: t rule: hex_decode.induct) (auto split: option.splits)

lemma nonce_text: "prefix noncePrefix line \<Longrightarrow> trim_prefix noncePrefix line = drop 7 line \<and> 7 \<le> length line"
  by (auto simp: noncePrefix_def trim_prefix_def eval_nat_numeral dest: prefix_length_le)

lemma hmac_challenge:
  "prefix noncePrefix line \<Longrightarrow> challenge_response mac password line =
     (case hmacResponse mac password (trim_prefix noncePrefix line) of
        Inl e \<Rightarrow> None | Inr r \<Rightarrow> Some (r @ [CHR 0x0D, CHR 0x0A]))"
  using nonce_text [of line]
  by (auto simp: challenge_response_def hmacResponse_def dest!: hex_decode_length split: option.splits)

text \<open>C18: the exchange succeeds exactly when the node greets with OK, or sends a challenge, takes the whole
  response and answers OK.\<close>

theorem auth_accepts_exactly:
  "fst (authenticate mac None w password m i) = None \<longleftrightarrow>
   (\<exists>line i1. readBoundedLine m i = Inr (line, i1) \<and>
      (line = ''OK'' \<or>
       (\<exists>response i2. challenge_response mac password line = Some response \<and>
          writeAll w 0 response = (None, response) \<and> readBoundedLine m i1 = Inr (''OK'', i2))))"
proof (cases "readBoundedLine m i")
  case (Inr r)
  obtain line i1 where r: "r = (line, i1)" by fastforce
  have nc: "\<not> prefix noncePrefix line \<Longrightarrow> challenge_response mac password line = None"
    by (simp add: challenge_response_def)
  have ok: "writeAll w 0 x = (None, y) \<Longrightarrow> y = x" for x y
    using writeAll_complete [of w 0 x] by simp
  show ?thesis
    using Inr r nc hmac_challenge [of line mac password]
    by (auto simp: authenticate_def dest: ok split: sum.splits option.splits prod.splits if_splits)
qed (simp add: authenticate_def)

text \<open>whatever the node says, the exchange sends nothing but a prefix of the response to the challenge in its
  first line, hexadecimal digits and a line end: never the password.\<close>

theorem auth_sends_only_response:
  assumes "authenticate mac d w password m i = (e, sent, rest)" "sent \<noteq> []"
  shows "\<exists>line i1 nonce. readBoundedLine m i = Inr (line, i1) \<and> hex_decode (drop 7 line) = Some nonce \<and> length nonce = 16 \<and>
    prefix sent (hex_encode (mac password nonce) @ [CHR 0x0D, CHR 0x0A]) \<and>
    list_all (\<lambda>c. is_digit c \<or> is_lower c \<or> c = CHR 0x0D \<or> c = CHR 0x0A) sent"
proof -
  obtain line i1 response where l: "readBoundedLine m i = Inr (line, i1)" "prefix noncePrefix line"
      "hmacResponse mac password (trim_prefix noncePrefix line) = Inr response"
      "sent = snd (writeAll w 0 (response @ [CHR 0x0D, CHR 0x0A]))"
    using assms by (auto simp: authenticate_def split: option.splits sum.splits prod.splits if_splits)
  then obtain nonce where n: "hex_decode (drop 7 line) = Some nonce" "length nonce = 16" "response = hex_encode (mac password nonce)"
    using nonce_text [OF l(2)] by (auto simp: hmacResponse_def split: option.splits if_splits)
  have p: "prefix sent (response @ [CHR 0x0D, CHR 0x0A])" unfolding l(4) by (rule writeAll_prefix)
  then have "list_all (\<lambda>c. is_digit c \<or> is_lower c \<or> c = CHR 0x0D \<or> c = CHR 0x0A) sent"
    using hex_lower [of "mac password nonce"] set_mono_prefix [OF p] unfolding n(3) list_all_iff by fastforce
  then show ?thesis using l(1) n p by auto
qed

definition example_greeting :: conn_input where
  "example_greeting = \<lparr>in_bytes = noncePrefix @ replicate 32 (CHR ''0'') @ [CHR 0x0D, CHR 0x0A] @ ''OK'' @ [CHR 0x0A] @ ''rest'',
     in_error = ''EOF''\<rparr>"

definition example_mac :: "string \<Rightarrow> string \<Rightarrow> string" where
  "example_mac key message = message @ message"

lemma example_exchange:
  "authenticate example_mac None (\<lambda>n data. (40, None)) ''secret'' 72 example_greeting =
   (None, replicate 64 (CHR ''0'') @ [CHR 0x0D, CHR 0x0A], \<lparr>in_bytes = ''rest'', in_error = ''EOF''\<rparr>)"
  by code_simp

theorem auth_sends_only_response_witness:
  "\<exists>line i1 nonce. readBoundedLine 72 example_greeting = Inr (line, i1) \<and>
    hex_decode (drop 7 line) = Some nonce \<and> length nonce = 16 \<and>
    prefix (replicate 64 (CHR ''0'') @ [CHR 0x0D, CHR 0x0A]) (hex_encode (example_mac ''secret'' nonce) @ [CHR 0x0D, CHR 0x0A]) \<and>
    list_all (\<lambda>c. is_digit c \<or> is_lower c \<or> c = CHR 0x0D \<or> c = CHR 0x0A) (replicate 64 (CHR ''0'') @ [CHR 0x0D, CHR 0x0A])"
  by (rule auth_sends_only_response [OF example_exchange]) simp

end
