(* ===== verification/NetConsole.thy ===== *)
theory NetConsole
  imports Links NetAuth ConsoleEncoder ConsoleDecoder Queues Ingest
begin

text \<open>
  internal/netconsole/bridge.go: the delays between attempts, writing a command, what a session does
  with the bytes it reads, and the two goroutines of Links with this bridge's operations. Opening the
  connection is net.Dialer; the random draw of the jitter, the clock and the results of writes and reads
  are arguments.
\<close>

section \<open>Configuration and delays\<close>

record bridge_config =
  bc_Address :: string
  bc_Password :: string
  bc_ConnectTimeout :: duration
  bc_AuthTimeout :: duration
  bc_WriteTimeout :: duration
  bc_ReconnectInitial :: duration
  bc_ReconnectMax :: duration
  bc_StableResetAfter :: duration
  bc_MaxAuthLineBytes :: int
  bc_MaxRecordBytes :: int

definition validateBridgeConfig :: "bridge_config \<Rightarrow> string option" where
  "validateBridgeConfig c =
     (if bc_Address c = [] then Some ''netconsole address is required''
      else if bc_ConnectTimeout c \<le> 0 \<or> bc_AuthTimeout c \<le> 0 \<or> bc_WriteTimeout c \<le> 0
      then Some ''netconsole timeouts must be greater than zero''
      else if bc_ReconnectInitial c \<le> 0 \<or> bc_ReconnectMax c \<le> 0 \<or> bc_ReconnectInitial c > bc_ReconnectMax c
      then Some ''invalid netconsole reconnect delays''
      else if bc_StableResetAfter c \<le> 0 then Some ''netconsole stable reset duration must be greater than zero''
      else if bc_MaxAuthLineBytes c \<le> 0 \<or> bc_MaxRecordBytes c \<le> 0
      then Some ''netconsole buffer limits must be greater than zero''
      else None)"

definition nextDelay :: "duration \<Rightarrow> duration \<Rightarrow> duration" where
  "nextDelay current maximum =
     (if current \<ge> maximum \<or> current > maximum div 2 then maximum else current * 2)"

text \<open>draw is rand.Int64N, which is given its bound and returns a value below it.\<close>

definition jitterDelay :: "(int \<Rightarrow> int) \<Rightarrow> duration \<Rightarrow> duration" where
  "jitterDelay draw delay = (if delay \<le> 1 then delay else delay div 2 + draw (delay div 2 + 1))"

definition degrade :: "string option \<Rightarrow> gotime \<Rightarrow> nat \<Rightarrow> link_status \<Rightarrow> link_status" where
  "degrade err now retryCount st =
     (let st1 = st\<lparr>ls_State := Degraded, ls_RetryCount := retryCount, ls_ConnectedAt := None\<rparr>
      in case err of None \<Rightarrow> st1 | Some e \<Rightarrow> st1\<lparr>ls_LastError := e, ls_LastErrorAt := Some now\<rparr>)"

definition netconsole_link :: "bridge_config \<Rightarrow> link_ops" where
  "netconsole_link c = \<lparr>lo_initial = bc_ReconnectInitial c, lo_max = bc_ReconnectMax c,
     lo_stable = bc_StableResetAfter c, lo_next = nextDelay, lo_degrade = degrade\<rparr>"

definition new_netconsole :: "bridge_config \<Rightarrow> string + link" where
  "new_netconsole c =
     (case validateBridgeConfig c of Some e \<Rightarrow> Inl e | None \<Rightarrow> Inr (new_link ''netconsole'' (bc_Address c)))"

interpretation nc: link_provider "netconsole_link c" for c
  by unfold_locales (simp_all add: netconsole_link_def nextDelay_def degrade_def Let_def split: option.split, presburger)

section \<open>Run as a loop\<close>

text \<open>An attempt: whether and when it connected, its error, how long it was connected, and the draw and the
  clock after it. Run goes through the attempts and is then cancelled; it gives the delays it waits.\<close>

record attempt =
  at_connected :: "gotime option"
  at_error :: string
  at_duration :: duration
  at_draw :: "int \<Rightarrow> int"
  at_now :: gotime

definition attempt_status :: "link_ops \<Rightarrow> nat \<Rightarrow> attempt \<Rightarrow> bridge \<Rightarrow> bridge" where
  "attempt_status ops retryCount a b =
     (let b1 = setConnecting retryCount b;
          b2 = (case at_connected a of None \<Rightarrow> b1 | Some now \<Rightarrow> setConnected now b1)
      in setDegraded ops (Some (at_error a)) (at_now a) (retryCount + 1) b2)"

fun run_loop ::
    "link_ops \<Rightarrow> ((int \<Rightarrow> int) \<Rightarrow> duration \<Rightarrow> duration) \<Rightarrow> duration \<Rightarrow> nat \<Rightarrow> attempt list \<Rightarrow> bridge
     \<Rightarrow> bridge \<times> duration list" where
  "run_loop ops jitter delay retryCount [] b = (stop_bridge b, [])"
| "run_loop ops jitter delay retryCount (a # as) b =
     (let delay1 = (if at_duration a \<ge> lo_stable ops then lo_initial ops else delay);
          r = run_loop ops jitter (lo_next ops delay1 (lo_max ops)) (retryCount + 1) as
                (attempt_status ops retryCount a b)
      in (fst r, jitter (at_draw a) delay1 # snd r))"

text \<open>A second Run while one is running is refused.\<close>

definition Run :: "bridge_config \<Rightarrow> attempt list \<Rightarrow> bridge \<Rightarrow> (string + bridge \<times> duration list)" where
  "Run c attempts b =
     (if br_running b then Inl ''netconsole transport is already running''
      else Inr (run_loop (netconsole_link c) jitterDelay (bc_ReconnectInitial c) 0 attempts (b\<lparr>br_running := True\<rparr>)))"

section \<open>Writing\<close>

text \<open>The error of the context, the session's failure, or else what SetWriteDeadline and the writes give.\<close>

definition session_write ::
    "string option \<Rightarrow> string option \<Rightarrow> string option \<Rightarrow> writer \<Rightarrow> string \<Rightarrow> string option \<times> string" where
  "session_write ctx failure deadline w data =
     (case ctx of Some e \<Rightarrow> (Some e, []) | None \<Rightarrow>
     (case failure of Some e \<Rightarrow> (Some e, []) | None \<Rightarrow>
     (case deadline of Some e \<Rightarrow> (Some e, []) | None \<Rightarrow> writeAll w 0 data)))"

datatype send_text_error = EncodeFailed encode_error | NotConnected | TxFailed string

definition SendText ::
    "link_ops \<Rightarrow> string option \<Rightarrow> bool \<Rightarrow> string option \<Rightarrow> string option \<Rightarrow> writer \<Rightarrow> gotime
     \<Rightarrow> text_command \<Rightarrow> bridge \<Rightarrow> send_text_error option \<times> string \<times> bridge" where
  "SendText ops identity disableTX ctx deadline w now command b =
     (case Encode identity command of
        Inl e \<Rightarrow> (Some (EncodeFailed e), [], b)
      | Inr line \<Rightarrow>
          if disableTX then (None, [], b)
          else (case connectedSession b of
                  None \<Rightarrow> (Some NotConnected, [], b)
                | Some n \<Rightarrow>
                    (case session_write ctx (br_failures b n) deadline w line of
                       (None, sent) \<Rightarrow> (None, sent, b)
                     | (Some e, sent) \<Rightarrow>
                         (Some (TxFailed e), sent,
                          setDegraded ops (Some e) now (ls_RetryCount (br_status b)) (fail_session n e b)))))"

section \<open>Reading\<close>

text \<open>A payload goes to the forwarder, if there is one, and to the processor, whose error is dropped; None is a
  panic of the processor.\<close>

definition process_payload ::
    "'f json_lib \<Rightarrow> (int \<Rightarrow> 'f) \<Rightarrow> faults \<Rightarrow> gotime \<Rightarrow> packet_source \<Rightarrow> string
     \<Rightarrow> string list list option \<times> 'f ingest \<Rightarrow> (string list list option \<times> 'f ingest) option" where
  "process_payload jl flt f now src payload st =
     map_option (\<lambda>r. (map_option (Forward payload) (fst st), fst r)) (Process jl flt f now src payload (snd st))"

fun process_payloads where
  "process_payloads jl flt f now src [] st = Some st"
| "process_payloads jl flt f now src (p # ps) st =
     Option.bind (process_payload jl flt f now src p st) (process_payloads jl flt f now src ps)"

definition processBytes ::
    "'f json_lib \<Rightarrow> (int \<Rightarrow> 'f) \<Rightarrow> faults \<Rightarrow> gotime \<Rightarrow> packet_source \<Rightarrow> string
     \<Rightarrow> decoder \<times> string list list option \<times> 'f ingest \<Rightarrow> (decoder \<times> string list list option \<times> 'f ingest) option" where
  "processBytes jl flt f now src data ds =
     (let (dec, r) = Feed (fst ds) data
      in map_option (Pair dec) (process_payloads jl flt f now src (dr_payloads r) (snd ds)))"

fun read_loop where
  "read_loop jl flt f now src [] ds = Some ds"
| "read_loop jl flt f now src (chunk # chunks) ds =
     Option.bind (processBytes jl flt f now src chunk ds) (read_loop jl flt f now src chunks)"

datatype session_error =
    AuthError auth_error | DecoderError codec_error | EnableError string | ReadError string

definition enablePacketOutputCommand :: string where
  "enablePacketOutputCommand = ''--setinfo on'' @ [CHR 0x0D, CHR 0x0A]"

definition netconsole_source :: "bridge_config \<Rightarrow> packet_source" where
  "netconsole_source c = \<lparr>so_Transport = ''netconsole'', so_Endpoint = bc_Address c\<rparr>"

text \<open>
  One session on an open connection: reads says how the reads split what is left after the
  authentication. The session ends when reading does.
\<close>

definition runSession ::
    "(string \<Rightarrow> string \<Rightarrow> string) \<Rightarrow> 'f json_lib \<Rightarrow> (int \<Rightarrow> 'f) \<Rightarrow> faults \<Rightarrow> gotime \<Rightarrow> bridge_config
     \<Rightarrow> writer \<Rightarrow> writer \<Rightarrow> (string \<Rightarrow> string list) \<Rightarrow> conn_input \<Rightarrow> string list list option \<times> 'f ingest
     \<Rightarrow> session_error \<times> string \<times> (string list list option \<times> 'f ingest) option" where
  "runSession mac jl flt f now c w w2 reads i st =
     (case authenticate mac None w (bc_Password c) (nat (bc_MaxAuthLineBytes c)) i of
        (Some e, sent, rest) \<Rightarrow> (AuthError e, sent, Some st)
      | (None, sent, rest) \<Rightarrow>
     (case NewDecoder (bc_MaxRecordBytes c) of
        Inl e \<Rightarrow> (DecoderError e, sent, Some st)
      | Inr dec \<Rightarrow>
     (case session_write None None None w2 enablePacketOutputCommand of
        (Some e, sent2) \<Rightarrow> (EnableError e, sent @ sent2, Some st)
      | (None, sent2) \<Rightarrow>
          (ReadError (if in_error rest = ''EOF'' then ''EOF'' else ''read netconsole: '' @ in_error rest),
           sent @ sent2,
           map_option snd (read_loop jl flt f now (netconsole_source c) (reads (in_bytes rest)) (dec, st))))))"

section \<open>Facts\<close>

lemma process_payloads_append:
  "process_payloads jl flt f now src (ps @ qs) st =
   Option.bind (process_payloads jl flt f now src ps st) (process_payloads jl flt f now src qs)"
proof (induction ps arbitrary: st)
  case (Cons p ps)
  then show ?case by (cases "process_payload jl flt f now src p st") simp_all
qed simp

text \<open>How the reads split the stream does not matter.\<close>

lemma read_loop_stream:
  "map_option snd (read_loop jl flt f now src chunks (d, st)) =
   process_payloads jl flt f now src (dr_payloads (snd (Feed d (concat chunks)))) st"
proof (induction chunks arbitrary: d st)
  case Nil
  show ?case by (simp add: Feed_def empty_result_def)
next
  case (Cons c cs)
  obtain d1 r1 where f1: "Feed d c = (d1, r1)" by fastforce
  obtain d2 r2 where f2: "Feed d1 (concat cs) = (d2, r2)" by fastforce
  have "snd (Feed d (concat (c # cs))) = app_result r1 r2"
    using decoder_chunking [of d c "concat cs"] f1 f2 by simp
  moreover have "map_option snd (read_loop jl flt f now src (c # cs) (d, st)) =
      Option.bind (process_payloads jl flt f now src (dr_payloads r1) st)
        (process_payloads jl flt f now src (dr_payloads r2))"
    using Cons [of d1] f1 f2
    by (cases "process_payloads jl flt f now src (dr_payloads r1) st") (simp_all add: processBytes_def)
  ultimately show ?case by (simp add: app_result_def process_payloads_append)
qed

lemma next_delay_doubles: "0 < d \<Longrightarrow> d \<le> m \<Longrightarrow> nextDelay d m = min (2 * d) m"
  by (auto simp: nextDelay_def)

lemma next_delay_power:
  "0 < d \<Longrightarrow> d \<le> m \<Longrightarrow> ((\<lambda>x. nextDelay x m) ^^ k) d = min (2 ^ k * d) m"
proof (induction k)
  case (Suc k)
  let ?x = "min (2 ^ k * d) m"
  have "0 < ?x" "?x \<le> m" using Suc.prems by auto
  then show ?case using Suc by (simp add: next_delay_doubles)
qed simp

lemma jitter_bounds:
  assumes "\<And>n. 0 < n \<Longrightarrow> 0 \<le> draw n \<and> draw n < n" "0 < d"
  shows "d div 2 \<le> jitterDelay draw d \<and> jitterDelay draw d \<le> d"
  using assms(1) [of "d div 2 + 1"] assms(2) by (auto simp: jitterDelay_def)

lemma run_loop_waits:
  assumes "\<forall>a \<in> set as. at_duration a < bc_StableResetAfter c"
  shows "length (snd (run_loop (netconsole_link c) jitter d r as b)) = length as \<and>
    (\<forall>k < length as. snd (run_loop (netconsole_link c) jitter d r as b) ! k =
       jitter (at_draw (as ! k)) (((\<lambda>x. nextDelay x (bc_ReconnectMax c)) ^^ k) d))"
  using assms
proof (induction as arbitrary: d r b)
  case (Cons a as)
  have "\<not> at_duration a \<ge> lo_stable (netconsole_link c)" using Cons.prems by (simp add: netconsole_link_def)
  then show ?case using Cons
    by (auto simp: Let_def less_Suc_eq_0_disj netconsole_link_def funpow_Suc_right simp del: funpow.simps(2))
qed simp

text \<open>Whatever the attempts, every wait is the jitter of a delay between the first one and the maximum.\<close>

context link_provider
begin

lemma run_loop_delays:
  assumes "0 < lo_initial ops" "lo_initial ops \<le> lo_max ops" "lo_initial ops \<le> d" "d \<le> lo_max ops"
    and "w \<in> set (snd (run_loop ops jitter d r as b))"
  shows "\<exists>a \<in> set as. \<exists>d'. lo_initial ops \<le> d' \<and> d' \<le> lo_max ops \<and> w = jitter (at_draw a) d'"
  using assms
proof (induction as arbitrary: d r b)
  case (Cons a as)
  define d1 where "d1 = (if at_duration a \<ge> lo_stable ops then lo_initial ops else d)"
  have d1: "lo_initial ops \<le> d1" "d1 \<le> lo_max ops" using Cons.prems by (auto simp: d1_def)
  have "w = jitter (at_draw a) d1 \<or>
      w \<in> set (snd (run_loop ops jitter (lo_next ops d1 (lo_max ops)) (r + 1) as (attempt_status ops r a b)))"
    using Cons.prems(5) by (auto simp: Let_def d1_def)
  then show ?case
  proof
    assume "w = jitter (at_draw a) d1"
    then show ?thesis using d1 by auto
  next
    have "lo_initial ops \<le> lo_next ops d1 (lo_max ops)" "lo_next ops d1 (lo_max ops) \<le> lo_max ops"
      using next_grows [of d1 "lo_max ops"] next_bounded [of d1 "lo_max ops"] d1 Cons.prems(1) by auto
    moreover assume "w \<in> set (snd (run_loop ops jitter (lo_next ops d1 (lo_max ops)) (r + 1) as (attempt_status ops r a b)))"
    ultimately show ?thesis using Cons.IH [OF Cons.prems(1,2)] by (metis list.set_intros(2))
  qed
qed simp

end

section \<open>Properties\<close>

text \<open>C35: after k failed short attempts the delay is the first one doubled k times, at most the maximum, and
  the wait is between half of it and all of it.\<close>

theorem netconsole_backoff:
  assumes "validateBridgeConfig c = None" "\<forall>a \<in> set as. at_duration a < bc_StableResetAfter c"
    and "\<forall>a \<in> set as. \<forall>n > 0. 0 \<le> at_draw a n \<and> at_draw a n < n" "k < length as" "\<not> br_running b"
  shows "\<exists>b' waits. Run c as b = Inr (b', waits) \<and> length waits = length as \<and>
    min (2 ^ k * bc_ReconnectInitial c) (bc_ReconnectMax c) div 2 \<le> waits ! k \<and>
    waits ! k \<le> min (2 ^ k * bc_ReconnectInitial c) (bc_ReconnectMax c)"
proof -
  let ?d = "min (2 ^ k * bc_ReconnectInitial c) (bc_ReconnectMax c)"
  have c: "0 < bc_ReconnectInitial c" "bc_ReconnectInitial c \<le> bc_ReconnectMax c"
    using assms(1) by (auto simp: validateBridgeConfig_def split: if_splits)
  obtain b' waits where r: "Run c as b = Inr (b', waits)"
    using assms(5) by (simp add: Run_def) (meson surj_pair)
  then have "length waits = length as" "waits ! k = jitterDelay (at_draw (as ! k)) ?d"
    using run_loop_waits [OF assms(2), of jitterDelay "bc_ReconnectInitial c" 0 "b\<lparr>br_running := True\<rparr>"]
      assms(4,5) next_delay_power [OF c, of k] by (auto simp: Run_def)
  moreover have "\<And>n. 0 < n \<Longrightarrow> 0 \<le> at_draw (as ! k) n \<and> at_draw (as ! k) n < n"
    using assms(3,4) nth_mem by blast
  then have "?d div 2 \<le> jitterDelay (at_draw (as ! k)) ?d \<and> jitterDelay (at_draw (as ! k)) ?d \<le> ?d"
    using c by (intro jitter_bounds) auto
  ultimately show ?thesis using r by metis
qed

definition example_bridge_config :: bridge_config where
  "example_bridge_config = \<lparr>bc_Address = ''node:1234'', bc_Password = ''secret'', bc_ConnectTimeout = 5, bc_AuthTimeout = 5,
     bc_WriteTimeout = 5, bc_ReconnectInitial = 10, bc_ReconnectMax = 100, bc_StableResetAfter = 100,
     bc_MaxAuthLineBytes = 128, bc_MaxRecordBytes = 4096\<rparr>"

definition example_attempt :: attempt where
  "example_attempt = \<lparr>at_connected = None, at_error = ''refused'', at_duration = 0, at_draw = (\<lambda>n. n - 1), at_now = 1\<rparr>"

theorem netconsole_backoff_witness:
  "\<exists>b' waits. Run example_bridge_config (replicate 6 example_attempt) (lk_bridge (new_link ''netconsole'' ''n'')) = Inr (b', waits) \<and>
    length waits = 6 \<and> 50 \<le> waits ! 5 \<and> waits ! 5 \<le> 100"
  using netconsole_backoff [of example_bridge_config "replicate 6 example_attempt" 5 "lk_bridge (new_link ''netconsole'' ''n'')"]
  by (simp add: example_bridge_config_def example_attempt_def validateBridgeConfig_def new_link_def)


definition example_actions :: "action list" where
  "example_actions = [Start, TryOpen, OpenFails 3 ''refused'', Retry 1, Waited, TryOpen, OpenWorks, Install, Enabled 9]"

definition example_reading :: link where
  "example_reading =
     the (link_run (netconsole_link example_bridge_config) example_actions (new_link ''netconsole'' ''node:1234''))"

lemma example_reading_run:
  "link_run (netconsole_link example_bridge_config) example_actions (new_link ''netconsole'' ''node:1234'') = Some example_reading"
  "connectedSession (lk_bridge example_reading) = Some 0" "lk_delay example_reading = 20" "lk_runner example_reading \<noteq> Idle"
  by (simp_all add: example_reading_def example_actions_def link_action_def run_action_def new_link_def
      connectedSession_def netconsole_link_def example_bridge_config_def nextDelay_def to_runner_def)


text \<open>C0: a SendText whose write failed marks the bridge degraded in a step of its own, so a connection that Run
  has opened again in the meantime stays marked degraded: it is read from, but every SendText is refused.\<close>

definition stale_mark :: "action list" where
  "stale_mark = [Start, TryOpen, OpenWorks, Install, Enabled 1,
     CheckStatus 7, TakeSession 7, WriteFails 7 ''timeout'', FailSession 7,
     ReadEnds 2 ''timeout'', Retry 3, Waited, TryOpen, OpenWorks, Install, Enabled 5,
     ReadCount 7, MarkDegraded 7 6]"

theorem netconsole_stale_mark:
  "\<exists>s. link_reach (netconsole_link c) (new_link ''netconsole'' (bc_Address c)) s \<and>
    lk_runner s = Reading 1 \<and> br_session (lk_bridge s) = Some 1 \<and> br_failures (lk_bridge s) 1 = None \<and>
    1 \<notin> set (br_closed (lk_bridge s)) \<and> lk_senders s = Map.empty \<and>
    (SendText ops identity False ctx d w now command (lk_bridge s) =
       (case Encode identity command of Inl e \<Rightarrow> (Some (EncodeFailed e), [], lk_bridge s)
        | Inr line \<Rightarrow> (Some NotConnected, [], lk_bridge s)))"
proof -
  let ?s0 = "new_link ''netconsole'' (bc_Address c)"
  obtain s where s: "link_run (netconsole_link c) stale_mark ?s0 = Some s" and
    f: "lk_runner s = Reading 1 \<and> br_session (lk_bridge s) = Some 1 \<and> br_failures (lk_bridge s) 1 = None \<and>
      1 \<notin> set (br_closed (lk_bridge s)) \<and> lk_senders s = Map.empty \<and> connectedSession (lk_bridge s) = None"
    by (simp add: stale_mark_def link_action_def run_action_def new_link_def connectedSession_def netconsole_link_def
        to_runner_def to_sender_def close_session_def fail_session_def removeSession_def installSession_def
        setConnecting_def setConnected_def setDegraded_def degrade_def List.insert_def)
  have "link_reach (netconsole_link c) ?s0 s" by (rule link_run_reach [OF s link_reach.start])
  then show ?thesis using f by (intro exI [of _ s]) (simp add: SendText_def split: sum.split)
qed

text \<open>SendText sends the whole encoded line or reports an error; after a failed write the session is closed, the
  bridge is degraded and refuses every further SendText until Run connects again. A context that is already
  cancelled counts as a failed write: it takes the connection down although nothing was sent.\<close>

theorem send_text_outcomes:
  assumes "Encode identity command = Inr line" "connectedSession b = Some n" "br_failures b n = None"
  shows "(case SendText (netconsole_link c) identity False ctx d w now command b of
      (None, sent, b') \<Rightarrow> sent = line \<and> b' = b
    | (Some e, sent, b') \<Rightarrow> prefix sent line \<and> n \<in> set (br_closed b') \<and> ls_State (br_status b') = Degraded \<and>
        (\<forall>command' ctx' w'. fst (SendText (netconsole_link c) identity False ctx' d w' now command' b') \<noteq> None)) \<and>
    (ctx = Some reason \<longrightarrow> fst (SendText (netconsole_link c) identity False ctx d w now command b) = Some (TxFailed reason))"
proof -
  let ?r = "session_write ctx None d w line"
  have sent: "prefix (snd ?r) line" "fst ?r = None \<Longrightarrow> snd ?r = line"
    using writeAll_prefix [of w 0 line] writeAll_complete [of w 0 line]
    by (auto simp: session_write_def split: option.split)
  have cl: "n \<in> set (br_closed (setDegraded ops e now k (fail_session n x b)))" for ops e k x
    by (simp add: setDegraded_def fail_session_def close_session_def)
  show ?thesis
  proof (cases ?r)
    case (Pair e sent')
    then show ?thesis using assms sent cl
      by (auto simp: SendText_def session_write_def connectedSession_def nc.degrade_state split: option.split sum.split)
  qed
qed

theorem send_text_outcomes_witness:
  "fst (SendText (netconsole_link example_bridge_config) None False (Some ''context canceled'') None (\<lambda>n data. (1, None)) 5
     \<lparr>tc_Destination = ''*'', tc_Message = ''hi'', tc_MaxMessageRunes = 149\<rparr> (lk_bridge example_reading)) =
   Some (TxFailed ''context canceled'')"
proof -
  have "Encode None \<lparr>tc_Destination = ''*'', tc_Message = ''hi'', tc_MaxMessageRunes = 149\<rparr> = Inr (''::hi'' @ crlf)"
    by code_simp
  moreover have "br_failures (lk_bridge example_reading) 0 = None"
    by (simp add: example_reading_def example_actions_def link_action_def run_action_def new_link_def to_runner_def
        netconsole_link_def example_bridge_config_def nextDelay_def setConnected_def installSession_def
        setConnecting_def setDegraded_def)
  ultimately show ?thesis
    using send_text_outcomes [where n = 0 and b = "lk_bridge example_reading" and c = example_bridge_config and d = None and
        ctx = "Some ''context canceled''" and w = "\<lambda>n data. (1, None)" and now = 5 and reason = "''context canceled''"]
      example_reading_run(2) by blast
qed

text \<open>C19: a session that authenticates processes exactly the payloads of the lines that follow the
  authentication, in their order, however the reads split the bytes; none is lost between the two.\<close>

theorem netconsole_session_stream:
  assumes "authenticate mac None w (bc_Password c) (nat (bc_MaxAuthLineBytes c)) i = (None, sent, rest)"
    and "0 < bc_MaxRecordBytes c" "fst (writeAll w2 0 enablePacketOutputCommand) = None"
    and "concat (reads (in_bytes rest)) = in_bytes rest"
  shows "snd (snd (runSession mac jl flt f now c w w2 reads i st)) =
    process_payloads jl flt f now (netconsole_source c)
      (dr_payloads (lines_result (bc_MaxRecordBytes c) (split_on CHR 0x0A (in_bytes rest)))) st"
proof -
  obtain dec where dec: "NewDecoder (bc_MaxRecordBytes c) = Inr dec" using assms(2) by (simp add: NewDecoder_def)
  then have "snd (Feed dec (in_bytes rest)) = lines_result (bc_MaxRecordBytes c) (split_on CHR 0x0A (in_bytes rest))"
    by (simp add: Feed_stream [OF dec] decode_stream_def Let_def)
  moreover have "session_write None None None w2 enablePacketOutputCommand = (None, enablePacketOutputCommand)"
    using assms(3) writeAll_complete [OF assms(3)] by (cases "writeAll w2 0 enablePacketOutputCommand") (simp add: session_write_def)
  ultimately show ?thesis using assms(1,4) dec by (simp add: runSession_def read_loop_stream)
qed

definition example_session_input :: conn_input where
  "example_session_input = \<lparr>in_bytes = ''OK'' @ [CHR 0x0A] @ ''[EXT] Out: {}'' @ [CHR 0x0D, CHR 0x0A] @ ''[EXT]'', in_error = ''EOF''\<rparr>"

theorem netconsole_session_stream_witness:
  "snd (snd (runSession example_mac example_lib id no_faults 1 example_bridge_config (\<lambda>n data. (1, None)) (\<lambda>n data. (99, None))
      (map (\<lambda>c. [c])) example_session_input (None, example_ingest))) =
   process_payloads example_lib id no_faults 1 (netconsole_source example_bridge_config) [''{}''] (None, example_ingest)"
proof -
  let ?rest = "\<lparr>in_bytes = ''[EXT] Out: {}'' @ [CHR 0x0D, CHR 0x0A] @ ''[EXT]'', in_error = ''EOF''\<rparr>"
  have a: "authenticate example_mac None (\<lambda>n data. (1, None)) (bc_Password example_bridge_config)
      (nat (bc_MaxAuthLineBytes example_bridge_config)) example_session_input = (None, [], ?rest)" by code_simp
  have w: "fst (writeAll (\<lambda>n data. (99, None)) 0 enablePacketOutputCommand) = None"
    by (simp add: writeAll.simps enablePacketOutputCommand_def)
  have l: "dr_payloads (lines_result (bc_MaxRecordBytes example_bridge_config) (split_on CHR 0x0A (in_bytes ?rest))) = [''{}'']"
    by code_simp
  show ?thesis
    by (subst netconsole_session_stream [OF a _ w]) (simp_all only: l, simp_all add: example_bridge_config_def)
qed

end
