(* ===== verification/SerialBridge.thy ===== *)
theory SerialBridge
  imports NetConsole
begin

text \<open>
  internal/serialbridge (bridge.go, port.go): the settings of the port, the delays between attempts,
  writing with the context checked before every chunk, one session, and the two goroutines of Links
  with this bridge's operations. The serial library is a parameter: what opening a port and each of
  its settings gives.
\<close>

section \<open>The port (port.go)\<close>

record port_config =
  pt_Device :: string
  pt_Baud :: int
  pt_DataBits :: int
  pt_Parity :: string
  pt_StopBits :: int
  pt_DTR :: bool
  pt_RTS :: bool
  pt_ReadTimeout :: duration

datatype parity = NoParity | OddParity | EvenParity | MarkParity | SpaceParity
datatype stop_bits = OneStopBit | TwoStopBits

record port_mode =
  pm_BaudRate :: int
  pm_DataBits :: int
  pm_Parity :: parity
  pm_StopBits :: stop_bits
  pm_DTR :: bool
  pm_RTS :: bool

text \<open>The value in the two error texts is quoted by fmt.\<close>

definition libraryParity :: "string \<Rightarrow> string + parity" where
  "libraryParity p =
     (if p = ''none'' then Inr NoParity else if p = ''odd'' then Inr OddParity
      else if p = ''even'' then Inr EvenParity else if p = ''mark'' then Inr MarkParity
      else if p = ''space'' then Inr SpaceParity else Inl ''unsupported serial parity'')"

definition libraryStopBits :: "int \<Rightarrow> string + stop_bits" where
  "libraryStopBits n =
     (if n = 1 then Inr OneStopBit else if n = 2 then Inr TwoStopBits
      else Inl (''unsupported serial stop bits '' @ itoa_int n))"

definition libraryMode :: "port_config \<Rightarrow> string + port_mode" where
  "libraryMode c =
     (case libraryParity (pt_Parity c) of Inl e \<Rightarrow> Inl e | Inr parity \<Rightarrow>
     (case libraryStopBits (pt_StopBits c) of Inl e \<Rightarrow> Inl e | Inr stopBits \<Rightarrow>
        Inr \<lparr>pm_BaudRate = pt_Baud c, pm_DataBits = pt_DataBits c, pm_Parity = parity, pm_StopBits = stopBits,
             pm_DTR = pt_DTR c, pm_RTS = pt_RTS c\<rparr>))"

text \<open>The library: the errors of opening with a mode, of SetDTR, of SetRTS and of SetReadTimeout.\<close>

record serial_lib =
  sl_open :: "string \<Rightarrow> port_mode \<Rightarrow> string option"
  sl_dtr :: "bool \<Rightarrow> string option"
  sl_rts :: "bool \<Rightarrow> string option"
  sl_timeout :: "duration \<Rightarrow> string option"

definition configureOpenedPort :: "serial_lib \<Rightarrow> port_config \<Rightarrow> string option" where
  "configureOpenedPort sl c =
     (case sl_dtr sl (pt_DTR c) of Some e \<Rightarrow> Some (''set serial DTR: '' @ e) | None \<Rightarrow>
     (case sl_rts sl (pt_RTS c) of Some e \<Rightarrow> Some (''set serial RTS: '' @ e) | None \<Rightarrow>
     (case sl_timeout sl (pt_ReadTimeout c) of Some e \<Rightarrow> Some (''set serial read timeout: '' @ e) | None \<Rightarrow> None)))"

text \<open>The error, if any, and whether a port was opened and closed again.\<close>

definition Open_port :: "serial_lib \<Rightarrow> port_config \<Rightarrow> string option \<times> bool" where
  "Open_port sl c =
     (case libraryMode c of Inl e \<Rightarrow> (Some e, False) | Inr mode \<Rightarrow>
     (case sl_open sl (pt_Device c) mode of
        Some e \<Rightarrow> (Some (''open serial device '' @ pt_Device c @ '': '' @ e), False)
      | None \<Rightarrow> (case configureOpenedPort sl c of Some e \<Rightarrow> (Some e, True) | None \<Rightarrow> (None, False))))"

section \<open>Configuration and delays\<close>

record serial_bridge_config =
  sb_Port :: port_config
  sb_ReconnectInitial :: duration
  sb_ReconnectMax :: duration
  sb_StableResetAfter :: duration
  sb_MaxRecordBytes :: int

text \<open>The checks of NewBridge, a packet processor being given.\<close>

definition serial_NewBridge :: "serial_bridge_config \<Rightarrow> string + link" where
  "serial_NewBridge c =
     (if sb_ReconnectInitial c \<le> 0 \<or> sb_ReconnectMax c \<le> 0 \<or> sb_ReconnectInitial c > sb_ReconnectMax c
      then Inl ''invalid serial reconnect configuration''
      else if sb_StableResetAfter c \<le> 0 then Inl ''serial stable reset duration must be greater than zero''
      else if sb_MaxRecordBytes c \<le> 0 then Inl ''invalid record limit''
      else Inr (new_link ''serial'' (pt_Device (sb_Port c))))"

definition serial_nextDelay :: "duration \<Rightarrow> duration \<Rightarrow> duration" where
  "serial_nextDelay current maximum = (if current \<ge> maximum div 2 then maximum else current * 2)"

text \<open>The product wraps at 64 bits; quotients truncate towards zero.\<close>

definition serial_jitterDelay :: "(int \<Rightarrow> int) \<Rightarrow> duration \<Rightarrow> duration" where
  "serial_jitterDelay draw delay =
     (let p = wrap64 (delay * 20); window = sgn p * (\<bar>p\<bar> div 100) in
      if window \<le> 0 then delay else delay + (draw (window * 2 + 1) - window))"

definition serial_degrade :: "string option \<Rightarrow> gotime \<Rightarrow> nat \<Rightarrow> link_status \<Rightarrow> link_status" where
  "serial_degrade err now retryCount st = st\<lparr>ls_State := Degraded, ls_ConnectedAt := None,
     ls_RetryCount := retryCount, ls_LastErrorAt := Some now,
     ls_LastError := (case err of None \<Rightarrow> ''serial transport is disconnected: transport unavailable'' | Some e \<Rightarrow> e)\<rparr>"

definition serial_link :: "serial_bridge_config \<Rightarrow> link_ops" where
  "serial_link c = \<lparr>lo_initial = sb_ReconnectInitial c, lo_max = sb_ReconnectMax c,
     lo_stable = sb_StableResetAfter c, lo_next = serial_nextDelay, lo_degrade = serial_degrade\<rparr>"

interpretation sb: link_provider "serial_link c" for c
  by unfold_locales (simp_all add: serial_link_def serial_nextDelay_def serial_degrade_def, presburger+)

text \<open>Run: as the net console's, but the time an attempt took counts from before the port is opened.\<close>

definition serial_Run :: "serial_bridge_config \<Rightarrow> attempt list \<Rightarrow> bridge \<Rightarrow> (string + bridge \<times> duration list)" where
  "serial_Run c attempts b =
     (if br_running b then Inl ''serial transport is already running''
      else Inr (run_loop (serial_link c) serial_jitterDelay (sb_ReconnectInitial c) 0 attempts (b\<lparr>br_running := True\<rparr>)))"

section \<open>Writing\<close>

text \<open>ctx n is the error of the context before the n-th chunk. A count out of range is a short write.\<close>

function serial_write :: "(nat \<Rightarrow> string option) \<Rightarrow> writer \<Rightarrow> nat \<Rightarrow> string \<Rightarrow> string option \<times> string" where
  "serial_write ctx w n data =
     (if data = [] then (None, [])
      else case ctx n of Some e \<Rightarrow> (Some e, []) | None \<Rightarrow>
        (case w n data of
           (written, Some e) \<Rightarrow> (Some e, take written data)
         | (written, None) \<Rightarrow>
             if written = 0 \<or> written > length data then (Some ''short write'', take written data)
             else (let r = serial_write ctx w (n + 1) (drop written data) in (fst r, take written data @ snd r))))"
  by pat_completeness auto
termination
  by (relation "measure (\<lambda>(ctx, w, n, data). length data)") auto

declare serial_write.simps [simp del]

definition serial_SendText ::
    "link_ops \<Rightarrow> string option \<Rightarrow> bool \<Rightarrow> (nat \<Rightarrow> string option) \<Rightarrow> writer \<Rightarrow> gotime
     \<Rightarrow> text_command \<Rightarrow> bridge \<Rightarrow> send_text_error option \<times> string \<times> bridge" where
  "serial_SendText ops identity disableTX ctx w now command b =
     (case Encode identity command of
        Inl e \<Rightarrow> (Some (EncodeFailed e), [], b)
      | Inr line \<Rightarrow>
          if disableTX then (None, [], b)
          else (case connectedSession b of
                  None \<Rightarrow> (Some NotConnected, [], b)
                | Some n \<Rightarrow>
                    (case serial_write ctx w 0 line of
                       (None, sent) \<Rightarrow> (None, sent, b)
                     | (Some e, sent) \<Rightarrow>
                         (Some (TxFailed e), sent,
                          setDegraded ops (Some e) now (ls_RetryCount (br_status b)) (fail_session n e b)))))"

section \<open>Reading\<close>

datatype serial_session_error =
    SerialOpen string | SerialDecoder codec_error | SerialEnable string | SerialRead string

definition serial_source :: "serial_bridge_config \<Rightarrow> packet_source" where
  "serial_source c = \<lparr>so_Transport = ''serial'', so_Endpoint = pt_Device (sb_Port c)\<rparr>"

text \<open>chunks are the reads of the port up to the failing one, readErr its error; processSerialBytes is the net
  console's processBytes with another source.\<close>

definition serial_runSession ::
    "serial_lib \<Rightarrow> 'f json_lib \<Rightarrow> (int \<Rightarrow> 'f) \<Rightarrow> faults \<Rightarrow> gotime \<Rightarrow> serial_bridge_config \<Rightarrow> writer
     \<Rightarrow> string list \<Rightarrow> string \<Rightarrow> string list list option \<times> 'f ingest
     \<Rightarrow> serial_session_error \<times> (string list list option \<times> 'f ingest) option" where
  "serial_runSession sl jl flt f now c w chunks readErr st =
     (case fst (Open_port sl (sb_Port c)) of
        Some e \<Rightarrow> (SerialOpen e, Some st)
      | None \<Rightarrow>
     (case NewDecoder (sb_MaxRecordBytes c) of
        Inl e \<Rightarrow> (SerialDecoder e, Some st)
      | Inr dec \<Rightarrow>
     (case serial_write (\<lambda>n. None) w 0 enablePacketOutputCommand of
        (Some e, sent) \<Rightarrow> (SerialEnable (''enable serial packet output: '' @ e), Some st)
      | (None, sent) \<Rightarrow>
          (SerialRead (if readErr = ''EOF'' then ''EOF'' else ''read serial device: '' @ readErr),
           map_option snd (read_loop jl flt f now (serial_source c) chunks (dec, st))))))"

section \<open>Facts\<close>

lemma serial_write_prefix: "prefix (snd (serial_write ctx w n data)) data"
proof (induction ctx w n data rule: serial_write.induct)
  case (1 ctx w n data)
  obtain k e where k: "w n data = (k, e)" by fastforce
  show ?case
  proof (cases "data \<noteq> [] \<and> ctx n = None \<and> e = None \<and> k \<noteq> 0 \<and> k \<le> length data")
    case True
    then obtain r where "drop k data = snd (serial_write ctx w (n + 1) (drop k data)) @ r"
      using 1 [OF _ _ k [symmetric]] k by (auto simp: prefix_def)
    then have "data = take k data @ snd (serial_write ctx w (n + 1) (drop k data)) @ r"
      by (metis append_take_drop_id)
    then show ?thesis
      using True k by (subst serial_write.simps) (auto simp: Let_def prefix_def)
  qed (use k in \<open>subst serial_write.simps, auto simp: take_is_prefix split: option.split\<close>)
qed

lemma serial_write_complete:
  "fst (serial_write ctx w n data) = None \<Longrightarrow> snd (serial_write ctx w n data) = data"
proof (induction ctx w n data rule: serial_write.induct)
  case (1 ctx w n data)
  obtain k e where k: "w n data = (k, e)" by fastforce
  show ?case
  proof (cases "data = []")
    case False
    then have "ctx n = None" "e = None" "k \<noteq> 0" "k \<le> length data"
      and rest: "fst (serial_write ctx w (n + 1) (drop k data)) = None"
      using 1(2) k by (subst (asm) serial_write.simps; simp add: Let_def split: option.splits if_splits)+
    then show ?thesis
      using 1(1) [OF False _ k [symmetric]] k False by (subst serial_write.simps) (simp add: Let_def)
  qed (simp add: serial_write.simps)
qed

text \<open>A writer that takes at least one byte in each of its first calls, as many as there are bytes.\<close>

definition takes_bytes :: "writer \<Rightarrow> nat \<Rightarrow> nat \<Rightarrow> bool" where
  "takes_bytes w n len \<longleftrightarrow> (\<forall>i d. n \<le> i \<longrightarrow> i < n + len \<longrightarrow> d \<noteq> [] \<longrightarrow>
     (\<exists>k. w i d = (k, None) \<and> 0 < k \<and> k \<le> length d))"

lemma takes_bytes_rest:
  assumes "takes_bytes w n len" "k > 0" "k \<le> len"
  shows "takes_bytes w (n + 1) (len - k)"
  using assms by (auto simp: takes_bytes_def)

lemma takes_first:
  assumes "takes_bytes w n (length data)" "data \<noteq> []"
  obtains k where "w n data = (k, None)" "0 < k" "k \<le> length data"
proof -
  from assms(2) have "n < n + length data" by simp
  with assms that show thesis unfolding takes_bytes_def by blast
qed

lemma serial_write_done:
  "takes_bytes w n (length data) \<Longrightarrow> \<forall>i. n \<le> i \<and> i < n + length data \<longrightarrow> ctx i = None \<Longrightarrow>
   serial_write ctx w n data = (None, data)"
proof (induction ctx w n data rule: serial_write.induct)
  case (1 ctx w n data)
  show ?case
  proof (cases "data = []")
    case False
    obtain k where k: "w n data = (k, None)" "0 < k" "k \<le> length data" by (rule takes_first [OF 1(2) False])
    have c: "ctx n = None" using 1(3) False by simp
    have "\<forall>i. n + 1 \<le> i \<and> i < n + 1 + length (drop k data) \<longrightarrow> ctx i = None" using 1(3) k(2,3) by auto
    then have "serial_write ctx w (n + 1) (drop k data) = (None, drop k data)"
      using 1(1) [OF False c k(1) [symmetric] refl] takes_bytes_rest [OF 1(2) k(2,3)] k(2,3) by auto
    with k c False show ?thesis by (subst serial_write.simps) (simp add: Let_def)
  qed (simp add: serial_write.simps)
qed

lemma writeAll_done: "takes_bytes w n (length data) \<Longrightarrow> writeAll w n data = (None, data)"
proof (induction w n data rule: writeAll.induct)
  case (1 w n data)
  show ?case
  proof (cases "data = []")
    case False
    obtain k where k: "w n data = (k, None)" "0 < k" "k \<le> length data" by (rule takes_first [OF 1(2) False])
    have "writeAll w (n + 1) (drop k data) = (None, drop k data)"
      using 1(1) [OF False k(1) [symmetric] refl] takes_bytes_rest [OF 1(2) k(2,3)] k(2) by auto
    with k False show ?thesis by (subst writeAll.simps) (simp add: Let_def)
  qed (simp add: writeAll.simps)
qed


definition one_byte_writer :: writer where
  "one_byte_writer = (\<lambda>i d. (1, None))"


lemma serial_jitter_bounds:
  assumes "\<And>n. 0 < n \<Longrightarrow> 0 \<le> draw n \<and> draw n < n" "0 < d" "d * 20 \<le> max_int64"
  shows "d - d div 5 \<le> serial_jitterDelay draw d \<and> serial_jitterDelay draw d \<le> d + d div 5"
proof -
  have w: "wrap64 (d * 20) = d * 20" using assms(2,3) by (intro wrap64_id) (simp_all add: min_int64_def)
  have "d * 20 div 100 = d div 5" by simp
  then show ?thesis
    using assms(1) [of "d div 5 * 2 + 1"] assms(2) by (auto simp: serial_jitterDelay_def w Let_def sgn_if)
qed

section \<open>Properties\<close>

text \<open>every wait of the serial bridge is within a fifth of a delay that is between the first one and the
  maximum, so it may exceed the maximum by a fifth.\<close>

theorem serial_waits_near_delay:
  assumes "serial_NewBridge c = Inr s0" "sb_ReconnectMax c * 20 \<le> max_int64"
    and "\<forall>a \<in> set as. \<forall>n > 0. 0 \<le> at_draw a n \<and> at_draw a n < n"
    and "serial_Run c as (lk_bridge s0) = Inr (b', waits)" "wt \<in> set waits"
  shows "\<exists>d. sb_ReconnectInitial c \<le> d \<and> d \<le> sb_ReconnectMax c \<and> d - d div 5 \<le> wt \<and> wt \<le> d + d div 5"
proof -
  have c: "0 < lo_initial (serial_link c)" "lo_initial (serial_link c) \<le> lo_max (serial_link c)"
    using assms(1) by (auto simp: serial_NewBridge_def serial_link_def split: if_splits)
  have "wt \<in> set (snd (run_loop (serial_link c) serial_jitterDelay (lo_initial (serial_link c)) 0 as
      ((lk_bridge s0)\<lparr>br_running := True\<rparr>)))"
    using assms(4,5) by (auto simp: serial_Run_def serial_link_def split: if_splits)
  then obtain a d where d: "a \<in> set as" "lo_initial (serial_link c) \<le> d" "d \<le> lo_max (serial_link c)"
      "wt = serial_jitterDelay (at_draw a) d"
    using sb.run_loop_delays [OF c order.refl c(2)] by blast
  moreover have "d - d div 5 \<le> wt \<and> wt \<le> d + d div 5"
    unfolding d(4) by (rule serial_jitter_bounds) (use assms(2,3) d c in \<open>auto simp: serial_link_def\<close>)
  ultimately show ?thesis by (auto simp: serial_link_def)
qed

definition example_serial_config :: serial_bridge_config where
  "example_serial_config = \<lparr>sb_Port = \<lparr>pt_Device = ''/dev/ttyUSB0'', pt_Baud = 115200, pt_DataBits = 8, pt_Parity = ''none'',
     pt_StopBits = 1, pt_DTR = False, pt_RTS = False, pt_ReadTimeout = 1\<rparr>,
     sb_ReconnectInitial = 100, sb_ReconnectMax = 100, sb_StableResetAfter = 100, sb_MaxRecordBytes = 4096\<rparr>"

text \<open>The wait of the example is 120 where the maximum is 100.\<close>

theorem serial_waits_near_delay_witness:
  "\<exists>d. 100 \<le> d \<and> d \<le> 100 \<and> d - d div 5 \<le> 120 \<and> 120 \<le> d + d div (5 :: int)"
proof -
  let ?s0 = "new_link ''serial'' ''/dev/ttyUSB0''"
  have "serial_NewBridge example_serial_config = Inr ?s0"
    by (simp add: serial_NewBridge_def example_serial_config_def)
  moreover obtain b' where "serial_Run example_serial_config [example_attempt] (lk_bridge ?s0) = Inr (b', [120])"
    by (simp add: serial_Run_def new_link_def example_attempt_def example_serial_config_def serial_link_def Let_def
        serial_jitterDelay_def wrap64_def)
  ultimately show ?thesis
    using serial_waits_near_delay [of example_serial_config ?s0 "[example_attempt]" _ "[120]" 120]
    by (simp add: example_serial_config_def example_attempt_def max_int64_def)
qed

text \<open>however Run and any number of SendText calls interleave, a session is handed to a writer only while Run is
  reading from it, and the delay stays between the first one and the maximum.\<close>

theorem serial_link_safe:
  assumes "serial_NewBridge c = Inr s0" "link_reach (serial_link c) s0 s"
  shows "(connectedSession (lk_bridge s) = Some n \<longrightarrow> lk_runner s = Reading n) \<and>
    (lk_runner s \<noteq> Idle \<longrightarrow> sb_ReconnectInitial c \<le> lk_delay s \<and> lk_delay s \<le> sb_ReconnectMax c)"
proof -
  have s0: "s0 = new_link ''serial'' (pt_Device (sb_Port c))"
    using assms(1) by (auto simp: serial_NewBridge_def split: if_splits)
  have c: "0 < lo_initial (serial_link c)" "lo_initial (serial_link c) \<le> lo_max (serial_link c)"
    using assms(1) by (auto simp: serial_NewBridge_def serial_link_def split: if_splits)
  have si: "session_inv s" "status_inv s"
    by (rule session_reach [OF assms(2)], simp only: s0 new_link_inv)
       (rule sb.status_reach [OF assms(2)], simp only: s0 new_link_inv)
  have "delay_inv (serial_link c) s"
    by (rule sb.delay_reach [OF assms(2) c]) (simp only: s0 new_link_inv)
  then have "lk_runner s \<noteq> Idle \<longrightarrow> sb_ReconnectInitial c \<le> lk_delay s \<and> lk_delay s \<le> sb_ReconnectMax c"
    by (simp add: delay_inv_def serial_link_def)
  then show ?thesis using sb.picked_is_read [OF si, of n] by blast
qed

theorem serial_link_safe_witness:
  "\<exists>s. link_run (serial_link example_serial_config) [Start, TryOpen, OpenWorks, Install, Enabled 1]
       (new_link ''serial'' ''/dev/ttyUSB0'') = Some s \<and> lk_runner s = Reading 0 \<and> lk_delay s \<le> 100"
proof -
  let ?s0 = "new_link ''serial'' ''/dev/ttyUSB0''"
  obtain s where s: "link_run (serial_link example_serial_config) [Start, TryOpen, OpenWorks, Install, Enabled 1] ?s0 = Some s"
      "connectedSession (lk_bridge s) = Some 0" "lk_runner s \<noteq> Idle"
    by (simp add: link_action_def run_action_def new_link_def connectedSession_def serial_link_def to_runner_def
        example_serial_config_def)
  have "serial_NewBridge example_serial_config = Inr ?s0"
    by (simp add: serial_NewBridge_def example_serial_config_def)
  from serial_link_safe [OF this link_run_reach [OF s(1) link_reach.start], of 0] s
  show ?thesis by (simp add: example_serial_config_def)
qed

text \<open>a serial session processes exactly the payloads of the lines it reads, in their order, however the reads
  split the bytes.\<close>

theorem serial_session_stream:
  assumes "fst (Open_port sl (sb_Port c)) = None" "0 < sb_MaxRecordBytes c"
    and "fst (serial_write (\<lambda>n. None) w 0 enablePacketOutputCommand) = None"
  shows "snd (serial_runSession sl jl flt f now c w chunks readErr st) =
    process_payloads jl flt f now (serial_source c)
      (dr_payloads (lines_result (sb_MaxRecordBytes c) (split_on CHR 0x0A (concat chunks)))) st"
proof -
  obtain dec where dec: "NewDecoder (sb_MaxRecordBytes c) = Inr dec" using assms(2) by (simp add: NewDecoder_def)
  then have "snd (Feed dec (concat chunks)) = lines_result (sb_MaxRecordBytes c) (split_on CHR 0x0A (concat chunks))"
    by (simp add: Feed_stream [OF dec] decode_stream_def Let_def)
  then show ?thesis
    using assms dec
    by (cases "serial_write (\<lambda>n. None) w 0 enablePacketOutputCommand")
       (simp add: serial_runSession_def read_loop_stream)
qed

definition example_serial_lib :: serial_lib where
  "example_serial_lib = \<lparr>sl_open = (\<lambda>d m. None), sl_dtr = (\<lambda>b. None), sl_rts = (\<lambda>b. None), sl_timeout = (\<lambda>d. None)\<rparr>"

theorem serial_session_stream_witness:
  "snd (serial_runSession example_serial_lib example_lib id no_faults 1 example_serial_config (\<lambda>n data. (1, None))
      [''[EXT] Ou'', ''t: {}'' @ [CHR 0x0A] @ ''x''] ''EOF'' (None, example_ingest)) =
   process_payloads example_lib id no_faults 1 (serial_source example_serial_config) [''{}''] (None, example_ingest)"
proof -
  have "fst (Open_port example_serial_lib (sb_Port example_serial_config)) = None" by code_simp
  moreover have "0 < sb_MaxRecordBytes example_serial_config" by (simp add: example_serial_config_def)
  moreover have "fst (serial_write (\<lambda>n. None) (\<lambda>n data. (1, None)) 0 enablePacketOutputCommand) = None" by code_simp
  moreover have "dr_payloads (lines_result (sb_MaxRecordBytes example_serial_config)
      (split_on CHR 0x0A (concat [''[EXT] Ou'', ''t: {}'' @ [CHR 0x0A] @ ''x'']))) = [''{}'']" by code_simp
  ultimately show ?thesis by (simp only: serial_session_stream)
qed

end
