(* ===== verification/ConfigApi.thy ===== *)
theory ConfigApi
  imports ConfigFile Station
begin

text \<open>
  internal/httpapi/configapi.go (PUT and GET /api/config) and station.go: what a partial update makes of
  the configuration of the running server, of the configuration file and of the station identity. The
  body of a request is decoded by encoding/json, so a request is the decoded struct or None. The texts of
  errors are kept up to what the library adds to them.
\<close>

section \<open>The request\<close>

record update_serial =
  us_Device :: "string option"
  us_Baud :: "int option"
  us_DataBits :: "int option"
  us_Parity :: "string option"
  us_StopBits :: "int option"
  us_FlowControl :: "string option"
  us_DTR :: "bool option"
  us_RTS :: "bool option"
  us_ReadTimeout :: "string option"
  us_ReconnectInitial :: "string option"
  us_ReconnectMax :: "string option"
  us_StableResetAfter :: "string option"
  us_MaxRecordBytes :: "int option"

record update_netconsole =
  un_Address :: "string option"
  un_Password :: "string option"
  un_ConnectTimeout :: "string option"
  un_AuthTimeout :: "string option"
  un_WriteTimeout :: "string option"
  un_ReconnectInitial :: "string option"
  un_ReconnectMax :: "string option"
  un_StableResetAfter :: "string option"
  un_MaxAuthLineBytes :: "int option"
  un_MaxRecordBytes :: "int option"

record update_receive_log =
  ur_Enabled :: "bool option"
  ur_ReplayWindow :: "string option"

record update_stats =
  ut_Enabled :: "bool option"
  ut_RetentionDays :: "int option"

record update_chat_log =
  uc_HistoryWindow :: "string option"
  uc_MaxHistoryWindow :: "string option"

record update_send =
  ud_DedupTTL :: "string option"

record update_forward =
  uf_Targets :: "string option"

record update_auth =
  ua_Username :: "string option"
  ua_Password :: "string option"
  ua_SessionTTL :: "string option"
  ua_CookieName :: "string option"

record update_request_log =
  uq_Enabled :: "bool option"

record update_storage =
  ug_SQLitePath :: "string option"
  ug_PurgeInterval :: "string option"
  ug_ReceiveLogRetention :: "string option"
  ug_PublicChatRetention :: "string option"
  ug_NodesRetention :: "string option"
  ug_TelemetryRetention :: "string option"

record update_request =
  ur0_HTTPAddr :: "string option"
  ur0_TransportMode :: "string option"
  ur0_UDPListenAddr :: "string option"
  ur0_NodeAddr :: "string option"
  ur0_MyCall :: "string option"
  ur0_MaxMessageLength :: "int option"
  ur0_LogLevel :: "string option"
  ur0_ReceiveLog :: "update_receive_log option"
  ur0_Stats :: "update_stats option"
  ur0_ChatLog :: "update_chat_log option"
  ur0_Send :: "update_send option"
  ur0_Forward :: "update_forward option"
  ur0_Auth :: "update_auth option"
  ur0_RequestLog :: "update_request_log option"
  ur0_Storage :: "update_storage option"
  ur0_Serial :: "update_serial option"
  ur0_NetConsole :: "update_netconsole option"

definition passwordMask :: string where
  "passwordMask = ''****''"

section \<open>Fields managed by the environment\<close>

definition section_checks :: "('u \<Rightarrow> (bool \<times> string) list) \<Rightarrow> 'u option \<Rightarrow> (bool \<times> string) list" where
  "section_checks f u = (case u of None \<Rightarrow> [] | Some x \<Rightarrow> f x)"

definition top_checks :: "update_request \<Rightarrow> (bool \<times> string) list" where
  "top_checks req =
     [(ur0_HTTPAddr req \<noteq> None, ''HTTP_ADDR''),
      (ur0_TransportMode req \<noteq> None, ''TRANSPORT_MODE''),
      (ur0_UDPListenAddr req \<noteq> None, ''UDP_LISTEN_ADDR''),
      (ur0_NodeAddr req \<noteq> None, ''NODE_ADDR''),
      (ur0_MyCall req \<noteq> None, ''MY_CALL''),
      (ur0_MaxMessageLength req \<noteq> None, ''MAX_MESSAGE_LENGTH''),
      (ur0_LogLevel req \<noteq> None, ''LOG_LEVEL'')]"

definition serial_checks :: "update_serial \<Rightarrow> (bool \<times> string) list" where
  "serial_checks u =
     [(us_Device u \<noteq> None, ''SERIAL_DEVICE''),
      (us_Baud u \<noteq> None, ''SERIAL_BAUD''),
      (us_DataBits u \<noteq> None, ''SERIAL_DATA_BITS''),
      (us_Parity u \<noteq> None, ''SERIAL_PARITY''),
      (us_StopBits u \<noteq> None, ''SERIAL_STOP_BITS''),
      (us_FlowControl u \<noteq> None, ''SERIAL_FLOW_CONTROL''),
      (us_DTR u \<noteq> None, ''SERIAL_DTR''),
      (us_RTS u \<noteq> None, ''SERIAL_RTS''),
      (us_ReadTimeout u \<noteq> None, ''SERIAL_READ_TIMEOUT''),
      (us_ReconnectInitial u \<noteq> None, ''SERIAL_RECONNECT_INITIAL''),
      (us_ReconnectMax u \<noteq> None, ''SERIAL_RECONNECT_MAX''),
      (us_StableResetAfter u \<noteq> None, ''SERIAL_STABLE_RESET_AFTER''),
      (us_MaxRecordBytes u \<noteq> None, ''SERIAL_MAX_RECORD_BYTES'')]"

definition upd_netconsole_checks :: "update_netconsole \<Rightarrow> (bool \<times> string) list" where
  "upd_netconsole_checks u =
     [(un_Address u \<noteq> None, ''NETCONSOLE_ADDRESS''),
      ((case un_Password u of None \<Rightarrow> False | Some p \<Rightarrow> p \<noteq> passwordMask), ''NETCONSOLE_PASSWORD''),
      (un_ConnectTimeout u \<noteq> None, ''NETCONSOLE_CONNECT_TIMEOUT''),
      (un_AuthTimeout u \<noteq> None, ''NETCONSOLE_AUTH_TIMEOUT''),
      (un_WriteTimeout u \<noteq> None, ''NETCONSOLE_WRITE_TIMEOUT''),
      (un_ReconnectInitial u \<noteq> None, ''NETCONSOLE_RECONNECT_INITIAL''),
      (un_ReconnectMax u \<noteq> None, ''NETCONSOLE_RECONNECT_MAX''),
      (un_StableResetAfter u \<noteq> None, ''NETCONSOLE_STABLE_RESET_AFTER''),
      (un_MaxAuthLineBytes u \<noteq> None, ''NETCONSOLE_MAX_AUTH_LINE_BYTES''),
      (un_MaxRecordBytes u \<noteq> None, ''NETCONSOLE_MAX_RECORD_BYTES'')]"

definition receive_log_checks :: "update_receive_log \<Rightarrow> (bool \<times> string) list" where
  "receive_log_checks u =
     [(ur_Enabled u \<noteq> None, ''RECEIVE_LOG_ENABLED''),
      (ur_ReplayWindow u \<noteq> None, ''RECEIVE_LOG_REPLAY_WINDOW'')]"

definition stats_checks :: "update_stats \<Rightarrow> (bool \<times> string) list" where
  "stats_checks u =
     [(ut_Enabled u \<noteq> None, ''STATS_ENABLED''),
      (ut_RetentionDays u \<noteq> None, ''STATS_RETENTION_DAYS'')]"

definition chat_log_checks :: "update_chat_log \<Rightarrow> (bool \<times> string) list" where
  "chat_log_checks u =
     [(uc_HistoryWindow u \<noteq> None, ''CHAT_LOG_HISTORY_WINDOW''),
      (uc_MaxHistoryWindow u \<noteq> None, ''CHAT_LOG_MAX_HISTORY_WINDOW'')]"

definition send_checks :: "update_send \<Rightarrow> (bool \<times> string) list" where
  "send_checks u =
     [(ud_DedupTTL u \<noteq> None, ''SEND_DEDUP_TTL'')]"

definition forward_checks :: "update_forward \<Rightarrow> (bool \<times> string) list" where
  "forward_checks u =
     [(uf_Targets u \<noteq> None, ''FORWARD_TARGETS'')]"

definition upd_auth_checks :: "update_auth \<Rightarrow> (bool \<times> string) list" where
  "upd_auth_checks u =
     [(ua_Username u \<noteq> None, ''AUTH_USERNAME''),
      ((case ua_Password u of None \<Rightarrow> False | Some p \<Rightarrow> p \<noteq> [] \<and> p \<noteq> passwordMask), ''AUTH_PASSWORD''),
      (ua_SessionTTL u \<noteq> None, ''AUTH_SESSION_TTL''),
      (ua_CookieName u \<noteq> None, ''AUTH_COOKIE_NAME'')]"

definition request_log_checks :: "update_request_log \<Rightarrow> (bool \<times> string) list" where
  "request_log_checks u =
     [(uq_Enabled u \<noteq> None, ''REQUEST_LOG_ENABLED'')]"

definition upd_storage_checks :: "update_storage \<Rightarrow> (bool \<times> string) list" where
  "upd_storage_checks u =
     [(ug_SQLitePath u \<noteq> None, ''STORAGE_SQLITE_PATH''),
      (ug_PurgeInterval u \<noteq> None, ''STORAGE_PURGE_INTERVAL''),
      (ug_ReceiveLogRetention u \<noteq> None, ''STORAGE_RECEIVE_LOG_RETENTION''),
      (ug_PublicChatRetention u \<noteq> None, ''STORAGE_PUBLIC_CHAT_RETENTION''),
      (ug_NodesRetention u \<noteq> None, ''STORAGE_NODES_RETENTION''),
      (ug_TelemetryRetention u \<noteq> None, ''STORAGE_TELEMETRY_RETENTION'')]"

definition request_checks :: "update_request \<Rightarrow> (bool \<times> string) list" where
  "request_checks req = top_checks req @
     section_checks receive_log_checks (ur0_ReceiveLog req) @
     section_checks stats_checks (ur0_Stats req) @
     section_checks chat_log_checks (ur0_ChatLog req) @
     section_checks send_checks (ur0_Send req) @
     section_checks forward_checks (ur0_Forward req) @
     section_checks upd_auth_checks (ur0_Auth req) @
     section_checks request_log_checks (ur0_RequestLog req) @
     section_checks upd_storage_checks (ur0_Storage req) @
     section_checks serial_checks (ur0_Serial req) @
     section_checks upd_netconsole_checks (ur0_NetConsole req)"

text \<open>The suffix of the first variable that manages a given field.\<close>

definition checkEnvLocked :: "update_request \<Rightarrow> (string \<Rightarrow> bool) \<Rightarrow> string option" where
  "checkEnvLocked req env = map_option snd (find (\<lambda>(present, v). present \<and> env v) (request_checks req))"

section \<open>Applying the request\<close>

definition given :: "'a option \<Rightarrow> 'a \<Rightarrow> 'a" where
  "given v old = (case v of None \<Rightarrow> old | Some x \<Rightarrow> x)"

definition try_with :: "string + 'a \<Rightarrow> ('a \<Rightarrow> string + 'b) \<Rightarrow> string + 'b" where
  "try_with r k = (case r of Inl e \<Rightarrow> Inl e | Inr x \<Rightarrow> k x)"

text \<open>A duration of the request, read by parse, or the old one; the error names the field.\<close>

definition new_duration :: "(string \<Rightarrow> duration option) \<Rightarrow> string \<Rightarrow> string option \<Rightarrow> duration \<Rightarrow> string + duration" where
  "new_duration parse field v old =
     (case v of None \<Rightarrow> Inr old
      | Some t \<Rightarrow> (case parse t of None \<Rightarrow> Inl field | Some d \<Rightarrow> Inr d))"

definition in_section :: "('u \<Rightarrow> 'c \<Rightarrow> string + 'c) \<Rightarrow> 'u option \<Rightarrow> 'c \<Rightarrow> string + 'c" where
  "in_section f u c = (case u of None \<Rightarrow> Inr c | Some x \<Rightarrow> f x c)"

definition applySerialUpdate :: "(nat \<Rightarrow> nat \<Rightarrow> nat \<Rightarrow> nat) \<Rightarrow> update_serial \<Rightarrow> serial_cfg \<Rightarrow> string + serial_cfg" where
  "applySerialUpdate fmul u c =
     try_with (new_duration (ParseDuration fmul) ''serial.read_timeout'' (us_ReadTimeout u) (sr_ReadTimeout c)) (\<lambda>v_ReadTimeout.
     try_with (new_duration (ParseDuration fmul) ''serial.reconnect_initial'' (us_ReconnectInitial u) (sr_ReconnectInitial c)) (\<lambda>v_ReconnectInitial.
     try_with (new_duration (ParseDuration fmul) ''serial.reconnect_max'' (us_ReconnectMax u) (sr_ReconnectMax c)) (\<lambda>v_ReconnectMax.
     try_with (new_duration (ParseDuration fmul) ''serial.stable_reset_after'' (us_StableResetAfter u) (sr_StableResetAfter c)) (\<lambda>v_StableResetAfter.
       Inr (c\<lparr>sr_Device := given (us_Device u) (sr_Device c),
         sr_Baud := given (us_Baud u) (sr_Baud c),
         sr_DataBits := given (us_DataBits u) (sr_DataBits c),
         sr_Parity := given (us_Parity u) (sr_Parity c),
         sr_StopBits := given (us_StopBits u) (sr_StopBits c),
         sr_FlowControl := given (us_FlowControl u) (sr_FlowControl c),
         sr_DTR := given (us_DTR u) (sr_DTR c),
         sr_RTS := given (us_RTS u) (sr_RTS c),
         sr_ReadTimeout := v_ReadTimeout,
         sr_ReconnectInitial := v_ReconnectInitial,
         sr_ReconnectMax := v_ReconnectMax,
         sr_StableResetAfter := v_StableResetAfter,
         sr_MaxRecordBytes := given (us_MaxRecordBytes u) (sr_MaxRecordBytes c)\<rparr>)))))"

definition applyNetConsoleUpdate :: "(nat \<Rightarrow> nat \<Rightarrow> nat \<Rightarrow> nat) \<Rightarrow> update_netconsole \<Rightarrow> netconsole_cfg \<Rightarrow> string + netconsole_cfg" where
  "applyNetConsoleUpdate fmul u c =
     try_with (new_duration (ParseDuration fmul) ''netconsole.connect_timeout'' (un_ConnectTimeout u) (nc_ConnectTimeout c)) (\<lambda>v_ConnectTimeout.
     try_with (new_duration (ParseDuration fmul) ''netconsole.auth_timeout'' (un_AuthTimeout u) (nc_AuthTimeout c)) (\<lambda>v_AuthTimeout.
     try_with (new_duration (ParseDuration fmul) ''netconsole.write_timeout'' (un_WriteTimeout u) (nc_WriteTimeout c)) (\<lambda>v_WriteTimeout.
     try_with (new_duration (ParseDuration fmul) ''netconsole.reconnect_initial'' (un_ReconnectInitial u) (nc_ReconnectInitial c)) (\<lambda>v_ReconnectInitial.
     try_with (new_duration (ParseDuration fmul) ''netconsole.reconnect_max'' (un_ReconnectMax u) (nc_ReconnectMax c)) (\<lambda>v_ReconnectMax.
     try_with (new_duration (ParseDuration fmul) ''netconsole.stable_reset_after'' (un_StableResetAfter u) (nc_StableResetAfter c)) (\<lambda>v_StableResetAfter.
       Inr (c\<lparr>nc_Address := given (un_Address u) (nc_Address c),
         nc_Password := (case un_Password u of None \<Rightarrow> nc_Password c | Some p \<Rightarrow> if p = passwordMask then nc_Password c else p),
         nc_ConnectTimeout := v_ConnectTimeout,
         nc_AuthTimeout := v_AuthTimeout,
         nc_WriteTimeout := v_WriteTimeout,
         nc_ReconnectInitial := v_ReconnectInitial,
         nc_ReconnectMax := v_ReconnectMax,
         nc_StableResetAfter := v_StableResetAfter,
         nc_MaxAuthLineBytes := given (un_MaxAuthLineBytes u) (nc_MaxAuthLineBytes c),
         nc_MaxRecordBytes := given (un_MaxRecordBytes u) (nc_MaxRecordBytes c)\<rparr>)))))))"

definition apply_receive_log :: "(nat \<Rightarrow> nat \<Rightarrow> nat \<Rightarrow> nat) \<Rightarrow> update_receive_log \<Rightarrow> receive_log_cfg \<Rightarrow> string + receive_log_cfg" where
  "apply_receive_log fmul u c =
     try_with (new_duration (parse_go_duration fmul) ''receive_log.replay_window'' (ur_ReplayWindow u) (rv_ReplayWindow c)) (\<lambda>v_ReplayWindow.
       Inr (c\<lparr>rv_Enabled := given (ur_Enabled u) (rv_Enabled c),
         rv_ReplayWindow := v_ReplayWindow\<rparr>))"

definition apply_stats :: "update_stats \<Rightarrow> stats_cfg \<Rightarrow> stats_cfg" where
  "apply_stats u c = c\<lparr>sa_Enabled := given (ut_Enabled u) (sa_Enabled c),
         sa_RetentionDays := given (ut_RetentionDays u) (sa_RetentionDays c)\<rparr>"

definition apply_chat_log :: "(nat \<Rightarrow> nat \<Rightarrow> nat \<Rightarrow> nat) \<Rightarrow> update_chat_log \<Rightarrow> chat_log_cfg \<Rightarrow> string + chat_log_cfg" where
  "apply_chat_log fmul u c =
     try_with (new_duration (parse_go_duration fmul) ''chat_log.history_window'' (uc_HistoryWindow u) (cl_HistoryWindow c)) (\<lambda>v_HistoryWindow.
     try_with (new_duration (parse_go_duration fmul) ''chat_log.max_history_window'' (uc_MaxHistoryWindow u) (cl_MaxHistoryWindow c)) (\<lambda>v_MaxHistoryWindow.
       Inr (c\<lparr>cl_HistoryWindow := v_HistoryWindow,
         cl_MaxHistoryWindow := v_MaxHistoryWindow\<rparr>)))"

definition apply_send :: "(nat \<Rightarrow> nat \<Rightarrow> nat \<Rightarrow> nat) \<Rightarrow> update_send \<Rightarrow> send_cfg \<Rightarrow> string + send_cfg" where
  "apply_send fmul u c =
     try_with (new_duration (parse_go_duration fmul) ''send.dedup_ttl'' (ud_DedupTTL u) (sd_DedupTTL c)) (\<lambda>v_DedupTTL.
       Inr (c\<lparr>sd_DedupTTL := v_DedupTTL\<rparr>))"

definition apply_forward :: "update_forward \<Rightarrow> forward_cfg \<Rightarrow> forward_cfg" where
  "apply_forward u c = c\<lparr>fw_Targets := given (uf_Targets u) (fw_Targets c)\<rparr>"

definition apply_auth :: "(nat \<Rightarrow> nat \<Rightarrow> nat \<Rightarrow> nat) \<Rightarrow> update_auth \<Rightarrow> auth_cfg \<Rightarrow> string + auth_cfg" where
  "apply_auth fmul u c =
     try_with (new_duration (parse_go_duration fmul) ''auth.session_ttl'' (ua_SessionTTL u) (au_SessionTTL c)) (\<lambda>v_SessionTTL.
       Inr (c\<lparr>au_Username := given (ua_Username u) (au_Username c),
         au_Password := (case ua_Password u of None \<Rightarrow> au_Password c | Some p \<Rightarrow> if p = [] \<or> p = passwordMask then au_Password c else p),
         au_SessionTTL := v_SessionTTL,
         au_CookieName := given (ua_CookieName u) (au_CookieName c)\<rparr>))"

definition apply_request_log :: "update_request_log \<Rightarrow> request_log_cfg \<Rightarrow> request_log_cfg" where
  "apply_request_log u c = c\<lparr>rq_Enabled := given (uq_Enabled u) (rq_Enabled c)\<rparr>"

definition apply_storage :: "(nat \<Rightarrow> nat \<Rightarrow> nat \<Rightarrow> nat) \<Rightarrow> update_storage \<Rightarrow> storage_cfg \<Rightarrow> string + storage_cfg" where
  "apply_storage fmul u c =
     try_with (new_duration (ParseDuration fmul) ''storage.purge_interval'' (ug_PurgeInterval u) (sg_PurgeInterval c)) (\<lambda>v_PurgeInterval.
     try_with (new_duration (ParseDuration fmul) ''storage.receive_log_retention'' (ug_ReceiveLogRetention u) (sg_ReceiveLogRetention c)) (\<lambda>v_ReceiveLogRetention.
     try_with (new_duration (ParseDuration fmul) ''storage.public_chat_retention'' (ug_PublicChatRetention u) (sg_PublicChatRetention c)) (\<lambda>v_PublicChatRetention.
     try_with (new_duration (ParseDuration fmul) ''storage.nodes_retention'' (ug_NodesRetention u) (sg_NodesRetention c)) (\<lambda>v_NodesRetention.
     try_with (new_duration (ParseDuration fmul) ''storage.telemetry_retention'' (ug_TelemetryRetention u) (sg_TelemetryRetention c)) (\<lambda>v_TelemetryRetention.
       Inr (c\<lparr>sg_SQLitePath := given (ug_SQLitePath u) (sg_SQLitePath c),
         sg_PurgeInterval := v_PurgeInterval,
         sg_ReceiveLogRetention := v_ReceiveLogRetention,
         sg_PublicChatRetention := v_PublicChatRetention,
         sg_NodesRetention := v_NodesRetention,
         sg_TelemetryRetention := v_TelemetryRetention\<rparr>))))))"

definition apply_request :: "(nat \<Rightarrow> nat \<Rightarrow> nat \<Rightarrow> nat) \<Rightarrow> update_request \<Rightarrow> config \<Rightarrow> string + config" where
  "apply_request fmul req c =
     try_with (in_section (apply_receive_log fmul) (ur0_ReceiveLog req) (cf_ReceiveLog c)) (\<lambda>v_ReceiveLog.
     try_with (in_section (apply_chat_log fmul) (ur0_ChatLog req) (cf_ChatLog c)) (\<lambda>v_ChatLog.
     try_with (in_section (apply_send fmul) (ur0_Send req) (cf_Send c)) (\<lambda>v_Send.
     try_with (in_section (apply_auth fmul) (ur0_Auth req) (cf_Auth c)) (\<lambda>v_Auth.
     try_with (in_section (apply_storage fmul) (ur0_Storage req) (cf_Storage c)) (\<lambda>v_Storage.
     try_with (in_section (applySerialUpdate fmul) (ur0_Serial req) (cf_Serial c)) (\<lambda>v_Serial.
     try_with (in_section (applyNetConsoleUpdate fmul) (ur0_NetConsole req) (cf_NetConsole c)) (\<lambda>v_NetConsole.
       Inr (c\<lparr>cf_HTTPAddr := given (ur0_HTTPAddr req) (cf_HTTPAddr c),
         cf_TransportMode := given (ur0_TransportMode req) (cf_TransportMode c),
         cf_UDPListenAddr := given (ur0_UDPListenAddr req) (cf_UDPListenAddr c),
         cf_NodeAddr := given (ur0_NodeAddr req) (cf_NodeAddr c),
         cf_MyCall := given (ur0_MyCall req) (cf_MyCall c),
         cf_MaxMessageLength := given (ur0_MaxMessageLength req) (cf_MaxMessageLength c),
         cf_LogLevel := given (ur0_LogLevel req) (cf_LogLevel c),
         cf_ReceiveLog := v_ReceiveLog,
         cf_Stats := merge_section apply_stats (ur0_Stats req) (cf_Stats c),
         cf_ChatLog := v_ChatLog,
         cf_Send := v_Send,
         cf_Forward := merge_section apply_forward (ur0_Forward req) (cf_Forward c),
         cf_Auth := v_Auth,
         cf_RequestLog := merge_section apply_request_log (ur0_RequestLog req) (cf_RequestLog c),
         cf_Storage := v_Storage,
         cf_Serial := v_Serial,
         cf_NetConsole := v_NetConsole\<rparr>))))))))"

text \<open>requiresRestart: every field but the callsign, the log level, the chat windows, the send window and the
  request log, and any serial or net console section.\<close>

definition restart_needed :: "update_request \<Rightarrow> bool" where
  "restart_needed req \<longleftrightarrow>
     ur0_HTTPAddr req \<noteq> None \<or> ur0_TransportMode req \<noteq> None \<or> ur0_UDPListenAddr req \<noteq> None \<or>
     ur0_NodeAddr req \<noteq> None \<or> ur0_MaxMessageLength req \<noteq> None \<or>
     (case ur0_ReceiveLog req of None \<Rightarrow> False | Some u \<Rightarrow> ur_Enabled u \<noteq> None \<or> ur_ReplayWindow u \<noteq> None) \<or>
     (case ur0_Stats req of None \<Rightarrow> False | Some u \<Rightarrow> ut_Enabled u \<noteq> None \<or> ut_RetentionDays u \<noteq> None) \<or>
     (case ur0_Forward req of None \<Rightarrow> False | Some u \<Rightarrow> uf_Targets u \<noteq> None) \<or>
     (case ur0_Auth req of None \<Rightarrow> False
      | Some u \<Rightarrow> list_ex fst (upd_auth_checks u)) \<or>
     (case ur0_Storage req of None \<Rightarrow> False | Some u \<Rightarrow> list_ex fst (upd_storage_checks u)) \<or>
     ur0_Serial req \<noteq> None \<or> ur0_NetConsole req \<noteq> None"

section \<open>The handlers\<close>

text \<open>The part of the server these handlers use. The table is the row of station_identity.\<close>

record config_server =
  cs_cfg :: config
  cs_env :: "string \<Rightarrow> bool"
  cs_toml :: bool
  cs_file :: disk_file
  cs_identity :: "identity option"
  cs_row :: "string option"
  cs_version :: string

record station_event =
  se_Callsign :: string
  se_Version :: string
  se_TxDisabled :: bool
  se_ForwardTargetCount :: nat

datatype put_reply =
    PutForbidden | PutInvalidJson | PutConflict string | PutBadRequest string | PutPersistFailed | PutUpdated bool

definition target_count :: "net_lib \<Rightarrow> config \<Rightarrow> nat" where
  "target_count nl cfg = (case ParseForwardTargets nl (fw_Targets (cf_Forward cfg)) of Inl e \<Rightarrow> 0 | Inr ts \<Rightarrow> length ts)"

definition station_event_of :: "net_lib \<Rightarrow> string \<Rightarrow> string \<Rightarrow> config \<Rightarrow> station_event" where
  "station_event_of nl callsign version cfg = \<lparr>se_Callsign = callsign, se_Version = version,
     se_TxDisabled = cf_DemoMode cfg, se_ForwardTargetCount = target_count nl cfg\<rparr>"

definition SaveIfDirty :: "bool \<Rightarrow> identity \<Rightarrow> string option \<Rightarrow> identity \<times> string option" where
  "SaveIfDirty ok idn row =
     (case identity_begin idn of
        (idn1, None) \<Rightarrow> (idn1, row)
      | (idn1, Some v) \<Rightarrow> if ok then (idn1, identity_write v row) else (identity_failed v idn1, row))"

text \<open>saved says whether the identity's table can be written; the event is published when there is a bus.\<close>

definition updateConfig ::
    "net_lib \<Rightarrow> (nat \<Rightarrow> nat \<Rightarrow> nat \<Rightarrow> nat) \<Rightarrow> string option \<times> string option \<times> string option \<Rightarrow> bool
     \<Rightarrow> update_request option \<Rightarrow> config_server \<Rightarrow> put_reply \<times> station_event option \<times> config_server" where
  "updateConfig nl fmul faults saved body s =
     (if cf_DemoMode (cs_cfg s) then (PutForbidden, None, s) else
     (case body of None \<Rightarrow> (PutInvalidJson, None, s) | Some req \<Rightarrow>
     (case checkEnvLocked req (cs_env s) of Some v \<Rightarrow> (PutConflict v, None, s) | None \<Rightarrow>
     (case apply_request fmul req (cs_cfg s) of Inl e \<Rightarrow> (PutBadRequest e, None, s) | Inr c0 \<Rightarrow>
     (let c = normalize_config c0 in
     (case Validate nl c of Some e \<Rightarrow> (PutBadRequest e, None, s) | None \<Rightarrow>
     (let (err, f) = (if cs_toml s then WriteToml faults c (cs_file s) else (None, cs_file s)) in
      if err \<noteq> None then (PutPersistFailed, None, s\<lparr>cs_file := f\<rparr>) else
     (case (ur0_MyCall req, cs_identity s) of
        (Some _, Some idn) \<Rightarrow>
          (case Update_identity (cf_MyCall c) idn of
             (idn1, Inl e) \<Rightarrow> (PutBadRequest ''callsign'', None, s\<lparr>cs_file := f, cs_identity := Some idn1\<rparr>)
           | (idn1, Inr accepted) \<Rightarrow>
               let (idn2, row) = SaveIfDirty saved idn1 (cs_row s); c1 = c\<lparr>cf_MyCall := accepted\<rparr>
               in (PutUpdated (restart_needed req), Some (station_event_of nl accepted (cs_version s) c1),
                   s\<lparr>cs_cfg := c1, cs_file := f, cs_identity := Some idn2, cs_row := row\<rparr>))
      | _ \<Rightarrow> (PutUpdated (restart_needed req), None, s\<lparr>cs_cfg := c, cs_file := f\<rparr>)))))))))"

datatype mycall_reply = MyCallInvalidJson | MyCallBadRequest | MyCallPersistFailed | MyCallUpdated station_event

text \<open>PUT /api/adm/configs/my-call: the reply, and the event it publishes when it succeeds.\<close>

definition updateMyCall ::
    "net_lib \<Rightarrow> bool \<Rightarrow> string option \<Rightarrow> identity \<Rightarrow> config_server \<Rightarrow> mycall_reply \<times> config_server" where
  "updateMyCall nl saved body idn s =
     (case body of None \<Rightarrow> (MyCallInvalidJson, s) | Some callsign \<Rightarrow>
     (case Update_identity callsign idn of
        (idn1, Inl e) \<Rightarrow> (MyCallBadRequest, s)
      | (idn1, Inr accepted) \<Rightarrow>
          let (idn2, row) = SaveIfDirty saved idn1 (cs_row s); s1 = s\<lparr>cs_identity := Some idn2, cs_row := row\<rparr>
          in if snd (identity_begin idn1) \<noteq> None \<and> \<not> saved then (MyCallPersistFailed, s1)
             else (MyCallUpdated (station_event_of nl accepted (cs_version s) (cs_cfg s)), s1)))"

section \<open>Facts\<close>

lemma given_simps [simp]: "given None x = x" "given (Some y) x = y"
  by (simp_all add: given_def)

lemma try_with_InrE:
  assumes "try_with r k = Inr y" obtains x where "r = Inr x" "k x = Inr y"
  using assms by (cases r) (auto simp: try_with_def)

lemma new_duration_keeps: "new_duration p field v old = Inr d \<Longrightarrow> v = None \<longrightarrow> d = old"
  by (auto simp: new_duration_def)

definition unlocked :: "(string \<Rightarrow> bool) \<Rightarrow> (bool \<times> string) list \<Rightarrow> bool" where
  "unlocked env checks \<longleftrightarrow> (\<forall>(present, v) \<in> set checks. present \<longrightarrow> \<not> env v)"

lemma unlocked_simps [simp]:
  "unlocked env []" "unlocked env ((p, v) # cs) \<longleftrightarrow> (env v \<longrightarrow> \<not> p) \<and> unlocked env cs"
  "unlocked env (cs @ ds) \<longleftrightarrow> unlocked env cs \<and> unlocked env ds"
  by (auto simp: unlocked_def)

lemma checkEnvLocked_None: "checkEnvLocked req env = None \<longleftrightarrow> unlocked env (request_checks req)"
  by (auto simp: checkEnvLocked_def unlocked_def find_None_iff)

end
