(* ===== verification/ConfigUpdates.thy ===== *)
theory ConfigUpdates
  imports ConfigApi
begin

text \<open>
  What PUT /api/config keeps (internal/httpapi/configapi.go): the fields that environment variables manage,
  the validity of the running configuration and its agreement with the file, authentication, and the
  configuration across a restart.
\<close>

section \<open>Fields the environment manages\<close>

definition serial_kept :: "(string \<Rightarrow> bool) \<Rightarrow> serial_cfg \<Rightarrow> serial_cfg \<Rightarrow> bool" where
  "serial_kept env c d \<longleftrightarrow>
     (env ''SERIAL_DEVICE'' \<longrightarrow> sr_Device d = sr_Device c) \<and>
     (env ''SERIAL_BAUD'' \<longrightarrow> sr_Baud d = sr_Baud c) \<and>
     (env ''SERIAL_DATA_BITS'' \<longrightarrow> sr_DataBits d = sr_DataBits c) \<and>
     (env ''SERIAL_PARITY'' \<longrightarrow> sr_Parity d = sr_Parity c) \<and>
     (env ''SERIAL_STOP_BITS'' \<longrightarrow> sr_StopBits d = sr_StopBits c) \<and>
     (env ''SERIAL_FLOW_CONTROL'' \<longrightarrow> sr_FlowControl d = sr_FlowControl c) \<and>
     (env ''SERIAL_DTR'' \<longrightarrow> sr_DTR d = sr_DTR c) \<and>
     (env ''SERIAL_RTS'' \<longrightarrow> sr_RTS d = sr_RTS c) \<and>
     (env ''SERIAL_READ_TIMEOUT'' \<longrightarrow> sr_ReadTimeout d = sr_ReadTimeout c) \<and>
     (env ''SERIAL_RECONNECT_INITIAL'' \<longrightarrow> sr_ReconnectInitial d = sr_ReconnectInitial c) \<and>
     (env ''SERIAL_RECONNECT_MAX'' \<longrightarrow> sr_ReconnectMax d = sr_ReconnectMax c) \<and>
     (env ''SERIAL_STABLE_RESET_AFTER'' \<longrightarrow> sr_StableResetAfter d = sr_StableResetAfter c) \<and>
     (env ''SERIAL_MAX_RECORD_BYTES'' \<longrightarrow> sr_MaxRecordBytes d = sr_MaxRecordBytes c)"

definition netconsole_kept :: "(string \<Rightarrow> bool) \<Rightarrow> netconsole_cfg \<Rightarrow> netconsole_cfg \<Rightarrow> bool" where
  "netconsole_kept env c d \<longleftrightarrow>
     (env ''NETCONSOLE_ADDRESS'' \<longrightarrow> nc_Address d = nc_Address c) \<and>
     (env ''NETCONSOLE_PASSWORD'' \<longrightarrow> nc_Password d = nc_Password c) \<and>
     (env ''NETCONSOLE_CONNECT_TIMEOUT'' \<longrightarrow> nc_ConnectTimeout d = nc_ConnectTimeout c) \<and>
     (env ''NETCONSOLE_AUTH_TIMEOUT'' \<longrightarrow> nc_AuthTimeout d = nc_AuthTimeout c) \<and>
     (env ''NETCONSOLE_WRITE_TIMEOUT'' \<longrightarrow> nc_WriteTimeout d = nc_WriteTimeout c) \<and>
     (env ''NETCONSOLE_RECONNECT_INITIAL'' \<longrightarrow> nc_ReconnectInitial d = nc_ReconnectInitial c) \<and>
     (env ''NETCONSOLE_RECONNECT_MAX'' \<longrightarrow> nc_ReconnectMax d = nc_ReconnectMax c) \<and>
     (env ''NETCONSOLE_STABLE_RESET_AFTER'' \<longrightarrow> nc_StableResetAfter d = nc_StableResetAfter c) \<and>
     (env ''NETCONSOLE_MAX_AUTH_LINE_BYTES'' \<longrightarrow> nc_MaxAuthLineBytes d = nc_MaxAuthLineBytes c) \<and>
     (env ''NETCONSOLE_MAX_RECORD_BYTES'' \<longrightarrow> nc_MaxRecordBytes d = nc_MaxRecordBytes c)"

definition receive_log_kept :: "(string \<Rightarrow> bool) \<Rightarrow> receive_log_cfg \<Rightarrow> receive_log_cfg \<Rightarrow> bool" where
  "receive_log_kept env c d \<longleftrightarrow>
     (env ''RECEIVE_LOG_ENABLED'' \<longrightarrow> rv_Enabled d = rv_Enabled c) \<and>
     (env ''RECEIVE_LOG_REPLAY_WINDOW'' \<longrightarrow> rv_ReplayWindow d = rv_ReplayWindow c)"

definition stats_kept :: "(string \<Rightarrow> bool) \<Rightarrow> stats_cfg \<Rightarrow> stats_cfg \<Rightarrow> bool" where
  "stats_kept env c d \<longleftrightarrow>
     (env ''STATS_ENABLED'' \<longrightarrow> sa_Enabled d = sa_Enabled c) \<and>
     (env ''STATS_RETENTION_DAYS'' \<longrightarrow> sa_RetentionDays d = sa_RetentionDays c)"

definition chat_log_kept :: "(string \<Rightarrow> bool) \<Rightarrow> chat_log_cfg \<Rightarrow> chat_log_cfg \<Rightarrow> bool" where
  "chat_log_kept env c d \<longleftrightarrow>
     (env ''CHAT_LOG_HISTORY_WINDOW'' \<longrightarrow> cl_HistoryWindow d = cl_HistoryWindow c) \<and>
     (env ''CHAT_LOG_MAX_HISTORY_WINDOW'' \<longrightarrow> cl_MaxHistoryWindow d = cl_MaxHistoryWindow c)"

definition send_kept :: "(string \<Rightarrow> bool) \<Rightarrow> send_cfg \<Rightarrow> send_cfg \<Rightarrow> bool" where
  "send_kept env c d \<longleftrightarrow>
     (env ''SEND_DEDUP_TTL'' \<longrightarrow> sd_DedupTTL d = sd_DedupTTL c)"

definition forward_kept :: "(string \<Rightarrow> bool) \<Rightarrow> forward_cfg \<Rightarrow> forward_cfg \<Rightarrow> bool" where
  "forward_kept env c d \<longleftrightarrow>
     (env ''FORWARD_TARGETS'' \<longrightarrow> fw_Targets d = fw_Targets c)"

definition auth_kept :: "(string \<Rightarrow> bool) \<Rightarrow> auth_cfg \<Rightarrow> auth_cfg \<Rightarrow> bool" where
  "auth_kept env c d \<longleftrightarrow>
     (env ''AUTH_USERNAME'' \<longrightarrow> au_Username d = au_Username c) \<and>
     (env ''AUTH_PASSWORD'' \<longrightarrow> au_Password d = au_Password c) \<and>
     (env ''AUTH_SESSION_TTL'' \<longrightarrow> au_SessionTTL d = au_SessionTTL c) \<and>
     (env ''AUTH_COOKIE_NAME'' \<longrightarrow> au_CookieName d = au_CookieName c)"

definition request_log_kept :: "(string \<Rightarrow> bool) \<Rightarrow> request_log_cfg \<Rightarrow> request_log_cfg \<Rightarrow> bool" where
  "request_log_kept env c d \<longleftrightarrow>
     (env ''REQUEST_LOG_ENABLED'' \<longrightarrow> rq_Enabled d = rq_Enabled c)"

definition storage_kept :: "(string \<Rightarrow> bool) \<Rightarrow> storage_cfg \<Rightarrow> storage_cfg \<Rightarrow> bool" where
  "storage_kept env c d \<longleftrightarrow>
     (env ''STORAGE_SQLITE_PATH'' \<longrightarrow> sg_SQLitePath d = sg_SQLitePath c) \<and>
     (env ''STORAGE_PURGE_INTERVAL'' \<longrightarrow> sg_PurgeInterval d = sg_PurgeInterval c) \<and>
     (env ''STORAGE_RECEIVE_LOG_RETENTION'' \<longrightarrow> sg_ReceiveLogRetention d = sg_ReceiveLogRetention c) \<and>
     (env ''STORAGE_PUBLIC_CHAT_RETENTION'' \<longrightarrow> sg_PublicChatRetention d = sg_PublicChatRetention c) \<and>
     (env ''STORAGE_NODES_RETENTION'' \<longrightarrow> sg_NodesRetention d = sg_NodesRetention c) \<and>
     (env ''STORAGE_TELEMETRY_RETENTION'' \<longrightarrow> sg_TelemetryRetention d = sg_TelemetryRetention c)"

definition env_kept :: "(string \<Rightarrow> bool) \<Rightarrow> config \<Rightarrow> config \<Rightarrow> bool" where
  "env_kept env c d \<longleftrightarrow>
     (env ''HTTP_ADDR'' \<longrightarrow> cf_HTTPAddr d = cf_HTTPAddr c) \<and>
     (env ''TRANSPORT_MODE'' \<longrightarrow> cf_TransportMode d = cf_TransportMode c) \<and>
     (env ''UDP_LISTEN_ADDR'' \<longrightarrow> cf_UDPListenAddr d = cf_UDPListenAddr c) \<and>
     (env ''NODE_ADDR'' \<longrightarrow> cf_NodeAddr d = cf_NodeAddr c) \<and>
     (env ''MY_CALL'' \<longrightarrow> cf_MyCall d = cf_MyCall c) \<and>
     (env ''MAX_MESSAGE_LENGTH'' \<longrightarrow> cf_MaxMessageLength d = cf_MaxMessageLength c) \<and>
     (env ''LOG_LEVEL'' \<longrightarrow> cf_LogLevel d = cf_LogLevel c) \<and>
     serial_kept env (cf_Serial c) (cf_Serial d) \<and>
     netconsole_kept env (cf_NetConsole c) (cf_NetConsole d) \<and>
     receive_log_kept env (cf_ReceiveLog c) (cf_ReceiveLog d) \<and>
     stats_kept env (cf_Stats c) (cf_Stats d) \<and>
     chat_log_kept env (cf_ChatLog c) (cf_ChatLog d) \<and>
     send_kept env (cf_Send c) (cf_Send d) \<and>
     forward_kept env (cf_Forward c) (cf_Forward d) \<and>
     auth_kept env (cf_Auth c) (cf_Auth d) \<and>
     request_log_kept env (cf_RequestLog c) (cf_RequestLog d) \<and>
     storage_kept env (cf_Storage c) (cf_Storage d)"

lemma kept_password:
  "p = None \<or> p = Some passwordMask \<Longrightarrow> (case p of None \<Rightarrow> x | Some q \<Rightarrow> if q = passwordMask then x else q) = x"
  "p = None \<or> p = Some [] \<or> p = Some passwordMask \<Longrightarrow>
     (case p of None \<Rightarrow> x | Some q \<Rightarrow> if q = [] \<or> q = passwordMask then x else q) = x"
  by auto

named_theorems section_kept \<open>a section of a request leaves the managed fields of the section\<close>

lemma serial_unlocked:
  "unlocked env (serial_checks u) \<Longrightarrow>
     (env ''SERIAL_DEVICE'' \<longrightarrow> us_Device u = None) \<and>
     (env ''SERIAL_BAUD'' \<longrightarrow> us_Baud u = None) \<and>
     (env ''SERIAL_DATA_BITS'' \<longrightarrow> us_DataBits u = None) \<and>
     (env ''SERIAL_PARITY'' \<longrightarrow> us_Parity u = None) \<and>
     (env ''SERIAL_STOP_BITS'' \<longrightarrow> us_StopBits u = None) \<and>
     (env ''SERIAL_FLOW_CONTROL'' \<longrightarrow> us_FlowControl u = None) \<and>
     (env ''SERIAL_DTR'' \<longrightarrow> us_DTR u = None) \<and>
     (env ''SERIAL_RTS'' \<longrightarrow> us_RTS u = None) \<and>
     (env ''SERIAL_READ_TIMEOUT'' \<longrightarrow> us_ReadTimeout u = None) \<and>
     (env ''SERIAL_RECONNECT_INITIAL'' \<longrightarrow> us_ReconnectInitial u = None) \<and>
     (env ''SERIAL_RECONNECT_MAX'' \<longrightarrow> us_ReconnectMax u = None) \<and>
     (env ''SERIAL_STABLE_RESET_AFTER'' \<longrightarrow> us_StableResetAfter u = None) \<and>
     (env ''SERIAL_MAX_RECORD_BYTES'' \<longrightarrow> us_MaxRecordBytes u = None)"
  by (simp add: serial_checks_def split: option.splits)

lemma serial_section_kept [section_kept]:
  assumes "in_section (applySerialUpdate fmul) t c = Inr d" "unlocked env (section_checks serial_checks t)"
  shows "serial_kept env c d"
proof (cases t)
  case (Some u)
  note u = serial_unlocked [OF assms(2) [unfolded Some section_checks_def option.case]]
  show ?thesis
    by (insert assms(1), unfold Some in_section_def option.case applySerialUpdate_def serial_kept_def, elim try_with_InrE,
         drule sum.inject(2) [THEN iffD1], hypsubst, (drule new_duration_keeps)+, intro conjI impI) (use u in simp_all)
qed (use assms in \<open>simp add: in_section_def serial_kept_def\<close>)

lemma netconsole_unlocked:
  "unlocked env (upd_netconsole_checks u) \<Longrightarrow>
     (env ''NETCONSOLE_ADDRESS'' \<longrightarrow> un_Address u = None) \<and>
     (env ''NETCONSOLE_PASSWORD'' \<longrightarrow> un_Password u = None \<or> un_Password u = Some passwordMask) \<and>
     (env ''NETCONSOLE_CONNECT_TIMEOUT'' \<longrightarrow> un_ConnectTimeout u = None) \<and>
     (env ''NETCONSOLE_AUTH_TIMEOUT'' \<longrightarrow> un_AuthTimeout u = None) \<and>
     (env ''NETCONSOLE_WRITE_TIMEOUT'' \<longrightarrow> un_WriteTimeout u = None) \<and>
     (env ''NETCONSOLE_RECONNECT_INITIAL'' \<longrightarrow> un_ReconnectInitial u = None) \<and>
     (env ''NETCONSOLE_RECONNECT_MAX'' \<longrightarrow> un_ReconnectMax u = None) \<and>
     (env ''NETCONSOLE_STABLE_RESET_AFTER'' \<longrightarrow> un_StableResetAfter u = None) \<and>
     (env ''NETCONSOLE_MAX_AUTH_LINE_BYTES'' \<longrightarrow> un_MaxAuthLineBytes u = None) \<and>
     (env ''NETCONSOLE_MAX_RECORD_BYTES'' \<longrightarrow> un_MaxRecordBytes u = None)"
  by (simp add: upd_netconsole_checks_def split: option.splits)

lemma netconsole_section_kept [section_kept]:
  assumes "in_section (applyNetConsoleUpdate fmul) t c = Inr d" "unlocked env (section_checks upd_netconsole_checks t)"
  shows "netconsole_kept env c d"
proof (cases t)
  case (Some u)
  note u = netconsole_unlocked [OF assms(2) [unfolded Some section_checks_def option.case]]
  show ?thesis
    by (insert assms(1), unfold Some in_section_def option.case applyNetConsoleUpdate_def netconsole_kept_def, elim try_with_InrE,
         drule sum.inject(2) [THEN iffD1], hypsubst, (drule new_duration_keeps)+, intro conjI impI) (use u in \<open>simp_all add: kept_password\<close>)
qed (use assms in \<open>simp add: in_section_def netconsole_kept_def\<close>)

lemma receive_log_unlocked:
  "unlocked env (receive_log_checks u) \<Longrightarrow>
     (env ''RECEIVE_LOG_ENABLED'' \<longrightarrow> ur_Enabled u = None) \<and>
     (env ''RECEIVE_LOG_REPLAY_WINDOW'' \<longrightarrow> ur_ReplayWindow u = None)"
  by (simp add: receive_log_checks_def split: option.splits)

lemma receive_log_section_kept [section_kept]:
  assumes "in_section (apply_receive_log fmul) t c = Inr d" "unlocked env (section_checks receive_log_checks t)"
  shows "receive_log_kept env c d"
proof (cases t)
  case (Some u)
  note u = receive_log_unlocked [OF assms(2) [unfolded Some section_checks_def option.case]]
  show ?thesis
    by (insert assms(1), unfold Some in_section_def option.case apply_receive_log_def receive_log_kept_def, elim try_with_InrE,
         drule sum.inject(2) [THEN iffD1], hypsubst, (drule new_duration_keeps)+, intro conjI impI) (use u in simp_all)
qed (use assms in \<open>simp add: in_section_def receive_log_kept_def\<close>)

lemma stats_unlocked:
  "unlocked env (stats_checks u) \<Longrightarrow>
     (env ''STATS_ENABLED'' \<longrightarrow> ut_Enabled u = None) \<and>
     (env ''STATS_RETENTION_DAYS'' \<longrightarrow> ut_RetentionDays u = None)"
  by (simp add: stats_checks_def split: option.splits)

lemma stats_section_kept [section_kept]:
  "unlocked env (section_checks stats_checks t) \<Longrightarrow> stats_kept env c (merge_section apply_stats t c)"
  by (cases t) (simp_all add: section_checks_def apply_stats_def stats_kept_def stats_unlocked)

lemma chat_log_unlocked:
  "unlocked env (chat_log_checks u) \<Longrightarrow>
     (env ''CHAT_LOG_HISTORY_WINDOW'' \<longrightarrow> uc_HistoryWindow u = None) \<and>
     (env ''CHAT_LOG_MAX_HISTORY_WINDOW'' \<longrightarrow> uc_MaxHistoryWindow u = None)"
  by (simp add: chat_log_checks_def split: option.splits)

lemma chat_log_section_kept [section_kept]:
  assumes "in_section (apply_chat_log fmul) t c = Inr d" "unlocked env (section_checks chat_log_checks t)"
  shows "chat_log_kept env c d"
proof (cases t)
  case (Some u)
  note u = chat_log_unlocked [OF assms(2) [unfolded Some section_checks_def option.case]]
  show ?thesis
    by (insert assms(1), unfold Some in_section_def option.case apply_chat_log_def chat_log_kept_def, elim try_with_InrE,
         drule sum.inject(2) [THEN iffD1], hypsubst, (drule new_duration_keeps)+, intro conjI impI) (use u in simp_all)
qed (use assms in \<open>simp add: in_section_def chat_log_kept_def\<close>)

lemma send_unlocked:
  "unlocked env (send_checks u) \<Longrightarrow>
     (env ''SEND_DEDUP_TTL'' \<longrightarrow> ud_DedupTTL u = None)"
  by (simp add: send_checks_def split: option.splits)

lemma send_section_kept [section_kept]:
  assumes "in_section (apply_send fmul) t c = Inr d" "unlocked env (section_checks send_checks t)"
  shows "send_kept env c d"
proof (cases t)
  case (Some u)
  note u = send_unlocked [OF assms(2) [unfolded Some section_checks_def option.case]]
  show ?thesis
    by (insert assms(1), unfold Some in_section_def option.case apply_send_def send_kept_def, elim try_with_InrE,
         drule sum.inject(2) [THEN iffD1], hypsubst, (drule new_duration_keeps)+, intro conjI impI) (use u in simp_all)
qed (use assms in \<open>simp add: in_section_def send_kept_def\<close>)

lemma forward_unlocked:
  "unlocked env (forward_checks u) \<Longrightarrow>
     (env ''FORWARD_TARGETS'' \<longrightarrow> uf_Targets u = None)"
  by (simp add: forward_checks_def split: option.splits)

lemma forward_section_kept [section_kept]:
  "unlocked env (section_checks forward_checks t) \<Longrightarrow> forward_kept env c (merge_section apply_forward t c)"
  by (cases t) (simp_all add: section_checks_def apply_forward_def forward_kept_def forward_unlocked)

lemma auth_unlocked:
  "unlocked env (upd_auth_checks u) \<Longrightarrow>
     (env ''AUTH_USERNAME'' \<longrightarrow> ua_Username u = None) \<and>
     (env ''AUTH_PASSWORD'' \<longrightarrow> ua_Password u = None \<or> ua_Password u = Some [] \<or> ua_Password u = Some passwordMask) \<and>
     (env ''AUTH_SESSION_TTL'' \<longrightarrow> ua_SessionTTL u = None) \<and>
     (env ''AUTH_COOKIE_NAME'' \<longrightarrow> ua_CookieName u = None)"
  by (simp add: upd_auth_checks_def split: option.splits)

lemma auth_section_kept [section_kept]:
  assumes "in_section (apply_auth fmul) t c = Inr d" "unlocked env (section_checks upd_auth_checks t)"
  shows "auth_kept env c d"
proof (cases t)
  case (Some u)
  note u = auth_unlocked [OF assms(2) [unfolded Some section_checks_def option.case]]
  show ?thesis
    by (insert assms(1), unfold Some in_section_def option.case apply_auth_def auth_kept_def, elim try_with_InrE,
         drule sum.inject(2) [THEN iffD1], hypsubst, (drule new_duration_keeps)+, intro conjI impI) (use u in \<open>simp_all add: kept_password\<close>)
qed (use assms in \<open>simp add: in_section_def auth_kept_def\<close>)

lemma request_log_unlocked:
  "unlocked env (request_log_checks u) \<Longrightarrow>
     (env ''REQUEST_LOG_ENABLED'' \<longrightarrow> uq_Enabled u = None)"
  by (simp add: request_log_checks_def split: option.splits)

lemma request_log_section_kept [section_kept]:
  "unlocked env (section_checks request_log_checks t) \<Longrightarrow> request_log_kept env c (merge_section apply_request_log t c)"
  by (cases t) (simp_all add: section_checks_def apply_request_log_def request_log_kept_def request_log_unlocked)

lemma storage_unlocked:
  "unlocked env (upd_storage_checks u) \<Longrightarrow>
     (env ''STORAGE_SQLITE_PATH'' \<longrightarrow> ug_SQLitePath u = None) \<and>
     (env ''STORAGE_PURGE_INTERVAL'' \<longrightarrow> ug_PurgeInterval u = None) \<and>
     (env ''STORAGE_RECEIVE_LOG_RETENTION'' \<longrightarrow> ug_ReceiveLogRetention u = None) \<and>
     (env ''STORAGE_PUBLIC_CHAT_RETENTION'' \<longrightarrow> ug_PublicChatRetention u = None) \<and>
     (env ''STORAGE_NODES_RETENTION'' \<longrightarrow> ug_NodesRetention u = None) \<and>
     (env ''STORAGE_TELEMETRY_RETENTION'' \<longrightarrow> ug_TelemetryRetention u = None)"
  by (simp add: upd_storage_checks_def split: option.splits)

lemma storage_section_kept [section_kept]:
  assumes "in_section (apply_storage fmul) t c = Inr d" "unlocked env (section_checks upd_storage_checks t)"
  shows "storage_kept env c d"
proof (cases t)
  case (Some u)
  note u = storage_unlocked [OF assms(2) [unfolded Some section_checks_def option.case]]
  show ?thesis
    by (insert assms(1), unfold Some in_section_def option.case apply_storage_def storage_kept_def, elim try_with_InrE,
         drule sum.inject(2) [THEN iffD1], hypsubst, (drule new_duration_keeps)+, intro conjI impI) (use u in simp_all)
qed (use assms in \<open>simp add: in_section_def storage_kept_def\<close>)


section \<open>What an update leaves alone\<close>

lemma apply_request_sections:
  assumes "apply_request fmul req c = Inr d"
  shows "in_section (apply_receive_log fmul) (ur0_ReceiveLog req) (cf_ReceiveLog c) = Inr (cf_ReceiveLog d)"
    "in_section (apply_chat_log fmul) (ur0_ChatLog req) (cf_ChatLog c) = Inr (cf_ChatLog d)"
    "in_section (apply_send fmul) (ur0_Send req) (cf_Send c) = Inr (cf_Send d)"
    "in_section (apply_auth fmul) (ur0_Auth req) (cf_Auth c) = Inr (cf_Auth d)"
    "in_section (apply_storage fmul) (ur0_Storage req) (cf_Storage c) = Inr (cf_Storage d)"
    "in_section (applySerialUpdate fmul) (ur0_Serial req) (cf_Serial c) = Inr (cf_Serial d)"
    "in_section (applyNetConsoleUpdate fmul) (ur0_NetConsole req) (cf_NetConsole c) = Inr (cf_NetConsole d)"
    "cf_Stats d = merge_section apply_stats (ur0_Stats req) (cf_Stats c)"
    "cf_Forward d = merge_section apply_forward (ur0_Forward req) (cf_Forward c)"
    "cf_RequestLog d = merge_section apply_request_log (ur0_RequestLog req) (cf_RequestLog c)"
    "cf_HTTPAddr d = given (ur0_HTTPAddr req) (cf_HTTPAddr c)"
    "cf_TransportMode d = given (ur0_TransportMode req) (cf_TransportMode c)"
    "cf_UDPListenAddr d = given (ur0_UDPListenAddr req) (cf_UDPListenAddr c)"
    "cf_NodeAddr d = given (ur0_NodeAddr req) (cf_NodeAddr c)"
    "cf_MyCall d = given (ur0_MyCall req) (cf_MyCall c)"
    "cf_MaxMessageLength d = given (ur0_MaxMessageLength req) (cf_MaxMessageLength c)"
    "cf_LogLevel d = given (ur0_LogLevel req) (cf_LogLevel c)"
    "cf_DataDir d = cf_DataDir c"
    "cf_DemoMode d = cf_DemoMode c"
  by ((insert assms, unfold apply_request_def, elim try_with_InrE, drule sum.inject(2) [THEN iffD1], hypsubst, simp)[1])+

lemma request_env_kept:
  assumes "apply_request fmul req c = Inr d" "unlocked env (request_checks req)"
  shows "env_kept env c d"
proof -
  note u = assms(2) [unfolded request_checks_def unlocked_simps]
  note s = apply_request_sections [OF assms(1)]
  have t: "(env ''HTTP_ADDR'' \<longrightarrow> ur0_HTTPAddr req = None) \<and> (env ''TRANSPORT_MODE'' \<longrightarrow> ur0_TransportMode req = None) \<and>
      (env ''UDP_LISTEN_ADDR'' \<longrightarrow> ur0_UDPListenAddr req = None) \<and> (env ''NODE_ADDR'' \<longrightarrow> ur0_NodeAddr req = None) \<and>
      (env ''MY_CALL'' \<longrightarrow> ur0_MyCall req = None) \<and> (env ''MAX_MESSAGE_LENGTH'' \<longrightarrow> ur0_MaxMessageLength req = None) \<and>
      (env ''LOG_LEVEL'' \<longrightarrow> ur0_LogLevel req = None)"
    using u by (simp add: top_checks_def)
  note k = receive_log_section_kept [OF s(1)] chat_log_section_kept [OF s(2)] send_section_kept [OF s(3)]
    auth_section_kept [OF s(4)] storage_section_kept [OF s(5)] serial_section_kept [OF s(6)] netconsole_section_kept [OF s(7)]
    stats_section_kept forward_section_kept request_log_section_kept
  show ?thesis
    unfolding env_kept_def s(8-17) using u t by (simp add: k)
qed

lemma normal_fields:
  assumes "normalize_config c = c"
  shows "cf_TransportMode (normalize_config c) = cf_TransportMode c" "normalize (cf_MyCall c) = cf_MyCall c"
    "trim_space (sr_Device (cf_Serial c)) = sr_Device (cf_Serial c)"
    "to_lower (trim_space (sr_Parity (cf_Serial c))) = sr_Parity (cf_Serial c)"
    "to_lower (trim_space (sr_FlowControl (cf_Serial c))) = sr_FlowControl (cf_Serial c)"
    "trim_space (nc_Address (cf_NetConsole c)) = nc_Address (cf_NetConsole c)"
proof -
  have f: "f (normalize_config c) = f c" for f :: "config \<Rightarrow> string"
    using assms by simp
  show "cf_TransportMode (normalize_config c) = cf_TransportMode c" by (rule f)
  show "normalize (cf_MyCall c) = cf_MyCall c" using f [of cf_MyCall] by (simp add: normalize_config_def)
  show "trim_space (sr_Device (cf_Serial c)) = sr_Device (cf_Serial c)"
    using f [of "\<lambda>c. sr_Device (cf_Serial c)"] by (simp add: normalize_config_def)
  show "to_lower (trim_space (sr_Parity (cf_Serial c))) = sr_Parity (cf_Serial c)"
    using f [of "\<lambda>c. sr_Parity (cf_Serial c)"] by (simp add: normalize_config_def)
  show "to_lower (trim_space (sr_FlowControl (cf_Serial c))) = sr_FlowControl (cf_Serial c)"
    using f [of "\<lambda>c. sr_FlowControl (cf_Serial c)"] by (simp add: normalize_config_def)
  show "trim_space (nc_Address (cf_NetConsole c)) = nc_Address (cf_NetConsole c)"
    using f [of "\<lambda>c. nc_Address (cf_NetConsole c)"] by (simp add: normalize_config_def)
qed

definition purge_defaults :: "storage_cfg \<Rightarrow> bool" where
  "purge_defaults s \<longleftrightarrow> sg_PurgeInterval s = 4 * hour \<and> sg_ReceiveLogRetention s = 30 * 24 * hour \<and>
     sg_PublicChatRetention s = 30 * 24 * hour \<and> sg_NodesRetention s = 7 * 24 * hour"

lemma normal_env_kept:
  assumes "env_kept env c d" "normalize_config c = c"
  shows "env_kept env c (normalize_config d) \<or> purge_defaults (cf_Storage (normalize_config d))"
proof (cases "normalizeStorage (cf_Storage d) = cf_Storage d")
  case False
  then show ?thesis
    by (simp add: normalize_config_def normalizeStorage_def purge_defaults_def split: if_splits)
next
  case True
  note n = normal_fields [OF assms(2)]
  have t: "cf_TransportMode d = cf_TransportMode c \<Longrightarrow> cf_TransportMode (normalize_config d) = cf_TransportMode c"
    using n(1) by (simp add: normalize_config_def)
  have m: "cf_MyCall d = cf_MyCall c \<Longrightarrow> cf_MyCall (normalize_config d) = cf_MyCall c"
    using n(2) by (simp add: normalize_config_def)
  have s: "serial_kept env (cf_Serial c) (cf_Serial d) \<Longrightarrow> serial_kept env (cf_Serial c) (cf_Serial (normalize_config d))"
    using n by (simp add: normalize_config_def serial_kept_def)
  have a: "netconsole_kept env (cf_NetConsole c) (cf_NetConsole d) \<Longrightarrow>
      netconsole_kept env (cf_NetConsole c) (cf_NetConsole (normalize_config d))"
    using n by (simp add: normalize_config_def netconsole_kept_def)
  have e: "cf_HTTPAddr (normalize_config d) = cf_HTTPAddr d" "cf_UDPListenAddr (normalize_config d) = cf_UDPListenAddr d"
    "cf_NodeAddr (normalize_config d) = cf_NodeAddr d" "cf_MaxMessageLength (normalize_config d) = cf_MaxMessageLength d"
    "cf_LogLevel (normalize_config d) = cf_LogLevel d" "cf_ReceiveLog (normalize_config d) = cf_ReceiveLog d"
    "cf_Stats (normalize_config d) = cf_Stats d" "cf_ChatLog (normalize_config d) = cf_ChatLog d"
    "cf_Send (normalize_config d) = cf_Send d" "cf_Forward (normalize_config d) = cf_Forward d"
    "cf_Auth (normalize_config d) = cf_Auth d" "cf_RequestLog (normalize_config d) = cf_RequestLog d"
    "cf_Storage (normalize_config d) = cf_Storage d"
    using True by (simp_all add: normalize_config_def)
  show ?thesis
    using assms(1) t m s a unfolding env_kept_def e by (intro disjI1) blast
qed

section \<open>The server's configuration under updates\<close>

lemma SaveIfDirty_current [simp]: "id_current (fst (SaveIfDirty ok idn row)) = id_current idn"
  by (simp add: SaveIfDirty_def identity_begin_def identity_failed_def)

lemma validate_my_call: "Validate nl cfg = None \<Longrightarrow> is_valid (cf_MyCall cfg)"
  by (auto simp: Validate_def general_checks_def Let_def normalize_config_def split: option.splits sum.splits if_splits)

lemma accepted_identity:
  "is_valid v \<Longrightarrow> normalize v = v \<Longrightarrow> \<exists>idn1. Update_identity v idn = (idn1, Inr v) \<and> id_current idn1 = v"
  by (simp add: Update_identity_def)

lemma normal_my_call [simp]: "normalize (cf_MyCall (normalize_config c)) = cf_MyCall (normalize_config c)"
  "is_valid (cf_MyCall (normalize_config c)) = is_valid (cf_MyCall c)"
  "(normalize_config c)\<lparr>cf_MyCall := cf_MyCall (normalize_config c)\<rparr> = normalize_config c"
  by (simp_all add: normalize_config_def)

text \<open>What every request does: an accepted one puts the normalised candidate in place, in memory, in the
  file and, when it names a callsign, in the identity; any other leaves the state as it is.\<close>

definition put_effect ::
    "(nat \<Rightarrow> nat \<Rightarrow> nat \<Rightarrow> nat) \<Rightarrow> net_lib \<Rightarrow> update_request option \<Rightarrow> config_server \<Rightarrow> put_reply \<Rightarrow> config_server \<Rightarrow> bool" where
  "put_effect fmul nl body s reply s' =
     (case reply of
        PutUpdated r \<Rightarrow>
          (case body of None \<Rightarrow> False | Some req \<Rightarrow>
          (case apply_request fmul req (cs_cfg s) of Inl e \<Rightarrow> False | Inr d \<Rightarrow>
             unlocked (cs_env s) (request_checks req) \<and> Validate nl d = None \<and> r = restart_needed req \<and>
             cs_cfg s' = normalize_config d \<and> cs_toml s' = cs_toml s \<and> cs_env s' = cs_env s \<and>
             cs_file s' = (if cs_toml s then Contents (buildTomlContent (cs_cfg s')) else cs_file s) \<and>
             map_option id_current (cs_identity s') =
               (if ur0_MyCall req = None then map_option id_current (cs_identity s)
                else map_option (\<lambda>_. cf_MyCall (cs_cfg s')) (cs_identity s))))
      | _ \<Rightarrow> s' = s)"

lemma write_file:
  "WriteToml faults c old = (err, f) \<Longrightarrow> f = (if err = None then Contents (buildTomlContent c) else old)"
  by (auto simp: WriteToml_def writeTomlAtomically_def split: prod.splits option.splits)

lemma updateConfig_effect:
  assumes "updateConfig nl fmul faults saved body s = (reply, ev, s')"
  shows "put_effect fmul nl body s reply s'"
proof (cases "reply = PutForbidden \<or> reply = PutInvalidJson \<or> (\<exists>v. reply = PutConflict v)")
  case True
  then show ?thesis
    using assms
    by (auto simp: updateConfig_def put_effect_def Let_def split: if_splits option.splits sum.splits prod.splits)
next
  case False
  then obtain req where b: "body = Some req" "cf_DemoMode (cs_cfg s) = False" "checkEnvLocked req (cs_env s) = None"
    using assms by (cases body) (auto simp: updateConfig_def split: if_splits option.splits)
  show ?thesis
  proof (cases "apply_request fmul req (cs_cfg s)")
    case (Inl e)
    then show ?thesis using assms b by (auto simp: updateConfig_def put_effect_def)
  next
    case (Inr d)
    show ?thesis
    proof (cases "Validate nl d")
      case (Some e)
      then show ?thesis using assms b Inr by (auto simp: updateConfig_def put_effect_def Let_def)
    next
      case None
      obtain err f where w: "(if cs_toml s then WriteToml faults (normalize_config d) (cs_file s) else (None, cs_file s)) = (err, f)"
        by fastforce
      have f: "f = (if err = None \<and> cs_toml s then Contents (buildTomlContent (normalize_config d)) else cs_file s)"
        using w by (auto dest: write_file split: if_splits)
      have m: "is_valid (cf_MyCall d)"
        using None by (rule validate_my_call)
      show ?thesis
      proof (cases "err = None \<and> ur0_MyCall req \<noteq> None \<and> cs_identity s \<noteq> None")
        case True
        then obtain idn v where i: "cs_identity s = Some idn" "ur0_MyCall req = Some v" by auto
        obtain idn1 where u: "Update_identity (cf_MyCall (normalize_config d)) idn = (idn1, Inr (cf_MyCall (normalize_config d)))"
            "id_current idn1 = cf_MyCall (normalize_config d)"
          using accepted_identity [of "cf_MyCall (normalize_config d)" idn] m by auto
        show ?thesis
          using assms b Inr None w f True i u SaveIfDirty_current [of saved idn1 "cs_row s"]
          by (auto simp: updateConfig_def put_effect_def Let_def checkEnvLocked_None simp del: SaveIfDirty_current split: prod.splits)
      next
        case False
        then show ?thesis
          using assms b Inr None w f
          by (auto simp: updateConfig_def put_effect_def Let_def checkEnvLocked_None split: option.splits if_splits)
      qed
    qed
  qed
qed

text \<open>Any sequence of requests, each with its body and with the faults it meets.\<close>

datatype config_call =
    PutConfig "string option \<times> string option \<times> string option" bool "update_request option"
  | PutMyCall bool "string option"

definition config_call ::
    "net_lib \<Rightarrow> (nat \<Rightarrow> nat \<Rightarrow> nat \<Rightarrow> nat) \<Rightarrow> config_call \<Rightarrow> config_server \<Rightarrow> config_server" where
  "config_call nl fmul a s =
     (case a of
        PutConfig faults saved body \<Rightarrow> snd (snd (updateConfig nl fmul faults saved body s))
      | PutMyCall saved body \<Rightarrow>
          (case cs_identity s of None \<Rightarrow> s | Some idn \<Rightarrow> snd (updateMyCall nl saved body idn s)))"

definition config_calls ::
    "net_lib \<Rightarrow> (nat \<Rightarrow> nat \<Rightarrow> nat \<Rightarrow> nat) \<Rightarrow> config_call list \<Rightarrow> config_server \<Rightarrow> config_server" where
  "config_calls nl fmul calls s = fold (config_call nl fmul) calls s"

definition config_ok :: "net_lib \<Rightarrow> config_server \<Rightarrow> bool" where
  "config_ok nl s \<longleftrightarrow> normalize_config (cs_cfg s) = cs_cfg s \<and> Validate nl (cs_cfg s) = None \<and>
     (cs_toml s \<longrightarrow> cs_file s = Contents (buildTomlContent (cs_cfg s)))"

lemma updateMyCall_frame:
  "updateMyCall nl saved body idn s = (r, s') \<Longrightarrow>
   cs_cfg s' = cs_cfg s \<and> cs_toml s' = cs_toml s \<and> cs_env s' = cs_env s \<and> cs_file s' = cs_file s"
  by (auto simp: updateMyCall_def Let_def split: option.splits sum.splits prod.splits if_splits)

lemma config_call_cases:
  assumes "s' = config_call nl fmul a s"
  obtains (same) "cs_cfg s' = cs_cfg s" "cs_toml s' = cs_toml s" "cs_env s' = cs_env s" "cs_file s' = cs_file s"
  | (updated) req d where "apply_request fmul req (cs_cfg s) = Inr d" "Validate nl d = None"
      "cs_cfg s' = normalize_config d" "cs_toml s' = cs_toml s" "cs_env s' = cs_env s"
      "unlocked (cs_env s) (request_checks req)"
      "cs_file s' = (if cs_toml s then Contents (buildTomlContent (cs_cfg s')) else cs_file s)"
proof (cases a)
  case (PutMyCall saved body)
  then show ?thesis
    using assms updateMyCall_frame same
    by (cases "cs_identity s") (auto simp: config_call_def, metis prod.collapse)
next
  case (PutConfig faults saved body)
  obtain reply ev where u: "updateConfig nl fmul faults saved body s = (reply, ev, s')"
    using assms PutConfig by (auto simp: config_call_def) (metis prod.collapse)
  from updateConfig_effect [OF u] show ?thesis
    using same updated
    by (cases reply) (auto simp: put_effect_def split: option.splits sum.splits if_splits)
qed

lemma config_calls_ok: "config_ok nl s \<Longrightarrow> config_ok nl (config_calls nl fmul calls s)"
proof (induction calls arbitrary: s)
  case (Cons a calls)
  have "config_ok nl (config_call nl fmul a s)"
    using Cons.prems by (cases rule: config_call_cases [OF refl, of nl fmul a s]) (simp_all add: config_ok_def)
  then show ?case
    using Cons.IH by (simp add: config_calls_def)
qed (simp add: config_calls_def)

lemma apply_auth_password:
  "apply_auth fmul u c = Inr d \<Longrightarrow>
   au_Password d = (case ua_Password u of None \<Rightarrow> au_Password c | Some p \<Rightarrow> if p = [] \<or> p = passwordMask then au_Password c else p)"
  by (auto simp: apply_auth_def elim!: try_with_InrE)

lemma auth_update_password:
  assumes "apply_request fmul req c = Inr d" "au_Password (cf_Auth c) \<noteq> []"
  shows "au_Password (cf_Auth d) \<noteq> []"
  using apply_request_sections(4) [OF assms(1)] assms(2)
  by (auto simp: in_section_def apply_auth_password split: option.splits)

lemma validate_user: "Validate nl cfg = None \<Longrightarrow> au_Password (cf_Auth cfg) \<noteq> [] \<Longrightarrow> au_Username (cf_Auth cfg) \<noteq> []"
  using validate_auth by blast

lemma config_calls_auth:
  "au_Password (cf_Auth (cs_cfg s)) \<noteq> [] \<Longrightarrow> au_Password (cf_Auth (cs_cfg (config_calls nl fmul calls s))) \<noteq> []"
proof (induction calls arbitrary: s)
  case (Cons a calls)
  have "au_Password (cf_Auth (cs_cfg (config_call nl fmul a s))) \<noteq> []"
    using Cons.prems by (cases rule: config_call_cases [OF refl, of nl fmul a s]) (auto dest: auth_update_password)
  then show ?case
    using Cons.IH by (simp add: config_calls_def)
qed (simp add: config_calls_def)

text \<open>C31: whatever requests arrive and whichever saves fail, the configuration in memory stays valid and
  normalised, and the configuration file holds exactly its text.\<close>

theorem config_updates_consistent:
  assumes "normalize_config (cs_cfg s) = cs_cfg s" "Validate nl (cs_cfg s) = None"
    and "cs_file s = Contents (buildTomlContent (cs_cfg s))" "cs_toml s"
  shows "Validate nl (cs_cfg (config_calls nl fmul calls s)) = None \<and>
    normalize_config (cs_cfg (config_calls nl fmul calls s)) = cs_cfg (config_calls nl fmul calls s) \<and>
    cs_file (config_calls nl fmul calls s) = Contents (buildTomlContent (cs_cfg (config_calls nl fmul calls s)))"
proof -
  have t: "cs_toml (config_calls nl fmul calls s)"
    using assms(4)
  proof (induction calls arbitrary: s)
    case (Cons a calls)
    have "cs_toml (config_call nl fmul a s)"
      using Cons.prems by (cases rule: config_call_cases [OF refl, of nl fmul a s]) simp_all
    then show ?case using Cons.IH by (simp add: config_calls_def)
  qed (simp add: config_calls_def)
  then show ?thesis
    using config_calls_ok [of nl s fmul calls] assms by (simp add: config_ok_def)
qed

text \<open>once the HTTP user and password are set, no sequence of updates turns authentication off.\<close>

theorem updates_keep_authentication:
  assumes "config_ok nl s" "au_Username (cf_Auth (cs_cfg s)) \<noteq> []" "au_Password (cf_Auth (cs_cfg s)) \<noteq> []"
  shows "au_Username (cf_Auth (cs_cfg (config_calls nl fmul calls s))) \<noteq> [] \<and>
    au_Password (cf_Auth (cs_cfg (config_calls nl fmul calls s))) \<noteq> []"
  using config_calls_ok [OF assms(1), of fmul calls] config_calls_auth [OF assms(3), of nl fmul calls]
  by (auto simp: config_ok_def dest: validate_user)

text \<open>an accepted update leaves every field that an environment variable manages as it was, except the
  storage periods when all of them come out zero: those are set to their defaults.\<close>

theorem put_keeps_environment_fields:
  assumes "updateConfig nl fmul faults saved body s = (PutUpdated r, ev, s')"
    and "normalize_config (cs_cfg s) = cs_cfg s"
  shows "env_kept (cs_env s) (cs_cfg s) (cs_cfg s') \<or> purge_defaults (cf_Storage (cs_cfg s'))"
  using updateConfig_effect [OF assms(1)] normal_env_kept [OF request_env_kept assms(2)]
  by (auto simp: put_effect_def split: option.splits sum.splits)


section \<open>Examples\<close>

definition no_update :: update_request where
  "no_update = \<lparr>ur0_HTTPAddr = None, ur0_TransportMode = None, ur0_UDPListenAddr = None, ur0_NodeAddr = None,
     ur0_MyCall = None, ur0_MaxMessageLength = None, ur0_LogLevel = None, ur0_ReceiveLog = None, ur0_Stats = None,
     ur0_ChatLog = None, ur0_Send = None, ur0_Forward = None, ur0_Auth = None, ur0_RequestLog = None,
     ur0_Storage = None, ur0_Serial = None, ur0_NetConsole = None\<rparr>"

definition example_server :: "config \<Rightarrow> (string \<Rightarrow> bool) \<Rightarrow> config_server" where
  "example_server cfg env = \<lparr>cs_cfg = cfg, cs_env = env, cs_toml = True, cs_file = Contents (buildTomlContent cfg),
     cs_identity = None, cs_row = None, cs_version = ''1.0''\<rparr>"

definition example_put :: update_request where
  "example_put = no_update\<lparr>ur0_LogLevel := Some ''debug''\<rparr>"

definition debug_config :: config where
  "debug_config = builtInDefaultConfig\<lparr>cf_LogLevel := ''debug''\<rparr>"

definition zero_purge :: update_request where
  "zero_purge = no_update\<lparr>ur0_Storage := Some \<lparr>ug_SQLitePath = None, ug_PurgeInterval = Some ''0s'',
     ug_ReceiveLogRetention = None, ug_PublicChatRetention = None, ug_NodesRetention = None, ug_TelemetryRetention = None\<rparr>\<rparr>"

definition keep_forever :: config where
  "keep_forever = builtInDefaultConfig\<lparr>cf_Storage := (cf_Storage builtInDefaultConfig)
     \<lparr>sg_ReceiveLogRetention := 0, sg_PublicChatRetention := 0, sg_NodesRetention := 0\<rparr>\<rparr>"

lemma updateConfig_accepts:
  assumes "\<not> cf_DemoMode (cs_cfg s)" "unlocked (cs_env s) (request_checks req)" "apply_request fmul req (cs_cfg s) = Inr d"
    and "Validate nl d = None" "cs_identity s = None"
  shows "updateConfig nl fmul (None, None, None) saved (Some req) s = (PutUpdated (restart_needed req), None,
    s\<lparr>cs_cfg := normalize_config d, cs_file := if cs_toml s then Contents (buildTomlContent (normalize_config d)) else cs_file s\<rparr>)"
proof -
  have l: "checkEnvLocked req (cs_env s) = None"
    using assms(2) by (simp add: checkEnvLocked_None)
  show ?thesis
    unfolding updateConfig_def using assms(1,4,5)
    by (cases "cs_toml s"; cases "ur0_MyCall req") (simp_all add: l assms(3) Let_def WriteToml_def writeTomlAtomically_def)
qed

lemma example_put_applied:
  "apply_request fmul example_put c = Inr (c\<lparr>cf_LogLevel := ''debug''\<rparr>)"
  "unlocked env (request_checks example_put) \<longleftrightarrow> \<not> env ''LOG_LEVEL''"
  by (simp_all add: apply_request_def example_put_def no_update_def in_section_def try_with_def merge_section_def
      request_checks_def section_checks_def top_checks_def)

lemma zero_purge_applied:
  "apply_request example_fmul zero_purge c = Inr (c\<lparr>cf_Storage := (cf_Storage c)\<lparr>sg_PurgeInterval := 0\<rparr>\<rparr>)"
  "unlocked env (request_checks zero_purge) \<longleftrightarrow> \<not> env ''STORAGE_PURGE_INTERVAL''"
proof -
  have p: "ParseDuration example_fmul ''0s'' = Some 0"
    using parse_duration_text [OF example_exact, of 0] by (simp add: duration_text_def unsigned_text_def min_int64_def max_int64_def)
  show "apply_request example_fmul zero_purge c = Inr (c\<lparr>cf_Storage := (cf_Storage c)\<lparr>sg_PurgeInterval := 0\<rparr>\<rparr>)"
    by (simp add: apply_request_def zero_purge_def no_update_def in_section_def try_with_def merge_section_def
        apply_storage_def new_duration_def p)
qed (simp add: zero_purge_def no_update_def request_checks_def section_checks_def top_checks_def upd_storage_checks_def)

lemma example_updates_valid:
  "Validate example_net debug_config = None"
  "Validate example_net (keep_forever\<lparr>cf_Storage := (cf_Storage keep_forever)\<lparr>sg_PurgeInterval := 0\<rparr>\<rparr>) = None"
  by code_simp+

lemma debug_normal: "normalize_config debug_config = debug_config"
  unfolding debug_config_def builtInDefaultConfig_def normalize_config_def by code_simp

lemma example_put_updates:
  assumes "cs_cfg s = builtInDefaultConfig" "\<not> cs_env s ''LOG_LEVEL''" "cs_identity s = None"
  shows "updateConfig example_net fmul (None, None, None) saved (Some example_put) s = (PutUpdated False, None,
    s\<lparr>cs_cfg := debug_config,
      cs_file := if cs_toml s then Contents (buildTomlContent (debug_config)) else cs_file s\<rparr>)"
proof -
  have "restart_needed example_put = False" by (simp add: restart_needed_def example_put_def no_update_def)
  moreover have "\<not> cf_DemoMode (cs_cfg s)" using assms by (simp add: builtInDefaultConfig_def)
  ultimately show ?thesis
    using updateConfig_accepts [of s example_put fmul, OF _ _ example_put_applied(1) _ assms(3), of example_net saved]
      assms example_updates_valid(1) by (simp add: example_put_applied(2) debug_normal [unfolded debug_config_def] debug_config_def)
qed

text \<open>With retentions that the environment sets to 0 (keep everything), a purge interval of 0 is accepted and
  turns them into the default periods.\<close>

lemma zero_purge_resets_retentions:
  "(case updateConfig example_net example_fmul (None, None, None) True (Some zero_purge)
       (example_server keep_forever (\<lambda>v. v = ''STORAGE_RECEIVE_LOG_RETENTION'')) of
     (reply, ev, s') \<Rightarrow> reply = PutUpdated True \<and> sg_ReceiveLogRetention (cf_Storage keep_forever) = 0 \<and>
       sg_ReceiveLogRetention (cf_Storage (cs_cfg s')) = 30 * 24 * hour)"
proof -
  have "\<not> cf_DemoMode keep_forever" by (simp add: keep_forever_def builtInDefaultConfig_def)
  moreover have "restart_needed zero_purge"
    by (simp add: restart_needed_def zero_purge_def no_update_def upd_storage_checks_def)
  moreover have "normalize_config (keep_forever\<lparr>cf_Storage := (cf_Storage keep_forever)\<lparr>sg_PurgeInterval := 0\<rparr>\<rparr>) = x \<Longrightarrow>
      sg_ReceiveLogRetention (cf_Storage x) = 30 * 24 * hour" for x
    by (auto simp: normalize_config_def normalizeStorage_def keep_forever_def)
  ultimately show ?thesis
    using updateConfig_accepts [of "example_server keep_forever (\<lambda>v. v = ''STORAGE_RECEIVE_LOG_RETENTION'')" zero_purge
        example_fmul "keep_forever\<lparr>cf_Storage := (cf_Storage keep_forever)\<lparr>sg_PurgeInterval := 0\<rparr>\<rparr>" example_net True]
    by (simp add: example_server_def zero_purge_applied example_updates_valid) (simp add: keep_forever_def)
qed

theorem config_updates_consistent_witness:
  "Validate example_net (cs_cfg (config_calls example_net example_fmul
     [PutConfig (None, None, None) True (Some example_put), PutConfig (None, None, Some ''read-only'') True (Some zero_purge)]
     (example_server builtInDefaultConfig (\<lambda>v. False)))) = None"
  by (rule config_updates_consistent [THEN conjunct1])
     (simp_all add: example_server_def example_normal example_valid)

theorem updates_keep_authentication_witness:
  "au_Password (cf_Auth (cs_cfg (config_calls example_net example_fmul
     [PutConfig (None, None, None) True (Some example_put)] (example_server example_auth_config (\<lambda>v. False))))) \<noteq> []"
  by (rule updates_keep_authentication [THEN conjunct2])
     (simp_all add: config_ok_def example_server_def example_normal example_valid, simp_all add: example_auth_config_def)

theorem put_keeps_environment_fields_witness:
  "env_kept (\<lambda>v. v = ''MY_CALL'') builtInDefaultConfig
     (debug_config) \<or>
   purge_defaults (cf_Storage (debug_config))"
  using put_keeps_environment_fields [OF example_put_updates [of "example_server builtInDefaultConfig (\<lambda>v. v = ''MY_CALL'')"]]
  by (simp add: example_server_def example_normal)

lemma debug_storable: "storable (example_read debug_config) (ParseDuration example_fmul) debug_config"
  by (simp add: storable_def reads_document_def example_read_def debug_normal, simp add: debug_config_def)
     (simp add: plain_document_def document_lines builtInDefaultConfig_def
      example_config_texts plain_ascii min_int64_def max_int64_def timeouts_def in_int64_def)


end
