(* ===== verification/ConfigView.thy ===== *)
theory ConfigView
  imports ConfigUpdates
begin

text \<open>
  internal/httpapi/configapi.go, GET /api/config: the response built from the running configuration, that
  it shows no password, and that sending it back changes nothing.
\<close>

section \<open>The response\<close>

text \<open>What GET /api/config shows: every field with its value, whether the environment manages it and whether a
  change needs a restart. Durations are their texts; the version and the clock readings are left out.\<close>

datatype field_value = FText string | FNumber int | FFlag bool

record field_meta =
  fm_Value :: field_value
  fm_EnvOverride :: bool
  fm_RequiresRestart :: bool

record receive_log_response =
  gv_Enabled :: field_meta
  gv_ReplayWindow :: field_meta

record stats_response =
  ga_Enabled :: field_meta
  ga_RetentionDays :: field_meta

record chat_log_response =
  gl_HistoryWindow :: field_meta
  gl_MaxHistoryWindow :: field_meta

record send_response =
  gd_DedupTTL :: field_meta

record forward_response =
  gf_Targets :: field_meta

record auth_response =
  gu_Username :: field_meta
  gu_Password :: field_meta
  gu_SessionTTL :: field_meta
  gu_CookieName :: field_meta

record request_log_response =
  gq_Enabled :: field_meta

record storage_response =
  gg_SQLitePath :: field_meta
  gg_PurgeInterval :: field_meta
  gg_ReceiveLogRetention :: field_meta
  gg_PublicChatRetention :: field_meta
  gg_NodesRetention :: field_meta
  gg_TelemetryRetention :: field_meta

record serial_response =
  gs_Device :: field_meta
  gs_Baud :: field_meta
  gs_DataBits :: field_meta
  gs_Parity :: field_meta
  gs_StopBits :: field_meta
  gs_FlowControl :: field_meta
  gs_DTR :: field_meta
  gs_RTS :: field_meta
  gs_ReadTimeout :: field_meta
  gs_ReconnectInitial :: field_meta
  gs_ReconnectMax :: field_meta
  gs_StableResetAfter :: field_meta
  gs_MaxRecordBytes :: field_meta

record netconsole_response =
  gn_Address :: field_meta
  gn_Password :: field_meta
  gn_ConnectTimeout :: field_meta
  gn_AuthTimeout :: field_meta
  gn_WriteTimeout :: field_meta
  gn_ReconnectInitial :: field_meta
  gn_ReconnectMax :: field_meta
  gn_StableResetAfter :: field_meta
  gn_MaxAuthLineBytes :: field_meta
  gn_MaxRecordBytes :: field_meta

record config_response =
  gc_HTTPAddr :: field_meta
  gc_TransportMode :: field_meta
  gc_UDPListenAddr :: field_meta
  gc_NodeAddr :: field_meta
  gc_MyCall :: field_meta
  gc_DataDir :: field_meta
  gc_MaxMessageLength :: field_meta
  gc_LogLevel :: field_meta
  gc_ReceiveLog :: receive_log_response
  gc_Stats :: stats_response
  gc_ChatLog :: chat_log_response
  gc_Send :: send_response
  gc_Forward :: forward_response
  gc_Auth :: auth_response
  gc_RequestLog :: request_log_response
  gc_Storage :: storage_response
  gc_Serial :: serial_response
  gc_NetConsole :: netconsole_response

definition field :: "field_value \<Rightarrow> string \<Rightarrow> (string \<Rightarrow> bool) \<Rightarrow> bool \<Rightarrow> field_meta" where
  "field v envKey env restart = \<lparr>fm_Value = v, fm_EnvOverride = env envKey, fm_RequiresRestart = restart\<rparr>"

definition durationField :: "duration \<Rightarrow> string \<Rightarrow> (string \<Rightarrow> bool) \<Rightarrow> bool \<Rightarrow> field_meta" where
  "durationField d envKey env restart = field (FText (duration_text d)) envKey env restart"

definition shown_password :: "string \<Rightarrow> string" where
  "shown_password p = (if p \<noteq> [] then passwordMask else [])"

definition buildConfigResponse :: "config \<Rightarrow> (string \<Rightarrow> bool) \<Rightarrow> config_response" where
  "buildConfigResponse cfg env = \<lparr>
     gc_HTTPAddr = field (FText (cf_HTTPAddr cfg)) ''HTTP_ADDR'' env True,
     gc_TransportMode = field (FText (cf_TransportMode cfg)) ''TRANSPORT_MODE'' env True,
     gc_UDPListenAddr = field (FText (cf_UDPListenAddr cfg)) ''UDP_LISTEN_ADDR'' env True,
     gc_NodeAddr = field (FText (cf_NodeAddr cfg)) ''NODE_ADDR'' env True,
     gc_MyCall = field (FText (cf_MyCall cfg)) ''MY_CALL'' env False,
     gc_DataDir = field (FText (cf_DataDir cfg)) ''DATA_DIR'' env True,
     gc_MaxMessageLength = field (FNumber (cf_MaxMessageLength cfg)) ''MAX_MESSAGE_LENGTH'' env True,
     gc_LogLevel = field (FText (cf_LogLevel cfg)) ''LOG_LEVEL'' env False,
     gc_ReceiveLog = \<lparr>
       gv_Enabled = field (FFlag (rv_Enabled (cf_ReceiveLog cfg))) ''RECEIVE_LOG_ENABLED'' env True,
       gv_ReplayWindow = durationField (rv_ReplayWindow (cf_ReceiveLog cfg)) ''RECEIVE_LOG_REPLAY_WINDOW'' env True\<rparr>,
     gc_Stats = \<lparr>
       ga_Enabled = field (FFlag (sa_Enabled (cf_Stats cfg))) ''STATS_ENABLED'' env True,
       ga_RetentionDays = field (FNumber (sa_RetentionDays (cf_Stats cfg))) ''STATS_RETENTION_DAYS'' env True\<rparr>,
     gc_ChatLog = \<lparr>
       gl_HistoryWindow = durationField (cl_HistoryWindow (cf_ChatLog cfg)) ''CHAT_LOG_HISTORY_WINDOW'' env False,
       gl_MaxHistoryWindow = durationField (cl_MaxHistoryWindow (cf_ChatLog cfg)) ''CHAT_LOG_MAX_HISTORY_WINDOW'' env False\<rparr>,
     gc_Send = \<lparr>
       gd_DedupTTL = durationField (sd_DedupTTL (cf_Send cfg)) ''SEND_DEDUP_TTL'' env False\<rparr>,
     gc_Forward = \<lparr>
       gf_Targets = field (FText (fw_Targets (cf_Forward cfg))) ''FORWARD_TARGETS'' env True\<rparr>,
     gc_Auth = \<lparr>
       gu_Username = field (FText (au_Username (cf_Auth cfg))) ''AUTH_USERNAME'' env True,
       gu_Password = field (FText (shown_password (au_Password (cf_Auth cfg)))) ''AUTH_PASSWORD'' env True,
       gu_SessionTTL = durationField (au_SessionTTL (cf_Auth cfg)) ''AUTH_SESSION_TTL'' env True,
       gu_CookieName = field (FText (au_CookieName (cf_Auth cfg))) ''AUTH_COOKIE_NAME'' env True\<rparr>,
     gc_RequestLog = \<lparr>
       gq_Enabled = field (FFlag (rq_Enabled (cf_RequestLog cfg))) ''REQUEST_LOG_ENABLED'' env False\<rparr>,
     gc_Storage = \<lparr>
       gg_SQLitePath = field (FText (sg_SQLitePath (cf_Storage cfg))) ''STORAGE_SQLITE_PATH'' env True,
       gg_PurgeInterval = durationField (sg_PurgeInterval (cf_Storage cfg)) ''STORAGE_PURGE_INTERVAL'' env True,
       gg_ReceiveLogRetention = durationField (sg_ReceiveLogRetention (cf_Storage cfg)) ''STORAGE_RECEIVE_LOG_RETENTION'' env True,
       gg_PublicChatRetention = durationField (sg_PublicChatRetention (cf_Storage cfg)) ''STORAGE_PUBLIC_CHAT_RETENTION'' env True,
       gg_NodesRetention = durationField (sg_NodesRetention (cf_Storage cfg)) ''STORAGE_NODES_RETENTION'' env True,
       gg_TelemetryRetention = durationField (sg_TelemetryRetention (cf_Storage cfg)) ''STORAGE_TELEMETRY_RETENTION'' env True\<rparr>,
     gc_Serial = \<lparr>
       gs_Device = field (FText (sr_Device (cf_Serial cfg))) ''SERIAL_DEVICE'' env True,
       gs_Baud = field (FNumber (sr_Baud (cf_Serial cfg))) ''SERIAL_BAUD'' env True,
       gs_DataBits = field (FNumber (sr_DataBits (cf_Serial cfg))) ''SERIAL_DATA_BITS'' env True,
       gs_Parity = field (FText (sr_Parity (cf_Serial cfg))) ''SERIAL_PARITY'' env True,
       gs_StopBits = field (FNumber (sr_StopBits (cf_Serial cfg))) ''SERIAL_STOP_BITS'' env True,
       gs_FlowControl = field (FText (sr_FlowControl (cf_Serial cfg))) ''SERIAL_FLOW_CONTROL'' env True,
       gs_DTR = field (FFlag (sr_DTR (cf_Serial cfg))) ''SERIAL_DTR'' env True,
       gs_RTS = field (FFlag (sr_RTS (cf_Serial cfg))) ''SERIAL_RTS'' env True,
       gs_ReadTimeout = durationField (sr_ReadTimeout (cf_Serial cfg)) ''SERIAL_READ_TIMEOUT'' env True,
       gs_ReconnectInitial = durationField (sr_ReconnectInitial (cf_Serial cfg)) ''SERIAL_RECONNECT_INITIAL'' env True,
       gs_ReconnectMax = durationField (sr_ReconnectMax (cf_Serial cfg)) ''SERIAL_RECONNECT_MAX'' env True,
       gs_StableResetAfter = durationField (sr_StableResetAfter (cf_Serial cfg)) ''SERIAL_STABLE_RESET_AFTER'' env True,
       gs_MaxRecordBytes = field (FNumber (sr_MaxRecordBytes (cf_Serial cfg))) ''SERIAL_MAX_RECORD_BYTES'' env True\<rparr>,
     gc_NetConsole = \<lparr>
       gn_Address = field (FText (nc_Address (cf_NetConsole cfg))) ''NETCONSOLE_ADDRESS'' env True,
       gn_Password = field (FText (shown_password (nc_Password (cf_NetConsole cfg)))) ''NETCONSOLE_PASSWORD'' env True,
       gn_ConnectTimeout = durationField (nc_ConnectTimeout (cf_NetConsole cfg)) ''NETCONSOLE_CONNECT_TIMEOUT'' env True,
       gn_AuthTimeout = durationField (nc_AuthTimeout (cf_NetConsole cfg)) ''NETCONSOLE_AUTH_TIMEOUT'' env True,
       gn_WriteTimeout = durationField (nc_WriteTimeout (cf_NetConsole cfg)) ''NETCONSOLE_WRITE_TIMEOUT'' env True,
       gn_ReconnectInitial = durationField (nc_ReconnectInitial (cf_NetConsole cfg)) ''NETCONSOLE_RECONNECT_INITIAL'' env True,
       gn_ReconnectMax = durationField (nc_ReconnectMax (cf_NetConsole cfg)) ''NETCONSOLE_RECONNECT_MAX'' env True,
       gn_StableResetAfter = durationField (nc_StableResetAfter (cf_NetConsole cfg)) ''NETCONSOLE_STABLE_RESET_AFTER'' env True,
       gn_MaxAuthLineBytes = field (FNumber (nc_MaxAuthLineBytes (cf_NetConsole cfg))) ''NETCONSOLE_MAX_AUTH_LINE_BYTES'' env True,
       gn_MaxRecordBytes = field (FNumber (nc_MaxRecordBytes (cf_NetConsole cfg))) ''NETCONSOLE_MAX_RECORD_BYTES'' env True\<rparr>\<rparr>"

definition getConfig :: "config \<Rightarrow> (string \<Rightarrow> bool) \<Rightarrow> config_response option" where
  "getConfig cfg env = (if cf_DemoMode cfg then None else Some (buildConfigResponse cfg env))"

text \<open>A client that sends back what it was shown.\<close>

definition text_value :: "field_meta \<Rightarrow> string" where
  "text_value m = (case fm_Value m of FText s \<Rightarrow> s | _ \<Rightarrow> [])"

definition number_value :: "field_meta \<Rightarrow> int" where
  "number_value m = (case fm_Value m of FNumber n \<Rightarrow> n | _ \<Rightarrow> 0)"

definition flag_value :: "field_meta \<Rightarrow> bool" where
  "flag_value m = (case fm_Value m of FFlag b \<Rightarrow> b | _ \<Rightarrow> False)"

definition resend :: "config_response \<Rightarrow> update_request" where
  "resend g = \<lparr>
     ur0_HTTPAddr = Some (text_value (gc_HTTPAddr g)),
     ur0_TransportMode = Some (text_value (gc_TransportMode g)),
     ur0_UDPListenAddr = Some (text_value (gc_UDPListenAddr g)),
     ur0_NodeAddr = Some (text_value (gc_NodeAddr g)),
     ur0_MyCall = Some (text_value (gc_MyCall g)),
     ur0_MaxMessageLength = Some (number_value (gc_MaxMessageLength g)),
     ur0_LogLevel = Some (text_value (gc_LogLevel g)),
     ur0_ReceiveLog = Some \<lparr>
       ur_Enabled = Some (flag_value (gv_Enabled (gc_ReceiveLog g))),
       ur_ReplayWindow = Some (text_value (gv_ReplayWindow (gc_ReceiveLog g)))\<rparr>,
     ur0_Stats = Some \<lparr>
       ut_Enabled = Some (flag_value (ga_Enabled (gc_Stats g))),
       ut_RetentionDays = Some (number_value (ga_RetentionDays (gc_Stats g)))\<rparr>,
     ur0_ChatLog = Some \<lparr>
       uc_HistoryWindow = Some (text_value (gl_HistoryWindow (gc_ChatLog g))),
       uc_MaxHistoryWindow = Some (text_value (gl_MaxHistoryWindow (gc_ChatLog g)))\<rparr>,
     ur0_Send = Some \<lparr>
       ud_DedupTTL = Some (text_value (gd_DedupTTL (gc_Send g)))\<rparr>,
     ur0_Forward = Some \<lparr>
       uf_Targets = Some (text_value (gf_Targets (gc_Forward g)))\<rparr>,
     ur0_Auth = Some \<lparr>
       ua_Username = Some (text_value (gu_Username (gc_Auth g))),
       ua_Password = Some (text_value (gu_Password (gc_Auth g))),
       ua_SessionTTL = Some (text_value (gu_SessionTTL (gc_Auth g))),
       ua_CookieName = Some (text_value (gu_CookieName (gc_Auth g)))\<rparr>,
     ur0_RequestLog = Some \<lparr>
       uq_Enabled = Some (flag_value (gq_Enabled (gc_RequestLog g)))\<rparr>,
     ur0_Storage = Some \<lparr>
       ug_SQLitePath = Some (text_value (gg_SQLitePath (gc_Storage g))),
       ug_PurgeInterval = Some (text_value (gg_PurgeInterval (gc_Storage g))),
       ug_ReceiveLogRetention = Some (text_value (gg_ReceiveLogRetention (gc_Storage g))),
       ug_PublicChatRetention = Some (text_value (gg_PublicChatRetention (gc_Storage g))),
       ug_NodesRetention = Some (text_value (gg_NodesRetention (gc_Storage g))),
       ug_TelemetryRetention = Some (text_value (gg_TelemetryRetention (gc_Storage g)))\<rparr>,
     ur0_Serial = Some \<lparr>
       us_Device = Some (text_value (gs_Device (gc_Serial g))),
       us_Baud = Some (number_value (gs_Baud (gc_Serial g))),
       us_DataBits = Some (number_value (gs_DataBits (gc_Serial g))),
       us_Parity = Some (text_value (gs_Parity (gc_Serial g))),
       us_StopBits = Some (number_value (gs_StopBits (gc_Serial g))),
       us_FlowControl = Some (text_value (gs_FlowControl (gc_Serial g))),
       us_DTR = Some (flag_value (gs_DTR (gc_Serial g))),
       us_RTS = Some (flag_value (gs_RTS (gc_Serial g))),
       us_ReadTimeout = Some (text_value (gs_ReadTimeout (gc_Serial g))),
       us_ReconnectInitial = Some (text_value (gs_ReconnectInitial (gc_Serial g))),
       us_ReconnectMax = Some (text_value (gs_ReconnectMax (gc_Serial g))),
       us_StableResetAfter = Some (text_value (gs_StableResetAfter (gc_Serial g))),
       us_MaxRecordBytes = Some (number_value (gs_MaxRecordBytes (gc_Serial g)))\<rparr>,
     ur0_NetConsole = Some \<lparr>
       un_Address = Some (text_value (gn_Address (gc_NetConsole g))),
       un_Password = Some (text_value (gn_Password (gc_NetConsole g))),
       un_ConnectTimeout = Some (text_value (gn_ConnectTimeout (gc_NetConsole g))),
       un_AuthTimeout = Some (text_value (gn_AuthTimeout (gc_NetConsole g))),
       un_WriteTimeout = Some (text_value (gn_WriteTimeout (gc_NetConsole g))),
       un_ReconnectInitial = Some (text_value (gn_ReconnectInitial (gc_NetConsole g))),
       un_ReconnectMax = Some (text_value (gn_ReconnectMax (gc_NetConsole g))),
       un_StableResetAfter = Some (text_value (gn_StableResetAfter (gc_NetConsole g))),
       un_MaxAuthLineBytes = Some (number_value (gn_MaxAuthLineBytes (gc_NetConsole g))),
       un_MaxRecordBytes = Some (number_value (gn_MaxRecordBytes (gc_NetConsole g)))\<rparr>\<rparr>"

section \<open>Facts\<close>

lemma value_simps [simp]:
  "text_value (field (FText s) k env r) = s" "number_value (field (FNumber n) k env r) = n"
  "flag_value (field (FFlag b) k env r) = b" "text_value (durationField d k env r) = duration_text d"
  by (simp_all add: field_def durationField_def text_value_def number_value_def flag_value_def)

lemma shown_password_simps:
  "p \<noteq> [] \<Longrightarrow> shown_password p = passwordMask" "shown_password p = [] \<longleftrightarrow> p = []"
  by (simp_all add: shown_password_def passwordMask_def)

lemma kept_durations:
  assumes "exact_fraction fmul" "in_int64 d"
  shows "new_duration (parse_go_duration fmul) e (Some (duration_text d)) old = Inr d"
    "new_duration (ParseDuration fmul) e (Some (duration_text d)) old = Inr d"
  using duration_roundtrip [OF assms(1), of d] parse_duration_text [OF assms(1), of d] assms(2)
  by (simp_all add: new_duration_def in_int64_def)

lemma try_with_Inr [simp]: "try_with (Inr x) k = k x"
  by (simp add: try_with_def)

text \<open>what GET shows depends on a password only through whether it is set: two configurations that differ
  in passwords that are set look the same.\<close>

theorem config_shows_no_password:
  assumes "p \<noteq> []" "p' \<noteq> []" "q \<noteq> []" "q' \<noteq> []"
  shows "getConfig (cfg\<lparr>cf_Auth := (cf_Auth cfg)\<lparr>au_Password := p\<rparr>, cf_NetConsole := (cf_NetConsole cfg)\<lparr>nc_Password := q\<rparr>\<rparr>) env =
    getConfig (cfg\<lparr>cf_Auth := (cf_Auth cfg)\<lparr>au_Password := p'\<rparr>, cf_NetConsole := (cf_NetConsole cfg)\<lparr>nc_Password := q'\<rparr>\<rparr>) env"
  using assms by (simp add: getConfig_def buildConfigResponse_def shown_password_simps)

theorem config_shows_no_password_witness:
  "getConfig (builtInDefaultConfig\<lparr>cf_Auth := (cf_Auth builtInDefaultConfig)\<lparr>au_Password := ''secret''\<rparr>,
      cf_NetConsole := (cf_NetConsole builtInDefaultConfig)\<lparr>nc_Password := ''hidden''\<rparr>\<rparr>) (\<lambda>v. False) =
   getConfig (builtInDefaultConfig\<lparr>cf_Auth := (cf_Auth builtInDefaultConfig)\<lparr>au_Password := ''x''\<rparr>,
      cf_NetConsole := (cf_NetConsole builtInDefaultConfig)\<lparr>nc_Password := ''****''\<rparr>\<rparr>) (\<lambda>v. False)"
  by (rule config_shows_no_password) simp_all

text \<open>a client that sends back the values it was shown, masked passwords included, changes nothing.\<close>

theorem shown_config_sent_back:
  assumes "exact_fraction fmul" "list_all in_int64 (timeouts cfg)"
  shows "apply_request fmul (resend (buildConfigResponse cfg env)) cfg = Inr cfg"
proof -
  note k = kept_durations [OF assms(1)]
  note t = assms(2) [unfolded timeouts_def list.pred_inject]
  let ?r = "resend (buildConfigResponse cfg env)"
  note defs = resend_def buildConfigResponse_def in_section_def merge_section_def given_def
  have "in_section (apply_receive_log fmul) (ur0_ReceiveLog ?r) (cf_ReceiveLog cfg) = Inr (cf_ReceiveLog cfg)"
    using t by (simp add: defs apply_receive_log_def k)
  moreover have "in_section (apply_chat_log fmul) (ur0_ChatLog ?r) (cf_ChatLog cfg) = Inr (cf_ChatLog cfg)"
    using t by (simp add: defs apply_chat_log_def k)
  moreover have "in_section (apply_send fmul) (ur0_Send ?r) (cf_Send cfg) = Inr (cf_Send cfg)"
    using t by (simp add: defs apply_send_def k)
  moreover have "in_section (apply_auth fmul) (ur0_Auth ?r) (cf_Auth cfg) = Inr (cf_Auth cfg)"
    using t by (cases "au_Password (cf_Auth cfg) = []") (simp_all add: defs apply_auth_def k shown_password_def)
  moreover have "in_section (apply_storage fmul) (ur0_Storage ?r) (cf_Storage cfg) = Inr (cf_Storage cfg)"
    using t by (simp add: defs apply_storage_def k)
  moreover have "in_section (applySerialUpdate fmul) (ur0_Serial ?r) (cf_Serial cfg) = Inr (cf_Serial cfg)"
    using t by (simp add: defs applySerialUpdate_def k)
  moreover have "in_section (applyNetConsoleUpdate fmul) (ur0_NetConsole ?r) (cf_NetConsole cfg) = Inr (cf_NetConsole cfg)"
    using t by (cases "nc_Password (cf_NetConsole cfg) = []")
      (simp_all add: defs applyNetConsoleUpdate_def k shown_password_def passwordMask_def)
  moreover have "merge_section apply_stats (ur0_Stats ?r) (cf_Stats cfg) = cf_Stats cfg"
    "merge_section apply_forward (ur0_Forward ?r) (cf_Forward cfg) = cf_Forward cfg"
    "merge_section apply_request_log (ur0_RequestLog ?r) (cf_RequestLog cfg) = cf_RequestLog cfg"
    by (simp_all add: defs apply_stats_def apply_forward_def apply_request_log_def)
  moreover have "given (ur0_HTTPAddr ?r) (cf_HTTPAddr cfg) = cf_HTTPAddr cfg"
    "given (ur0_TransportMode ?r) (cf_TransportMode cfg) = cf_TransportMode cfg"
    "given (ur0_UDPListenAddr ?r) (cf_UDPListenAddr cfg) = cf_UDPListenAddr cfg"
    "given (ur0_NodeAddr ?r) (cf_NodeAddr cfg) = cf_NodeAddr cfg"
    "given (ur0_MyCall ?r) (cf_MyCall cfg) = cf_MyCall cfg"
    "given (ur0_MaxMessageLength ?r) (cf_MaxMessageLength cfg) = cf_MaxMessageLength cfg"
    "given (ur0_LogLevel ?r) (cf_LogLevel cfg) = cf_LogLevel cfg"
    by (simp_all add: defs)
  ultimately show ?thesis
    by (simp add: apply_request_def)
qed

theorem shown_config_sent_back_witness:
  "apply_request example_fmul (resend (buildConfigResponse example_auth_config (\<lambda>v. False))) example_auth_config =
   Inr example_auth_config"
  by (rule shown_config_sent_back [OF example_exact example_in_range(2)])

end
