(* ===== verification/Sessions.thy ===== *)
theory Sessions
  imports NetAuth Config "HOL-Library.AList"
begin

text \<open>
  internal/httpapi/auth.go: the store of HTTP sessions, its table, and the handlers that create, check and
  delete a session. A time is a number of nanoseconds; the table keeps it in a text that time.Parse reads
  back exactly, so a row is a token's hash and a time. SHA-256 is a parameter.
\<close>

section \<open>The store\<close>

type_synonym session_table = "(string \<times> int) list"

record session_store =
  ss_db :: bool
  ss_sessions :: "(string \<times> int) list"

definition newMemorySessionStore :: session_store where
  "newMemorySessionStore = \<lparr>ss_db = False, ss_sessions = []\<rparr>"

text \<open>loadSQLite: n rows are read before the query ends or fails; an error ends the loading silently.\<close>

definition load_row :: "int \<Rightarrow> string \<times> int \<Rightarrow> session_store \<Rightarrow> session_store" where
  "load_row now row s = (case row of (h, e) \<Rightarrow>
     if e > now then s\<lparr>ss_sessions := AList.update h e (ss_sessions s)\<rparr> else s)"

definition loadSQLite :: "nat \<Rightarrow> int \<Rightarrow> session_table \<Rightarrow> session_store \<Rightarrow> session_store" where
  "loadSQLite n now tbl s = fold (load_row now) (take n tbl) s"

definition newSQLiteSessionStore :: "nat \<Rightarrow> int \<Rightarrow> session_table \<Rightarrow> session_store" where
  "newSQLiteSessionStore n now tbl = loadSQLite n now tbl \<lparr>ss_db = True, ss_sessions = []\<rparr>"

text \<open>persistLocked: one transaction that replaces every row; ok says whether it commits.\<close>

definition persistLocked :: "bool \<Rightarrow> session_store \<Rightarrow> session_table \<Rightarrow> bool \<times> session_table" where
  "persistLocked ok s tbl = (if \<not> ss_db s then (True, tbl) else if ok then (True, ss_sessions s) else (False, tbl))"

text \<open>raw is what the random source delivers, None when it fails.\<close>

definition create_session ::
    "(string \<Rightarrow> string) \<Rightarrow> string option \<Rightarrow> duration \<Rightarrow> int \<Rightarrow> bool \<Rightarrow> session_store \<Rightarrow> session_table
     \<Rightarrow> (string \<times> int) option \<times> session_store \<times> session_table" where
  "create_session hash raw ttl now ok s tbl =
     (case raw of None \<Rightarrow> (None, s, tbl) | Some bytes \<Rightarrow>
       let token = hex_encode bytes; expiresAt = now + ttl; h = hash token;
           s1 = s\<lparr>ss_sessions := AList.update h expiresAt (ss_sessions s)\<rparr>
       in (case persistLocked ok s1 tbl of
             (False, tbl1) \<Rightarrow> (None, s1\<lparr>ss_sessions := AList.delete h (ss_sessions s1)\<rparr>, tbl1)
           | (True, tbl1) \<Rightarrow> (Some (token, expiresAt), s1, tbl1)))"

definition valid_session ::
    "(string \<Rightarrow> string) \<Rightarrow> string \<Rightarrow> int \<Rightarrow> bool \<Rightarrow> session_store \<Rightarrow> session_table \<Rightarrow> bool \<times> session_store \<times> session_table" where
  "valid_session hash token now ok s tbl =
     (if token = [] then (False, s, tbl) else
      (case map_of (ss_sessions s) (hash token) of
         None \<Rightarrow> (False, s, tbl)
       | Some expiresAt \<Rightarrow>
           if expiresAt \<le> now then
             let s1 = s\<lparr>ss_sessions := AList.delete (hash token) (ss_sessions s)\<rparr>
             in (False, s1, snd (persistLocked ok s1 tbl))
           else (True, s, tbl)))"

definition delete_session ::
    "(string \<Rightarrow> string) \<Rightarrow> string \<Rightarrow> bool \<Rightarrow> session_store \<Rightarrow> session_table \<Rightarrow> bool \<times> session_store \<times> session_table" where
  "delete_session hash token ok s tbl =
     (if token = [] then (True, s, tbl) else
      (case map_of (ss_sessions s) (hash token) of
         None \<Rightarrow> (True, s, tbl)
       | Some expiresAt \<Rightarrow>
           let s1 = s\<lparr>ss_sessions := AList.delete (hash token) (ss_sessions s)\<rparr>
           in (case persistLocked ok s1 tbl of
                 (False, tbl1) \<Rightarrow> (False, s1\<lparr>ss_sessions := AList.update (hash token) expiresAt (ss_sessions s1)\<rparr>, tbl1)
               | (True, tbl1) \<Rightarrow> (True, s1, tbl1))))"

definition evictExpired :: "int \<Rightarrow> bool \<Rightarrow> session_store \<Rightarrow> session_table \<Rightarrow> session_store \<times> session_table" where
  "evictExpired now ok s tbl =
     (let s1 = s\<lparr>ss_sessions := filter (\<lambda>(h, e). e > now) (ss_sessions s)\<rparr>
      in if list_ex (\<lambda>(h, e). e \<le> now) (ss_sessions s) then (s1, snd (persistLocked ok s1 tbl)) else (s1, tbl))"

section \<open>Handlers\<close>

text \<open>authEnabled and the part of the server the handlers of sessions use; the store is nil on a server that
  started without authentication.\<close>

definition authEnabled :: "auth_cfg \<Rightarrow> bool" where
  "authEnabled a \<longleftrightarrow> au_Username a \<noteq> [] \<and> au_Password a \<noteq> []"

record auth_server =
  as_auth :: auth_cfg
  as_sessions :: "session_store option"
  as_table :: session_table

text \<open>r.Cookie: the first cookie of the name.\<close>

definition authenticated :: "(string \<Rightarrow> string) \<Rightarrow> (string \<times> string) list \<Rightarrow> int \<Rightarrow> bool \<Rightarrow> auth_server \<Rightarrow> bool \<times> auth_server" where
  "authenticated hash cookies now ok s =
     (if \<not> authEnabled (as_auth s) then (True, s) else
      (case map_of cookies (au_CookieName (as_auth s)) of
         None \<Rightarrow> (False, s)
       | Some token \<Rightarrow>
          (case as_sessions s of
             None \<Rightarrow> (False, s)
           | Some store \<Rightarrow>
              (case valid_session hash token now ok store (as_table s) of (v, store1, tbl1) \<Rightarrow>
                (v, s\<lparr>as_sessions := Some store1, as_table := tbl1\<rparr>)))))"

text \<open>requireAuth: built is the authentication configured when Handler ran; the result says whether the
  handler behind it is called.\<close>

definition requireAuth ::
    "(string \<Rightarrow> string) \<Rightarrow> auth_cfg \<Rightarrow> (string \<times> string) list \<Rightarrow> int \<Rightarrow> bool \<Rightarrow> auth_server \<Rightarrow> bool \<times> auth_server" where
  "requireAuth hash built cookies now ok s =
     (if \<not> authEnabled built then (True, s) else authenticated hash cookies now ok s)"

text \<open>GET /api/session: the status, required and authenticated.\<close>

definition sessionStatus ::
    "(string \<Rightarrow> string) \<Rightarrow> (string \<times> string) list \<Rightarrow> int \<Rightarrow> bool \<Rightarrow> auth_server \<Rightarrow> (nat \<times> bool \<times> bool) \<times> auth_server" where
  "sessionStatus hash cookies now ok s =
     (let required = authEnabled (as_auth s) in
      (case authenticated hash cookies now ok s of (authd, s1) \<Rightarrow>
        (if required \<and> \<not> authd then (401, True, False) else (200, required, authd), s1)))"

datatype session_reply = NoContent "(string \<times> int) option" | InvalidSessionJson | Unauthorized | SessionError

text \<open>POST /api/session: the cookie's value and expiry, or None when the nil store makes the handler panic.
  The body is the decoded user name and password.\<close>

definition createSession ::
    "(string \<Rightarrow> string) \<Rightarrow> (string \<times> string) option \<Rightarrow> string option \<Rightarrow> int \<Rightarrow> bool \<Rightarrow> auth_server
     \<Rightarrow> (session_reply \<times> auth_server) option" where
  "createSession hash body raw now ok s =
     (if \<not> authEnabled (as_auth s) then Some (NoContent None, s) else
      (case body of
         None \<Rightarrow> Some (InvalidSessionJson, s)
       | Some (username, password) \<Rightarrow>
           if username \<noteq> au_Username (as_auth s) \<or> password \<noteq> au_Password (as_auth s) then Some (Unauthorized, s) else
           (case as_sessions s of
              None \<Rightarrow> (case raw of None \<Rightarrow> Some (SessionError, s) | Some _ \<Rightarrow> None)
            | Some store \<Rightarrow>
               (case create_session hash raw (au_SessionTTL (as_auth s)) now ok store (as_table s) of
                  (created, store1, tbl1) \<Rightarrow>
                    let s1 = s\<lparr>as_sessions := Some store1, as_table := tbl1\<rparr>
                    in (case created of None \<Rightarrow> Some (SessionError, s1) | Some cookie \<Rightarrow> Some (NoContent (Some cookie), s1))))))"

text \<open>DELETE /api/session; the cookie is cleared unless the deletion could not be stored.\<close>

definition deleteSession ::
    "(string \<Rightarrow> string) \<Rightarrow> (string \<times> string) list \<Rightarrow> bool \<Rightarrow> auth_server \<Rightarrow> session_reply \<times> auth_server" where
  "deleteSession hash cookies ok s =
     (if \<not> authEnabled (as_auth s) then (NoContent None, s) else
      (case (map_of cookies (au_CookieName (as_auth s)), as_sessions s) of
         (Some token, Some store) \<Rightarrow>
           (case delete_session hash token ok store (as_table s) of (deleted, store1, tbl1) \<Rightarrow>
             (if deleted then NoContent (Some ([], 0)) else SessionError, s\<lparr>as_sessions := Some store1, as_table := tbl1\<rparr>))
       | _ \<Rightarrow> (NoContent (Some ([], 0)), s)))"

text \<open>NewServer.\<close>

definition new_auth_server :: "auth_cfg \<Rightarrow> bool \<Rightarrow> nat \<Rightarrow> int \<Rightarrow> session_table \<Rightarrow> auth_server" where
  "new_auth_server auth db n now tbl = \<lparr>as_auth = auth,
     as_sessions = (if authEnabled auth then Some (if db then newSQLiteSessionStore n now tbl else newMemorySessionStore) else None),
     as_table = tbl\<rparr>"

section \<open>Runs of the store, and what was granted\<close>

datatype session_op =
  Create "string option" duration bool | Check string bool | Delete string bool | Evict bool | Reload

datatype session_result = Issued string int | Refused | Checked bool | Deleted bool | Quiet

definition session_step ::
    "(string \<Rightarrow> string) \<Rightarrow> int \<Rightarrow> session_op \<Rightarrow> session_store \<times> session_table
     \<Rightarrow> session_result \<times> session_store \<times> session_table" where
  "session_step hash now a st =
     (case st of (s, tbl) \<Rightarrow>
      (case a of
         Create raw ttl ok \<Rightarrow>
           (case create_session hash raw ttl now ok s tbl of
              (None, st1) \<Rightarrow> (Refused, st1) | (Some (token, e), st1) \<Rightarrow> (Issued token e, st1))
       | Check token ok \<Rightarrow> (case valid_session hash token now ok s tbl of (v, st1) \<Rightarrow> (Checked v, st1))
       | Delete token ok \<Rightarrow> (case delete_session hash token ok s tbl of (d, st1) \<Rightarrow> (Deleted d, st1))
       | Evict ok \<Rightarrow> (Quiet, evictExpired now ok s tbl)
       | Reload \<Rightarrow> (Quiet, newSQLiteSessionStore (length tbl) now tbl, tbl)))"

fun session_run ::
    "(string \<Rightarrow> string) \<Rightarrow> (int \<times> session_op) list \<Rightarrow> session_store \<times> session_table
     \<Rightarrow> (session_op \<times> session_result) list \<times> session_store \<times> session_table" where
  "session_run hash [] st = ([], st)"
| "session_run hash ((now, a) # ops) st =
     (case session_step hash now a st of (r, st1) \<Rightarrow>
      (case session_run hash ops st1 of (h, st2) \<Rightarrow> ((a, r) # h, st2)))"

text \<open>What clients were told: a token counts from its issue until a deletion of it that succeeded.\<close>

definition grant :: "session_op \<times> session_result \<Rightarrow> (string \<rightharpoonup> int) \<Rightarrow> (string \<rightharpoonup> int)" where
  "grant ar m = (case ar of
     (_, Issued token e) \<Rightarrow> m(token \<mapsto> e)
   | (Delete token _, Deleted True) \<Rightarrow> m(token := None)
   | _ \<Rightarrow> m)"

definition granted :: "(session_op \<times> session_result) list \<Rightarrow> (string \<rightharpoonup> int)" where
  "granted h = fold grant h Map.empty"

definition op_tokens :: "session_op \<Rightarrow> string set" where
  "op_tokens a = (case a of Create (Some raw) _ _ \<Rightarrow> {hex_encode raw} | Check t _ \<Rightarrow> {t} | Delete t _ \<Rightarrow> {t} | _ \<Rightarrow> {})"

definition created_tokens :: "session_op \<Rightarrow> string list" where
  "created_tokens a = (case a of Create (Some raw) _ _ \<Rightarrow> [hex_encode raw] | _ \<Rightarrow> [])"

definition op_random :: "session_op \<Rightarrow> bool" where
  "op_random a = (case a of Create (Some raw) _ _ \<Rightarrow> length raw = 32 | _ \<Rightarrow> True)"

definition live :: "int \<Rightarrow> int option \<Rightarrow> int option" where
  "live now x = (case x of None \<Rightarrow> None | Some e \<Rightarrow> if now < e then Some e else None)"

lemma live_simps [simp]:
  "live now None = None" "now < e \<Longrightarrow> live now (Some e) = Some e" "e \<le> now \<Longrightarrow> live now (Some e) = None"
  by (simp_all add: live_def)

lemma live_later: "now \<le> now' \<Longrightarrow> live now x = live now y \<Longrightarrow> live now' x = live now' y"
  by (auto simp: live_def split: option.splits if_splits)

lemma live_idem [simp]: "live now (live now x) = live now x"
  by (simp add: live_def split: option.splits)

lemma map_of_live:
  assumes "distinct (map fst xs)"
  shows "map_of (filter (\<lambda>(h, e). now < e) xs) h = live now (map_of xs h)"
  using assms
proof (induction xs)
  case (Cons x xs)
  obtain k e where x: "x = (k, e)" by fastforce
  have "map_of xs k = None" using Cons.prems x by (simp add: map_of_eq_None_iff)
  then show ?case using Cons x by auto
qed simp

lemma load_row_simps:
  "ss_db (load_row now r s) = ss_db s"
  "distinct (map fst (ss_sessions s)) \<Longrightarrow> distinct (map fst (ss_sessions (load_row now r s)))"
  "map_of (ss_sessions (load_row now (k, e) s)) h = (if h = k \<and> now < e then Some e else map_of (ss_sessions s) h)"
  by (simp_all add: load_row_def distinct_update update_conv' split: prod.split)

lemma load_keeps_db [simp]: "ss_db (fold (load_row now) rows s) = ss_db s"
  by (induction rows arbitrary: s) (simp_all add: load_row_simps)

lemma load_rows_distinct:
  "distinct (map fst (ss_sessions s)) \<Longrightarrow> distinct (map fst (ss_sessions (fold (load_row now) rows s)))"
  by (induction rows arbitrary: s) (simp_all add: load_row_simps)

lemma load_rows:
  "distinct (map fst rows) \<Longrightarrow> map_of (ss_sessions (fold (load_row now) rows s)) h =
   (case live now (map_of rows h) of None \<Rightarrow> map_of (ss_sessions s) h | Some e \<Rightarrow> Some e)"
proof (induction rows arbitrary: s)
  case (Cons x rows)
  obtain k e where x: "x = (k, e)" by fastforce
  have "map_of rows k = None" using Cons.prems x by (simp add: map_of_eq_None_iff)
  then show ?case
    using Cons x by (cases "h = k"; cases "now < e") (simp_all add: load_row_simps cong: option.case_cong)
qed simp

lemma reload:
  assumes "distinct (map fst tbl)"
  shows "map_of (ss_sessions (newSQLiteSessionStore (length tbl) now tbl)) h = live now (map_of tbl h)"
    "distinct (map fst (ss_sessions (newSQLiteSessionStore (length tbl) now tbl)))"
    "ss_db (newSQLiteSessionStore (length tbl) now tbl)"
  using load_rows [OF assms] load_rows_distinct
  by (simp_all add: newSQLiteSessionStore_def loadSQLite_def split: option.split)

text \<open>Store, table and grants agree about the tokens of T that have not expired.\<close>

definition sessions_agree ::
    "(string \<Rightarrow> string) \<Rightarrow> string set \<Rightarrow> int \<Rightarrow> session_store \<times> session_table \<Rightarrow> (string \<rightharpoonup> int) \<Rightarrow> bool" where
  "sessions_agree hash T now st m = (case st of (s, tbl) \<Rightarrow>
     ss_db s \<and> distinct (map fst (ss_sessions s)) \<and> distinct (map fst tbl) \<and> m [] = None \<and>
     (\<forall>t\<in>T. live now (map_of (ss_sessions s) (hash t)) = live now (m t) \<and>
            live now (map_of tbl (hash t)) = live now (m t)))"

lemma agree_later: "sessions_agree hash T now st m \<Longrightarrow> now \<le> now' \<Longrightarrow> sessions_agree hash T now' st m"
  by (auto simp: sessions_agree_def intro: live_later)

lemma agree_persist:
  assumes "sessions_agree hash T now (s, tbl) m" "distinct (map fst xs)" "m' [] = None"
    and "\<forall>t\<in>T. live now (map_of xs (hash t)) = live now (m' t)"
  shows "sessions_agree hash T now (s\<lparr>ss_sessions := xs\<rparr>, xs) m'"
  using assms by (simp add: sessions_agree_def)

lemma agree_unsaved:
  assumes "sessions_agree hash T now (s, tbl) m" "distinct (map fst xs)"
    and "\<forall>t\<in>T. live now (map_of xs (hash t)) = live now (map_of (ss_sessions s) (hash t))"
  shows "sessions_agree hash T now (s\<lparr>ss_sessions := xs\<rparr>, snd (persistLocked ok (s\<lparr>ss_sessions := xs\<rparr>) tbl)) m"
  using assms by (simp add: sessions_agree_def persistLocked_def)

lemma agree_step:
  assumes R: "sessions_agree hash T now (s, tbl) m" and inj: "inj_on hash T" and T: "op_tokens a \<subseteq> T" "op_random a"
    and new: "\<forall>t\<in>set (created_tokens a). m t = None"
    and step: "session_step hash now a (s, tbl) = (r, st')"
  shows "sessions_agree hash T now st' (grant (a, r) m)"
proof -
  have db: "ss_db s" and d: "distinct (map fst (ss_sessions s))" "distinct (map fst tbl)" and m: "m [] = None"
    and lv: "\<And>t. t \<in> T \<Longrightarrow> live now (map_of (ss_sessions s) (hash t)) = live now (m t)"
      "\<And>t. t \<in> T \<Longrightarrow> live now (map_of tbl (hash t)) = live now (m t)"
    using R by (auto simp: sessions_agree_def)
  have eq: "\<And>t u. t \<in> T \<Longrightarrow> u \<in> T \<Longrightarrow> hash t = hash u \<longleftrightarrow> t = u"
    using inj by (auto simp: inj_on_def)
  show ?thesis
  proof (cases a)
    case (Create raw ttl ok)
    show ?thesis
    proof (cases raw)
      case None
      then show ?thesis using step R Create by (auto simp: session_step_def create_session_def grant_def)
    next
      case (Some bytes)
      then have t: "hex_encode bytes \<in> T" "hex_encode bytes \<noteq> []"
        using T Create hex_encode_length [of bytes] by (auto simp: op_tokens_def op_random_def)
      show ?thesis
      proof (cases ok)
        case True
        have "sessions_agree hash T now (s\<lparr>ss_sessions := AList.update (hash (hex_encode bytes)) (now + ttl) (ss_sessions s)\<rparr>,
            AList.update (hash (hex_encode bytes)) (now + ttl) (ss_sessions s)) (m(hex_encode bytes \<mapsto> now + ttl))"
          by (rule agree_persist [OF R]) (use d m t lv eq in \<open>auto simp: update_conv' distinct_update\<close>)
        then show ?thesis
          using True step Create Some db
          by (auto simp: session_step_def create_session_def persistLocked_def grant_def Let_def)
      next
        case False
        have "sessions_agree hash T now (s\<lparr>ss_sessions := AList.delete (hash (hex_encode bytes))
            (AList.update (hash (hex_encode bytes)) (now + ttl) (ss_sessions s))\<rparr>, tbl) m"
          using R new t Create Some eq
          by (auto simp: sessions_agree_def update_conv' delete_conv' distinct_update distinct_delete created_tokens_def)
        then show ?thesis
          using False step Create Some db
          by (auto simp: session_step_def create_session_def persistLocked_def grant_def Let_def)
      qed
    qed
  next
    case (Check token ok)
    show ?thesis
    proof (cases "map_of (ss_sessions s) (hash token)")
      case (Some e)
      have "sessions_agree hash T now (s\<lparr>ss_sessions := AList.delete (hash token) (ss_sessions s)\<rparr>,
          snd (persistLocked ok (s\<lparr>ss_sessions := AList.delete (hash token) (ss_sessions s)\<rparr>) tbl)) m" if "e \<le> now"
        by (rule agree_unsaved [OF R]) (use that Some d in \<open>auto simp: delete_conv' distinct_delete\<close>)
      then show ?thesis
        using Some step Check R by (auto simp: session_step_def valid_session_def grant_def Let_def split: if_splits)
    qed (use step Check R in \<open>auto simp: session_step_def valid_session_def grant_def split: if_splits\<close>)
  next
    case (Delete token ok)
    have t: "token \<in> T" using T Delete by (simp add: op_tokens_def)
    show ?thesis
    proof (cases "map_of (ss_sessions s) (hash token)")
      case None
      then have "live now (m token) = None" using lv(1) [OF t] by simp
      then show ?thesis
        using None step Delete R m
        by (auto simp: session_step_def delete_session_def grant_def sessions_agree_def split: if_splits)
    next
      case (Some e)
      have "sessions_agree hash T now (s\<lparr>ss_sessions := AList.delete (hash token) (ss_sessions s)\<rparr>,
          AList.delete (hash token) (ss_sessions s)) (m(token := None))"
        by (rule agree_persist [OF R]) (use d m lv eq t in \<open>auto simp: delete_conv' distinct_delete\<close>)
      moreover have "sessions_agree hash T now (s\<lparr>ss_sessions := AList.update (hash token) e (AList.delete (hash token) (ss_sessions s))\<rparr>, tbl) m"
        using R Some by (auto simp: sessions_agree_def update_conv' delete_conv' distinct_update distinct_delete)
      ultimately show ?thesis
        using Some step Delete R db
        by (cases ok) (auto simp: session_step_def delete_session_def persistLocked_def grant_def Let_def
            fun_upd_idem [of m "[]", OF m] split: if_splits)
    qed
  next
    case (Evict ok)
    have "sessions_agree hash T now (s\<lparr>ss_sessions := filter (\<lambda>(h, e). now < e) (ss_sessions s)\<rparr>,
        snd (persistLocked ok (s\<lparr>ss_sessions := filter (\<lambda>(h, e). now < e) (ss_sessions s)\<rparr>) tbl)) m"
      by (rule agree_unsaved [OF R]) (use d in \<open>auto simp: map_of_live intro: distinct_map_filter\<close>)
    moreover have "filter (\<lambda>(h, e). now < e) (ss_sessions s) = ss_sessions s"
      if "\<not> list_ex (\<lambda>(h, e). e \<le> now) (ss_sessions s)"
      using that by (auto simp: filter_id_conv list_ex_iff)
    ultimately show ?thesis
      using step Evict R by (auto simp: session_step_def evictExpired_def grant_def Let_def split: if_splits)
  next
    case Reload
    then show ?thesis
      using step reload [OF d(2)] d m lv
      by (auto simp: session_step_def grant_def sessions_agree_def)
  qed
qed

text \<open>The grants after a step: only a creation adds a token.\<close>

lemma grant_new:
  assumes "session_step hash now a st = (r, st')" "m t = None" "t \<notin> set (created_tokens a)"
  shows "grant (a, r) m t = None"
  using assms
  by (auto simp: session_step_def create_session_def created_tokens_def grant_def Let_def
      split: session_op.splits option.splits prod.splits bool.splits)

definition run_tokens :: "(int \<times> session_op) list \<Rightarrow> string list" where
  "run_tokens ops = concat (map (created_tokens \<circ> snd) ops)"

definition plausible_run :: "(string \<Rightarrow> string) \<Rightarrow> string \<Rightarrow> (int \<times> session_op) list \<Rightarrow> bool" where
  "plausible_run hash t ops \<longleftrightarrow> sorted (map fst ops) \<and> list_all (op_random \<circ> snd) ops \<and> distinct (run_tokens ops) \<and>
     inj_on hash (insert t (\<Union>(op_tokens ` snd ` set ops)))"

lemma agree_run:
  assumes "sessions_agree hash T now st m" "inj_on hash T" "\<Union>(op_tokens ` snd ` set ops) \<subseteq> T"
    and "list_all (op_random \<circ> snd) ops" "distinct (run_tokens ops)" "\<forall>t\<in>set (run_tokens ops). m t = None"
    and "sorted (map fst ops)" "\<forall>x\<in>set ops. now \<le> fst x \<and> fst x \<le> later" "now \<le> later"
    and "session_run hash ops st = (h, st')"
  shows "sessions_agree hash T later st' (fold grant h m)"
  using assms
proof (induction ops arbitrary: now st m h)
  case (Cons x ops)
  obtain now1 a where x: "x = (now1, a)" by fastforce
  obtain r st1 where s1: "session_step hash now1 a st = (r, st1)" by (rule prod.exhaust)
  obtain h2 where h: "session_run hash ops st1 = (h2, st')" "h = (a, r) # h2"
    using Cons.prems(10) x s1 by (auto split: prod.splits)
  have r: "sessions_agree hash T now1 st m"
    using agree_later [OF Cons.prems(1)] Cons.prems(8) x by simp
  have new: "\<forall>t\<in>set (run_tokens ops). grant (a, r) m t = None"
    using Cons.prems(5,6) x by (auto simp: run_tokens_def intro!: grant_new [OF s1])
  have "sessions_agree hash T now1 st1 (grant (a, r) m)"
    using agree_step [of hash T now1 "fst st" "snd st" m a r st1] r s1 Cons.prems x
    by (auto simp: run_tokens_def)
  then have "sessions_agree hash T later st' (fold grant h2 (grant (a, r) m))"
    using Cons.IH [of now1 st1 "grant (a, r) m" h2] Cons.prems x h new
    by (auto simp: run_tokens_def)
  then show ?case using h by simp
qed (auto intro: agree_later)

text \<open>C4: a token is accepted exactly when it was issued, has not expired and has not been deleted with success, whatever writes of the table failed and however often the server was restarted.\<close>

theorem sessions_accept_granted:
  assumes "plausible_run hash t ops" "list_all (\<lambda>x. start \<le> fst x \<and> fst x \<le> now) ops" "start \<le> now"
    and "session_run hash ops (newSQLiteSessionStore 0 start [], []) = (h, s, tbl)"
  shows "fst (valid_session hash t now ok s tbl) = (case granted h t of None \<Rightarrow> False | Some e \<Rightarrow> now < e)"
proof -
  let ?T = "insert t (\<Union>(op_tokens ` snd ` set ops))"
  have "sessions_agree hash ?T start (newSQLiteSessionStore 0 start [], []) Map.empty"
    by (simp add: sessions_agree_def newSQLiteSessionStore_def loadSQLite_def)
  then have "sessions_agree hash ?T now (s, tbl) (granted h)"
    unfolding granted_def
    by (rule agree_run) (use assms in \<open>auto simp: plausible_run_def list_all_iff\<close>)
  then have "live now (map_of (ss_sessions s) (hash t)) = live now (granted h t)" "granted h [] = None"
    by (simp_all add: sessions_agree_def)
  then show ?thesis
    by (auto simp: valid_session_def live_def Let_def split: option.splits if_splits)
qed

definition example_raw :: "char \<Rightarrow> string" where
  "example_raw c = replicate 32 c"

definition example_session_ops :: "(int \<times> session_op) list" where
  "example_session_ops = [(1, Create (Some (example_raw CHR ''k'')) 100 True),
     (2, Create (Some (example_raw CHR ''l'')) 5 True), (5, Delete (hex_encode (example_raw CHR ''l'')) False),
     (9, Evict False), (10, Reload)]"

lemma example_raw_facts [simp]:
  "length (example_raw c) = 32" "hex_encode (example_raw c) = hex_encode (example_raw d) \<longleftrightarrow> c = d"
  "hex_encode (example_raw c) \<noteq> []"
proof -
  show l: "length (example_raw c) = 32" for c by (simp add: example_raw_def)
  show "hex_encode (example_raw c) \<noteq> []" using hex_encode_length [of "example_raw c"] l [of c] by auto
  have "example_raw c = example_raw d \<longleftrightarrow> c = d" by (auto simp: example_raw_def numeral_eq_Suc)
  then show "hex_encode (example_raw c) = hex_encode (example_raw d) \<longleftrightarrow> c = d"
    using hex_decode_encode by (metis option.inject)
qed

lemma example_plausible: "plausible_run id t example_session_ops"
  by (simp add: plausible_run_def example_session_ops_def run_tokens_def op_random_def created_tokens_def)

lemma example_sessions:
  "session_run id example_session_ops (newSQLiteSessionStore 0 0 [], []) =
     (let k = hex_encode (example_raw CHR ''k''); l = hex_encode (example_raw CHR ''l'') in
     ([(Create (Some (example_raw CHR ''k'')) 100 True, Issued k 101),
       (Create (Some (example_raw CHR ''l'')) 5 True, Issued l 7), (Delete l False, Deleted False), (Evict False, Quiet), (Reload, Quiet)],
      \<lparr>ss_db = True, ss_sessions = [(k, 101)]\<rparr>, [(k, 101), (l, 7)]))"
  by (simp add: example_session_ops_def session_step_def create_session_def delete_session_def evictExpired_def
      persistLocked_def newSQLiteSessionStore_def loadSQLite_def load_row_def Let_def)

theorem sessions_accept_granted_witness:
  "fst (valid_session id (hex_encode (example_raw CHR ''k'')) 50 True
     \<lparr>ss_db = True, ss_sessions = [(hex_encode (example_raw CHR ''k''), 101)]\<rparr>
     [(hex_encode (example_raw CHR ''k''), 101), (hex_encode (example_raw CHR ''l''), 7)])"
  using sessions_accept_granted [OF example_plausible _ _ example_sessions [unfolded Let_def], of 50 "hex_encode (example_raw CHR ''k'')" True]
  by (simp add: example_session_ops_def granted_def grant_def)

text \<open>C38: right credentials give a cookie that opens the protected handlers until it expires; any other
  credentials, and an unreadable body, are refused and leave the server as it is.\<close>

theorem login_opens_until_expiry:
  assumes "authEnabled (as_auth s)" "as_sessions s = Some store" "raw \<noteq> []" "now \<le> later"
    and "createSession hash body (Some raw) now ok s = Some (reply, s')"
  shows "(case reply of
      NoContent cookie \<Rightarrow> body = Some (au_Username (as_auth s), au_Password (as_auth s)) \<and>
        cookie = Some (hex_encode raw, now + au_SessionTTL (as_auth s)) \<and>
        fst (requireAuth hash (as_auth s) [(au_CookieName (as_auth s), hex_encode raw)] later ok' s') =
          (later < now + au_SessionTTL (as_auth s))
    | SessionError \<Rightarrow> \<not> ok \<and> ss_db store \<and> as_table s' = as_table s
    | _ \<Rightarrow> s' = s \<and> body \<noteq> Some (au_Username (as_auth s), au_Password (as_auth s)))"
proof -
  have "hex_encode raw \<noteq> []" using assms(3) hex_encode_length [of raw] by (cases "hex_encode raw") auto
  then show ?thesis
    using assms
    by (auto simp: createSession_def create_session_def persistLocked_def requireAuth_def authenticated_def
        valid_session_def update_conv' Let_def split: option.splits prod.splits if_splits bool.splits session_reply.splits)
qed

definition example_auth_server :: auth_server where
  "example_auth_server = \<lparr>as_auth = \<lparr>au_Username = ''op'', au_Password = ''pw'', au_SessionTTL = 10, au_CookieName = ''c''\<rparr>,
     as_sessions = Some newMemorySessionStore, as_table = []\<rparr>"

theorem login_opens_until_expiry_witness:
  "fst (requireAuth id (as_auth example_auth_server) [(''c'', hex_encode ''r'')] 9 True
     (snd (the (createSession id (Some (''op'', ''pw'')) (Some ''r'') 0 True example_auth_server))))"
  using login_opens_until_expiry [of example_auth_server newMemorySessionStore "''r''" 0 9 id "Some (''op'', ''pw'')" True
      "NoContent (Some (hex_encode ''r'', 10))" "snd (the (createSession id (Some (''op'', ''pw'')) (Some ''r'') 0 True example_auth_server))" True]
  by (simp add: example_auth_server_def authEnabled_def newMemorySessionStore_def createSession_def create_session_def
      persistLocked_def Let_def)

text \<open>Rows that could not be read at the start: a session that is then deleted without error is accepted
  again after the next start.\<close>

lemma unread_rows_revive_session:
  "(let (s, tbl) = (newSQLiteSessionStore 0 0 [(''t'', 100)], [(''t'', 100)]);
        (deleted, s1, tbl1) = delete_session id ''t'' True s tbl
    in deleted \<and> fst (valid_session id ''t'' 50 True (newSQLiteSessionStore (length tbl1) 1 tbl1) tbl1))"
  by code_simp

text \<open>a server that started without authentication has no store: when a user and a password are then
  set at run time, a login with them panics, while no handler asks for a session.\<close>

theorem login_needs_restart:
  assumes "\<not> authEnabled started" "authEnabled auth"
  shows "let s = (new_auth_server started db n now tbl)\<lparr>as_auth := auth\<rparr> in
    createSession hash (Some (au_Username auth, au_Password auth)) (Some raw) later ok s = None \<and>
    requireAuth hash started cookies later ok s = (True, s)"
  using assms by (simp add: new_auth_server_def createSession_def requireAuth_def)

theorem login_needs_restart_witness:
  "createSession id (Some (''op'', ''pw'')) (Some ''r'') 1 True
     ((new_auth_server \<lparr>au_Username = [], au_Password = [], au_SessionTTL = 10, au_CookieName = ''c''\<rparr> True 0 0 [])
       \<lparr>as_auth := \<lparr>au_Username = ''op'', au_Password = ''pw'', au_SessionTTL = 10, au_CookieName = ''c''\<rparr>\<rparr>) = None"
  using login_needs_restart [of "\<lparr>au_Username = [], au_Password = [], au_SessionTTL = 10, au_CookieName = ''c''\<rparr>"
      "\<lparr>au_Username = ''op'', au_Password = ''pw'', au_SessionTTL = 10, au_CookieName = ''c''\<rparr>"]
  by (simp add: authEnabled_def Let_def)

end
