(* ===== verification/Messages.thy ===== *)
theory Messages
  imports Outbox DmStats ChatLog Meshcom
begin

text \<open>
  Sending: POST /api/messages, the watcher of echoes and the callback of the outbox's timers
  (internal/httpapi/server.go), with the cache of recent messages (internal/sendcache). Sending takes
  time, so a request is two steps, before and after the transport's SendText, between which echoes and
  timers may act. The expiring LRU cache is a library: a parameter with its lookup and its insertion.
\<close>

section \<open>The send cache (sendcache.go)\<close>

record 'l lru_lib =
  lru_get :: "gotime \<Rightarrow> string \<Rightarrow> 'l \<Rightarrow> bool \<times> 'l"
  lru_add :: "gotime \<Rightarrow> string \<Rightarrow> 'l \<Rightarrow> 'l"

record 'l send_cache =
  sc_lru :: 'l
  sc_disabled :: bool

text \<open>fresh is what expirable.NewLRU makes for 1024 entries and the time to live.\<close>

definition new_send_cache :: "(duration \<Rightarrow> 'l) \<Rightarrow> duration \<Rightarrow> 'l send_cache" where
  "new_send_cache fresh ttl = \<lparr>sc_lru = fresh ttl, sc_disabled = (ttl = 0)\<rparr>"

definition send_key :: "string \<Rightarrow> string \<Rightarrow> string" where
  "send_key dst msg = dst @ [CHR 0x00] @ msg"

definition Reserve :: "'l lru_lib \<Rightarrow> gotime \<Rightarrow> string \<Rightarrow> string \<Rightarrow> 'l send_cache \<Rightarrow> bool \<times> 'l send_cache" where
  "Reserve lib now dst msg c =
     (if sc_disabled c then (True, c)
      else (case lru_get lib now (send_key dst msg) (sc_lru c) of
              (True, l) \<Rightarrow> (False, c\<lparr>sc_lru := l\<rparr>)
            | (False, l) \<Rightarrow> (True, c\<lparr>sc_lru := lru_add lib now (send_key dst msg) l\<rparr>)))"

section \<open>The handlers\<close>

record 'l message_server =
  ms_max_length :: int
  ms_demo :: bool
  ms_callsign :: string
  ms_bridge :: bool
  ms_cache :: "'l send_cache option"
  ms_outbox :: outbox
  ms_dm :: "dm_store option"
  ms_chat :: "chat_tables option"
  ms_bus :: bool

text \<open>What SendText of the transport returns, as the handler tells errors apart.\<close>

datatype transport_result = SendOk | TransportUnavailable | NodeNotDetected | SendBroken

datatype message_reply =
    BadJson | BadText send_error | Duplicate | NoBridge | UnavailableReply | NotDetectedReply | SendFailedReply
  | Accepted outgoing_text

definition reserve_message :: "'l lru_lib \<Rightarrow> gotime \<Rightarrow> outgoing_text \<Rightarrow> 'l message_server \<Rightarrow> bool \<times> 'l message_server" where
  "reserve_message lib now out s =
     (case ms_cache s of None \<Rightarrow> (True, s)
      | Some c \<Rightarrow> (case Reserve lib now (ot_destination out) (ot_message out) c of
          (ok, c1) \<Rightarrow> (ok, s\<lparr>ms_cache := Some c1\<rparr>)))"

text \<open>createMessage up to SendText: a reply, or the message that is handed to the transport and the id it
  waits under in the outbox (empty in demo mode).\<close>

definition create_begin ::
    "'l lru_lib \<Rightarrow> gotime \<Rightarrow> gotime \<Rightarrow> (string \<times> string) option \<Rightarrow> 'l message_server
     \<Rightarrow> (message_reply + outgoing_text \<times> string) \<times> 'l message_server" where
  "create_begin lib wall now body s =
     (case body of None \<Rightarrow> (Inl BadJson, s)
      | Some (dst, msg) \<Rightarrow>
         (case NewOutgoingText dst msg (ms_max_length s) of Inl e \<Rightarrow> (Inl (BadText e), s)
          | Inr out \<Rightarrow>
             (case reserve_message lib now out s of
                (False, s1) \<Rightarrow> (Inl Duplicate, s1)
              | (True, s1) \<Rightarrow>
                  if \<not> ms_bridge s1 then (Inl NoBridge, s1)
                  else if ms_demo s1 then (Inr (out, []), s1)
                  else (case Register wall (ms_callsign s1) (ot_destination out) (ot_message out) now (ms_outbox s1) of
                          (ob, p) \<Rightarrow> (Inr (out, pm_ID p), s1\<lparr>ms_outbox := ob\<rparr>)))))"

definition create_end :: "transport_result \<Rightarrow> outgoing_text \<times> string \<Rightarrow> 'l message_server \<Rightarrow> message_reply \<times> 'l message_server" where
  "create_end r sent s =
     (case sent of (out, i) \<Rightarrow>
      (let cancelled = s\<lparr>ms_outbox := fst (Cancel i (ms_outbox s))\<rparr> in
       case r of
         TransportUnavailable \<Rightarrow> (UnavailableReply, cancelled)
       | NodeNotDetected \<Rightarrow> (NotDetectedReply, cancelled)
       | SendBroken \<Rightarrow> (SendFailedReply, cancelled)
       | SendOk \<Rightarrow> (Accepted out, s\<lparr>ms_dm := map_option (RecordSent (ot_destination out)) (ms_dm s)\<rparr>)))"

text \<open>A request with nothing happening while it is sent.\<close>

definition createMessage ::
    "'l lru_lib \<Rightarrow> (outgoing_text \<Rightarrow> transport_result) \<Rightarrow> gotime \<Rightarrow> gotime \<Rightarrow> (string \<times> string) option \<Rightarrow> 'l message_server
     \<Rightarrow> message_reply \<times> 'l message_server" where
  "createMessage lib SendText wall now body s =
     (case create_begin lib wall now body s of
        (Inl reply, s1) \<Rightarrow> (reply, s1)
      | (Inr (out, i), s1) \<Rightarrow> create_end (SendText out) (out, i) s1)"

text \<open>The events these handlers publish.\<close>

datatype message_event = DeliveredEvent chat_record | FailedEvent chat_record

definition delivered_record :: "gotime \<Rightarrow> string \<Rightarrow> string \<Rightarrow> string \<Rightarrow> chat_record" where
  "delivered_record now src dst msg = (new_record now src [] dst msg)
     \<lparr>cr_SequenceID := [], cr_Direction := ''outbound'', cr_DeliveryStatus := ''delivered''\<rparr>"

text \<open>watchOutgoingEchoes for one text message of the bus; order is that of the pending map.\<close>

definition watch_echo ::
    "string list \<Rightarrow> gotime \<Rightarrow> string \<Rightarrow> string \<Rightarrow> string \<Rightarrow> 'l message_server \<Rightarrow> message_event list \<times> 'l message_server" where
  "watch_echo order now src dst msg s =
     (if \<not> ms_bus s then ([], s) else
      (case Confirm order src dst msg (ms_outbox s) of
         (ob, p, ok) \<Rightarrow>
           if ok then ([DeliveredEvent (delivered_record now src dst msg)],
                       s\<lparr>ms_outbox := ob, ms_dm := map_option (RecordAck dst) (ms_dm s)\<rparr>)
           else ([], s\<lparr>ms_outbox := ob\<rparr>)))"

definition handleOutgoingTimeout ::
    "bool \<Rightarrow> bool \<Rightarrow> gotime \<Rightarrow> pending_message \<Rightarrow> 'l message_server \<Rightarrow> message_event list \<times> 'l message_server" where
  "handleOutgoingTimeout f1 f2 now p s =
     (let record0 = (new_record now (pm_Source p) [] (pm_Destination p) (pm_Message p))
            \<lparr>cr_SequenceID := [], cr_Direction := ''outbound'', cr_DeliveryStatus := ''failed''\<rparr> in
      case ms_chat s of
        None \<Rightarrow> (if ms_bus s then [FailedEvent record0] else [], s)
      | Some t \<Rightarrow>
          (case AppendFailed f1 f2 (pm_Source p) (pm_Destination p) (pm_Message p) now t of
             (t1, rec, ok) \<Rightarrow>
               (if ok \<and> ms_bus s then [FailedEvent rec] else [], s\<lparr>ms_chat := Some t1\<rparr>)))"

text \<open>The timer of a message: expire, then its callback.\<close>

definition outgoing_timer ::
    "bool \<Rightarrow> bool \<Rightarrow> gotime \<Rightarrow> string \<Rightarrow> 'l message_server \<Rightarrow> message_event list \<times> 'l message_server" where
  "outgoing_timer f1 f2 now i s =
     (case expire i (ms_outbox s) of
        (ob, None) \<Rightarrow> ([], s\<lparr>ms_outbox := ob\<rparr>)
      | (ob, Some p) \<Rightarrow> handleOutgoingTimeout f1 f2 now p (s\<lparr>ms_outbox := ob\<rparr>))"

section \<open>Registering and withdrawing\<close>

lemma register_cancel:
  assumes "outbox_inv ob" "ob_nextID ob < max_int64" "Register w src d m t ob = (ob1, p)"
  shows "Cancel (pm_ID p) ob1 = (ob\<lparr>ob_nextID := ob_nextID ob + 1\<rparr>, True)"
proof -
  note r = Register_inv [OF assms]
  have n: "0 \<le> ob_nextID ob" using assms(1) by (simp add: outbox_inv_def pending_ok_def)
  then have w: "wrap64 (ob_nextID ob + 1) = ob_nextID ob + 1"
    using assms(2) by (intro wrap64_id) (auto simp: min_int64_def max_int64_def)
  have fresh: "pm_ID p \<notin> set (ids_of (ob_byKey ob) (pm_key p))"
    using ids_of_inv(2) [OF assms(1), of "pm_ID p" "pm_key p"] r(2) by auto
  have t: "pm_ID p \<notin> ob_timers ob" using assms(1) r(2) by (auto simp: outbox_inv_def)
  have k: "put_ids ((ob_byKey ob)(pm_key p \<mapsto> xs)) (pm_key p) (ids_of (ob_byKey ob) (pm_key p)) = ob_byKey ob" for xs
  proof -
    have "put_ids ((ob_byKey ob)(pm_key p \<mapsto> xs)) (pm_key p) ids = put_ids (ob_byKey ob) (pm_key p) ids" for ids
      by (simp add: put_ids_def)
    then show ?thesis using put_ids_same [OF assms(1)] by simp
  qed
  have p: "p = new_pending (ob_nextID ob + 1) w src d m t" "pm_ID p \<noteq> []"
    using assms(3) w by (auto simp: Register_def Let_def)
  show ?thesis
    using assms(3) p(2) fresh t r(2)
    by (auto simp: Register_def Let_def w p(1) [symmetric] Cancel_def removeLocked_def removeID_remove1 remove1_append
        ids_of_def [of "_(_ \<mapsto> _)"] k fun_upd_idem)
qed

lemma cancel_none: "Cancel [] ob = (ob, False)"
  by (simp add: Cancel_def)

text \<open>The cache finds what was added until the time to live is over.\<close>

definition lru_remembers :: "'l lru_lib \<Rightarrow> duration \<Rightarrow> bool" where
  "lru_remembers lib ttl \<longleftrightarrow>
     (\<forall>t t' k l. t \<le> t' \<longrightarrow> t' < t + ttl \<longrightarrow> fst (lru_get lib t' k (lru_add lib t k l)))"

lemma reserve_again:
  assumes "lru_remembers lib ttl" "Reserve lib now dst msg c = (True, c1)" "\<not> sc_disabled c" "now \<le> now'" "now' < now + ttl"
  shows "fst (Reserve lib now' dst msg c1) = False"
proof -
  obtain l where c1: "c1 = c\<lparr>sc_lru := lru_add lib now (send_key dst msg) l\<rparr>"
    using assms(2,3) by (auto simp: Reserve_def split: prod.splits bool.splits)
  have "fst (lru_get lib now' (send_key dst msg) (lru_add lib now (send_key dst msg) l))"
    using assms(1,4,5) by (auto simp: lru_remembers_def)
  then show ?thesis
    using assms(3) by (auto simp: c1 Reserve_def split: prod.splits bool.splits)
qed

lemma reserve_message_frame:
  "reserve_message lib now out s = (ok, s1) \<Longrightarrow> s1 = s\<lparr>ms_cache := ms_cache s1\<rparr>"
  by (auto simp: reserve_message_def split: option.splits prod.splits)

text \<open>a message that could not be sent is withdrawn: the outbox is as before, its sequence number apart, and
  nothing is counted; but the cache keeps it, so that sending it again within the window is refused as a
  duplicate.\<close>

theorem failed_send_refuses_retry:
  assumes "outbox_inv (ms_outbox s)" "ob_nextID (ms_outbox s) < max_int64" "lru_remembers lib ttl"
    and "ms_cache s = Some c" "\<not> sc_disabled c" "now \<le> now'" "now' < now + ttl"
    and "SendText out \<noteq> SendOk" "NewOutgoingText dst msg (ms_max_length s) = Inr out"
    and "createMessage lib SendText wall now (Some (dst, msg)) s = (reply, s')" "reply \<noteq> Duplicate"
  shows "ms_outbox s' = (ms_outbox s)\<lparr>ob_nextID := ob_nextID (ms_outbox s')\<rparr> \<and> ms_dm s' = ms_dm s \<and>
    fst (createMessage lib SendText' wall' now' (Some (dst, msg)) s') = Duplicate"
proof -
  obtain c1 where r: "Reserve lib now (ot_destination out) (ot_message out) c = (True, c1)"
    using assms(4,9-11)
    by (cases "Reserve lib now (ot_destination out) (ot_message out) c")
       (auto simp: createMessage_def create_begin_def reserve_message_def split: bool.splits)
  have rs: "reserve_message lib now out s = (True, s\<lparr>ms_cache := Some c1\<rparr>)"
    using r assms(4) by (simp add: reserve_message_def)
  have c': "ms_cache s' = Some c1" and m: "ms_max_length s' = ms_max_length s" and d: "ms_dm s' = ms_dm s"
    and ob: "ms_outbox s' = (ms_outbox s)\<lparr>ob_nextID := ob_nextID (ms_outbox s')\<rparr>"
    using assms(8-10) register_cancel [OF assms(1,2)]
    by (auto simp: createMessage_def create_begin_def rs create_end_def Let_def cancel_none split: if_splits prod.splits transport_result.splits)
  have "fst (reserve_message lib now' out s') = False"
    using reserve_again [OF assms(3) r assms(5-7)] c' by (auto simp: reserve_message_def split: prod.splits)
  then show ?thesis
    using d ob assms(9) m by (auto simp: createMessage_def create_begin_def split: prod.splits bool.splits)
qed

text \<open>A cache that never forgets within its window, as an instance of the library.\<close>

definition list_lru :: "duration \<Rightarrow> (string \<times> gotime) list lru_lib" where
  "list_lru ttl = \<lparr>lru_get = (\<lambda>now k l. (list_ex (\<lambda>(k', t). k' = k \<and> now < t + ttl) l, l)), lru_add = (\<lambda>now k l. (k, now) # l)\<rparr>"

definition example_message_server :: "(string \<times> gotime) list message_server" where
  "example_message_server = \<lparr>ms_max_length = 149, ms_demo = False, ms_callsign = ''IU5PMP-1'', ms_bridge = True,
     ms_cache = Some \<lparr>sc_lru = [], sc_disabled = False\<rparr>, ms_outbox = new_outbox 5000000000 True,
     ms_dm = Some NewSQLite_dm, ms_chat = Some empty_chat, ms_bus = True\<rparr>"

lemma list_lru_remembers: "lru_remembers (list_lru ttl) ttl"
  by (simp add: lru_remembers_def list_lru_def)

theorem failed_send_refuses_retry_witness:
  "fst (createMessage (list_lru 10) (\<lambda>out. SendOk) 3 3 (Some (''*'', ''ciao''))
     (snd (createMessage (list_lru 10) (\<lambda>out. SendBroken) 0 0 (Some (''*'', ''ciao'')) example_message_server))) = Duplicate"
proof -
  obtain reply s' where c: "createMessage (list_lru 10) (\<lambda>out. SendBroken) 0 0 (Some (''*'', ''ciao'')) example_message_server = (reply, s')"
    by (rule prod.exhaust)
  have n: "NewOutgoingText ''*'' ''ciao'' 149 = Inr \<lparr>ot_type = PacketTypeMessage, ot_destination = ''*'', ot_message = ''ciao''\<rparr>"
    by code_simp
  have "reply \<noteq> Duplicate"
    using c by (auto simp: createMessage_def create_begin_def example_message_server_def n reserve_message_def Reserve_def list_lru_def
        create_end_def Let_def split: prod.splits)
  then show ?thesis
    using failed_send_refuses_retry [OF _ _ list_lru_remembers [of 10] _ _ _ _ _ _ c, where SendText' = "\<lambda>out. SendOk" and wall' = 3 and now' = 3] n c
    by (simp add: example_message_server_def new_outbox_inv) (simp add: new_outbox_def max_int64_def)
qed

section \<open>The fate of a message\<close>

inductive message_step ::
    "'l lru_lib \<Rightarrow> 'l message_server \<Rightarrow> outbox_event \<times> message_event list \<Rightarrow> 'l message_server \<Rightarrow> bool" for lib where
  refused: "create_begin lib wall now body s = (Inl reply, s') \<Longrightarrow> message_step lib s (Nothing, []) s'"
| begun_demo: "ms_demo s \<Longrightarrow> create_begin lib wall now body s = (Inr sent, s') \<Longrightarrow> message_step lib s (Nothing, []) s'"
| begun: "\<not> ms_demo s \<Longrightarrow> create_begin lib wall now body s = (Inr (out, i), s') \<Longrightarrow> ob_nextID (ms_outbox s) < max_int64 \<Longrightarrow>
    ob_pending (ms_outbox s') i = Some p \<Longrightarrow> message_step lib s (Registered p, []) s'"
| sent: "create_end SendOk sent s = (reply, s') \<Longrightarrow> message_step lib s (Nothing, []) s'"
| failed: "r \<noteq> SendOk \<Longrightarrow> create_end r (out, i) s = (reply, s') \<Longrightarrow>
    message_step lib s (if snd (Cancel i (ms_outbox s)) then Cancelled i else Nothing, []) s'"
| echo: "set order = dom (ob_pending (ms_outbox s)) \<Longrightarrow> Confirm order src dst msg (ms_outbox s) = (ob, p, ok) \<Longrightarrow>
    watch_echo order now src dst msg s = (evs, s') \<Longrightarrow> ms_bus s \<Longrightarrow> message_step lib s (if ok then Confirmed p else Nothing, evs) s'"
| timer: "ob_pending (ms_outbox s) i = Some p \<Longrightarrow> outgoing_timer f1 f2 now i s = (evs, s') \<Longrightarrow>
    message_step lib s (Expired p, evs) s'"
| late_timer: "ob_pending (ms_outbox s) i = None \<Longrightarrow> outgoing_timer f1 f2 now i s = (evs, s') \<Longrightarrow>
    message_step lib s (Nothing, evs) s'"

inductive message_run ::
    "'l lru_lib \<Rightarrow> 'l message_server \<Rightarrow> (outbox_event \<times> message_event list) list \<Rightarrow> 'l message_server \<Rightarrow> bool" for lib where
  start: "message_run lib s [] s"
| step: "message_run lib s es s1 \<Longrightarrow> message_step lib s1 e s2 \<Longrightarrow> message_run lib s (es @ [e]) s2"

text \<open>What a step announces: nothing but the outcome of the message it resolves.\<close>

definition announced :: "outbox_event \<times> message_event list \<Rightarrow> bool" where
  "announced e = (case e of
     (Confirmed p, evs) \<Rightarrow> (\<exists>rec. evs = [DeliveredEvent rec])
   | (Expired p, evs) \<Rightarrow> evs = [] \<or> (\<exists>rec. evs = [FailedEvent rec] \<and> cr_Dst rec = pm_Destination p \<and>
         cr_Msg rec = pm_Message p \<and> cr_DeliveryStatus rec = ''failed'')
   | (_, evs) \<Rightarrow> evs = [])"

lemma reserve_outbox [simp]: "ms_outbox (snd (reserve_message lib now out s)) = ms_outbox s"
  "ms_demo (snd (reserve_message lib now out s)) = ms_demo s" "ms_callsign (snd (reserve_message lib now out s)) = ms_callsign s"
  by (simp_all add: reserve_message_def split: option.split prod.split)

lemma create_begin_cases:
  assumes "create_begin lib wall now body s = (r, s')"
  obtains (refused) reply where "r = Inl reply" "ms_outbox s' = ms_outbox s"
  | (demo) out where "r = Inr (out, [])" "ms_demo s" "ms_outbox s' = ms_outbox s"
  | (registered) out ob p where "r = Inr (out, pm_ID p)" "\<not> ms_demo s" "ms_outbox s' = ob"
      "Register wall (ms_callsign s) (ot_destination out) (ot_message out) now (ms_outbox s) = (ob, p)"
proof (cases "\<exists>d m out. body = Some (d, m) \<and> NewOutgoingText d m (ms_max_length s) = Inr out")
  case False
  then show ?thesis using assms refused by (auto simp: create_begin_def split: option.splits sum.splits)
next
  case True
  then obtain d m out where b: "body = Some (d, m)" "NewOutgoingText d m (ms_max_length s) = Inr out" by blast
  obtain ok s1 where r: "reserve_message lib now out s = (ok, s1)" by (rule prod.exhaust)
  then have "ms_outbox s1 = ms_outbox s" "ms_demo s1 = ms_demo s" "ms_callsign s1 = ms_callsign s"
    using reserve_outbox [of lib now out s] by simp_all
  then show ?thesis
    using assms b r refused demo registered
    by (cases ok) (auto simp: create_begin_def split: if_splits prod.splits)
qed

lemma timeout_outbox:
  "handleOutgoingTimeout f1 f2 now p s = (evs, s') \<Longrightarrow> ms_outbox s' = ms_outbox s \<and>
   (evs = [] \<or> (\<exists>rec. evs = [FailedEvent rec] \<and> cr_Dst rec = pm_Destination p \<and> cr_Msg rec = pm_Message p \<and>
      cr_DeliveryStatus rec = ''failed''))"
  by (auto simp: handleOutgoingTimeout_def AppendFailed_def new_record_def Let_def split: option.splits prod.splits if_splits)

lemma expire_pending: "ob_pending ob i = Some p \<Longrightarrow> expire i ob = (ob', f) \<Longrightarrow> f = None \<or> f = Some p"
  "ob_pending ob i = None \<Longrightarrow> expire i ob = (ob, None)"
  by (auto simp: expire_def)

lemma message_step_outbox:
  assumes "message_step lib s e s'"
  shows "outbox_step (ms_outbox s) (fst e) (ms_outbox s') \<and> announced e"
  using assms
proof cases
  case (refused wall now body reply)
  show ?thesis
    using refused(2)
    by (cases rule: create_begin_cases)
       (use refused(1) outbox_step.no_cancel [OF cancel_none] in \<open>auto simp: announced_def\<close>)
next
  case (begun_demo wall now body sent)
  show ?thesis
    using begun_demo(3)
    by (cases rule: create_begin_cases)
       (use begun_demo(1,2) outbox_step.no_cancel [OF cancel_none] in \<open>auto simp: announced_def\<close>)
next
  case (begun wall now body out i p)
  show ?thesis
    using begun(3)
  proof (cases rule: create_begin_cases)
    case (registered out' ob q)
    have "ob_pending ob (pm_ID q) = Some q" using registered(4) by (auto simp: Register_def Let_def)
    then have "p = q" using begun(5) registered(1,3) by simp
    then show ?thesis
      using begun registered outbox_step.register [OF begun(4) registered(4)] by (simp add: announced_def)
  qed (use begun in auto)
next
  case (sent x reply)
  then show ?thesis
    using outbox_step.no_cancel [OF cancel_none] by (auto simp: create_end_def announced_def split: prod.splits)
next
  case (failed r out i reply)
  obtain ob ok where c: "Cancel i (ms_outbox s) = (ob, ok)" by (rule prod.exhaust)
  have "ms_outbox s' = ob" using failed c by (auto simp: create_end_def Let_def split: transport_result.splits)
  then show ?thesis
    using failed c outbox_step.cancel [of i "ms_outbox s" ob] outbox_step.no_cancel [of i "ms_outbox s" ob]
    by (cases ok) (simp_all add: announced_def)
next
  case (echo order src dst msg ob p ok now evs)
  then have "ms_outbox s' = ob" "ok \<longrightarrow> (\<exists>rec. evs = [DeliveredEvent rec])" "\<not> ok \<longrightarrow> evs = []"
    by (auto simp: watch_echo_def split: if_splits)
  then show ?thesis
    using echo outbox_step.confirm [of order "ms_outbox s" src dst msg ob p] outbox_step.no_confirm [of order "ms_outbox s" src dst msg ob p]
    by (cases ok) (simp_all add: announced_def)
next
  case (timer i p f1 f2 now evs)
  obtain ob f where x: "expire i (ms_outbox s) = (ob, f)" by (rule prod.exhaust)
  have "ms_outbox s' = ob \<and> announced (Expired p, evs)"
    using timer(3) x expire_pending(1) [OF timer(2) x] timeout_outbox [of f1 f2 now p "s\<lparr>ms_outbox := ob\<rparr>" evs s']
    by (auto simp: outgoing_timer_def announced_def split: option.splits)
  then show ?thesis
    using timer outbox_step.timer [OF timer(2) x] by simp
next
  case (late_timer i f1 f2 now evs)
  then show ?thesis
    using expire_pending(2) [OF late_timer(2)] outbox_step.late_timer [OF late_timer(2)]
    by (auto simp: outgoing_timer_def announced_def)
qed

lemma message_run_outbox:
  "message_run lib s es s' \<Longrightarrow> outbox_run (ms_outbox s) (map fst es) (ms_outbox s') \<and> list_all announced es"
proof (induction rule: message_run.induct)
  case (step s es s1 e s2)
  then show ?case
    using message_step_outbox [OF step.hyps(2)] outbox_run.step by auto
qed (simp add: outbox_run.start)


lemma example_begin:
  assumes "Register 0 ''IU5PMP-1'' ''*'' ''ciao'' 0 (new_outbox 5000000000 True) = (ob, p)"
  shows "create_begin (list_lru 10) 0 0 (Some (''*'', ''ciao'')) example_message_server =
    (Inr (\<lparr>ot_type = PacketTypeMessage, ot_destination = ''*'', ot_message = ''ciao''\<rparr>, pm_ID p),
     example_message_server\<lparr>ms_cache := Some \<lparr>sc_lru = [(''*'' @ [CHR 0x00] @ ''ciao'', 0)], sc_disabled = False\<rparr>, ms_outbox := ob\<rparr>)"
proof -
  have "NewOutgoingText ''*'' ''ciao'' 149 = Inr \<lparr>ot_type = PacketTypeMessage, ot_destination = ''*'', ot_message = ''ciao''\<rparr>"
    by code_simp
  then show ?thesis
    using assms by (simp add: create_begin_def example_message_server_def reserve_message_def Reserve_def list_lru_def send_key_def)
qed


end
