(* ===== verification/UdpBridge.thy ===== *)
theory UdpBridge
  imports Ingest
begin

text \<open>
  internal/udpbridge (bridge.go): the loop over received datagrams, which forwards and processes each and
  learns the node's address, and the sending of a text to that address. Sockets, the resolver and
  json.Marshal are parameters; the processor and the queues of the forwarder are those of their theories.
\<close>

section \<open>The bridge\<close>

record udp_bridge =
  ub_listenAddr :: string
  ub_nodeAddr :: string
  ub_learned :: "string option"
  ub_disableTx :: bool
  ub_forward :: "string list list option"

definition NewBridgeWithProcessor :: "string \<Rightarrow> string \<Rightarrow> bool \<Rightarrow> string list list option \<Rightarrow> udp_bridge" where
  "NewBridgeWithProcessor listenAddr nodeAddr disableTx forwarder =
     \<lparr>ub_listenAddr = listenAddr, ub_nodeAddr = nodeAddr, ub_learned = None, ub_disableTx = disableTx, ub_forward = forwarder\<rparr>"

definition effectiveNodeAddr :: "udp_bridge \<Rightarrow> string option" where
  "effectiveNodeAddr b =
     (if ub_nodeAddr b \<noteq> [] then Some (ub_nodeAddr b)
      else (case ub_learned b of Some a \<Rightarrow> if a \<noteq> [] then Some a else None | None \<Rightarrow> None))"

section \<open>Receiving\<close>

text \<open>None is a panic of the bus.\<close>

definition handleDatagram ::
  "'f json_lib \<Rightarrow> (int \<Rightarrow> 'f) \<Rightarrow> faults \<Rightarrow> gotime \<Rightarrow> string \<Rightarrow> string \<Rightarrow> 'f ingest \<times> udp_bridge \<Rightarrow> ('f ingest \<times> udp_bridge) option" where
  "handleDatagram jl flt f now remoteAddr data st =
     (case st of (s, b) \<Rightarrow>
      (case Process jl flt f now \<lparr>so_Transport = ''udp'', so_Endpoint = remoteAddr\<rparr> data s of
         None \<Rightarrow> None
       | Some (s', Some err) \<Rightarrow> Some (s', b)
       | Some (s', None) \<Rightarrow> Some (s', if ub_nodeAddr b = [] then b\<lparr>ub_learned := Some remoteAddr\<rparr> else b)))"

definition read_buffer :: nat where
  "read_buffer = 4096"

text \<open>One turn of Listen: a datagram longer than the buffer is cut to it.\<close>

definition listen_one ::
  "'f json_lib \<Rightarrow> (int \<Rightarrow> 'f) \<Rightarrow> faults \<Rightarrow> gotime \<times> string \<times> string \<Rightarrow> 'f ingest \<times> udp_bridge \<Rightarrow> ('f ingest \<times> udp_bridge) option" where
  "listen_one jl flt f d st =
     (case d of (now, remoteAddr, datagram) \<Rightarrow>
      (case st of (s, b) \<Rightarrow>
       let data = take read_buffer datagram in
       handleDatagram jl flt f now remoteAddr data (s, b\<lparr>ub_forward := map_option (Forward data) (ub_forward b)\<rparr>)))"

text \<open>Listen over the datagrams that arrive before the socket fails; cancelled says whether the failure is
  the closing by the context.\<close>

fun listen_loop ::
  "'f json_lib \<Rightarrow> (int \<Rightarrow> 'f) \<Rightarrow> faults \<Rightarrow> (gotime \<times> string \<times> string) list \<Rightarrow> 'f ingest \<times> udp_bridge \<Rightarrow> ('f ingest \<times> udp_bridge) option" where
  "listen_loop jl flt f [] st = Some st"
| "listen_loop jl flt f (d # ds) st =
     (case listen_one jl flt f d st of None \<Rightarrow> None | Some st' \<Rightarrow> listen_loop jl flt f ds st')"

datatype listen_error = ResolveListenAddr string | ListenFailed string | ReadUdp string

definition Listen ::
  "'f json_lib \<Rightarrow> (int \<Rightarrow> 'f) \<Rightarrow> faults \<Rightarrow> string option \<Rightarrow> string option \<Rightarrow> (gotime \<times> string \<times> string) list \<Rightarrow> bool \<Rightarrow> string
   \<Rightarrow> 'f ingest \<times> udp_bridge \<Rightarrow> (('f ingest \<times> udp_bridge) \<times> listen_error option) option" where
  "Listen jl flt f resolve listen ds cancelled read_error st =
     (case resolve of Some e \<Rightarrow> Some (st, Some (ResolveListenAddr e)) | None \<Rightarrow>
     (case listen of Some e \<Rightarrow> Some (st, Some (ListenFailed e)) | None \<Rightarrow>
      map_option (\<lambda>st'. (st', if cancelled then None else Some (ReadUdp read_error))) (listen_loop jl flt f ds st)))"

section \<open>Sending\<close>

datatype udp_send_error =
    InvalidText send_error | EncodeOutgoing string | ErrNodeNotDetected | UdpFailed string

text \<open>The library: marshal is json.Marshal of the message, resolve and dial their errors, deadline_error and
  write_error those of the connection. The result comes with the datagram that was sent, if any, and where.\<close>

record udp_lib =
  ul_marshal :: "outgoing_text \<Rightarrow> string + string"
  ul_resolve :: "string \<Rightarrow> string + string"
  ul_dial :: "string \<Rightarrow> string option"
  ul_deadline_error :: "string option"
  ul_write_error :: "string option"

definition udp_SendText ::
  "udp_lib \<Rightarrow> string \<Rightarrow> string \<Rightarrow> int \<Rightarrow> udp_bridge \<Rightarrow> udp_send_error option \<times> (string \<times> string) option" where
  "udp_SendText ul destination message maxLength b =
     (case NewOutgoingText destination message maxLength of
        Inl e \<Rightarrow> (Some (InvalidText e), None)
      | Inr outgoing \<Rightarrow>
     (case ul_marshal ul outgoing of Inl e \<Rightarrow> (Some (EncodeOutgoing e), None) | Inr payload \<Rightarrow>
      if ub_disableTx b then (None, None) else
     (case effectiveNodeAddr b of None \<Rightarrow> (Some ErrNodeNotDetected, None) | Some nodeAddr \<Rightarrow>
     (case ul_resolve ul nodeAddr of Inl e \<Rightarrow> (Some (UdpFailed (''resolve node addr: '' @ e)), None) | Inr addr \<Rightarrow>
     (case ul_dial ul addr of Some e \<Rightarrow> (Some (UdpFailed (''dial udp node: '' @ e)), None) | None \<Rightarrow>
     (case ul_deadline_error ul of Some e \<Rightarrow> (Some (UdpFailed (''set udp deadline: '' @ e)), None) | None \<Rightarrow>
     (case ul_write_error ul of Some e \<Rightarrow> (Some (UdpFailed (''write udp node: '' @ e)), None) | None \<Rightarrow>
        (None, Some (addr, payload)))))))))"

section \<open>Facts\<close>

lemma Process_result:
  assumes "Process jl flt f now src data s = Some (s', err)"
  shows "err = None \<longleftrightarrow> (\<exists>e. ParsePacket jl data = Inr e)"
  using assms by (auto simp: Process_def split: sum.splits)

text \<open>The address a run of datagrams teaches: that of the last one that is a packet.\<close>

definition decodes :: "'f json_lib \<Rightarrow> gotime \<times> string \<times> string \<Rightarrow> bool" where
  "decodes jl d \<longleftrightarrow> (case ParsePacket jl (take read_buffer (snd (snd d))) of Inl _ \<Rightarrow> False | Inr _ \<Rightarrow> True)"

definition last_sender :: "'f json_lib \<Rightarrow> (gotime \<times> string \<times> string) list \<Rightarrow> string option \<Rightarrow> string option" where
  "last_sender jl ds old = (case filter (decodes jl) ds of [] \<Rightarrow> old | xs \<Rightarrow> Some (fst (snd (last xs))))"

lemma listen_one_bridge:
  assumes "listen_one jl flt f d (s, b) = Some (s', b')"
  shows "ub_nodeAddr b' = ub_nodeAddr b" "ub_disableTx b' = ub_disableTx b"
    "ub_forward b' = map_option (Forward (take read_buffer (snd (snd d)))) (ub_forward b)"
    "ub_learned b' = (if ub_nodeAddr b = [] \<and> decodes jl d then Some (fst (snd d)) else ub_learned b)"
  using assms
  by (auto simp: listen_one_def handleDatagram_def decodes_def Let_def dest!: Process_result
      split: prod.splits option.splits if_splits sum.splits)

lemma listen_loop_bridge:
  assumes "listen_loop jl flt f ds (s, b) = Some (s', b')"
  shows "ub_nodeAddr b' = ub_nodeAddr b \<and> ub_disableTx b' = ub_disableTx b \<and>
    ub_learned b' = (if ub_nodeAddr b = [] then last_sender jl ds (ub_learned b) else ub_learned b) \<and>
    ub_forward b' = map_option (\<lambda>qs. fold (\<lambda>d. Forward (take read_buffer (snd (snd d)))) ds qs) (ub_forward b)"
  using assms
proof (induction ds arbitrary: s b)
  case (Cons d ds)
  obtain s1 b1 where d: "listen_one jl flt f d (s, b) = Some (s1, b1)" "listen_loop jl flt f ds (s1, b1) = Some (s', b')"
    using Cons.prems by (auto split: option.splits)
  show ?case
    using Cons.IH [OF d(2)] listen_one_bridge [OF d(1)]
    by (auto simp: last_sender_def option.map_comp comp_def split: list.splits)
qed (simp add: last_sender_def option.map_id)

definition bus_valid :: "'f ingest \<Rightarrow> bool" where
  "bus_valid s \<longleftrightarrow> (case ig_bus s of None \<Rightarrow> True | Some b \<Rightarrow> bus_inv b)"

lemma publish_total:
  assumes "bus_valid s"
  obtains s' where "publish e s = Some s'" "bus_valid s'"
proof -
  have v: "\<And>b. ig_bus s = Some b \<Longrightarrow> bus_inv b" using assms by (simp add: bus_valid_def)
  obtain s' where s: "publish e s = Some s'" "\<forall>b b'. ig_bus s = Some b \<longrightarrow> ig_bus s' = Some b' \<longrightarrow> bus_inv b'"
    using publish_effect [OF v, where e = e] by auto
  have "ig_bus s = None \<longleftrightarrow> ig_bus s' = None" using s(1) by (auto simp: publish_def split: option.splits)
  then have "bus_valid s'" using s(2) by (auto simp: bus_valid_def split: option.splits)
  with s(1) show thesis by (rule that)
qed

lemma Process_total:
  assumes "bus_valid s"
  shows "\<exists>s' err. Process jl flt f now src data s = Some (s', err) \<and> bus_valid s'"
proof (cases "ParsePacket jl data")
  case (Inl err)
  have "bus_valid (logReceivedPacket f now (so_Endpoint src) data [] (parse_error_text jl err) now s)"
    using assms by (simp add: bus_valid_def logReceivedPacket_frame)
  then obtain s' where "publish \<lparr>ev_Type = ''packet.error'', ev_Data = ErrorData (parse_error_text jl err)\<rparr>
      (logReceivedPacket f now (so_Endpoint src) data [] (parse_error_text jl err) now s) = Some s'" "bus_valid s'"
    by (rule publish_total)
  then show ?thesis by (simp add: Process_def Inl)
next
  case (Inr e)
  have "bus_valid (storePacket flt f (en_Packet e) now (logReceivedPacket f now (so_Endpoint src) data (en_Type e) [] now s))"
    using assms by (simp add: bus_valid_def logReceivedPacket_frame storePacket_frame)
  then obtain s' where "publishReceived src (en_Packet e) now
      (storePacket flt f (en_Packet e) now (logReceivedPacket f now (so_Endpoint src) data (en_Type e) [] now s)) = Some s'" "bus_valid s'"
    unfolding publishReceived_def by (rule publish_total)
  then show ?thesis by (simp add: Process_def Inr)
qed

lemma listen_one_total: "bus_valid s \<Longrightarrow> \<exists>s' b'. listen_one jl flt f d (s, b) = Some (s', b') \<and> bus_valid s'"
proof -
  assume v: "bus_valid s"
  obtain now a x where d: "d = (now, a, x)" by (cases d)
  obtain s' err where "Process jl flt f now \<lparr>so_Transport = ''udp'', so_Endpoint = a\<rparr> (take read_buffer x) s = Some (s', err)" "bus_valid s'"
    using Process_total [OF v] by blast
  then show ?thesis by (cases err) (auto simp: listen_one_def handleDatagram_def d Let_def)
qed

lemma listen_loop_total: "bus_valid s \<Longrightarrow> \<exists>s' b'. listen_loop jl flt f ds (s, b) = Some (s', b') \<and> bus_valid s'"
proof (induction ds arbitrary: s b)
  case (Cons d ds)
  obtain s1 b1 where "listen_one jl flt f d (s, b) = Some (s1, b1)" "bus_valid s1"
    using listen_one_total [OF Cons.prems] by blast
  then show ?case using Cons.IH by simp
qed simp


text \<open>Something is sent only when nothing fails, and only the payload of a valid text to the effective node.\<close>

theorem udp_send_outcomes:
  assumes "udp_SendText ul destination message maxLength b = (err, sent)"
  shows "(case sent of
      Some (addr, payload) \<Rightarrow> err = None \<and> \<not> ub_disableTx b \<and>
        (\<exists>out node. NewOutgoingText destination message maxLength = Inr out \<and> ul_marshal ul out = Inr payload \<and>
          effectiveNodeAddr b = Some node \<and> ul_resolve ul node = Inr addr)
    | None \<Rightarrow> err \<noteq> None \<or> ub_disableTx b) \<and>
    ((err = Some ErrNodeNotDetected) = (\<not> ub_disableTx b \<and> effectiveNodeAddr b = None \<and>
       (case NewOutgoingText destination message maxLength of Inl _ \<Rightarrow> False | Inr out \<Rightarrow> (case ul_marshal ul out of Inl _ \<Rightarrow> False | Inr _ \<Rightarrow> True))))"
  using assms by (auto simp: udp_SendText_def split: sum.splits option.splits if_splits)

definition example_udp_lib :: udp_lib where
  "example_udp_lib = \<lparr>ul_marshal = (\<lambda>out. Inr (ot_message out)), ul_resolve = Inr, ul_dial = (\<lambda>a. None),
     ul_deadline_error = None, ul_write_error = None\<rparr>"

theorem udp_send_outcomes_witness:
  "udp_SendText example_udp_lib ''*'' ''ciao'' 149 (NewBridgeWithProcessor '':1799'' ''node:1799'' False None) = (None, Some (''node:1799'', ''ciao'')) \<and>
   effectiveNodeAddr (NewBridgeWithProcessor '':1799'' ''node:1799'' False None) = Some ''node:1799''"
proof -
  have s: "udp_SendText example_udp_lib ''*'' ''ciao'' 149 (NewBridgeWithProcessor '':1799'' ''node:1799'' False None) = (None, Some (''node:1799'', ''ciao''))"
    by code_simp
  then show ?thesis
    using udp_send_outcomes [OF s] by (auto simp: example_udp_lib_def)
qed


end
