(* ===== verification/Conversations.thy ===== *)
theory Conversations
  imports ChatStatus
begin

text \<open>
  The conversation handlers of internal/httpapi/server.go: the list a station sees, reading, marking read
  and deleting a conversation, over the models of the chat log and of the read state. float64 hours are a
  type variable with the operations the code uses; Go maps are ranged over in an order given as keys.
\<close>

section \<open>Ids and scope\<close>

definition scopeFromRequest :: "string \<Rightarrow> string" where
  "scopeFromRequest scope = (if scope = ''basecall'' then ''basecall'' else ''mycall'')"

definition dmSSIDFromID :: "string \<Rightarrow> string" where
  "dmSSIDFromID i =
     (if \<not> prefix ''DM_'' i then []
      else (let rest = drop 3 i in case index_of CHR ''_'' rest of None \<Rightarrow> [] | Some idx \<Rightarrow> take idx rest))"

definition isDMKeyForBasecallAndPeer :: "string \<Rightarrow> string \<Rightarrow> string \<Rightarrow> bool" where
  "isDMKeyForBasecallAndPeer key myBase peer \<longleftrightarrow>
     (if \<not> prefix ''DM_'' key then False
      else if DMPeer key \<noteq> peer then False
      else (let caller = dmSSIDFromID key in if caller = [] then False else BaseCall caller = myBase))"

section \<open>Listing\<close>

definition listed :: "string \<Rightarrow> string \<Rightarrow> chat_tables \<Rightarrow> conversation \<Rightarrow> conversation option" where
  "listed scope myCall t conv =
     (if \<not> prefix ''DM_'' (cv_ID conv) then Some conv
      else (let fileBase = dmSSIDFromID (cv_ID conv) in
        if fileBase = [] then Some conv
        else if fileBase \<noteq> BaseCall myCall then None
        else (let peer = DMPeer (cv_ID conv) in
          if scope = ''basecall'' then Some conv
          else if FileContainsSSID (cv_ID conv) myCall t \<noteq> Some True then None
          else Some (conv\<lparr>cv_ID := ''DM_'' @ sanitize myCall @ ''_'' @ peer\<rparr>))))"

definition listConversations :: "string \<Rightarrow> string \<Rightarrow> chat_tables option \<Rightarrow> conversation list" where
  "listConversations scope myCall chat =
     (case chat of None \<Rightarrow> [] | Some t \<Rightarrow> List.map_filter (listed (scopeFromRequest scope) myCall t) (ListChats t))"

section \<open>Reading\<close>

record 'h hours_lib =
  hl_parse :: "string \<Rightarrow> 'h option"
  hl_positive :: "'h \<Rightarrow> bool option"
  hl_greater :: "'h \<Rightarrow> 'h \<Rightarrow> bool"
  hl_of :: "duration \<Rightarrow> 'h"
  hl_window :: "'h \<Rightarrow> duration"

text \<open>parsed <= 0 as a comparison of float64: hl_positive is None when the value is not a number, for which
  the comparison is false as well.\<close>

definition hours_rejected :: "'h hours_lib \<Rightarrow> 'h \<Rightarrow> bool" where
  "hours_rejected hl h = (hl_positive hl h = Some False)"

definition defaultChatHistoryHours :: "'h hours_lib \<Rightarrow> duration \<Rightarrow> string \<Rightarrow> 'h" where
  "defaultChatHistoryHours hl historyWindow i = hl_of hl (if prefix ''DM_'' i then 30 * 24 * hour else historyWindow)"

text \<open>The hours asked for, within the maximum, or None for a bad parameter.\<close>

definition history_hours :: "'h hours_lib \<Rightarrow> duration \<Rightarrow> duration \<Rightarrow> string \<Rightarrow> string \<Rightarrow> 'h option" where
  "history_hours hl historyWindow maxWindow i raw =
     (let maxHours = hl_of hl maxWindow;
          cap = (\<lambda>h. if hl_greater hl h maxHours then maxHours else h) in
      if raw = [] then Some (cap (defaultChatHistoryHours hl historyWindow i))
      else (case hl_parse hl raw of None \<Rightarrow> None
            | Some h \<Rightarrow> if hours_rejected hl h then None else Some (cap h)))"

datatype conversation_reply = InvalidId | InvalidHours | Records "chat_record list"

definition getConversation ::
    "'h hours_lib \<Rightarrow> duration \<Rightarrow> duration \<Rightarrow> gotime \<Rightarrow> string \<Rightarrow> string \<Rightarrow> string \<Rightarrow> chat_tables option \<Rightarrow> conversation_reply" where
  "getConversation hl historyWindow maxWindow now scope raw i chat =
     (if \<not> ValidConversationID i then InvalidId
      else if \<not> ValidConversationID (FileIDForAPIID i) then InvalidId
      else (case history_hours hl historyWindow maxWindow i raw of None \<Rightarrow> InvalidHours | Some hours \<Rightarrow>
        let since = now - hl_window hl hours in
        (case chat of None \<Rightarrow> Records [] | Some t \<Rightarrow>
        (case ReadSince (FileIDForAPIID i) since t of None \<Rightarrow> InvalidId | Some records \<Rightarrow>
          let ssid = dmSSIDFromID i in
          Records (if scopeFromRequest scope = ''mycall'' \<and> prefix ''DM_'' i \<and> ssid \<noteq> []
                   then filter (\<lambda>rec. RecordMatchesSSID (cr_Src rec) (cr_Dst rec) ssid) records
                   else records)))))"

section \<open>Marking read and deleting\<close>

definition mark_keys :: "(string \<Rightarrow> bool) \<Rightarrow> string list \<Rightarrow> gotime \<Rightarrow> status_store \<Rightarrow> status_store" where
  "mark_keys P keys now st = fold (\<lambda>key st. if P key then MarkRead key now st else st) keys st"

definition remove_keys :: "(string \<Rightarrow> bool) \<Rightarrow> string list \<Rightarrow> status_store \<Rightarrow> status_store" where
  "remove_keys P keys st = fold (\<lambda>key st. if P key then RemoveStatus key st else st) keys st"

text \<open>keys lists the keys of the snapshot. The reply is whether the id is accepted; saving is the periodic
  save done at once, and its failure is only logged.\<close>

definition markConversationRead ::
    "string list \<Rightarrow> gotime \<Rightarrow> string \<Rightarrow> string \<Rightarrow> string \<Rightarrow> status_store option \<Rightarrow> bool \<times> status_store option" where
  "markConversationRead keys now scope myCall i status =
     (if \<not> ValidConversationID i then (False, status)
      else (True, map_option (\<lambda>st.
        if scopeFromRequest scope = ''basecall'' \<and> prefix ''DM_'' i
        then mark_keys (\<lambda>key. isDMKeyForBasecallAndPeer key (BaseCall myCall) (DMPeer i)) keys now st
        else MarkRead i now st) status))"

datatype delete_reply = DeleteInvalidId | ChatlogDisabled | RemoveFailed | Deleted

definition deleteConversation ::
    "string list \<Rightarrow> bool \<Rightarrow> string \<Rightarrow> string \<Rightarrow> chat_tables option \<Rightarrow> status_store option
     \<Rightarrow> delete_reply \<times> chat_tables option \<times> status_store option" where
  "deleteConversation keys fails myCall i chat status =
     (if \<not> ValidConversationID i then (DeleteInvalidId, chat, status)
      else (case chat of None \<Rightarrow> (ChatlogDisabled, chat, status) | Some t \<Rightarrow>
        (case RemoveChat fails (FileIDForAPIID i) t of
           (t1, False) \<Rightarrow> (RemoveFailed, Some t1, status)
         | (t1, True) \<Rightarrow> (Deleted, Some t1, map_option (\<lambda>st.
             if prefix ''DM_'' i
             then remove_keys (\<lambda>key. isDMKeyForBasecallAndPeer key (BaseCall myCall) (DMPeer i)) keys st
             else RemoveStatus i st) status))))"

section \<open>Facts\<close>

text \<open>An id DM_a_b whose caller segment a has no underscore.\<close>

lemma index_of_parts:
  assumes "index_of c s = Some n"
  shows "s = take n s @ c # drop (n + 1) s" "c \<notin> set (take n s)" "n < length s"
  using index_of_Some [OF assms] id_take_nth_drop [of n s] by auto

lemma dm_parts:
  assumes "dmSSIDFromID i \<noteq> []"
  shows "i = ''DM_'' @ dmSSIDFromID i @ ''_'' @ DMPeer i" "CHR ''_'' \<notin> set (dmSSIDFromID i)"
proof -
  have p: "prefix ''DM_'' i" using assms by (auto simp: dmSSIDFromID_def split: if_splits)
  then obtain idx where idx: "index_of CHR ''_'' (drop 3 i) = Some idx"
    using assms by (auto simp: dmSSIDFromID_def Let_def split: option.splits)
  have s: "dmSSIDFromID i = take idx (drop 3 i)" "DMPeer i = drop (idx + 1) (drop 3 i)"
    using p idx by (simp_all add: dmSSIDFromID_def DMPeer_def Let_def)
  have "i = ''DM_'' @ drop 3 i" using p by (auto simp: prefix_def)
  then show "i = ''DM_'' @ dmSSIDFromID i @ ''_'' @ DMPeer i"
    using index_of_parts(1) [OF idx] by (simp add: s)
  show "CHR ''_'' \<notin> set (dmSSIDFromID i)" using index_of_parts(2) [OF idx] by (simp add: s)
qed

lemma dm_parts_of:
  assumes "CHR ''_'' \<notin> set a"
  shows "dmSSIDFromID (''DM_'' @ a @ ''_'' @ b) = a" "DMPeer (''DM_'' @ a @ ''_'' @ b) = b"
  using dm_id_split [OF assms, of b] by (simp_all only: dmSSIDFromID_def DMPeer_def Let_def option.case simp_thms if_False)

lemma file_id_of:
  assumes "CHR ''_'' \<notin> set a" "list_all id_char (BaseCall a)"
  shows "FileIDForAPIID (''DM_'' @ a @ ''_'' @ b) = ''DM_'' @ BaseCall a @ ''_'' @ b"
  using dm_id_split [OF assms(1), of b]
  by (simp only: FileIDForAPIID_def Let_def option.case sanitize_fix [OF assms(2)] simp_thms if_False)

lemma BaseCall_split: "s = BaseCall s \<or> (\<exists>d. is_numeric d \<and> s = BaseCall s @ CHR ''-'' # d)"
proof (cases "CHR ''-'' \<in> set s")
  case True
  then obtain a d where s: "s = a @ CHR ''-'' # d" "CHR ''-'' \<notin> set d" by (metis split_list_last)
  then have "last_index_of CHR ''-'' s = Some (length a)" by simp
  then show ?thesis using s by (auto simp: BaseCall_def isNumeric_is_numeric)
next
  case False
  then have "last_index_of CHR ''-'' s = None" by simp
  then have "BaseCall s = s" by (simp only: BaseCall_def option.case)
  then show ?thesis by simp
qed

lemma base_no_underscore:
  assumes "CHR ''_'' \<notin> set (BaseCall s)" "list_all id_char (BaseCall s)"
  shows "CHR ''_'' \<notin> set s" "list_all id_char s"
proof -
  have h: "c \<in> set (BaseCall s) \<or> c = CHR ''-'' \<or> is_digit c" if "c \<in> set s" for c
  proof (rule disjE [OF BaseCall_split [of s]])
    assume "s = BaseCall s"
    then show ?thesis using that by metis
  next
    assume "\<exists>d. is_numeric d \<and> s = BaseCall s @ CHR ''-'' # d"
    then obtain d where d: "is_numeric d" "s = BaseCall s @ CHR ''-'' # d" by blast
    have "c \<in> set (BaseCall s @ CHR ''-'' # d)" using that by (subst d(2) [symmetric])
    then show ?thesis using d(1) by (auto simp: is_numeric_def list_all_iff)
  qed
  show "CHR ''_'' \<notin> set s" using assms(1) h [of "CHR ''_''"] by (auto simp: is_digit_def)
  show "list_all id_char s" using assms(2) h unfolding list_all_iff id_char_def by blast
qed

text \<open>A key of the read state that belongs to an operator and a peer is that of a row of their conversation.\<close>

definition own_conversation :: "string \<Rightarrow> bool" where
  "own_conversation i \<longleftrightarrow> BaseCall (dmSSIDFromID i) = dmSSIDFromID i"

lemma key_conversation:
  assumes "ValidConversationID i" "prefix ''DM_'' i" "own_conversation i"
    and "isDMKeyForBasecallAndPeer (dmStatusKey i src dst) base peer" "base \<noteq> []"
  shows "i = ''DM_'' @ base @ ''_'' @ peer"
proof -
  let ?k = "dmStatusKey i src dst"
  have k: "dmSSIDFromID ?k \<noteq> []" "BaseCall (dmSSIDFromID ?k) = base" "DMPeer ?k = peer"
    using assms(4) by (auto simp: isDMKeyForBasecallAndPeer_def Let_def split: if_splits)
  obtain rest where i: "i = ''DM_'' @ rest" "list_all id_char rest"
    using assms(1,2) by (auto simp: ValidConversationID_def prefix_def)
  show ?thesis
  proof (cases "index_of CHR ''_'' rest")
    case None
    then have "?k = i" "dmSSIDFromID i = []" by (simp_all add: dmStatusKey_def dmSSIDFromID_def i trim_prefix_def Let_def del: index_of_None)
    then show ?thesis using k(1) by simp
  next
    case (Some n)
    define a b where "a = take n rest" and "b = drop (n + 1) rest"
    have r: "rest = a @ ''_'' @ b" "CHR ''_'' \<notin> set a"
      using index_of_parts [OF Some] by (simp_all add: a_def b_def)
    have id: "list_all id_char a" "list_all id_char b"
      using i(2) by (simp_all add: r(1))
    have ab: "dmSSIDFromID i = a" "DMPeer i = b" using dm_parts_of [OF r(2), of b] by (simp_all add: i r(1))
    have own: "BaseCall a = a" using assms(3) by (simp add: own_conversation_def ab)
    have s: "dmStatusKey i src dst = ''DM_'' @ c @ ''_'' @ b \<Longrightarrow> BaseCall c = a \<Longrightarrow> ?thesis" for c
    proof -
      assume c: "dmStatusKey i src dst = ''DM_'' @ c @ ''_'' @ b" "BaseCall c = a"
      have "CHR ''_'' \<notin> set c" using base_no_underscore(1) [of c] c(2) r(2) id(1) by simp
      from dm_parts_of [OF this, of b] have "dmSSIDFromID ?k = c" "DMPeer ?k = b" by (simp_all only: c(1))
      then show ?thesis using k(2,3) c(2) by (simp add: i r(1))
    qed
    have san: "BaseCall c = a \<Longrightarrow> status_sanitize c = c" for c
      using base_no_underscore(2) [of c] r(2) id(1) by (simp add: status_sanitize_fix)
    have d: "dmStatusKey i src dst = (if BaseCall (origin_of src) = a then ''DM_'' @ status_sanitize (origin_of src) @ ''_'' @ status_sanitize b
        else if BaseCall (to_upper dst) = a then ''DM_'' @ status_sanitize (to_upper dst) @ ''_'' @ status_sanitize b else i)"
      using Some by (simp add: dmStatusKey_def i trim_prefix_def Let_def a_def b_def)
    show ?thesis
      using d s [of "origin_of src"] s [of "to_upper dst"] s [of a] san own
      by (auto simp: status_sanitize_fix id i r(1) split: if_splits)
  qed
qed

lemma remove_keys_reads:
  "SnapshotReads (remove_keys P keys st) k = (if P k \<and> k \<in> set keys then None else SnapshotReads st k)"
proof -
  have r: "SnapshotReads (RemoveStatus a st) k = (if k = a then None else SnapshotReads st k)" for a st
    by (simp add: SnapshotReads_def RemoveStatus_def)
  show ?thesis
    by (induction keys arbitrary: st) (auto simp: remove_keys_def r)
qed

lemma mark_keys_reads:
  "SnapshotReads (mark_keys P keys now st) k = (if P k \<and> k \<in> set keys then Some now else SnapshotReads st k)"
proof -
  have r: "SnapshotReads (MarkRead a now st) k = (if k = a then Some now else SnapshotReads st k)" for a st
    by (simp add: SnapshotReads_def MarkRead_def Let_def)
  show ?thesis
    by (induction keys arbitrary: st) (auto simp: mark_keys_def r)
qed

text \<open>The snapshot shows every key that has a read mark or an unread message.\<close>

lemma snapshot_shows:
  assumes "snapshotSQLite t st k = None"
  shows "SnapshotReads st k = None" "count_of (snapshotSQLite t st) k = 0"
  using assms by (auto simp: snapshotSQLite_def count_of_def Let_def split: option.splits)

lemma matched_key_dm: "isDMKeyForBasecallAndPeer k base peer \<Longrightarrow> prefix ''DM_'' k \<and> k \<noteq> []"
  by (auto simp: isDMKeyForBasecallAndPeer_def split: if_splits)

lemma chat_inv_rows:
  assumes "chat_inv t"
  shows "r \<in> set (ct_dm t) \<Longrightarrow> ValidConversationID (row_conv r) \<and> prefix ''DM_'' (row_conv r)"
    "r \<in> set (ct_public t) \<Longrightarrow> \<not> prefix ''DM_'' (row_conv r)"
  using assms by (auto simp: chat_inv_def rows_ok_def)

text \<open>The rows counted under a key of the operator and the peer are those of their conversation.\<close>

lemma no_rows_left:
  assumes "chat_inv t" "list_all (\<lambda>r. own_conversation (row_conv r)) (ct_dm t)" "base \<noteq> []"
    and "isDMKeyForBasecallAndPeer k base peer" "\<forall>r\<in>set (ct_dm t). row_conv r \<noteq> ''DM_'' @ base @ ''_'' @ peer"
  shows "count_of (snapshotSQLite t st) k = 0"
proof -
  have "dm_key r \<noteq> k" if "r \<in> set (ct_dm t)" for r
    using key_conversation [of "row_conv r" "cr_Src (row_rec r)" "cr_Dst (row_rec r)" base peer] that assms chat_inv_rows(1) [OF assms(1) that]
    by (auto simp: dm_key_def list_all_iff)
  moreover have "public_key r \<noteq> k" if "r \<in> set (ct_public t)" for r
    using chat_inv_rows(2) [OF assms(1) that] matched_key_dm [OF assms(4)] by (auto simp: public_key_def)
  ultimately have "filter (\<lambda>r. public_key r = k \<and> unread (SnapshotReads st) k r) (ct_public t) = []"
    "filter (\<lambda>r. dm_key r = k \<and> dm_key r \<noteq> [] \<and> unread (SnapshotReads st) k r) (ct_dm t) = []"
    by (auto simp: filter_empty_conv)
  then show ?thesis by (simp add: snapshot_count)
qed

text \<open>The file of an operator's own conversation.\<close>

lemma own_file:
  assumes "call_pattern myCall" "dmSSIDFromID i \<noteq> []" "BaseCall (dmSSIDFromID i) = BaseCall myCall"
  shows "FileIDForAPIID i = ''DM_'' @ BaseCall myCall @ ''_'' @ DMPeer i"
  using file_id_of [OF dm_parts(2) [OF assms(2)], of "DMPeer i"] dm_parts(1) [OF assms(2)] BaseCall_id_char [OF assms(1)] assms(3)
  by simp

text \<open>What the list and a history hold.\<close>

lemma update_member: "(i, c) \<in> set (AList.update k v xs) \<Longrightarrow> i = k \<and> c = v \<or> (i, c) \<in> set xs"
  by (induction xs) (auto split: if_splits)

lemma list_rows_member:
  assumes "\<forall>(i, c)\<in>set xs. cv_ID c = i \<and> ValidConversationID i \<and> (\<exists>r\<in>R. row_conv r = i)" "set rows \<subseteq> R"
  shows "\<forall>(i, c)\<in>set (fold list_row rows xs). cv_ID c = i \<and> ValidConversationID i \<and> (\<exists>r\<in>R. row_conv r = i)"
  using assms
proof (induction rows arbitrary: xs)
  case (Cons r rows)
  have "\<forall>(i, c)\<in>set (list_row r xs). cv_ID c = i \<and> ValidConversationID i \<and> (\<exists>r\<in>R. row_conv r = i)"
    using Cons.prems by (auto simp: list_row_def Let_def dest!: update_member split: if_splits)
  then show ?case using Cons by simp
qed simp

lemma list_member:
  assumes "c \<in> set (ListChats t)"
  shows "ValidConversationID (cv_ID c) \<and> (\<exists>r\<in>set (ct_public t @ ct_dm t). row_conv r = cv_ID c)"
proof -
  have l: "cv_ID (applyConversationLabel c) = cv_ID c" for c by (simp add: applyConversationLabel_def Let_def)
  obtain i c0 where c: "c = applyConversationLabel c0" "(i, c0) \<in> set (fold list_row (ct_public t @ ct_dm t) [])"
    using assms by (auto simp: ListChats_def)
  have "\<forall>(i, c)\<in>set (fold list_row (ct_public t @ ct_dm t) []). cv_ID c = i \<and> ValidConversationID i \<and>
      (\<exists>r\<in>set (ct_public t @ ct_dm t). row_conv r = i)"
    by (rule list_rows_member) simp_all
  from bspec [OF this c(2)] have "cv_ID c0 = i \<and> ValidConversationID i \<and> (\<exists>r\<in>set (ct_public t @ ct_dm t). row_conv r = i)"
    by simp
  then show ?thesis using l c(1) by auto
qed

lemma read_rows_since: "rec \<in> set (read_rows since seen recs) \<Longrightarrow> since \<le> cr_ReceivedAt rec"
  by (induction since seen recs rule: read_rows.induct) (auto simp: Let_def split: if_splits)

section \<open>Properties\<close>

text \<open>C28: deleting a conversation of the operator removes its rows and, for every device of the operator, its
  read marks and its unread count; every other conversation keeps its rows, and every key of another
  conversation its read mark.\<close>

theorem delete_leaves_no_trace:
  assumes "call_pattern myCall" "chat_inv t" "list_all (\<lambda>r. own_conversation (row_conv r)) (ct_dm t)"
    and "dmSSIDFromID i \<noteq> []" "BaseCall (dmSSIDFromID i) = BaseCall myCall"
    and "deleteConversation keys False myCall i (Some t) (Some st) = (Deleted, Some t', Some st')"
    and "set keys = dom (snapshotSQLite t' st)"
  shows "conversation_rows (FileIDForAPIID i) t' = [] \<and>
    (\<forall>j. j \<noteq> FileIDForAPIID i \<longrightarrow> conversation_rows j t' = conversation_rows j t) \<and>
    (\<forall>k. if isDMKeyForBasecallAndPeer k (BaseCall myCall) (DMPeer i)
         then SnapshotReads st' k = None \<and> count_of (snapshotSQLite t' st') k = 0
         else SnapshotReads st' k = SnapshotReads st k)"
proof -
  let ?f = "FileIDForAPIID i" and ?P = "\<lambda>k. isDMKeyForBasecallAndPeer k (BaseCall myCall) (DMPeer i)"
  have dm: "prefix ''DM_'' i" using assms(4) by (auto simp: dmSSIDFromID_def split: if_splits)
  have f: "?f = ''DM_'' @ BaseCall myCall @ ''_'' @ DMPeer i"
    by (rule own_file [OF assms(1,4,5)])
  then have fdm: "prefix ''DM_'' ?f" by simp
  have t': "t' = t\<lparr>ct_dm := filter (\<lambda>r. row_conv r \<noteq> ?f) (ct_dm t)\<rparr>" and st': "st' = remove_keys ?P keys st"
    using assms(6) dm fdm by (auto simp: deleteConversation_def RemoveChat_def split: if_splits prod.splits bool.splits)
  have reads: "SnapshotReads st' k = (if ?P k then None else SnapshotReads st k)" for k
    using snapshot_shows(1) [of t' st k] assms(7) by (auto simp: st' remove_keys_reads domIff)
  have inv: "chat_inv t'" using assms(2) by (simp add: t' chat_inv_def rows_ok_filter)
  have b: "BaseCall myCall \<noteq> []" using BaseCall_call [OF assms(1)] by auto
  have "count_of (snapshotSQLite t' st') k = 0" if "?P k" for k
    by (rule no_rows_left [OF inv _ b that]) (use assms(3) f in \<open>auto simp: t' list_all_iff\<close>)
  moreover have "conversation_rows ?f t' = []"
    using fdm by (simp add: conversation_rows_def table_for_def t')
  moreover have "conversation_rows j t' = conversation_rows j t" if "j \<noteq> ?f" for j
  proof -
    have "filter (\<lambda>r. row_conv r \<noteq> ?f \<and> row_conv r = j) (ct_dm t) = filter (\<lambda>r. row_conv r = j) (ct_dm t)"
      using that by (intro filter_cong) auto
    then show ?thesis by (simp add: conversation_rows_def table_for_def t')
  qed
  ultimately show ?thesis using reads by simp
qed

theorem delete_leaves_no_trace_witness:
  "\<exists>t' st'. deleteConversation [''DM_IU5PMP-1_IK5FCK-10''] False ''IU5PMP-1'' ''DM_IU5PMP-1_IK5FCK-10'' (Some example_chat)
      (Some (MarkRead ''DM_IU5PMP-1_IK5FCK-10'' 5 (load_status Map.empty))) = (Deleted, Some t', Some st') \<and>
    conversation_rows ''DM_IU5PMP_IK5FCK-10'' t' = [] \<and> SnapshotReads st' ''DM_IU5PMP-1_IK5FCK-10'' = None"
proof -
  let ?st = "MarkRead ''DM_IU5PMP-1_IK5FCK-10'' 5 (load_status Map.empty)"
  have f: "FileIDForAPIID ''DM_IU5PMP-1_IK5FCK-10'' = ''DM_IU5PMP_IK5FCK-10''" by code_simp
  have v: "ValidConversationID ''DM_IU5PMP-1_IK5FCK-10''" "ValidConversationID ''DM_IU5PMP_IK5FCK-10''" by code_simp+
  have c: "call_pattern ''IU5PMP-1''" by code_simp
  obtain t' st' where d: "deleteConversation [''DM_IU5PMP-1_IK5FCK-10''] False ''IU5PMP-1'' ''DM_IU5PMP-1_IK5FCK-10'' (Some example_chat)
      (Some ?st) = (Deleted, Some t', Some st')"
    by (simp add: deleteConversation_def f v RemoveChat_def)
  have t': "ct_dm t' = filter (\<lambda>r. row_conv r \<noteq> ''DM_IU5PMP_IK5FCK-10'') (ct_dm example_chat)" "ct_public t' = ct_public example_chat"
    using d by (auto simp: deleteConversation_def f v RemoveChat_def)
  have empty: "ct_dm t' = []" "ct_public t' = []" by (simp_all add: t' example_chat_def example_outbound_def)
  have st: "SnapshotReads ?st = [''DM_IU5PMP-1_IK5FCK-10'' \<mapsto> 5]"
    by (simp add: SnapshotReads_def MarkRead_def load_status_def Let_def fun_eq_iff)
  have k: "set [''DM_IU5PMP-1_IK5FCK-10''] = dom (snapshotSQLite t' ?st)"
    by (auto simp: snapshotSQLite_def st empty applyDMSnapshot_def applyPublicSnapshot_def sorted_rows_def Let_def
        split: if_splits)
  have inv: "chat_inv example_chat"
    by (simp add: chat_inv_def rows_ok_def example_chat_def example_outbound_def example_strings)
  have own: "list_all (\<lambda>r. own_conversation (row_conv r)) (ct_dm example_chat)"
    by (simp add: example_chat_def example_outbound_def) code_simp
  have i: "dmSSIDFromID ''DM_IU5PMP-1_IK5FCK-10'' = ''IU5PMP-1''" by code_simp
  have m: "isDMKeyForBasecallAndPeer ''DM_IU5PMP-1_IK5FCK-10'' (BaseCall ''IU5PMP-1'') (DMPeer ''DM_IU5PMP-1_IK5FCK-10'')" by code_simp
  show ?thesis
    using delete_leaves_no_trace [OF c inv own _ _ d k] d i m by (auto simp: f)
qed

text \<open>marking a direct conversation read for the whole callsign clears it on every device of the operator,
  and leaves the other conversations' counters as they are.\<close>

theorem mark_read_covers_devices:
  assumes "now \<noteq> 0" "list_all (\<lambda>r. cr_ReceivedAt (row_rec r) \<le> now) (ct_public t @ ct_dm t)"
    and "set keys = dom (snapshotSQLite t st)" "prefix ''DM_'' i"
    and "markConversationRead keys now ''basecall'' myCall i (Some st) = (True, Some st')"
  shows "if isDMKeyForBasecallAndPeer k (BaseCall myCall) (DMPeer i) then count_of (snapshotSQLite t st') k = 0
    else count_of (snapshotSQLite t st') k = count_of (snapshotSQLite t st) k"
proof -
  let ?P = "\<lambda>k. isDMKeyForBasecallAndPeer k (BaseCall myCall) (DMPeer i)"
  have st': "st' = mark_keys ?P keys now st"
    using assms(4,5) by (simp add: markConversationRead_def scopeFromRequest_def split: if_splits)
  have u: "unread (SnapshotReads st') k r = (if ?P k \<and> k \<in> set keys then False else unread (SnapshotReads st) k r)"
    if "r \<in> set (ct_public t @ ct_dm t)" for r
    using assms(1,2) that by (auto simp: st' unread_def mark_keys_reads list_all_iff not_less)
  show ?thesis
  proof (cases "?P k \<and> k \<in> set keys")
    case True
    then show ?thesis using u by (auto simp: snapshot_count filter_empty_conv)
  next
    case False
    have "unread (SnapshotReads st') k = unread (SnapshotReads st) k"
      using False by (auto simp: fun_eq_iff unread_def st' mark_keys_reads)
    then have "count_of (snapshotSQLite t st') k = count_of (snapshotSQLite t st) k"
      by (simp add: snapshot_count)
    moreover have "?P k \<Longrightarrow> count_of (snapshotSQLite t st) k = 0"
      using False assms(3) by (auto simp: count_of_def)
    ultimately show ?thesis by simp
  qed
qed

theorem mark_read_covers_devices_witness:
  "count_of (snapshotSQLite example_chat (mark_keys (\<lambda>k. isDMKeyForBasecallAndPeer k (BaseCall ''IU5PMP-9'') (DMPeer ''DM_IU5PMP-9_IK5FCK-10''))
     [''DM_IU5PMP-1_IK5FCK-10''] (200 * second) (load_status Map.empty))) ''DM_IU5PMP-1_IK5FCK-10'' = 0"
proof -
  let ?i = "''DM_IU5PMP-9_IK5FCK-10''"
  have v: "ValidConversationID ?i" "prefix ''DM_'' ?i" by code_simp+
  have dk: "dm_key example_outbound = ''DM_IU5PMP-1_IK5FCK-10''"
    by (simp add: dm_key_def example_outbound_def example_rec_def new_record_def) code_simp
  have n: "\<not> IsStoreNotice (cr_Msg (row_rec example_outbound))" by code_simp
  have k: "set [''DM_IU5PMP-1_IK5FCK-10''] = dom (snapshotSQLite example_chat (load_status Map.empty))"
    by (auto simp: snapshotSQLite_def SnapshotReads_def load_status_def example_chat_def applyDMSnapshot_def applyPublicSnapshot_def
        sorted_rows_def Let_def dk apply_row_def applySnapshotRecord_def n split: if_splits)
  have m: "isDMKeyForBasecallAndPeer ''DM_IU5PMP-1_IK5FCK-10'' (BaseCall ''IU5PMP-9'') (DMPeer ?i)" by code_simp
  have t: "list_all (\<lambda>r. cr_ReceivedAt (row_rec r) \<le> 200 * second) (ct_public example_chat @ ct_dm example_chat)"
    by (simp add: example_chat_def example_outbound_def example_rec_def new_record_def)
  have r: "markConversationRead [''DM_IU5PMP-1_IK5FCK-10''] (200 * second) ''basecall'' ''IU5PMP-9'' ?i (Some (load_status Map.empty)) =
    (True, Some (mark_keys (\<lambda>k. isDMKeyForBasecallAndPeer k (BaseCall ''IU5PMP-9'') (DMPeer ?i)) [''DM_IU5PMP-1_IK5FCK-10''] (200 * second) (load_status Map.empty)))"
    using v by (simp add: markConversationRead_def scopeFromRequest_def)
  show ?thesis
    using mark_read_covers_devices [OF _ t k v(2) r, of "''DM_IU5PMP-1_IK5FCK-10''"] m by simp
qed



text \<open>with hours that are ordered, a history never reaches back further than the configured maximum.\<close>

definition ordered_hours :: "'h hours_lib \<Rightarrow> bool" where
  "ordered_hours hl \<longleftrightarrow> (\<forall>d. \<not> hl_greater hl (hl_of hl d) (hl_of hl d)) \<and>
     (\<forall>h d. \<not> hl_greater hl h (hl_of hl d) \<longrightarrow> hl_window hl h \<le> d)"

theorem history_within_maximum:
  assumes "ordered_hours hl"
    and "getConversation hl historyWindow maxWindow now scope raw i (Some t) = Records records"
    and "rec \<in> set records"
  shows "now - maxWindow \<le> cr_ReceivedAt rec"
proof -
  obtain hours where h: "history_hours hl historyWindow maxWindow i raw = Some hours"
    "rec \<in> set (read_rows (now - hl_window hl hours) [] (conversation_rows (FileIDForAPIID i) t))"
    using assms(2,3) by (auto simp: getConversation_def Let_def ReadSince_def split: option.splits if_splits)
  have "hl_window hl hours \<le> maxWindow"
  proof -
    have "\<not> hl_greater hl hours (hl_of hl maxWindow) \<or> hours = hl_of hl maxWindow"
      using h(1) by (auto simp: history_hours_def Let_def split: option.splits if_splits)
    then show ?thesis using assms(1) by (auto simp: ordered_hours_def)
  qed
  then show ?thesis using read_rows_since [OF h(2)] by simp
qed

definition example_hours :: "int hours_lib" where
  "example_hours = \<lparr>hl_parse = (\<lambda>s. Some (int (dec_val s) * hour)), hl_positive = (\<lambda>h. Some (0 < h)), hl_greater = (\<lambda>a b. b < a),
     hl_of = id, hl_window = id\<rparr>"

theorem history_within_maximum_witness:
  "\<exists>records. getConversation example_hours hour (2 * hour) (201 * second) ''mycall'' ''5'' ''DM_IU5PMP-1_IK5FCK-10'' (Some example_chat) = Records records \<and>
     (\<forall>rec\<in>set records. 201 * second - 2 * hour \<le> cr_ReceivedAt rec)"
proof -
  have ordered: "ordered_hours example_hours" by (simp add: ordered_hours_def example_hours_def)
  have v: "ValidConversationID ''DM_IU5PMP-1_IK5FCK-10''" "FileIDForAPIID ''DM_IU5PMP-1_IK5FCK-10'' = ''DM_IU5PMP_IK5FCK-10''"
    "ValidConversationID ''DM_IU5PMP_IK5FCK-10''" by code_simp+
  obtain records where r: "getConversation example_hours hour (2 * hour) (201 * second) ''mycall'' ''5'' ''DM_IU5PMP-1_IK5FCK-10'' (Some example_chat) = Records records"
    by (auto simp: getConversation_def v history_hours_def hours_rejected_def example_hours_def ReadSince_def Let_def dec_val_def digit_val_def)
  show ?thesis using history_within_maximum [OF ordered r] r by blast
qed

end
