(* ===== verification/Compression.thy ===== *)
theory Compression
  imports LowerCase
begin

text \<open>
  internal/httpapi/compression.go: the negotiation of gzip and the response writer that buffers a response
  until it can decide, then passes it on compressed or as it is. The compressor is a parameter, a state with
  the bytes each operation passes on; http.DetectContentType is a function on texts; a float64 quality is
  kept as its sign, which is all the code compares. The writer below is the trace of the calls it gets.
\<close>

section \<open>Negotiation\<close>

text \<open>What the code asks of a float64: its sign, -1.0 for a coding that is not listed.\<close>

datatype quality = NegativeQ | ZeroQ | PositiveQ | NaNQ

text \<open>strings.SplitN(s, ";", 2).\<close>

definition split_once :: "char \<Rightarrow> string \<Rightarrow> string \<times> string option" where
  "split_once c s = (case index_of c s of None \<Rightarrow> (s, None) | Some i \<Rightarrow> (take i s, Some (drop (i + 1) s)))"

definition parseEncodingToken :: "(string \<Rightarrow> quality option) \<Rightarrow> string \<Rightarrow> string \<times> quality" where
  "parseEncodingToken parseFloat token =
     (case split_once CHR '';'' token of
        (first, None) \<Rightarrow> (trim_space first, PositiveQ)
      | (first, Some rest) \<Rightarrow> (trim_space first,
          (let param = trim_space rest in
           if \<not> prefix ''q='' (to_lower param) then PositiveQ
           else (case parseFloat (trim_space (drop 2 param)) of None \<Rightarrow> ZeroQ
                 | Some v \<Rightarrow> if v = NegativeQ then ZeroQ else v))))"

definition accept_token :: "(string \<Rightarrow> quality option) \<Rightarrow> string \<Rightarrow> quality \<times> quality \<Rightarrow> quality \<times> quality" where
  "accept_token parseFloat token qs =
     (if trim_space token = [] then qs
      else (let (coding, q) = parseEncodingToken parseFloat (trim_space token) in
        if to_lower coding = ''gzip'' then (q, snd qs)
        else if to_lower coding = ''*'' then (fst qs, q)
        else qs))"

definition acceptsGzip :: "(string \<Rightarrow> quality option) \<Rightarrow> string \<Rightarrow> bool" where
  "acceptsGzip parseFloat h =
     (if h = [] then False
      else (let (gzipQ, wildcardQ) = fold (accept_token parseFloat) (split_on CHR '','' h) (NegativeQ, NegativeQ) in
        if gzipQ = ZeroQ \<or> gzipQ = PositiveQ then gzipQ = PositiveQ
        else wildcardQ = PositiveQ))"

definition compressiblePrefixes :: "string list" where
  "compressiblePrefixes =
     [''text/'', ''application/json'', ''application/javascript'', ''application/x-javascript'', ''application/xml'',
      ''application/xhtml+xml'', ''application/atom+xml'', ''application/rss+xml'', ''image/svg+xml'']"

definition isCompressible :: "string \<Rightarrow> bool" where
  "isCompressible contentType =
     (let ct = to_lower (trim_space (fst (split_once CHR '';'' contentType))) in
      ct \<noteq> [] \<and> list_ex (\<lambda>p. prefix p ct) compressiblePrefixes)"

section \<open>Headers and the writer below\<close>

text \<open>http.Header: the values of each canonical name. Get reads the first one.\<close>

type_synonym headers = "string \<Rightarrow> string list"

definition get_header :: "headers \<Rightarrow> string \<Rightarrow> string" where
  "get_header h k = (case h k of [] \<Rightarrow> [] | v # _ \<Rightarrow> v)"

text \<open>strings.EqualFold with an ASCII text that has no k and no s, as "Accept-Encoding": only the letters of
  ASCII have a second form.\<close>

definition addVary :: "headers \<Rightarrow> string \<Rightarrow> headers" where
  "addVary h v =
     (let existing = get_header h ''Vary'' in
      if existing = [] then h(''Vary'' := [v])
      else if list_ex (\<lambda>x. map lower_char (trim_space x) = map lower_char v) (split_on CHR '','' existing) then h
      else h(''Vary'' := [existing @ '', '' @ v]))"

datatype down_call = HeaderSent int headers | BodySent string | FlushSent

text \<open>A gzip.Writer: its operations pass bytes on to the writer below.\<close>

record 'g gzip_lib =
  gz_open :: 'g
  gz_write :: "string \<Rightarrow> 'g \<Rightarrow> 'g \<times> string"
  gz_flush :: "'g \<Rightarrow> 'g \<times> string"
  gz_close :: "'g \<Rightarrow> string"
  gz_detect :: "string \<Rightarrow> string"

datatype compression_state = Undecided | Compressing | Bypassed

record 'g compress_writer =
  w_headers :: headers
  w_trace :: "down_call list"
  w_broken :: bool
  w_minimum :: nat
  w_buf :: string
  w_status :: int
  w_state :: compression_state
  w_gz :: "'g option"
  w_forwarded :: bool

definition new_writer :: "bool \<Rightarrow> nat \<Rightarrow> headers \<Rightarrow> 'g compress_writer" where
  "new_writer broken minimum h =
     \<lparr> w_headers = h, w_trace = [], w_broken = broken, w_minimum = minimum, w_buf = [], w_status = 0,
       w_state = Undecided, w_gz = None, w_forwarded = False \<rparr>"

text \<open>Write of the writer below: nothing arrives on a broken connection, and the call fails.\<close>

definition send_body :: "string \<Rightarrow> 'g compress_writer \<Rightarrow> 'g compress_writer" where
  "send_body b c = (if w_broken c \<or> b = [] then c else c\<lparr>w_trace := w_trace c @ [BodySent b]\<rparr>)"

definition send_flush :: "'g compress_writer \<Rightarrow> 'g compress_writer" where
  "send_flush c = c\<lparr>w_trace := w_trace c @ [FlushSent]\<rparr>"

definition send_header :: "'g compress_writer \<Rightarrow> 'g compress_writer" where
  "send_header c =
     (let code = (if w_status c = 0 then 200 else w_status c) in
      c\<lparr>w_status := code, w_trace := w_trace c @ [HeaderSent code (w_headers c)], w_forwarded := True\<rparr>)"

section \<open>The response writer\<close>

definition forwardBypass :: "'g compress_writer \<Rightarrow> 'g compress_writer" where
  "forwardBypass c =
     (let c1 = c\<lparr>w_state := Bypassed\<rparr> in if w_forwarded c1 then c1 else send_header c1)"

definition forwardBypassWithBuf :: "'g compress_writer \<Rightarrow> 'g compress_writer" where
  "forwardBypassWithBuf c =
     (let c1 = forwardBypass c in if w_buf c1 = [] then c1 else (send_body (w_buf c1) c1)\<lparr>w_buf := []\<rparr>)"

definition WriteHeader :: "int \<Rightarrow> 'g compress_writer \<Rightarrow> 'g compress_writer" where
  "WriteHeader code c =
     (if w_forwarded c then c
      else (let c1 = c\<lparr>w_status := code\<rparr> in
        if code = 204 \<or> code = 304 \<or> code < 200 then forwardBypass c1 else c1))"

text \<open>gz.Write: it fails when it has bytes to pass on and the writer below does not take them.\<close>

definition gzip_bytes :: "'g gzip_lib \<Rightarrow> string \<Rightarrow> 'g compress_writer \<Rightarrow> 'g compress_writer \<times> bool" where
  "gzip_bytes gl b c =
     (case w_gz c of None \<Rightarrow> (c, False)
      | Some g \<Rightarrow> (let (g1, out) = gz_write gl b g in
          (send_body out (c\<lparr>w_gz := Some g1\<rparr>), \<not> (w_broken c \<and> out \<noteq> []))))"

definition decide_type :: "'g gzip_lib \<Rightarrow> 'g compress_writer \<Rightarrow> string \<times> 'g compress_writer" where
  "decide_type gl c =
     (let ct = get_header (w_headers c) ''Content-Type'' in
      if ct = [] \<and> w_buf c \<noteq> []
      then (let ct = gz_detect gl (w_buf c) in (ct, c\<lparr>w_headers := (w_headers c)(''Content-Type'' := [ct])\<rparr>))
      else (ct, c))"

definition start_compressing :: "'g gzip_lib \<Rightarrow> 'g compress_writer \<Rightarrow> 'g compress_writer \<times> bool" where
  "start_compressing gl c =
     (let c1 = c\<lparr>w_state := Compressing,
               w_headers := addVary ((w_headers c)(''Content-Length'' := [], ''Content-Encoding'' := [''gzip''])) ''Accept-Encoding''\<rparr>;
          c2 = (send_header c1)\<lparr>w_gz := Some (gz_open gl)\<rparr> in
      if w_buf c2 = [] then (c2, True)
      else (case gzip_bytes gl (w_buf c2) c2 of
              (c3, False) \<Rightarrow> (c3, False)
            | (c3, True) \<Rightarrow> (c3\<lparr>w_buf := []\<rparr>, True)))"

definition decide :: "'g gzip_lib \<Rightarrow> 'g compress_writer \<Rightarrow> 'g compress_writer \<times> bool" where
  "decide gl c =
     (if get_header (w_headers c) ''Content-Encoding'' \<noteq> [] then (forwardBypassWithBuf c, True)
      else if get_header (w_headers c) ''Content-Range'' \<noteq> [] then (forwardBypassWithBuf c, True)
      else (let (ct, c1) = decide_type gl c in
        if contains ''text/event-stream'' (to_lower ct) then (forwardBypassWithBuf c1, True)
        else if \<not> isCompressible ct then (forwardBypassWithBuf c1, True)
        else start_compressing gl c1))"

text \<open>Write: the reply is whether all the bytes were taken.\<close>

definition WriteBytes :: "'g gzip_lib \<Rightarrow> string \<Rightarrow> 'g compress_writer \<Rightarrow> 'g compress_writer \<times> bool" where
  "WriteBytes gl b c =
     (if b = [] then (c, True)
      else (case w_state c of
        Bypassed \<Rightarrow> (let c1 = (if w_forwarded c then c else forwardBypass c) in (send_body b c1, \<not> w_broken c))
      | Compressing \<Rightarrow> gzip_bytes gl b c
      | Undecided \<Rightarrow>
          (if w_forwarded c then (send_body b c, \<not> w_broken c)
           else (let c1 = c\<lparr>w_buf := w_buf c @ b\<rparr> in
             if w_minimum c1 \<le> length (w_buf c1) then decide gl c1 else (c1, True)))))"

definition FlushWriter :: "'g gzip_lib \<Rightarrow> 'g compress_writer \<Rightarrow> 'g compress_writer" where
  "FlushWriter gl c =
     (case w_state c of
        Compressing \<Rightarrow> send_flush (case w_gz c of None \<Rightarrow> c
          | Some g \<Rightarrow> (let (g1, out) = gz_flush gl g in send_body out (c\<lparr>w_gz := Some g1\<rparr>)))
      | Bypassed \<Rightarrow> send_flush c
      | Undecided \<Rightarrow> send_flush (forwardBypassWithBuf c))"

definition close_writer :: "'g gzip_lib \<Rightarrow> 'g compress_writer \<Rightarrow> 'g compress_writer" where
  "close_writer gl c =
     (if w_state c = Undecided then forwardBypassWithBuf c
      else (let c1 = (case w_gz c of
                 Some g \<Rightarrow> if w_state c = Compressing then (send_body (gz_close gl g) c)\<lparr>w_gz := None\<rparr> else c
               | None \<Rightarrow> c) in
        if w_forwarded c1 then c1 else forwardBypass c1))"

text \<open>io.Copy of a source read in pieces: it stops at the first failing write.\<close>

fun copy_chunks :: "'g gzip_lib \<Rightarrow> string list \<Rightarrow> 'g compress_writer \<Rightarrow> 'g compress_writer \<times> bool" where
  "copy_chunks gl [] c = (c, True)"
| "copy_chunks gl (b # bs) c =
     (case WriteBytes gl b c of (c1, False) \<Rightarrow> (c1, False) | (c1, True) \<Rightarrow> copy_chunks gl bs c1)"

text \<open>ReadFrom: a writer below that can read from a source itself is given the rest of it.\<close>

definition ReadFrom :: "'g gzip_lib \<Rightarrow> bool \<Rightarrow> string list \<Rightarrow> 'g compress_writer \<Rightarrow> 'g compress_writer \<times> bool" where
  "ReadFrom gl reader_from src c =
     (if w_state c = Bypassed \<and> reader_from then (send_body (concat src) c, \<not> (w_broken c \<and> concat src \<noteq> []))
      else copy_chunks gl src c)"

text \<open>compressionMiddleware: the minimum size of the writer a request gets, or None when it is served
  without one, and the headers set before the handler runs.\<close>

definition compressionMiddleware ::
    "(string \<Rightarrow> quality option) \<Rightarrow> int \<Rightarrow> string \<Rightarrow> string \<Rightarrow> string \<Rightarrow> headers \<Rightarrow> headers \<times> nat option" where
  "compressionMiddleware parseFloat minimum path byte_range accept h =
     (let size = (if minimum \<le> 0 then 1024 else nat minimum) in
      if path = ''/api/events'' then (h(''Vary'' := h ''Vary'' @ [''Accept-Encoding'']), None)
      else if byte_range \<noteq> [] then (h, None)
      else if \<not> acceptsGzip parseFloat accept then (h, None)
      else (h, Some size))"

text \<open>What a handler does with its response.\<close>

datatype handler_op =
    OpHeader int
  | OpSet string "string list"
  | OpWrite string
  | OpCopy bool "string list"
  | OpFlush

definition run_op :: "'g gzip_lib \<Rightarrow> handler_op \<Rightarrow> 'g compress_writer \<Rightarrow> 'g compress_writer" where
  "run_op gl x c =
     (case x of OpHeader code \<Rightarrow> WriteHeader code c
      | OpSet k vs \<Rightarrow> c\<lparr>w_headers := (w_headers c)(k := vs)\<rparr>
      | OpWrite b \<Rightarrow> fst (WriteBytes gl b c)
      | OpCopy rf src \<Rightarrow> fst (ReadFrom gl rf src c)
      | OpFlush \<Rightarrow> FlushWriter gl c)"

text \<open>The handler runs on the writer, which is closed at the end.\<close>

definition serve_compressed :: "'g gzip_lib \<Rightarrow> bool \<Rightarrow> nat \<Rightarrow> headers \<Rightarrow> handler_op list \<Rightarrow> 'g compress_writer" where
  "serve_compressed gl broken minimum h xs = close_writer gl (fold (run_op gl) xs (new_writer broken minimum h))"

section \<open>What the client reads\<close>

fun bodies :: "down_call list \<Rightarrow> string" where
  "bodies [] = []"
| "bodies (BodySent b # cs) = b @ bodies cs"
| "bodies (_ # cs) = bodies cs"

fun written :: "handler_op list \<Rightarrow> string" where
  "written [] = []"
| "written (OpWrite b # xs) = b @ written xs"
| "written (OpCopy rf src # xs) = concat src @ written xs"
| "written (_ # xs) = written xs"

definition is_header :: "down_call \<Rightarrow> bool" where
  "is_header x = (case x of HeaderSent _ _ \<Rightarrow> True | _ \<Rightarrow> False)"

definition client_view :: "(string \<Rightarrow> string option) \<Rightarrow> down_call list \<Rightarrow> string option" where
  "client_view gunzip cs =
     (case cs of HeaderSent code h # rest \<Rightarrow>
        if get_header h ''Content-Encoding'' = ''gzip'' then gunzip (bodies rest) else Some (bodies rest)
      | _ \<Rightarrow> None)"

text \<open>A gzip session: the compressor after some writes and flushes, what was written and what it passed on.\<close>

inductive gz_session :: "'g gzip_lib \<Rightarrow> 'g \<Rightarrow> string \<Rightarrow> string \<Rightarrow> bool" for gl where
  gz_start: "gz_session gl (gz_open gl) [] []"
| gz_writes: "gz_session gl g w out \<Longrightarrow> gz_write gl b g = (g1, out1) \<Longrightarrow> gz_session gl g1 (w @ b) (out @ out1)"
| gz_flushes: "gz_session gl g w out \<Longrightarrow> gz_flush gl g = (g1, out1) \<Longrightarrow> gz_session gl g1 w (out @ out1)"

text \<open>What gunzip reads from a session that is closed is what was written: the format promises it.\<close>

definition gunzips :: "'g gzip_lib \<Rightarrow> (string \<Rightarrow> string option) \<Rightarrow> bool" where
  "gunzips gl gunzip \<longleftrightarrow> (\<forall>g w out. gz_session gl g w out \<longrightarrow> gunzip (out @ gz_close gl g) = Some w)"

definition bodyless :: "int \<Rightarrow> bool" where
  "bodyless code \<longleftrightarrow> code = 204 \<or> code = 304 \<or> code < 200"

text \<open>A handler that sends a body: no status without one, and it does not encode the body itself.\<close>

definition plain_op :: "handler_op \<Rightarrow> bool" where
  "plain_op x = (case x of OpHeader code \<Rightarrow> \<not> bodyless code | OpSet k vs \<Rightarrow> k \<noteq> ''Content-Encoding'' | _ \<Rightarrow> True)"

lemma bodies_append [simp]: "bodies (xs @ ys) = bodies xs @ bodies ys"
  by (induction xs rule: bodies.induct) auto

lemma sent_body [simp]:
  "\<not> w_broken c \<Longrightarrow> bodies (w_trace (send_body b c)) = bodies (w_trace c) @ b"
  by (auto simp: send_body_def)

definition headed :: "string \<Rightarrow> 'g compress_writer \<Rightarrow> bool" where
  "headed ce c \<longleftrightarrow> (\<exists>code h rest. w_trace c = HeaderSent code h # rest \<and> (\<forall>x\<in>set rest. \<not> is_header x) \<and>
     get_header h ''Content-Encoding'' = ce)"

text \<open>The state of the writer after the handler has written w, on a connection that takes everything.\<close>

definition writer_inv :: "'g gzip_lib \<Rightarrow> string \<Rightarrow> 'g compress_writer \<Rightarrow> bool" where
  "writer_inv gl w c \<longleftrightarrow> \<not> w_broken c \<and>
     (case w_state c of
        Undecided \<Rightarrow> \<not> w_forwarded c \<and> w_trace c = [] \<and> w_gz c = None \<and> w_buf c = w \<and>
          get_header (w_headers c) ''Content-Encoding'' = []
      | Bypassed \<Rightarrow> w_forwarded c \<and> w_buf c = [] \<and> headed [] c \<and> bodies (w_trace c) = w
      | Compressing \<Rightarrow> w_forwarded c \<and> w_buf c = [] \<and> headed ''gzip'' c \<and>
          (\<exists>g. w_gz c = Some g \<and> gz_session gl g w (bodies (w_trace c))))"

lemma headed_body: "headed ce c \<Longrightarrow> headed ce (send_body b c)"
  by (auto simp: headed_def send_body_def is_header_def)

lemma headed_flush: "headed ce c \<Longrightarrow> headed ce (send_flush c)"
  by (auto simp: headed_def send_flush_def is_header_def)

lemma writer_fields [simp]:
  "w_broken (send_body b c) = w_broken c" "w_state (send_body b c) = w_state c" "w_buf (send_body b c) = w_buf c"
  "w_forwarded (send_body b c) = w_forwarded c" "w_gz (send_body b c) = w_gz c" "w_headers (send_body b c) = w_headers c"
  "w_broken (send_flush c) = w_broken c" "w_state (send_flush c) = w_state c" "w_buf (send_flush c) = w_buf c"
  "w_forwarded (send_flush c) = w_forwarded c" "w_gz (send_flush c) = w_gz c" "bodies (w_trace (send_flush c)) = bodies (w_trace c)"
  by (simp_all add: send_body_def send_flush_def)

lemma inv_bypass:
  assumes "\<not> w_broken c" "\<not> w_forwarded c" "w_trace c = []" "get_header (w_headers c) ''Content-Encoding'' = []"
  shows "writer_inv gl (w_buf c) (forwardBypassWithBuf c)" "w_state (forwardBypassWithBuf c) = Bypassed"
  using assms
  by (auto simp: writer_inv_def forwardBypassWithBuf_def forwardBypass_def send_header_def send_body_def headed_def
      is_header_def Let_def)

lemma inv_start:
  assumes "\<not> w_broken c" "w_trace c = []"
  shows "\<exists>d. start_compressing gl c = (d, True) \<and> writer_inv gl (w_buf c) d"
proof (cases "gz_write gl (w_buf c) (gz_open gl)")
  case (Pair g out)
  have s: "gz_session gl (gz_open gl) [] []" by (rule gz_start)
  from gz_writes [OF s Pair] have "gz_session gl g (w_buf c) out" by simp
  with Pair s assms show ?thesis
    by (auto simp: start_compressing_def gzip_bytes_def writer_inv_def headed_def send_header_def send_body_def is_header_def
        addVary_def get_header_def Let_def)
qed

lemma inv_decide:
  assumes "\<not> w_broken c" "\<not> w_forwarded c" "w_trace c = []" "w_gz c = None"
    "get_header (w_headers c) ''Content-Encoding'' = []"
  shows "\<exists>d. decide gl c = (d, True) \<and> writer_inv gl (w_buf c) d"
proof -
  obtain ct d where d: "decide_type gl c = (ct, d)" by fastforce
  then have f: "\<not> w_broken d" "\<not> w_forwarded d" "w_trace d = []" "w_buf d = w_buf c"
    "get_header (w_headers d) ''Content-Encoding'' = []"
    using assms by (auto simp: decide_type_def get_header_def Let_def split: if_splits)
  show ?thesis
    using d assms inv_bypass(1) [OF assms(1,2,3,5), of gl] inv_bypass(1) [OF f(1,2,3,5), of gl] inv_start [OF f(1,3), of gl] f(4)
    by (auto simp: decide_def)
qed

lemma inv_write:
  assumes "writer_inv gl w c"
  shows "\<exists>d. WriteBytes gl b c = (d, True) \<and> writer_inv gl (w @ b) d"
proof (cases "b = []")
  case True
  then show ?thesis using assms by (simp add: WriteBytes_def)
next
  case b: False
  show ?thesis
  proof (cases "w_state c")
    case Undecided
    then have f: "\<not> w_broken c" "\<not> w_forwarded c" "w_trace c = []" "w_gz c = None" "w_buf c = w"
      "get_header (w_headers c) ''Content-Encoding'' = []"
      using assms by (auto simp: writer_inv_def)
    show ?thesis
      using inv_decide [of "c\<lparr>w_buf := w @ b\<rparr>" gl] f Undecided b
      by (auto simp: WriteBytes_def writer_inv_def Let_def)
  next
    case Bypassed
    then show ?thesis using assms b headed_body by (auto simp: WriteBytes_def writer_inv_def)
  next
    case Compressing
    then obtain g where g: "w_gz c = Some g" "gz_session gl g w (bodies (w_trace c))" and
      f: "\<not> w_broken c" "w_forwarded c" "w_buf c = []" "headed ''gzip'' c"
      using assms by (auto simp: writer_inv_def)
    obtain g1 out where gw: "gz_write gl b g = (g1, out)" by fastforce
    have "headed ''gzip'' (c\<lparr>w_gz := Some g1\<rparr>)" using f(4) by (simp add: headed_def)
    from headed_body [OF this, of out] gz_writes [OF g(2) gw] show ?thesis
      using Compressing b g(1) gw f by (auto simp: WriteBytes_def gzip_bytes_def writer_inv_def)
  qed
qed

lemma inv_flush:
  assumes "writer_inv gl w c"
  shows "writer_inv gl w (FlushWriter gl c)"
proof (cases "w_state c")
  case Undecided
  then have f: "\<not> w_broken c" "\<not> w_forwarded c" "w_trace c = []" "w_buf c = w"
    "get_header (w_headers c) ''Content-Encoding'' = []"
    using assms by (auto simp: writer_inv_def)
  show ?thesis
    using inv_bypass(1) [OF f(1,2,3,5), of gl] inv_bypass(2) [OF f(1,2,3,5)] Undecided f(4) headed_flush
    by (auto simp: FlushWriter_def writer_inv_def)
next
  case Bypassed
  then show ?thesis using assms headed_flush by (auto simp: FlushWriter_def writer_inv_def)
next
  case Compressing
  then obtain g where g: "w_gz c = Some g" "gz_session gl g w (bodies (w_trace c))" and
    f: "\<not> w_broken c" "w_forwarded c" "w_buf c = []" "headed ''gzip'' c"
    using assms by (auto simp: writer_inv_def)
  obtain g1 out where gw: "gz_flush gl g = (g1, out)" by fastforce
  have "headed ''gzip'' (c\<lparr>w_gz := Some g1\<rparr>)" using f(4) by (simp add: headed_def)
  from headed_flush [OF headed_body [OF this, of out]] gz_flushes [OF g(2) gw] show ?thesis
    using Compressing g(1) gw f by (auto simp: FlushWriter_def writer_inv_def)
qed

lemma inv_copy:
  "writer_inv gl w c \<Longrightarrow> \<exists>d. copy_chunks gl src c = (d, True) \<and> writer_inv gl (w @ concat src) d"
proof (induction src arbitrary: w c)
  case (Cons b bs)
  from inv_write [OF Cons.prems, of b] obtain d where "WriteBytes gl b c = (d, True)" "writer_inv gl (w @ b) d" by blast
  with Cons.IH [of "w @ b" d] show ?case by auto
qed auto

lemma inv_read_from:
  assumes "writer_inv gl w c"
  shows "writer_inv gl (w @ concat src) (fst (ReadFrom gl rf src c))"
proof (cases "w_state c = Bypassed \<and> rf")
  case True
  then show ?thesis using assms headed_body by (auto simp: ReadFrom_def writer_inv_def)
next
  case False
  then have "ReadFrom gl rf src c = copy_chunks gl src c" by (auto simp: ReadFrom_def)
  with inv_copy [OF assms, of src] show ?thesis by auto
qed

lemma inv_op:
  assumes "writer_inv gl w c" "plain_op x"
  shows "writer_inv gl (w @ written [x]) (run_op gl x c)"
proof (cases x)
  case (OpHeader code)
  then show ?thesis using assms
    by (auto simp: run_op_def plain_op_def bodyless_def WriteHeader_def writer_inv_def headed_def
        split: compression_state.splits)
next
  case (OpSet k vs)
  then show ?thesis using assms
    by (auto simp: run_op_def plain_op_def writer_inv_def headed_def get_header_def split: compression_state.splits)
next
  case (OpWrite b)
  then show ?thesis using inv_write [OF assms(1), of b] by (auto simp: run_op_def)
next
  case (OpCopy rf src)
  then show ?thesis using inv_read_from [OF assms(1), of src rf] by (simp add: run_op_def)
next
  case OpFlush
  then show ?thesis using inv_flush [OF assms(1)] by (simp add: run_op_def)
qed

lemma written_append: "written (x # xs) = written [x] @ written xs"
  by (cases x) auto

lemma inv_ops:
  "writer_inv gl w c \<Longrightarrow> list_all plain_op xs \<Longrightarrow> writer_inv gl (w @ written xs) (fold (run_op gl) xs c)"
proof (induction xs arbitrary: w c)
  case (Cons x xs)
  from Cons.IH [OF inv_op [OF Cons.prems(1), of x]] Cons.prems(2) show ?case
    by (simp add: written_append [of x xs])
qed simp

lemma close_view:
  assumes "writer_inv gl w c" "gunzips gl gunzip"
  shows "client_view gunzip (w_trace (close_writer gl c)) = Some w"
proof (cases "w_state c")
  case Undecided
  then have f: "\<not> w_broken c" "\<not> w_forwarded c" "w_trace c = []" "w_buf c = w"
    "get_header (w_headers c) ''Content-Encoding'' = []"
    using assms(1) by (auto simp: writer_inv_def)
  from inv_bypass(1) [OF f(1,2,3,5), of gl] inv_bypass(2) [OF f(1,2,3,5)] f(4) have "headed [] (forwardBypassWithBuf c)"
    "bodies (w_trace (forwardBypassWithBuf c)) = w" by (auto simp: writer_inv_def)
  then show ?thesis using Undecided by (auto simp: close_writer_def headed_def client_view_def)
next
  case Bypassed
  then show ?thesis using assms(1)
    by (auto simp: close_writer_def writer_inv_def headed_def client_view_def Let_def split: option.splits)
next
  case Compressing
  then obtain g where g: "w_gz c = Some g" "gz_session gl g w (bodies (w_trace c))" and
    f: "\<not> w_broken c" "w_forwarded c" "headed ''gzip'' c"
    using assms(1) by (auto simp: writer_inv_def)
  from g(2) assms(2) have "gunzip (bodies (w_trace c) @ gz_close gl g) = Some w" by (auto simp: gunzips_def)
  then show ?thesis using Compressing g(1) f
    by (auto simp: close_writer_def headed_def client_view_def send_body_def)
qed

section \<open>Properties\<close>

text \<open>C6: What the compressing writer promises: for a handler that sends a body (no status without one) and does
  not encode it itself, whatever it writes, copies and flushes and in whatever pieces, the client reads the
  bytes the handler wrote, in order and complete, once it undoes the encoding the response declares.\<close>

theorem compressed_body_faithful:
  assumes "gunzips gl gunzip" "list_all plain_op xs" "get_header h ''Content-Encoding'' = []"
  shows "client_view gunzip (w_trace (serve_compressed gl False minimum h xs)) = Some (written xs)"
proof -
  have "writer_inv gl [] (new_writer False minimum h)"
    using assms(3) by (simp add: writer_inv_def new_writer_def)
  from close_view [OF inv_ops [OF this assms(2)] assms(1)] show ?thesis
    by (simp add: serve_compressed_def)
qed

text \<open>A compressor that holds everything back until it is closed.\<close>

definition hold_gzip :: "string gzip_lib" where
  "hold_gzip =
     \<lparr> gz_open = [], gz_write = (\<lambda>b g. (g @ b, [])), gz_flush = (\<lambda>g. (g, [])), gz_close = rev,
       gz_detect = (\<lambda>_. ''text/plain'') \<rparr>"

lemma hold_gzip_session: "gz_session hold_gzip g w out \<Longrightarrow> out = [] \<and> g = w"
  by (induction rule: gz_session.induct) (auto simp: hold_gzip_def)

lemma hold_gzip_gunzips: "gunzips hold_gzip (\<lambda>s. Some (rev s))"
  using hold_gzip_session by (fastforce simp: gunzips_def hold_gzip_def)

theorem compressed_body_faithful_witness:
  "client_view (\<lambda>s. Some (rev s)) (w_trace (serve_compressed hold_gzip False 4 (\<lambda>_. [])
     [OpHeader 200, OpSet ''Content-Type'' [''text/html''], OpWrite ''abc'', OpWrite ''de'', OpFlush, OpCopy True [''f'', ''g'']]))
   = Some ''abcdefg''
   \<and> w_state (serve_compressed hold_gzip False 4 (\<lambda>_. [])
     [OpHeader 200, OpSet ''Content-Type'' [''text/html''], OpWrite ''abc'', OpWrite ''de'', OpFlush, OpCopy True [''f'', ''g'']])
   = Compressing"
proof -
  have "w_state (serve_compressed hold_gzip False 4 (\<lambda>_. [])
     [OpHeader 200, OpSet ''Content-Type'' [''text/html''], OpWrite ''abc'', OpWrite ''de'', OpFlush, OpCopy True [''f'', ''g'']])
   = Compressing"
    by code_simp
  then show ?thesis
    using compressed_body_faithful [OF hold_gzip_gunzips, of
      "[OpHeader 200, OpSet ''Content-Type'' [''text/html''], OpWrite ''abc'', OpWrite ''de'', OpFlush, OpCopy True [''f'', ''g'']]"
      "\<lambda>_. []" 4]
    by (simp add: plain_op_def bodyless_def get_header_def)
qed

text \<open>The writer below before and after the response header; codes holds the status codes the handler gave.\<close>

definition header_inv :: "int set \<Rightarrow> 'g compress_writer \<Rightarrow> bool" where
  "header_inv codes c \<longleftrightarrow> w_status c \<in> insert 0 codes \<and>
     (if w_forwarded c
      then w_state c \<noteq> Undecided \<and>
        (\<exists>code h rest. w_trace c = HeaderSent code h # rest \<and> filter is_header rest = [] \<and> code \<in> codes)
      else w_trace c = [] \<and> w_state c = Undecided)"

lemma header_send:
  assumes "header_inv codes c"
  shows "w_forwarded c \<Longrightarrow> header_inv codes (send_body b c)" "w_forwarded c \<Longrightarrow> header_inv codes (send_flush c)"
  using assms by (auto simp: header_inv_def send_body_def send_flush_def is_header_def)

lemma header_bypass:
  assumes "header_inv codes c" "200 \<in> codes"
  shows "header_inv codes (forwardBypass c)" "w_forwarded (forwardBypass c)"
  using assms by (auto simp: header_inv_def forwardBypass_def send_header_def Let_def is_header_def)

lemma header_fields [simp]:
  "header_inv codes (c\<lparr>w_gz := g\<rparr>) = header_inv codes c" "header_inv codes (c\<lparr>w_buf := b\<rparr>) = header_inv codes c"
  "header_inv codes (c\<lparr>w_headers := h\<rparr>) = header_inv codes c"
  by (simp_all add: header_inv_def)

lemma header_bypass_buf:
  assumes "header_inv codes c" "200 \<in> codes"
  shows "header_inv codes (forwardBypassWithBuf c)" "w_forwarded (forwardBypassWithBuf c)"
  using header_bypass [OF assms] header_send by (auto simp: forwardBypassWithBuf_def Let_def)

lemma header_gzip:
  assumes "header_inv codes c" "w_forwarded c"
  shows "header_inv codes (fst (gzip_bytes gl b c))" "w_forwarded (fst (gzip_bytes gl b c))"
  using assms header_send(1) [of codes "c\<lparr>w_gz := g\<rparr>" b for g b]
  by (auto simp: gzip_bytes_def split: option.splits prod.splits)

lemma header_start:
  assumes "header_inv codes c" "\<not> w_forwarded c" "200 \<in> codes"
  shows "header_inv codes (fst (start_compressing gl c))"
proof -
  define c2 where "c2 = (send_header (c\<lparr>w_state := Compressing,
               w_headers := addVary ((w_headers c)(''Content-Length'' := [], ''Content-Encoding'' := [''gzip''])) ''Accept-Encoding''\<rparr>))
     \<lparr>w_gz := Some (gz_open gl)\<rparr>"
  have c2: "header_inv codes c2" "w_forwarded c2" using assms
    by (auto simp: c2_def header_inv_def send_header_def Let_def)
  have "start_compressing gl c = (if w_buf c2 = [] then (c2, True)
      else (case gzip_bytes gl (w_buf c2) c2 of
              (c3, False) \<Rightarrow> (c3, False)
            | (c3, True) \<Rightarrow> (c3\<lparr>w_buf := []\<rparr>, True)))"
    by (simp only: start_compressing_def c2_def Let_def)
  then show ?thesis using c2(1) header_gzip [OF c2, of gl "w_buf c2"] by (auto split: prod.splits bool.splits)
qed

lemma header_decide:
  assumes "header_inv codes c" "\<not> w_forwarded c" "200 \<in> codes"
  shows "header_inv codes (fst (decide gl c))"
proof -
  obtain ct d where d: "decide_type gl c = (ct, d)" by fastforce
  then have f: "header_inv codes d" "\<not> w_forwarded d"
    using assms by (auto simp: decide_type_def Let_def split: if_splits)
  show ?thesis
    using d header_bypass_buf(1) [OF assms(1,3)] header_bypass_buf(1) [OF f(1) assms(3)] header_start [OF f assms(3), of gl]
    by (auto simp: decide_def)
qed

lemma header_write:
  assumes "header_inv codes c" "200 \<in> codes"
  shows "header_inv codes (fst (WriteBytes gl b c))"
proof (cases "w_forwarded c")
  case True
  then show ?thesis
    using assms(1) header_send(1) [OF assms(1) True] header_gzip(1) [OF assms(1) True]
    by (auto simp: WriteBytes_def Let_def split: compression_state.split)
next
  case False
  then have s: "w_state c = Undecided" using assms(1) by (simp add: header_inv_def)
  show ?thesis
    using assms s False header_decide [of codes "c\<lparr>w_buf := w_buf c @ b\<rparr>" gl]
    by (auto simp: WriteBytes_def Let_def)
qed

lemma header_flush:
  assumes "header_inv codes c" "200 \<in> codes"
  shows "header_inv codes (FlushWriter gl c)"
proof (cases "w_forwarded c")
  case True
  then have s: "w_state c \<noteq> Undecided" using assms(1) by (simp add: header_inv_def)
  have g: "header_inv codes (send_flush (send_body b (c\<lparr>w_gz := g\<rparr>)))" for g b
    using True assms(1) by (simp add: header_send)
  show ?thesis
    using g header_send(2) [OF assms(1) True] s
    by (auto simp: FlushWriter_def split: compression_state.split option.split prod.split)
next
  case False
  then have s: "w_state c = Undecided" using assms(1) by (simp add: header_inv_def)
  show ?thesis
    using header_send(2) [OF header_bypass_buf [OF assms]] s by (simp add: FlushWriter_def)
qed

lemma header_copy: "header_inv codes c \<Longrightarrow> 200 \<in> codes \<Longrightarrow> header_inv codes (fst (copy_chunks gl src c))"
proof (induction src arbitrary: c)
  case (Cons b bs)
  from header_write [OF Cons.prems, of gl b] Cons.IH Cons.prems(2) show ?case
    by (auto split: prod.splits bool.splits)
qed simp

lemma header_op:
  assumes "header_inv codes c" "200 \<in> codes" "\<And>code. x = OpHeader code \<Longrightarrow> code \<in> codes"
  shows "header_inv codes (run_op gl x c)"
proof (cases x)
  case (OpHeader code)
  then have "header_inv codes (c\<lparr>w_status := code\<rparr>)" using assms by (auto simp: header_inv_def)
  from header_bypass(1) [OF this assms(2)] this show ?thesis
    using OpHeader assms(1) by (auto simp: run_op_def WriteHeader_def Let_def)
next
  case (OpCopy rf src)
  have "w_state c = Bypassed \<Longrightarrow> w_forwarded c"
    using assms(1) by (simp add: header_inv_def split: if_splits)
  with OpCopy show ?thesis using header_copy [OF assms(1,2)] header_send(1) [OF assms(1)]
    by (auto simp: run_op_def ReadFrom_def)
qed (use assms header_write header_flush in \<open>auto simp: run_op_def\<close>)

lemma header_ops:
  "header_inv codes c \<Longrightarrow> 200 \<in> codes \<Longrightarrow> (\<And>code. OpHeader code \<in> set xs \<Longrightarrow> code \<in> codes) \<Longrightarrow>
   header_inv codes (fold (run_op gl) xs c)"
proof (induction xs arbitrary: c)
  case (Cons x xs)
  then show ?case using header_op [of codes c x gl] by auto
qed simp

lemma header_close:
  assumes "header_inv codes c" "200 \<in> codes"
  shows "header_inv codes (close_writer gl c) \<and> w_forwarded (close_writer gl c)"
proof (cases "w_forwarded c")
  case True
  then have s: "w_state c \<noteq> Undecided" using assms(1) by (simp add: header_inv_def)
  show ?thesis using s True assms header_send(1) [OF assms(1) True]
    by (auto simp: close_writer_def Let_def split: option.split)
next
  case False
  then have s: "w_state c = Undecided" using assms(1) by (simp add: header_inv_def)
  then show ?thesis using header_bypass_buf [OF assms] by (simp add: close_writer_def)
qed

text \<open>Whatever a handler does, with a status without a body, on a broken connection, with a body that is encoded
  already: the writer below gets exactly one response header, before any byte of the body, and its status is
  200 or one the handler gave.\<close>

theorem one_header_first:
  "\<exists>code hs rest. w_trace (serve_compressed gl broken minimum h xs) = HeaderSent code hs # rest
     \<and> filter is_header rest = [] \<and> code \<in> insert 200 {code. OpHeader code \<in> set xs}"
proof -
  let ?codes = "insert 200 {code. OpHeader code \<in> set xs}"
  have "header_inv ?codes (new_writer broken minimum h)" by (simp add: header_inv_def new_writer_def)
  from header_close [OF header_ops [OF this, of xs gl], of gl]
  have "header_inv ?codes (serve_compressed gl broken minimum h xs)"
    "w_forwarded (serve_compressed gl broken minimum h xs)" by (simp_all add: serve_compressed_def)
  then show ?thesis unfolding header_inv_def by (auto simp del: insert_iff)
qed

text \<open>Bytes written before a status without a body are dropped: the writer stops buffering and forgets them.\<close>

lemma bodyless_status_drops_buffer:
  assumes "b \<noteq> []" "length b < minimum" "bodyless code"
  shows "bodies (w_trace (serve_compressed gl False minimum h [OpWrite b, OpHeader code])) = []"
  using assms
  by (auto simp: serve_compressed_def run_op_def WriteBytes_def new_writer_def WriteHeader_def bodyless_def forwardBypass_def
      send_header_def close_writer_def Let_def)

text \<open>An informational status is taken for the final one: the status that follows it is not sent.\<close>

lemma early_hints_hide_status:
  assumes "code < 200" "code \<noteq> 0"
  shows "\<exists>hs. w_trace (serve_compressed gl False minimum h [OpHeader code, OpHeader final]) = [HeaderSent code hs]"
  using assms
  by (auto simp: serve_compressed_def run_op_def new_writer_def WriteHeader_def forwardBypass_def
      send_header_def close_writer_def Let_def)

section \<open>Negotiation\<close>

text \<open>The last entry naming gzip decides, with a quality that is a number: an entry for the wildcard and all
  other entries do not matter.\<close>

lemma accept_tokens_other:
  "\<forall>t\<in>set ts. to_lower (fst (parseEncodingToken pf (trim_space t))) \<noteq> ''gzip'' \<or> trim_space t = [] \<Longrightarrow>
   fst (fold (accept_token pf) ts qs) = fst qs"
  by (induction ts arbitrary: qs) (auto simp: accept_token_def split: prod.splits)

lemma last_gzip_entry_decides:
  assumes "split_on CHR '','' h = ts @ t # us" "trim_space t \<noteq> []"
    and "parseEncodingToken pf (trim_space t) = (coding, q)" "to_lower coding = ''gzip''" "q \<noteq> NaNQ"
    and "\<forall>u\<in>set us. to_lower (fst (parseEncodingToken pf (trim_space u))) \<noteq> ''gzip''"
  shows "acceptsGzip pf h \<longleftrightarrow> q = PositiveQ"
proof -
  obtain g w where gw: "fold (accept_token pf) (split_on CHR '','' h) (NegativeQ, NegativeQ) = (g, w)" by fastforce
  have "fst (fold (accept_token pf) us (q, x)) = q" for x
    using accept_tokens_other [of us pf "(q, x)"] assms(6) by auto
  with gw assms(1-4) have g: "g = q" by (auto simp: accept_token_def [of pf t] split: prod.splits dest: arg_cong [of _ _ fst])
  have "q = ZeroQ \<or> q = PositiveQ"
    using assms(3,5)
    by (cases q) (auto simp: parseEncodingToken_def Let_def split: prod.splits option.splits if_splits)
  moreover have "h \<noteq> []" using assms(1,2) by (auto simp: append_eq_Cons_conv Cons_eq_append_conv)
  ultimately show ?thesis using gw g by (auto simp: acceptsGzip_def)
qed

end
