(* ===== verification/Stream.thy ===== *)
theory Stream
  imports Ingest Config ChannelShow ChatStatus
begin

text \<open>
  The event stream of internal/httpapi/server.go and the channel handlers of channel_show.go: what a client
  gets when it opens the stream, the replay from the receive log, and how the replay and the live events of
  the bus fit together while packets arrive. time.Parse and the JSON decoder of the handler are parameters.
\<close>

section \<open>The cutoff and the replay\<close>

text \<open>Inl: the from parameter is not a timestamp. None: nothing is replayed.\<close>

definition replayCutoff :: "(string \<Rightarrow> gotime option) \<Rightarrow> duration \<Rightarrow> gotime \<Rightarrow> string \<Rightarrow> unit + gotime option" where
  "replayCutoff parseTime replayWindow now from_param =
     (let given = trim_space from_param in
      case (if given = [] then Some None else map_option Some (parseTime given)) of
        None \<Rightarrow> Inl ()
      | Some cutoff \<Rightarrow>
          if 0 < replayWindow
          then (let minCutoff = now - replayWindow in
            Inr (Some (case cutoff of None \<Rightarrow> minCutoff | Some c \<Rightarrow> if c < minCutoff then minCutoff else c)))
          else Inr cutoff)"

record 'f replayed =
  re_remote_addr :: string
  re_packet :: "'f packet"
  re_received_at :: gotime

datatype 'f frame =
    Heartbeat
  | IdentityFrame string string bool nat
  | PositionsFrame "string \<rightharpoonup> 'f pos_record"
  | StatusFrame "string \<rightharpoonup> status_entry"
  | ChannelShowFrame show_config
  | ReplayFrame "'f replayed"
  | LiveFrame "'f event_data event"

definition replay_frame :: "'f json_lib \<Rightarrow> receive_record \<Rightarrow> 'f frame option" where
  "replay_frame jl record =
     (if rr_ParseError record \<noteq> [] \<or> rr_Raw record = [] then None
      else (case ParsePacket jl (rr_Raw record) of Inl _ \<Rightarrow> None
            | Inr e \<Rightarrow> Some (ReplayFrame \<lparr>re_remote_addr = rr_RemoteAddr record, re_packet = en_Packet e,
                                         re_received_at = rr_ReceivedAt record\<rparr>)))"

text \<open>None: reading the receive log fails, and the stream ends.\<close>

definition replayRecentPackets ::
    "'f json_lib \<Rightarrow> gotime option \<Rightarrow> (receive_logger \<times> receive_record list) option \<Rightarrow> 'f frame list option" where
  "replayRecentPackets jl cutoff rlog =
     (case (rlog, cutoff) of
        (Some (l, table), Some c) \<Rightarrow> map_option (List.map_filter (replay_frame jl)) (ReadReceiveSince c l table)
      | _ \<Rightarrow> Some [])"

section \<open>Opening the stream\<close>

definition channelShowSnapshot :: "show_store option \<Rightarrow> show_config" where
  "channelShowSnapshot store = (case store of None \<Rightarrow> DefaultConfig | Some s \<Rightarrow> ss_config s)"

text \<open>The frames written before the replay; the error of ParseForwardTargets is dropped, with no targets.\<close>

definition stream_opening ::
    "net_lib \<Rightarrow> config \<Rightarrow> string \<Rightarrow> string \<Rightarrow> 'f pos_store option \<Rightarrow> (string \<rightharpoonup> status_entry) option
     \<Rightarrow> show_store option \<Rightarrow> 'f frame list" where
  "stream_opening nl cfg version callsign positions status store =
     [Heartbeat,
      IdentityFrame callsign version (cf_DemoMode cfg)
        (case ParseForwardTargets nl (fw_Targets (cf_Forward cfg)) of Inl _ \<Rightarrow> 0 | Inr ts \<Rightarrow> length ts)]
     @ (case positions of None \<Rightarrow> [] | Some ps \<Rightarrow> [PositionsFrame (ps_records ps)])
     @ (case status of None \<Rightarrow> [] | Some m \<Rightarrow> [StatusFrame m])
     @ [ChannelShowFrame (channelShowSnapshot store)]"

section \<open>The channel handlers\<close>

record channel_json =
  cj_list :: "string \<Rightarrow> string list option"
  cj_config :: "string \<Rightarrow> (show_config \<times> string) option"
  cj_eof :: "string \<Rightarrow> bool"

text \<open>The body within its limit of 64 KB, or None when reading it fails.\<close>

definition decodeChannelShowConfig :: "channel_json \<Rightarrow> string option \<Rightarrow> show_config option" where
  "decodeChannelShowConfig cj body =
     (case body of None \<Rightarrow> None
      | Some b \<Rightarrow> (let trimmed = trim_space b in
          if trimmed = [] then None
          else if hd trimmed = CHR ''['' then
            map_option (\<lambda>channels. \<lparr>sc_Mode = ModeAllowlist, sc_Channels = channels\<rparr>) (cj_list cj trimmed)
          else (case cj_config cj trimmed of None \<Rightarrow> None
                | Some (config, rest) \<Rightarrow> if cj_eof cj rest then Some config else None)))"

datatype show_reply = ShowNotConfigured | ShowInvalid | ShowUpdated show_config

text \<open>The result holds the configuration published as channelshow.snapshot.\<close>

definition updateChannelShow ::
    "channel_json \<Rightarrow> string option \<Rightarrow> show_store option \<Rightarrow> show_store option \<times> show_reply \<times> show_config option" where
  "updateChannelShow cj body store =
     (case store of None \<Rightarrow> (None, ShowNotConfigured, None)
      | Some s \<Rightarrow> (case decodeChannelShowConfig cj body of None \<Rightarrow> (Some s, ShowInvalid, None)
        | Some request \<Rightarrow> (case Update_show request s of
              (s1, Inl _) \<Rightarrow> (Some s1, ShowInvalid, None)
            | (s1, Inr config) \<Rightarrow> (Some s1, ShowUpdated config, Some config))))"

section \<open>The stream while packets arrive\<close>

text \<open>
  Process in two halves: a packet is logged and stored, then its event is published. Between them other
  goroutines run. process_begin gives the event the second half publishes.
\<close>

definition process_begin ::
  "'f json_lib \<Rightarrow> (int \<Rightarrow> 'f) \<Rightarrow> faults \<Rightarrow> gotime \<Rightarrow> packet_source \<Rightarrow> string \<Rightarrow> 'f ingest \<Rightarrow> 'f ingest \<times> 'f event_data event" where
  "process_begin jl flt f now src data s =
     (case ParsePacket jl data of
        Inl err \<Rightarrow>
          (logReceivedPacket f now (so_Endpoint src) data [] (parse_error_text jl err) now s,
           \<lparr>ev_Type = ''packet.error'', ev_Data = ErrorData (parse_error_text jl err)\<rparr>)
      | Inr e \<Rightarrow>
          (storePacket flt f (en_Packet e) now (logReceivedPacket f now (so_Endpoint src) data (en_Type e) [] now s),
           \<lparr>ev_Type = ''packet.received'', ev_Data = ReceivedData src (en_Packet e) now\<rparr>))"

lemma Process_halves:
  "Process jl flt f now src data s =
     (let (s1, e) = process_begin jl flt f now src data s in
      map_option (\<lambda>s'. (s', case ParsePacket jl data of Inl err \<Rightarrow> Some err | Inr _ \<Rightarrow> None)) (publish e s1))"
  by (auto simp: Process_def process_begin_def publishReceived_def split: sum.splits)

text \<open>A stream: its subscription, whether the replay is done, the frames written since. The last three fields
  belong to the proofs: the packets the log took, the events being processed, and those the full channel of the
  stream did not take.\<close>

record arrival =
  ar_source :: packet_source
  ar_data :: string
  ar_at :: gotime

record 'f streaming =
  sm_ingest :: "'f ingest"
  sm_sub :: "nat option"
  sm_replayed :: bool
  sm_frames :: "'f frame list"
  sm_flight :: "'f event_data event list"
  sm_arrived :: "arrival list"
  sm_dropped :: "'f event_data event list"

definition logged_arrival :: "faults \<Rightarrow> gotime \<Rightarrow> packet_source \<Rightarrow> string \<Rightarrow> 'f ingest \<Rightarrow> arrival list" where
  "logged_arrival f now src data s =
     (case ig_receive s of None \<Rightarrow> []
      | Some (l, _) \<Rightarrow> if rl_Enabled l \<and> rl_db l \<and> \<not> fa_receive f then [\<lparr>ar_source = src, ar_data = data, ar_at = now\<rparr>] else [])"

definition channel_of :: "'f streaming \<Rightarrow> 'f event_data event list" where
  "channel_of st = (case (sm_sub st, ig_bus (sm_ingest st)) of (Some i, Some b) \<Rightarrow> sub_buf (b ! i) | _ \<Rightarrow> [])"

inductive stream_step :: "'f json_lib \<Rightarrow> (int \<Rightarrow> 'f) \<Rightarrow> gotime \<Rightarrow> 'f streaming \<Rightarrow> 'f streaming \<Rightarrow> bool"
  for jl flt cutoff where
  arrives: "process_begin jl flt f now src data (sm_ingest st) = (s1, e) \<Longrightarrow>
    stream_step jl flt cutoff st (st\<lparr>sm_ingest := s1, sm_flight := e # sm_flight st,
      sm_arrived := logged_arrival f now src data (sm_ingest st) @ sm_arrived st\<rparr>)"
| announces: "sm_flight st = xs @ e # ys \<Longrightarrow> publish e (sm_ingest st) = Some s1 \<Longrightarrow>
    stream_step jl flt cutoff st (st\<lparr>sm_ingest := s1, sm_flight := xs @ ys,
      sm_dropped := (if sm_sub st \<noteq> None \<and> bus_cap \<le> length (channel_of st) then [e] else []) @ sm_dropped st\<rparr>)"
| subscribes: "sm_sub st = None \<Longrightarrow> ig_bus (sm_ingest st) = Some b \<Longrightarrow> Subscribe b = (i, b1) \<Longrightarrow>
    stream_step jl flt cutoff st (st\<lparr>sm_ingest := (sm_ingest st)\<lparr>ig_bus := Some b1\<rparr>, sm_sub := Some i\<rparr>)"
| replays: "sm_sub st = Some i \<Longrightarrow> \<not> sm_replayed st \<Longrightarrow>
    replayRecentPackets jl (Some cutoff) (ig_receive (sm_ingest st)) = Some fs \<Longrightarrow>
    stream_step jl flt cutoff st (st\<lparr>sm_frames := sm_frames st @ fs, sm_replayed := True\<rparr>)"
| delivers: "sm_sub st = Some i \<Longrightarrow> sm_replayed st \<Longrightarrow> ig_bus (sm_ingest st) = Some b \<Longrightarrow>
    receive i b = (Some e, b1) \<Longrightarrow>
    stream_step jl flt cutoff st (st\<lparr>sm_ingest := (sm_ingest st)\<lparr>ig_bus := Some b1\<rparr>,
      sm_frames := sm_frames st @ [LiveFrame e]\<rparr>)"
| others: "ig_bus (sm_ingest st) = Some b \<Longrightarrow> bus_step x b = Some b1 \<Longrightarrow>
    (\<And>i. sm_sub st = Some i \<Longrightarrow> x \<noteq> OpDone i \<and> x \<noteq> OpReceive i) \<Longrightarrow>
    stream_step jl flt cutoff st (st\<lparr>sm_ingest := (sm_ingest st)\<lparr>ig_bus := Some b1\<rparr>\<rparr>)"

inductive stream_run :: "'f json_lib \<Rightarrow> (int \<Rightarrow> 'f) \<Rightarrow> gotime \<Rightarrow> 'f streaming \<Rightarrow> 'f streaming \<Rightarrow> bool"
  for jl flt cutoff st0 where
  run_start: "stream_run jl flt cutoff st0 st0"
| run_next: "stream_run jl flt cutoff st0 st1 \<Longrightarrow> stream_step jl flt cutoff st1 st2 \<Longrightarrow> stream_run jl flt cutoff st0 st2"

inductive_cases stream_stepE: "stream_step jl flt cutoff st st'"

definition stream_start :: "'f ingest \<Rightarrow> 'f streaming" where
  "stream_start s = \<lparr>sm_ingest = s, sm_sub = None, sm_replayed = False, sm_frames = [], sm_flight = [],
     sm_arrived = [], sm_dropped = []\<rparr>"

section \<open>Facts\<close>

text \<open>The event and the replayed frame of a packet that decodes, and when its row is due for the replay: a second
  or more after the cutoff, since the times are compared as texts.\<close>

definition live_event :: "'f json_lib \<Rightarrow> arrival \<Rightarrow> 'f event_data event option" where
  "live_event jl a =
     (case ParsePacket jl (ar_data a) of Inl _ \<Rightarrow> None
      | Inr e \<Rightarrow> Some \<lparr>ev_Type = ''packet.received'', ev_Data = ReceivedData (ar_source a) (en_Packet e) (ar_at a)\<rparr>)"

definition replay_of :: "'f json_lib \<Rightarrow> arrival \<Rightarrow> 'f frame option" where
  "replay_of jl a =
     (case ParsePacket jl (ar_data a) of Inl _ \<Rightarrow> None
      | Inr e \<Rightarrow> Some (ReplayFrame \<lparr>re_remote_addr = so_Endpoint (ar_source a), re_packet = en_Packet e,
                                    re_received_at = ar_at a\<rparr>))"

definition due :: "'f json_lib \<Rightarrow> gotime \<Rightarrow> arrival \<Rightarrow> bool" where
  "due jl cutoff a \<longleftrightarrow> ar_data a \<noteq> [] \<and> live_event jl a \<noteq> None \<and>
     time_ok cutoff \<and> time_ok (ar_at a) \<and> cutoff + second \<le> ar_at a"

definition in_table :: "arrival \<Rightarrow> (receive_logger \<times> receive_record list) option \<Rightarrow> bool" where
  "in_table a rlog \<longleftrightarrow> (\<exists>l t. rlog = Some (l, t) \<and> rl_Enabled l \<and> rl_db l \<and>
     (\<exists>r\<in>set t. rr_RemoteAddr r = so_Endpoint (ar_source a) \<and> rr_Raw r = ar_data a \<and> rr_ParseError r = [] \<and>
        rr_ReceivedAt r = ar_at a))"

definition shown :: "'f json_lib \<Rightarrow> arrival \<Rightarrow> 'f frame list \<Rightarrow> bool" where
  "shown jl a fs \<longleftrightarrow> replay_of jl a \<in> Some ` set fs \<or> map_option LiveFrame (live_event jl a) \<in> Some ` set fs"

definition under_way :: "'f json_lib \<Rightarrow> arrival \<Rightarrow> 'f event_data event set \<Rightarrow> bool" where
  "under_way jl a es \<longleftrightarrow> live_event jl a \<in> Some ` es"

lemma under_way_mono: "under_way jl a es \<Longrightarrow> es \<subseteq> es' \<Longrightarrow> under_way jl a es'"
  by (auto simp: under_way_def)

lemma logged_row:
  "ig_receive (logReceivedPacket f now ep data ty pe at s) =
     map_option (\<lambda>(l, t). (l, if rl_Enabled l \<and> rl_db l \<and> \<not> fa_receive f
       then t @ [\<lparr>rr_ReceivedAt = (if at = 0 then now else at), rr_RemoteAddr = ep, rr_Bytes = int (length data), rr_Raw = data,
                  rr_PacketType = ty, rr_ParseError = pe\<rparr>] else t)) (ig_receive s)"
  by (auto simp: logReceivedPacket_def AppendReceive_def Let_def split: option.split)

lemma begin_frame:
  assumes "process_begin jl flt f now src data s = (s1, e)"
  shows "ig_bus s1 = ig_bus s" "in_table a (ig_receive s) \<Longrightarrow> in_table a (ig_receive s1)"
  using assms
  by (auto simp: process_begin_def storePacket_frame logReceivedPacket_frame logged_row in_table_def split: sum.splits)

lemma begin_arrival:
  assumes "process_begin jl flt f now src data s = (s1, e)" "a \<in> set (logged_arrival f now src data s)"
    and "live_event jl a \<noteq> None"
  shows "in_table a (ig_receive s1)" "live_event jl a = Some e"
proof -
  obtain l t where l: "ig_receive s = Some (l, t)" "rl_Enabled l" "rl_db l" "\<not> fa_receive f"
    and a: "a = \<lparr>ar_source = src, ar_data = data, ar_at = now\<rparr>"
    using assms(2) by (cases "ig_receive s") (auto simp: logged_arrival_def split: if_splits)
  show "in_table a (ig_receive s1)" "live_event jl a = Some e"
    using assms(1,3) l
    by (auto simp: a process_begin_def storePacket_frame logged_row in_table_def live_event_def split: sum.splits)
qed

lemma due_replayed:
  assumes "due jl cutoff a" "in_table a rlog" "replayRecentPackets jl (Some cutoff) rlog = Some fs"
  shows "shown jl a fs"
proof -
  obtain l t r where t: "rlog = Some (l, t)" "rl_Enabled l" "rl_db l" "r \<in> set t"
    and r: "rr_RemoteAddr r = so_Endpoint (ar_source a)" "rr_Raw r = ar_data a" "rr_ParseError r = []" "rr_ReceivedAt r = ar_at a"
    using assms(2) by (auto simp: in_table_def)
  have "cutoff div second < ar_at a div second" using assms(1) second_later [of cutoff "ar_at a"] by (simp add: due_def)
  then have "time_column cutoff < time_column (ar_at a)" using assms(1) by (auto simp: due_def intro!: time_column_seconds)
  then obtain rs where rs: "ReadReceiveSince cutoff l t = Some rs" "r \<in> set rs"
    using t r(4) by (auto simp: ReadReceiveSince_def)
  have "replay_frame jl r = replay_of jl a" "replay_of jl a \<noteq> None"
    using r assms(1) by (auto simp: replay_frame_def replay_of_def due_def live_event_def split: sum.splits)
  then obtain fr where fr: "replay_frame jl r = Some fr" "replay_of jl a = Some fr" by auto
  have "fs = List.map_filter (replay_frame jl) rs"
    using assms(3) by (simp add: replayRecentPackets_def t(1) rs(1))
  then have "fr \<in> set fs" using rs(2) fr(1) by (force simp: List.map_filter_def)
  then show ?thesis using fr(2) by (simp add: shown_def)
qed

lemma publish_channel:
  assumes "publish e s = Some s1"
  shows "ig_receive s1 = ig_receive s"
    and "ig_bus s = Some b \<Longrightarrow> ig_bus s1 = Publish e b" "ig_bus s = None \<Longrightarrow> ig_bus s1 = None"
  using assms by (auto simp: publish_def split: option.splits)

text \<open>What another step of the bus does to a subscription that stays: it loses no event.\<close>

lemma bus_step_channel:
  assumes "bus_step x b = Some b1" "i < length b" "x \<noteq> OpDone i" "x \<noteq> OpReceive i"
  shows "i < length b1" "sub_member (b1 ! i) = sub_member (b ! i)" "set (sub_buf (b ! i)) \<subseteq> set (sub_buf (b1 ! i))"
  using assms
  by (cases x; auto simp: Publish_def Subscribe_def unsubscribe_def receive_def try_send_def nth_append nth_list_update
      split: if_splits list.splits)+

lemma publish_channel_room:
  assumes "Publish e b = Some b1" "i < length b" "sub_member (b ! i)"
  shows "set (sub_buf (b1 ! i)) = (if length (sub_buf (b ! i)) < bus_cap then insert e (set (sub_buf (b ! i))) else set (sub_buf (b ! i)))"
  using assms by (auto simp: Publish_def try_send_def split: if_splits)

definition on_its_way :: "'f json_lib \<Rightarrow> arrival \<Rightarrow> 'f streaming \<Rightarrow> bool" where
  "on_its_way jl a st \<longleftrightarrow> shown jl a (sm_frames st) \<or>
     under_way jl a (set (sm_flight st) \<union> set (channel_of st) \<union> set (sm_dropped st))"

definition tracked :: "'f json_lib \<Rightarrow> arrival \<Rightarrow> 'f streaming \<Rightarrow> bool" where
  "tracked jl a st \<longleftrightarrow> (if sm_replayed st then on_its_way jl a st else in_table a (ig_receive (sm_ingest st)))"

definition stream_inv :: "'f json_lib \<Rightarrow> gotime \<Rightarrow> 'f streaming \<Rightarrow> bool" where
  "stream_inv jl cutoff st \<longleftrightarrow>
     (\<forall>b. ig_bus (sm_ingest st) = Some b \<longrightarrow> bus_inv b) \<and>
     (\<forall>i. sm_sub st = Some i \<longrightarrow> (\<exists>b. ig_bus (sm_ingest st) = Some b \<and> i < length b \<and> sub_member (b ! i))) \<and>
     (sm_replayed st \<longrightarrow> sm_sub st \<noteq> None) \<and>
     (\<forall>a\<in>set (sm_arrived st). due jl cutoff a \<longrightarrow> tracked jl a st)"

lemma shown_more: "shown jl a fs \<Longrightarrow> shown jl a (fs @ gs)" "shown jl a gs \<Longrightarrow> shown jl a (fs @ gs)"
  by (auto simp: shown_def)

lemma inv_arrives:
  assumes inv: "stream_inv jl cutoff st" and b: "process_begin jl flt f now src data (sm_ingest st) = (s1, e)"
  shows "stream_inv jl cutoff (st\<lparr>sm_ingest := s1, sm_flight := e # sm_flight st,
      sm_arrived := logged_arrival f now src data (sm_ingest st) @ sm_arrived st\<rparr>)" (is "stream_inv jl cutoff ?st")
proof -
  note fr = begin_frame [OF b]
  have ch: "channel_of ?st = channel_of st" by (simp add: channel_of_def fr(1))
  have "tracked jl a ?st" if a: "a \<in> set (sm_arrived ?st)" "due jl cutoff a" for a
  proof (cases "a \<in> set (logged_arrival f now src data (sm_ingest st))")
    case True
    have "live_event jl a \<noteq> None" using a(2) by (simp add: due_def)
    from begin_arrival [OF b True this] show ?thesis by (simp add: tracked_def on_its_way_def under_way_def)
  next
    case False
    with a inv have "tracked jl a st" by (simp add: stream_inv_def)
    then show ?thesis using fr(2) ch by (auto simp: tracked_def on_its_way_def under_way_def split: if_splits)
  qed
  moreover have "(\<forall>b. ig_bus (sm_ingest ?st) = Some b \<longrightarrow> bus_inv b)"
    "(\<forall>i. sm_sub ?st = Some i \<longrightarrow> (\<exists>b. ig_bus (sm_ingest ?st) = Some b \<and> i < length b \<and> sub_member (b ! i)))"
    "sm_replayed ?st \<longrightarrow> sm_sub ?st \<noteq> None"
    using inv fr(1) by (auto simp: stream_inv_def)
  ultimately show ?thesis unfolding stream_inv_def by blast
qed

text \<open>The other steps leave the receive log and the arrivals alone; each keeps what is on its way.\<close>

lemma inv_keeps:
  assumes "stream_inv jl cutoff st" and "sm_arrived st1 = sm_arrived st" "sm_replayed st1 = sm_replayed st"
    and "ig_receive (sm_ingest st1) = ig_receive (sm_ingest st)"
    and "\<forall>b. ig_bus (sm_ingest st1) = Some b \<longrightarrow> bus_inv b"
    and "\<forall>i. sm_sub st1 = Some i \<longrightarrow> (\<exists>b. ig_bus (sm_ingest st1) = Some b \<and> i < length b \<and> sub_member (b ! i))"
    and "sm_sub st \<noteq> None \<Longrightarrow> sm_sub st1 \<noteq> None"
    and "\<And>a. sm_replayed st \<Longrightarrow> on_its_way jl a st \<Longrightarrow> on_its_way jl a st1"
  shows "stream_inv jl cutoff st1"
proof -
  have "tracked jl a st1" if "tracked jl a st" for a
    using that assms(3,4,8) by (auto simp: tracked_def)
  moreover have "sm_replayed st1 \<longrightarrow> sm_sub st1 \<noteq> None" using assms(1,3,7) by (simp add: stream_inv_def)
  ultimately show ?thesis using assms(1,2,5,6) unfolding stream_inv_def by simp
qed

lemma inv_announces:
  assumes inv: "stream_inv jl cutoff st" and f: "sm_flight st = xs @ e # ys" and p: "publish e (sm_ingest st) = Some s1"
  shows "stream_inv jl cutoff (st\<lparr>sm_ingest := s1, sm_flight := xs @ ys,
      sm_dropped := (if sm_sub st \<noteq> None \<and> bus_cap \<le> length (channel_of st) then [e] else []) @ sm_dropped st\<rparr>)"
    (is "stream_inv jl cutoff ?st")
proof (rule inv_keeps [OF inv])
  note pc = publish_channel [OF p]
  have bus: "\<exists>b b1. ig_bus (sm_ingest st) = Some b \<and> ig_bus s1 = Some b1 \<and> Publish e b = Some b1 \<and> bus_inv b1"
    if "ig_bus s1 \<noteq> None"
  proof -
    from that obtain b where b: "ig_bus (sm_ingest st) = Some b" using pc(3) by (cases "ig_bus (sm_ingest st)") auto
    moreover have "bus_inv b" using inv b by (simp add: stream_inv_def)
    ultimately show ?thesis using pc(2) [OF b] bus_step_inv [of b "OpPublish e"] by (metis bus_step.simps(1))
  qed
  show "ig_receive (sm_ingest ?st) = ig_receive (sm_ingest st)" using pc(1) by simp
  show "\<forall>b. ig_bus (sm_ingest ?st) = Some b \<longrightarrow> bus_inv b" using bus by auto
  have sub: "\<exists>b b1. ig_bus (sm_ingest st) = Some b \<and> ig_bus s1 = Some b1 \<and> Publish e b = Some b1 \<and> i < length b \<and>
      sub_member (b ! i) \<and> i < length b1 \<and> sub_member (b1 ! i)" if i: "sm_sub st = Some i" for i
  proof -
    from inv i obtain b where b: "ig_bus (sm_ingest st) = Some b" "bus_inv b" "i < length b" "sub_member (b ! i)"
      by (auto simp: stream_inv_def)
    from bus_step_inv [OF b(2), of "OpPublish e"] obtain b1 where b1: "Publish e b = Some b1" by auto
    show ?thesis using b b1 pc(2) [OF b(1)] bus_step_channel(1,2) [of "OpPublish e" b b1 i] by auto
  qed
  then show "\<forall>i. sm_sub ?st = Some i \<longrightarrow> (\<exists>b. ig_bus (sm_ingest ?st) = Some b \<and> i < length b \<and> sub_member (b ! i))"
    by fastforce
  fix a
  assume r: "sm_replayed st" and a: "on_its_way jl a st"
  from r inv obtain i where i: "sm_sub st = Some i" by (auto simp: stream_inv_def)
  from sub [OF i] obtain b b1 where b: "ig_bus (sm_ingest st) = Some b" "ig_bus s1 = Some b1" "Publish e b = Some b1"
    "i < length b" "sub_member (b ! i)" by auto
  have "set (sm_flight st) \<union> set (channel_of st) \<union> set (sm_dropped st)
      \<subseteq> set (sm_flight ?st) \<union> set (channel_of ?st) \<union> set (sm_dropped ?st)"
    using f i b publish_channel_room [OF b(3-5)] by (auto simp: channel_of_def)
  from a under_way_mono [OF _ this] show "on_its_way jl a ?st" by (auto simp: on_its_way_def)
qed simp_all

lemma inv_subscribes:
  assumes inv: "stream_inv jl cutoff st" and s: "sm_sub st = None" "ig_bus (sm_ingest st) = Some b" "Subscribe b = (i, b1)"
  shows "stream_inv jl cutoff (st\<lparr>sm_ingest := (sm_ingest st)\<lparr>ig_bus := Some b1\<rparr>, sm_sub := Some i\<rparr>)"
proof (rule inv_keeps [OF inv])
  have "bus_inv b" using inv s(2) by (simp add: stream_inv_def)
  from bus_step_inv [OF this, of OpSubscribe] s(3)
  show "\<forall>c. ig_bus (sm_ingest (st\<lparr>sm_ingest := (sm_ingest st)\<lparr>ig_bus := Some b1\<rparr>, sm_sub := Some i\<rparr>)) = Some c \<longrightarrow> bus_inv c"
    by auto
  have "\<not> sm_replayed st" using inv s(1) by (auto simp: stream_inv_def)
  then show "\<And>a. sm_replayed st \<Longrightarrow> on_its_way jl a st \<Longrightarrow>
      on_its_way jl a (st\<lparr>sm_ingest := (sm_ingest st)\<lparr>ig_bus := Some b1\<rparr>, sm_sub := Some i\<rparr>)" by simp
qed (use s(3) in \<open>auto simp: Subscribe_def nth_append\<close>)

lemma inv_replays:
  assumes inv: "stream_inv jl cutoff st" and s: "sm_sub st = Some i" "\<not> sm_replayed st"
    and r: "replayRecentPackets jl (Some cutoff) (ig_receive (sm_ingest st)) = Some fs"
  shows "stream_inv jl cutoff (st\<lparr>sm_frames := sm_frames st @ fs, sm_replayed := True\<rparr>)"
proof -
  have "shown jl a (sm_frames st @ fs)" if "a \<in> set (sm_arrived st)" "due jl cutoff a" for a
    using inv s(2) that by (auto simp: stream_inv_def tracked_def intro!: shown_more(2) due_replayed [OF _ _ r])
  then show ?thesis using inv s by (auto simp: stream_inv_def tracked_def on_its_way_def)
qed

lemma inv_delivers:
  assumes inv: "stream_inv jl cutoff st" and s: "sm_sub st = Some i" "sm_replayed st"
    and b: "ig_bus (sm_ingest st) = Some b" "receive i b = (Some e, b1)"
  shows "stream_inv jl cutoff (st\<lparr>sm_ingest := (sm_ingest st)\<lparr>ig_bus := Some b1\<rparr>, sm_frames := sm_frames st @ [LiveFrame e]\<rparr>)"
    (is "stream_inv jl cutoff ?st")
proof (rule inv_keeps [OF inv])
  have bi: "bus_inv b" "i < length b" "sub_member (b ! i)" using inv s b(1) by (auto simp: stream_inv_def)
  have c: "i < length b1" "sub_member (b1 ! i)" "set (sub_buf (b ! i)) = insert e (set (sub_buf (b1 ! i)))"
    using b(2) bi by (auto simp: receive_def split: list.splits)
  from bus_step_inv [OF bi(1), of "OpReceive i"] b(2)
  show "\<forall>c. ig_bus (sm_ingest ?st) = Some c \<longrightarrow> bus_inv c" by auto
  show "\<forall>j. sm_sub ?st = Some j \<longrightarrow> (\<exists>c. ig_bus (sm_ingest ?st) = Some c \<and> j < length c \<and> sub_member (c ! j))"
    using s(1) c by simp
  fix a
  assume "on_its_way jl a st"
  moreover have "set (channel_of st) = insert e (set (channel_of ?st))" using s(1) b(1) c(3) by (simp add: channel_of_def)
  ultimately show "on_its_way jl a ?st" by (auto simp: on_its_way_def shown_def under_way_def)
qed simp_all

lemma inv_others:
  assumes inv: "stream_inv jl cutoff st" and b: "ig_bus (sm_ingest st) = Some b" "bus_step x b = Some b1"
    and o: "\<And>i. sm_sub st = Some i \<Longrightarrow> x \<noteq> OpDone i \<and> x \<noteq> OpReceive i"
  shows "stream_inv jl cutoff (st\<lparr>sm_ingest := (sm_ingest st)\<lparr>ig_bus := Some b1\<rparr>\<rparr>)" (is "stream_inv jl cutoff ?st")
proof (rule inv_keeps [OF inv])
  have "bus_inv b" using inv b(1) by (simp add: stream_inv_def)
  from bus_step_inv [OF this, of x] b(2) show "\<forall>c. ig_bus (sm_ingest ?st) = Some c \<longrightarrow> bus_inv c" by auto
  have ch: "i < length b1 \<and> sub_member (b1 ! i) \<and> set (sub_buf (b ! i)) \<subseteq> set (sub_buf (b1 ! i))"
    if i: "sm_sub st = Some i" for i
    using inv i b(1) bus_step_channel [OF b(2), of i] o [OF i] by (auto simp: stream_inv_def)
  then show "\<forall>j. sm_sub ?st = Some j \<longrightarrow> (\<exists>c. ig_bus (sm_ingest ?st) = Some c \<and> j < length c \<and> sub_member (c ! j))"
    by simp
  fix a
  assume a: "on_its_way jl a st"
  have "set (channel_of st) \<subseteq> set (channel_of ?st)"
    using b(1) ch by (cases "sm_sub st") (auto simp: channel_of_def)
  with a under_way_mono show "on_its_way jl a ?st" by (auto simp: on_its_way_def under_way_def)
qed simp_all

lemma stream_step_inv: "stream_step jl flt cutoff st st1 \<Longrightarrow> stream_inv jl cutoff st \<Longrightarrow> stream_inv jl cutoff st1"
  by (induction rule: stream_step.induct)
    (blast intro: inv_arrives inv_announces inv_subscribes inv_replays inv_delivers inv_others)+

lemma stream_run_inv: "stream_run jl flt cutoff st0 st \<Longrightarrow> stream_inv jl cutoff st0 \<Longrightarrow> stream_inv jl cutoff st"
  by (induction rule: stream_run.induct) (auto intro: stream_step_inv)

section \<open>Properties\<close>

text \<open>C2: The stream misses nothing: it subscribes before it reads the receive log, and a packet is logged before it is
  published, so in every interleaving of the packets being processed, other users of the bus, and the stream, each
  packet the log took a second or more after the cutoff is in the stream, from the replay or live, once its event is
  published and taken from the channel, provided the stream's channel never overflowed. The proof is an invariant of
  the step relation.\<close>

theorem stream_misses_nothing:
  assumes "stream_run jl flt cutoff (stream_start s) st" "\<forall>b. ig_bus s = Some b \<longrightarrow> bus_inv b"
    and "sm_replayed st" "sm_flight st = []" "channel_of st = []" "sm_dropped st = []"
    and "a \<in> set (sm_arrived st)" "due jl cutoff a"
  shows "shown jl a (sm_frames st)"
proof -
  have "stream_inv jl cutoff (stream_start s)" using assms(2) by (simp add: stream_inv_def stream_start_def)
  from stream_run_inv [OF assms(1) this] assms(3-8) show ?thesis
    by (auto simp: stream_inv_def tracked_def on_its_way_def under_way_def)
qed

definition logging_ingest :: "int ingest" where
  "logging_ingest = example_ingest\<lparr>ig_receive := Some (\<lparr>rl_Enabled = True, rl_db = True\<rparr>, [])\<rparr>"

definition example_arrival :: arrival where
  "example_arrival = \<lparr>ar_source = \<lparr>so_Transport = ''udp'', so_Endpoint = ''n''\<rparr>, ar_data = ''{}'', ar_at = 5 * second\<rparr>"

theorem stream_misses_nothing_witness:
  "\<exists>st. stream_run example_lib id 0 (stream_start logging_ingest) st \<and> sm_arrived st = [example_arrival] \<and>
     length (sm_frames st) = 1 \<and> shown example_lib example_arrival (sm_frames st)"
proof -
  let ?src = "\<lparr>so_Transport = ''udp'', so_Endpoint = ''n''\<rparr>"
  let ?step = "stream_step example_lib id 0"
  let ?e = "\<lparr>ev_Type = ''packet.received'', ev_Data = ReceivedData ?src (en_Packet example_envelope) (5 * second)\<rparr>"
  let ?sub = "\<lparr>sub_buf = [], sub_closed = False, sub_member = True, sub_waiting = True\<rparr>"
  let ?got = "?sub\<lparr>sub_buf := [?e]\<rparr>"
  obtain s1 where s1: "process_begin example_lib id no_faults (5 * second) ?src ''{}'' (logging_ingest\<lparr>ig_bus := Some [?sub]\<rparr>) = (s1, ?e)"
    by (auto simp: process_begin_def example_parsed)
  have b1: "ig_bus s1 = Some [?sub]" using begin_frame(1) [OF s1] by simp
  let ?st0 = "stream_start logging_ingest"
  let ?st1 = "?st0\<lparr>sm_ingest := logging_ingest\<lparr>ig_bus := Some [?sub]\<rparr>, sm_sub := Some 0\<rparr>"
  let ?st2 = "?st1\<lparr>sm_replayed := True\<rparr>"
  let ?st3 = "?st2\<lparr>sm_ingest := s1, sm_flight := [?e], sm_arrived := [example_arrival]\<rparr>"
  let ?st4 = "?st3\<lparr>sm_ingest := s1\<lparr>ig_bus := Some [?got]\<rparr>, sm_flight := []\<rparr>"
  let ?st5 = "?st4\<lparr>sm_ingest := s1\<lparr>ig_bus := Some [?sub]\<rparr>, sm_frames := [LiveFrame ?e]\<rparr>"
  have 1: "?step ?st0 ?st1"
    using subscribes [of ?st0 NewBus 0 "[?sub]" example_lib id 0]
    by (simp add: stream_start_def logging_ingest_def example_ingest_def Subscribe_def NewBus_def)
  have 2: "?step ?st1 ?st2"
    using replays [of ?st1 0 example_lib 0 "[]" id]
    by (simp add: stream_start_def logging_ingest_def replayRecentPackets_def ReadReceiveSince_def map_filter_def)
  have 3: "?step ?st2 ?st3"
    using arrives [of example_lib id no_faults "5 * second" ?src "''{}''" ?st2 s1 ?e 0] s1
    by (simp add: stream_start_def logging_ingest_def logged_arrival_def no_faults_def example_arrival_def)
  have 4: "?step ?st3 ?st4"
    using announces [of ?st3 "[]" ?e "[]" "s1\<lparr>ig_bus := Some [?got]\<rparr>" example_lib id 0]
    by (simp add: stream_start_def publish_def b1 Publish_def try_send_def bus_cap_def channel_of_def)
  have 5: "?step ?st4 ?st5"
    using delivers [of ?st4 0 "[?got]" ?e "[?sub]" example_lib id 0]
    by (simp add: stream_start_def receive_def)
  have run: "stream_run example_lib id 0 ?st0 ?st5"
    using run_next [OF run_next [OF run_next [OF run_next [OF run_next [OF run_start 1] 2] 3] 4] 5] .
  have "due example_lib 0 example_arrival"
    by (simp add: due_def example_arrival_def live_event_def example_parsed time_ok_def last_day_def)
  with stream_misses_nothing [OF run, of example_arrival] have "shown example_lib example_arrival (sm_frames ?st5)"
    by (simp add: stream_start_def logging_ingest_def example_ingest_def channel_of_def bus_inv_def NewBus_def)
  with run show ?thesis by (intro exI [of _ ?st5]) (simp add: stream_start_def)
qed

end
