(* ===== verification/Startup.thy ===== *)
theory Startup
  imports SerialBridge ConfigFile UdpBridge
begin

text \<open>
  cmd/gomeshcomd/main.go: the part of run that chooses and configures the node transport from the loaded
  configuration, and how run ends. Opening the database, sockets, signals and log lines are left out.
\<close>

section \<open>Choosing the transport\<close>

datatype node_link = UdpLink udp_bridge | SerialLink serial_bridge_config link | NetConsoleLink bridge_config link

definition serial_options :: "serial_cfg \<Rightarrow> serial_bridge_config" where
  "serial_options s =
     \<lparr> sb_Port = \<lparr> pt_Device = sr_Device s, pt_Baud = sr_Baud s, pt_DataBits = sr_DataBits s, pt_Parity = sr_Parity s,
                    pt_StopBits = sr_StopBits s, pt_DTR = sr_DTR s, pt_RTS = sr_RTS s, pt_ReadTimeout = sr_ReadTimeout s \<rparr>,
       sb_ReconnectInitial = sr_ReconnectInitial s, sb_ReconnectMax = sr_ReconnectMax s,
       sb_StableResetAfter = sr_StableResetAfter s, sb_MaxRecordBytes = sr_MaxRecordBytes s \<rparr>"

definition netconsole_options :: "netconsole_cfg \<Rightarrow> bridge_config" where
  "netconsole_options n =
     \<lparr> bc_Address = nc_Address n, bc_Password = nc_Password n, bc_ConnectTimeout = nc_ConnectTimeout n,
       bc_AuthTimeout = nc_AuthTimeout n, bc_WriteTimeout = nc_WriteTimeout n,
       bc_ReconnectInitial = nc_ReconnectInitial n, bc_ReconnectMax = nc_ReconnectMax n,
       bc_StableResetAfter = nc_StableResetAfter n, bc_MaxAuthLineBytes = nc_MaxAuthLineBytes n,
       bc_MaxRecordBytes = nc_MaxRecordBytes n \<rparr>"

text \<open>The forward targets of the configuration, each with an empty queue; opening their sockets can fail.\<close>

definition start_forwarder :: "net_lib \<Rightarrow> (string list \<Rightarrow> string option) \<Rightarrow> config \<Rightarrow> string + string list list option" where
  "start_forwarder nl dial cfg =
     (if fw_Targets (cf_Forward cfg) = [] then Inr None
      else (case ParseForwardTargets nl (fw_Targets (cf_Forward cfg)) of
              Inl e \<Rightarrow> Inl (''udp forward targets: '' @ e)
            | Inr targets \<Rightarrow> (case dial targets of
                Some e \<Rightarrow> Inl (''udp forwarder: '' @ e)
              | None \<Rightarrow> Inr (Some (map (\<lambda>_. []) targets)))))"

definition start_transport :: "config \<Rightarrow> string list list option \<Rightarrow> string + node_link" where
  "start_transport cfg fwd =
     (if cf_TransportMode cfg = ''udp'' then
        Inr (UdpLink (NewBridgeWithProcessor (cf_UDPListenAddr cfg) (cf_NodeAddr cfg) (cf_DemoMode cfg) fwd))
      else if cf_TransportMode cfg = ''serial'' then
        (let c = serial_options (cf_Serial cfg) in
         case serial_NewBridge c of Inl e \<Rightarrow> Inl (''configure serial transport: '' @ e) | Inr l \<Rightarrow> Inr (SerialLink c l))
      else if cf_TransportMode cfg = ''netconsole'' then
        (let c = netconsole_options (cf_NetConsole cfg) in
         case new_netconsole c of Inl e \<Rightarrow> Inl (''configure netconsole transport: '' @ e) | Inr l \<Rightarrow> Inr (NetConsoleLink c l))
      else Inl (''unsupported transport mode '' @ CHR 0x22 # cf_TransportMode cfg @ [CHR 0x22]))"

section \<open>How run ends\<close>

datatype server_error = ServerClosed | ServerFailed string

text \<open>What happens first, and what the server and the transport then report within ten seconds each: None is a
  timeout, Some None a return without an error.\<close>

datatype first_event = ServerReturns "server_error option" | TransportReturns "string option" bool | Cancelled

definition run_end ::
    "string \<Rightarrow> bool \<Rightarrow> first_event \<Rightarrow> server_error option option \<Rightarrow> string option option \<Rightarrow> string + bool" where
  "run_end mode restartRequested first server_late transport_late =
     (let server = (case first of ServerReturns e \<Rightarrow> Some e | _ \<Rightarrow> server_late);
          transport = (case first of TransportReturns e _ \<Rightarrow> Some e | _ \<Rightarrow> transport_late);
          unexpected = (case first of TransportReturns _ cancelled \<Rightarrow> \<not> cancelled | _ \<Rightarrow> False) in
      case server of None \<Rightarrow> Inl ''HTTP server did not stop within timeout''
      | Some serverErr \<Rightarrow>
        (case transport of None \<Rightarrow> Inl ''node transport did not stop within timeout''
         | Some transportErr \<Rightarrow>
           (case serverErr of Some (ServerFailed e) \<Rightarrow> Inl (''serve http: '' @ e)
            | _ \<Rightarrow>
              if unexpected then
                (case transportErr of None \<Rightarrow> Inl (mode @ '' transport stopped unexpectedly'')
                 | Some e \<Rightarrow> Inl (mode @ '' transport stopped: '' @ e))
              else Inr restartRequested)))"

section \<open>Facts\<close>

lemma first_error_None: "first_error cs = None \<longleftrightarrow> list_all (\<lambda>c. \<not> fst c) cs"
  by (induction cs rule: first_error.induct) auto

text \<open>A process asks for a restart only when it was requested and nothing failed.\<close>

lemma run_end_restarts:
  "run_end mode r first server transport = Inr True \<Longrightarrow> r \<and> (\<forall>e. first \<noteq> TransportReturns e False) \<and> (\<forall>e. first \<noteq> ServerReturns (Some (ServerFailed e)))"
  by (auto simp: run_end_def Let_def split: option.splits server_error.splits first_event.splits if_splits)

lemma serial_config_starts:
  assumes "validateSerialTransport s = None"
  shows "serial_NewBridge (serial_options s) = Inr (new_link ''serial'' (sr_Device s))"
    "\<exists>m. libraryMode (sb_Port (serial_options s)) = Inr m \<and> 0 < pm_BaudRate m \<and> 5 \<le> pm_DataBits m \<and> pm_DataBits m \<le> 8"
    "sr_Device s \<noteq> [] \<and> 0 < sr_ReconnectInitial s \<and> sr_ReconnectInitial s \<le> sr_ReconnectMax s \<and> 0 < sr_MaxRecordBytes s"
  using assms unfolding validateSerialTransport_def first_error_None
  by (auto simp: serial_NewBridge_def serial_options_def libraryMode_def
      libraryParity_def libraryStopBits_def)

lemma netconsole_config_starts:
  assumes "validateNetConsoleTransport n = None"
  shows "new_netconsole (netconsole_options n) = Inr (new_link ''netconsole'' (nc_Address n))"
    "0 < nc_ReconnectInitial n \<and> nc_ReconnectInitial n \<le> nc_ReconnectMax n \<and> 0 < nc_MaxRecordBytes n \<and> length (nc_Password n) \<le> 14"
proof -
  have c: "first_error (netconsole_checks n) = None" "\<exists>hp. SplitHostPort (nc_Address n) = Inr hp"
    using assms by (auto simp: validateNetConsoleTransport_def split: sum.splits prod.splits if_splits option.splits)
  moreover have "SplitHostPort [] \<noteq> Inr hp" for hp by (simp add: SplitHostPort_def last_index_of_def)
  ultimately have "nc_Address n \<noteq> []" by auto
  with c(1) show "new_netconsole (netconsole_options n) = Inr (new_link ''netconsole'' (nc_Address n))"
    "0 < nc_ReconnectInitial n \<and> nc_ReconnectInitial n \<le> nc_ReconnectMax n \<and> 0 < nc_MaxRecordBytes n \<and> length (nc_Password n) \<le> 14"
    unfolding first_error_None
    by (auto simp: netconsole_checks_def new_netconsole_def validateBridgeConfig_def netconsole_options_def)
qed

text \<open>What each transport relies on.\<close>

definition link_ready :: "config \<Rightarrow> node_link \<Rightarrow> bool" where
  "link_ready cfg l = (case l of
     UdpLink b \<Rightarrow> cf_TransportMode cfg = ''udp'' \<and> ub_listenAddr b = cf_UDPListenAddr cfg \<and> ub_learned b = None
   | SerialLink c s \<Rightarrow> cf_TransportMode cfg = ''serial'' \<and> s = new_link ''serial'' (pt_Device (sb_Port c)) \<and>
       pt_Device (sb_Port c) \<noteq> [] \<and> (\<exists>m. libraryMode (sb_Port c) = Inr m) \<and>
       0 < sb_ReconnectInitial c \<and> sb_ReconnectInitial c \<le> sb_ReconnectMax c \<and> 0 < sb_MaxRecordBytes c
   | NetConsoleLink c n \<Rightarrow> cf_TransportMode cfg = ''netconsole'' \<and> n = new_link ''netconsole'' (bc_Address c) \<and>
       0 < bc_ReconnectInitial c \<and> bc_ReconnectInitial c \<le> bc_ReconnectMax c \<and> 0 < bc_MaxRecordBytes c \<and>
       length (bc_Password c) \<le> 14)"

lemma validated_transport:
  assumes "validateTransport nl cfg = None"
  shows "\<exists>l. start_transport cfg fwd = Inr l \<and> link_ready cfg l"
proof (cases "cf_TransportMode cfg = ''serial''")
  case True
  with assms have v: "validateSerialTransport (cf_Serial cfg) = None" by (simp add: validateTransport_def)
  from serial_config_starts(1) [OF v] have "start_transport cfg fwd =
      Inr (SerialLink (serial_options (cf_Serial cfg)) (new_link ''serial'' (sr_Device (cf_Serial cfg))))"
    by (simp add: start_transport_def True)
  moreover have "link_ready cfg (SerialLink (serial_options (cf_Serial cfg)) (new_link ''serial'' (sr_Device (cf_Serial cfg))))"
    using serial_config_starts(2,3) [OF v] by (auto simp: link_ready_def True serial_options_def)
  ultimately show ?thesis by blast
next
  case not_serial: False
  show ?thesis
  proof (cases "cf_TransportMode cfg = ''netconsole''")
    case True
    with assms have v: "validateNetConsoleTransport (cf_NetConsole cfg) = None" by (simp add: validateTransport_def)
    from netconsole_config_starts(1) [OF v] have "start_transport cfg fwd =
        Inr (NetConsoleLink (netconsole_options (cf_NetConsole cfg)) (new_link ''netconsole'' (nc_Address (cf_NetConsole cfg))))"
      by (simp add: start_transport_def True)
    with netconsole_config_starts(2) [OF v] show ?thesis
      by (simp add: link_ready_def True netconsole_options_def)
  next
    case False
    with not_serial assms have "cf_TransportMode cfg = ''udp''" by (auto simp: validateTransport_def split: if_splits)
    then show ?thesis by (simp add: start_transport_def link_ready_def NewBridgeWithProcessor_def)
  qed
qed

lemma loaded_valid:
  "Load nl read parsed environ path faults f = (Inr cfg, f1) \<Longrightarrow> normalize_config cfg = cfg \<and> Validate nl cfg = None"
  by (auto simp: Load_def Let_def split: sum.splits option.splits)

lemma loaded_transport:
  "Load nl read parsed environ path faults f = (Inr cfg, f1) \<Longrightarrow> validateTransport nl cfg = None"
  by (drule loaded_valid) (auto simp: Validate_def Let_def split: option.splits sum.splits if_splits)

lemma loaded_forwarder:
  assumes "Load nl read parsed environ path faults f = (Inr cfg, f1)"
  shows "\<exists>fwd. start_forwarder nl (\<lambda>_. None) cfg = Inr fwd"
proof -
  have "fw_Targets (cf_Forward cfg) \<noteq> [] \<Longrightarrow> \<exists>ts. ParseForwardTargets nl (fw_Targets (cf_Forward cfg)) = Inr ts"
    using loaded_valid [OF assms] by (auto simp: Validate_def Let_def split: option.splits sum.splits if_splits)
  then show ?thesis
    by (cases "fw_Targets (cf_Forward cfg) = []") (auto simp: start_forwarder_def)
qed

section \<open>Properties\<close>

text \<open>C20: A configuration that Load accepts starts: whatever the file, the environment and the arguments said, the
  forward targets parse again, the transport of the configured mode is created without an error, and what it relies
  on holds (a parity and stop bits the serial library has, delays in order, positive record limits, a password that
  fits the protocol). The checks of config.go are as strong as those of the bridges.\<close>

theorem loaded_config_starts:
  assumes "Load nl read parsed environ path faults f = (Inr cfg, f1)"
  shows "\<exists>fwd l. start_forwarder nl (\<lambda>_. None) cfg = Inr fwd \<and> start_transport cfg fwd = Inr l \<and> link_ready cfg l"
proof -
  from loaded_forwarder [OF assms] obtain fwd where "start_forwarder nl (\<lambda>_. None) cfg = Inr fwd" by blast
  with validated_transport [OF loaded_transport [OF assms], of fwd] show ?thesis by blast
qed

theorem loaded_config_starts_witness:
  "\<exists>cfg fwd l. fst (Load example_net (example_read builtInDefaultConfig) (Inr builtInDefaultConfig) (\<lambda>v. False) ''cfg''
       (None, None, None) (snd (WriteToml (None, None, None) builtInDefaultConfig Missing))) = Inr cfg \<and>
     cf_TransportMode cfg = ''udp'' \<and> start_forwarder example_net (\<lambda>_. None) cfg = Inr fwd \<and>
     start_transport cfg fwd = Inr l \<and> link_ready cfg l"
proof -
  have "restored builtInDefaultConfig builtInDefaultConfig = normalize_config builtInDefaultConfig"
    by (simp add: restored_def validate_auth [OF example_valid(1)] builtInDefaultConfig_def)
  moreover have "Validate example_net (restored builtInDefaultConfig builtInDefaultConfig) = None"
  proof -
    have "cf_DataDir builtInDefaultConfig \<noteq> []" "au_Username (cf_Auth builtInDefaultConfig) = []"
      by (simp_all add: builtInDefaultConfig_def)
    with validate_restored [OF example_valid(1) this(1)] show ?thesis by simp
  qed
  ultimately have l: "Load example_net (example_read builtInDefaultConfig) (Inr builtInDefaultConfig) (\<lambda>v. False) ''cfg''
       (None, None, None) (snd (WriteToml (None, None, None) builtInDefaultConfig Missing)) =
     (Inr (normalize_config builtInDefaultConfig), Contents (buildTomlContent builtInDefaultConfig))"
    using load_written [OF example_exact example_storable(1)] by (simp add: WriteToml_def writeTomlAtomically_def)
  have "cf_TransportMode (normalize_config builtInDefaultConfig) = ''udp''" by code_simp
  with loaded_config_starts [OF l] l show ?thesis by fastforce
qed

end
