(* ===== verification/Server.thy ===== *)
theory Server
  imports Sessions Compression Stats DmStats Links
begin

text \<open>
  The frame of internal/httpapi/server.go: the routes and what guards them, the headers against caching, the
  middleware around the handlers, and the handlers that only read. net/http matches a request to the most
  specific pattern; its redirects of unclean paths are left out, so a path is given as its segments.
\<close>

section \<open>Routes\<close>

datatype route =
    Health | SessionStatus | CreateSession | DeleteSession | ListPositions | CreateMessage | StreamEvents
  | GetChannelShow | UpdateChannelShow | GetMyCall | UpdateMyCall | GetConfig | UpdateConfig | RestartRoute
  | ShutdownRoute | ListConversations | GetConversation | DeleteConversation | MarkRead_route | ListStats
  | ListDMStats | WebClient

datatype segment = Lit string | Wild

text \<open>The patterns with a verb, the more specific one first where two overlap. The flag is requireAuth.\<close>

definition routes :: "(string \<times> segment list \<times> route \<times> bool) list" where
  "routes =
     [(''GET'', [Lit ''api'', Lit ''health''], Health, False),
      (''GET'', [Lit ''api'', Lit ''session''], SessionStatus, False),
      (''POST'', [Lit ''api'', Lit ''session''], CreateSession, False),
      (''DELETE'', [Lit ''api'', Lit ''session''], DeleteSession, False),
      (''GET'', [Lit ''api'', Lit ''positions''], ListPositions, True),
      (''POST'', [Lit ''api'', Lit ''messages''], CreateMessage, True),
      (''GET'', [Lit ''api'', Lit ''events''], StreamEvents, True),
      (''GET'', [Lit ''api'', Lit ''channel-show''], GetChannelShow, True),
      (''PUT'', [Lit ''api'', Lit ''channel-show''], UpdateChannelShow, True),
      (''GET'', [Lit ''api'', Lit ''adm'', Lit ''configs'', Lit ''my-call''], GetMyCall, True),
      (''PUT'', [Lit ''api'', Lit ''adm'', Lit ''configs'', Lit ''my-call''], UpdateMyCall, True),
      (''GET'', [Lit ''api'', Lit ''config''], GetConfig, True),
      (''PUT'', [Lit ''api'', Lit ''config''], UpdateConfig, True),
      (''POST'', [Lit ''api'', Lit ''restart''], RestartRoute, True),
      (''POST'', [Lit ''api'', Lit ''shutdown''], ShutdownRoute, True),
      (''GET'', [Lit ''api'', Lit ''chat'', Lit ''list''], ListConversations, True),
      (''GET'', [Lit ''api'', Lit ''chat'', Wild], GetConversation, True),
      (''DELETE'', [Lit ''api'', Lit ''chat'', Wild], DeleteConversation, True),
      (''POST'', [Lit ''api'', Lit ''chat'', Wild, Lit ''read''], MarkRead_route, True),
      (''GET'', [Lit ''api'', Lit ''stats''], ListStats, True),
      (''GET'', [Lit ''api'', Lit ''stats'', Lit ''dm''], ListDMStats, True)]"

fun match_segments :: "segment list \<Rightarrow> string list \<Rightarrow> bool" where
  "match_segments [] [] = True"
| "match_segments (Lit a # ps) (s # ss) = (a = s \<and> match_segments ps ss)"
| "match_segments (Wild # ps) (s # ss) = match_segments ps ss"
| "match_segments _ _ = False"

text \<open>A pattern for GET also takes HEAD. The catch-all pattern of the web client takes every other request.\<close>

definition match_method :: "string \<Rightarrow> string \<Rightarrow> bool" where
  "match_method pattern verb \<longleftrightarrow> verb = pattern \<or> (pattern = ''GET'' \<and> verb = ''HEAD'')"

definition dispatch :: "string \<Rightarrow> string list \<Rightarrow> route \<times> bool" where
  "dispatch verb path =
     (case find (\<lambda>(m, ps, _). match_method m verb \<and> match_segments ps path) routes of
        Some (_, _, r, guarded) \<Rightarrow> (r, guarded)
      | None \<Rightarrow> (WebClient, False))"

text \<open>The outcome of the mux: the handler that runs, or None for the reply 401. built is the configuration when
  Handler was called.\<close>

definition serve_route ::
    "(string \<Rightarrow> string) \<Rightarrow> auth_cfg \<Rightarrow> (string \<times> string) list \<Rightarrow> int \<Rightarrow> bool \<Rightarrow> string \<Rightarrow> string list \<Rightarrow> auth_server
     \<Rightarrow> route option \<times> auth_server" where
  "serve_route hash built cookies now ok verb path s =
     (case dispatch verb path of
        (r, False) \<Rightarrow> (Some r, s)
      | (r, True) \<Rightarrow> (case requireAuth hash built cookies now ok s of
           (True, s1) \<Rightarrow> (Some r, s1)
         | (False, s1) \<Rightarrow> (None, s1)))"

section \<open>Headers and middleware\<close>

definition setNoCacheHeaders :: "headers \<Rightarrow> headers" where
  "setNoCacheHeaders h = h(''Cache-Control'' := [''no-store, no-cache, must-revalidate, max-age=0''],
     ''Pragma'' := [''no-cache''], ''Expires'' := [''0''])"

definition setImmutableCacheHeaders :: "headers \<Rightarrow> headers" where
  "setImmutableCacheHeaders h = h(''Cache-Control'' := [''public, max-age=31536000, immutable''])"

definition setIndexNoCacheHeaders :: "headers \<Rightarrow> headers" where
  "setIndexNoCacheHeaders h = h(''Cache-Control'' := [''no-cache, must-revalidate''], ''Pragma'' := [''no-cache''], ''Expires'' := [''0''])"

definition setCacheHeaders :: "string \<Rightarrow> headers \<Rightarrow> headers" where
  "setCacheHeaders path h =
     (if prefix ''/api/'' path then setNoCacheHeaders h
      else if prefix ''/_app/immutable/'' path then setImmutableCacheHeaders h
      else if path \<in> {''/'', ''/index.html'', ''/service-worker.js'', ''/manifest.webmanifest''} then setIndexNoCacheHeaders h
      else h)"

text \<open>spaHandler: the file served and the headers, exists saying whether the path names a file.\<close>

definition spaHandler :: "(string \<Rightarrow> bool) \<Rightarrow> string \<Rightarrow> headers \<Rightarrow> string \<times> headers" where
  "spaHandler exists url_path h =
     (let path = trim_prefix ''/'' url_path; path = (if path = [] then ''index.html'' else path) in
      if exists path then (url_path, h) else (''/'', setIndexNoCacheHeaders h))"

text \<open>The writer of one request: the outer layers set the headers and choose compression, xs is what the handler does.\<close>

definition serve_request ::
    "'g gzip_lib \<Rightarrow> (string \<Rightarrow> quality option) \<Rightarrow> compression_cfg \<Rightarrow> bool \<Rightarrow> string \<Rightarrow> string \<Rightarrow> string \<Rightarrow> handler_op list
     \<Rightarrow> down_call list option" where
  "serve_request gl parseFloat cc broken path byte_range accept xs =
     (if \<not> cm_Enabled cc then None
      else (case compressionMiddleware parseFloat (cm_MinimumSize cc) path byte_range accept (\<lambda>_. []) of
              (_, None) \<Rightarrow> None
            | (h, Some minimum) \<Rightarrow> Some (w_trace (serve_compressed gl broken minimum (setCacheHeaders path h) xs))))"

text \<open>callerIP: get reads a request header.\<close>

definition callerIP :: "(string \<Rightarrow> string) \<Rightarrow> string \<Rightarrow> string" where
  "callerIP get remoteAddr =
     (case find (\<lambda>v. v \<noteq> []) (map (\<lambda>k. trim_space (get k)) [''CF-Connecting-IP'', ''X-Forwarded-For'', ''X-Real-IP'']) of
        Some v \<Rightarrow> v
      | None \<Rightarrow> (case SplitHostPort remoteAddr of Inr (host, _) \<Rightarrow> host | Inl _ \<Rightarrow> remoteAddr))"

section \<open>Handlers that only read\<close>

record health_reply =
  hr_status :: string
  hr_version :: string
  hr_callsign :: string
  hr_started_at :: string
  hr_transport :: "link_status option"

definition health :: "string \<Rightarrow> string \<Rightarrow> gotime \<Rightarrow> link_status option \<Rightarrow> health_reply" where
  "health version callsign startedAt transport =
     \<lparr>hr_status = (case transport of None \<Rightarrow> ''ok'' | Some t \<Rightarrow> if ls_State t = Connected then ''ok'' else ''degraded''),
      hr_version = version, hr_callsign = callsign, hr_started_at = rfc3339nano startedAt, hr_transport = transport\<rparr>"

definition defaultStatsHours :: int where "defaultStatsHours = 24"
definition maxStatsHours :: int where "maxStatsHours = 720"

definition stats_hours :: "string \<Rightarrow> int option" where
  "stats_hours h =
     (if h = [] then Some defaultStatsHours
      else (case atoi h of None \<Rightarrow> None
            | Some parsed \<Rightarrow> if parsed \<le> 0 then None
                else Some (if maxStatsHours < parsed then maxStatsHours else parsed)))"

datatype stats_reply = NoStats | BadHours | StatsRange gotime gotime int "bucket list"

definition listStats :: "gotime \<Rightarrow> string \<Rightarrow> stats_store option \<Rightarrow> stats_reply" where
  "listStats now h store =
     (case store of None \<Rightarrow> NoStats
      | Some s \<Rightarrow> (case stats_hours h of None \<Rightarrow> BadHours
          | Some hours \<Rightarrow> (let from_t = now - wrap64 (hours * hour) in
              StatsRange from_t now hours (ReadRange from_t now s))))"

definition listDMStats :: "dm_store option \<Rightarrow> (string \<rightharpoonup> int \<times> int)" where
  "listDMStats store = (case store of None \<Rightarrow> Map.empty
     | Some s \<Rightarrow> (\<lambda>c. map_option (\<lambda>e. (de_Sent e, de_Ack e)) (Snapshot_dm s c)))"

section \<open>Facts\<close>

definition open_routes :: "route list" where
  "open_routes = [Health, SessionStatus, CreateSession, DeleteSession, WebClient]"

lemma routes_guarded: "list_all (\<lambda>(m, ps, r, g). g = (r \<notin> set open_routes)) routes"
  by (simp add: routes_def open_routes_def)

lemma dispatch_guarded: "snd (dispatch verb path) = (fst (dispatch verb path) \<notin> set open_routes)"
proof (cases "find (\<lambda>(m, ps, _). match_method m verb \<and> match_segments ps path) routes")
  case None
  then show ?thesis by (simp add: dispatch_def open_routes_def)
next
  case (Some x)
  then have "x \<in> set routes" by (metis find_Some_iff nth_mem)
  with routes_guarded Some show ?thesis by (auto simp: dispatch_def list_all_iff)
qed

text \<open>A request without a session: no cookie of the name, no store, or a token that is unknown or has expired.\<close>

definition no_session :: "(string \<Rightarrow> string) \<Rightarrow> (string \<times> string) list \<Rightarrow> int \<Rightarrow> auth_server \<Rightarrow> bool" where
  "no_session hash cookies now s \<longleftrightarrow>
     (case (map_of cookies (au_CookieName (as_auth s)), as_sessions s) of
        (Some token, Some store) \<Rightarrow> token = [] \<or>
          (case map_of (ss_sessions store) (hash token) of None \<Rightarrow> True | Some e \<Rightarrow> e \<le> now)
      | _ \<Rightarrow> True)"

lemma authenticated_iff:
  "authEnabled (as_auth s) \<Longrightarrow> fst (authenticated hash cookies now ok s) \<longleftrightarrow> \<not> no_session hash cookies now s"
  by (auto simp: authenticated_def no_session_def valid_session_def Let_def split: option.splits prod.splits)

lemma stats_hours_bounds: "stats_hours h = Some n \<Longrightarrow> 1 \<le> n \<and> n \<le> 720"
  by (auto simp: stats_hours_def defaultStatsHours_def maxStatsHours_def split: option.splits if_splits)

text \<open>The range asked for never leaves the last 30 days, and is never empty.\<close>

lemma stats_range_within:
  assumes "listStats now h (Some st) = StatsRange from_t to_t n bs"
  shows "to_t = now \<and> from_t < now \<and> now - 720 * hour \<le> from_t \<and> bs = ReadRange from_t now st"
proof -
  from assms have n: "stats_hours h = Some n" and f: "from_t = now - wrap64 (n * hour)" "to_t = now" "bs = ReadRange from_t now st"
    by (auto simp: listStats_def Let_def split: option.splits)
  from stats_hours_bounds [OF n] have "wrap64 (n * hour) = n * hour"
    by (intro wrap64_id) (simp_all add: min_int64_def max_int64_def)
  with f stats_hours_bounds [OF n] show ?thesis by simp
qed

section \<open>Properties\<close>


definition guarded_server :: auth_server where
  "guarded_server = new_auth_server \<lparr>au_Username = ''op'', au_Password = ''pw'', au_SessionTTL = hour, au_CookieName = ''sid''\<rparr> False 0 0 []"


end
