(* ===== verification/Migration.thy ===== *)
theory Migration
  imports Prelude "HOL-Library.AList"
begin

text \<open>
  Opening the database: internal/storage (schema.go and migrate of storage.go). The catalogue of SQLite is the
  columns of each table and the names of the indexes; column types and constraints are in the models of the tables
  that need them. Data stays in a table whose columns only grow.
\<close>

section \<open>Statements\<close>

datatype ddl = CreateTable string "string list" | CreateIndex string string "string list"

text \<open>The tables with their columns, the indexes with their table and the columns they mention.\<close>

definition schemaStatements :: "ddl list" where
  "schemaStatements =
    [CreateTable ''schema_migrations'' [''version'', ''applied_at''],
      CreateTable ''receive_log'' [''id'', ''received_at'', ''remote_addr'', ''bytes'', ''raw'', ''packet_type'',
         ''parse_error'', ''src'', ''src_origin'', ''src_type'', ''dst'', ''msg_id'', ''msg'', ''rssi'', ''snr'',
         ''lat'', ''lng'', ''alt'', ''hw_id'', ''batt'', ''temp1'', ''temp2'', ''hum'', ''qfe'', ''qnh'', ''gas'',
         ''co2''],
      CreateIndex ''receive_log_received_at_idx'' ''receive_log'' [''received_at''],
      CreateIndex ''receive_log_packet_type_time_idx'' ''receive_log'' [''packet_type'', ''received_at''],
      CreateIndex ''receive_log_src_origin_time_idx'' ''receive_log'' [''src_origin'', ''received_at''],
      CreateIndex ''receive_log_dst_time_idx'' ''receive_log'' [''dst'', ''received_at''],
      CreateTable ''telemetry_samples'' [''id'', ''received_at'', ''src'', ''src_origin'', ''src_type'',
         ''metric'', ''value''],
      CreateIndex ''telemetry_samples_src_time_idx'' ''telemetry_samples'' [''src_origin'', ''received_at''],
      CreateIndex ''telemetry_samples_metric_time_idx'' ''telemetry_samples'' [''metric'', ''received_at''],
      CreateIndex ''telemetry_samples_src_metric_time_idx'' ''telemetry_samples'' [''src_origin'', ''metric'',
         ''received_at''],
      CreateTable ''telemetry_direct_signal'' [''id'', ''received_at'', ''src'', ''src_origin'', ''src_type'',
         ''rssi'', ''snr''],
      CreateIndex ''telemetry_direct_signal_src_time_idx'' ''telemetry_direct_signal'' [''src_origin'',
         ''received_at''],
      CreateTable ''chats_dm'' [''id'', ''conversation_id'', ''msg_id'', ''sequence_id'', ''received_at'',
         ''src'', ''src_type'', ''via'', ''dst'', ''msg'', ''rssi'', ''snr'', ''direction'', ''delivery_status'',
         ''ack_status'', ''ack_received_at'', ''ack_src'', ''ack_src_type'', ''ack_rssi'', ''ack_snr'', ''ack_via''],
      CreateIndex ''chats_dm_conversation_time_idx'' ''chats_dm'' [''conversation_id'', ''received_at''],
      CreateIndex ''chats_dm_msg_id_idx'' ''chats_dm'' [''msg_id''],
      CreateIndex ''chats_dm_pending_ack_idx'' ''chats_dm'' [''sequence_id'', ''received_at'', ''direction'',
         ''ack_status''],
      CreateTable ''chats_public'' [''id'', ''conversation_id'', ''kind'', ''channel'', ''msg_id'',
         ''received_at'', ''src'', ''src_type'', ''via'', ''dst'', ''msg'', ''rssi'', ''snr''],
      CreateIndex ''chats_public_conversation_time_idx'' ''chats_public'' [''conversation_id'', ''received_at''],
      CreateIndex ''chats_public_channel_time_idx'' ''chats_public'' [''channel'', ''received_at''],
      CreateIndex ''chats_public_msg_id_idx'' ''chats_public'' [''msg_id''],
      CreateTable ''chat_reads'' [''conversation_id'', ''last_read''],
      CreateTable ''nodes'' [''node_id'', ''lat'', ''lng'', ''alt'', ''hw_id'', ''firstseen'', ''lastseen'',
         ''lastdirectseen'', ''rssi'', ''snr'', ''via''],
      CreateIndex ''nodes_lastseen_idx'' ''nodes'' [''lastseen''],
      CreateIndex ''nodes_hw_id_idx'' ''nodes'' [''hw_id''],
      CreateTable ''stats_hourly'' [''hour_unix'', ''dm'', ''dm_ack'', ''public'', ''telemetry'', ''position'',
         ''errors'', ''total''],
      CreateTable ''stats_channels'' [''hour_unix'', ''kind'', ''target'', ''count''],
      CreateIndex ''stats_channels_kind_hour_idx'' ''stats_channels'' [''kind'', ''hour_unix''],
      CreateIndex ''stats_channels_target_hour_idx'' ''stats_channels'' [''target'', ''hour_unix''],
      CreateTable ''stats_distance'' [''hour_unix'', ''bucket_start_km'', ''bucket_end_km'', ''count''],
      CreateIndex ''stats_distance_bucket_hour_idx'' ''stats_distance'' [''bucket_start_km'', ''hour_unix''],
      CreateTable ''dm_stats'' [''callsign'', ''sent'', ''ack''],
      CreateTable ''channel_show'' [''id'', ''mode''],
      CreateTable ''channel_show_channels'' [''channel'', ''last_message_at''],
      CreateIndex ''channel_show_channels_last_message_at_idx'' ''channel_show_channels'' [''last_message_at''],
      CreateTable ''station_identity'' [''id'', ''callsign''],
      CreateTable ''http_sessions'' [''token_hash'', ''expires_at''],
      CreateIndex ''http_sessions_expires_at_idx'' ''http_sessions'' [''expires_at'']]"

definition schemaVersion :: int where
  "schemaVersion = 3"

section \<open>Migrating\<close>

record catalog =
  ca_tables :: "(string \<times> string list) list"
  ca_indexes :: "string list"
  ca_versions :: "int list"

text \<open>None is an error of SQLite: an index on a table or a column that does not exist. IF NOT EXISTS makes a
  statement for an existing table or index do nothing, whatever its columns.\<close>

definition exec_ddl :: "ddl \<Rightarrow> catalog \<Rightarrow> catalog option" where
  "exec_ddl stmt c =
     (case stmt of
        CreateTable t cols \<Rightarrow>
          (case map_of (ca_tables c) t of
             Some _ \<Rightarrow> Some c | None \<Rightarrow> Some (c\<lparr>ca_tables := AList.update t cols (ca_tables c)\<rparr>))
      | CreateIndex i t cols \<Rightarrow>
          if i \<in> set (ca_indexes c) then Some c
          else (case map_of (ca_tables c) t of None \<Rightarrow> None
                | Some have \<Rightarrow> if set cols \<subseteq> set have then Some (c\<lparr>ca_indexes := i # ca_indexes c\<rparr>) else None))"

text \<open>The columns ensureChatColumns adds, in its order.\<close>

definition late_columns :: "string \<Rightarrow> string list" where
  "late_columns t =
     (''via'' # (if t = ''chats_dm'' then
        [''sequence_id'', ''ack_status'', ''ack_received_at'', ''ack_src'', ''ack_src_type'', ''ack_rssi'', ''ack_snr'', ''ack_via'']
      else []))"

definition ensureChatColumns :: "string \<Rightarrow> catalog \<Rightarrow> catalog option" where
  "ensureChatColumns t c =
     (case map_of (ca_tables c) t of None \<Rightarrow> None
      | Some have \<Rightarrow> Some (c\<lparr>ca_tables := AList.update t
          (fold (\<lambda>col cols. if col \<in> set have then cols else cols @ [col]) (late_columns t) have) (ca_tables c)\<rparr>))"

definition is_chat_table :: "string \<Rightarrow> bool" where
  "is_chat_table t \<longleftrightarrow> t = ''chats_dm'' \<or> t = ''chats_public''"

definition migrate_stmt :: "ddl \<Rightarrow> catalog \<Rightarrow> catalog option" where
  "migrate_stmt stmt c =
     (case exec_ddl stmt c of None \<Rightarrow> None
      | Some c1 \<Rightarrow> (case stmt of CreateTable t _ \<Rightarrow> if is_chat_table t then ensureChatColumns t c1 else Some c1
                     | CreateIndex _ _ _ \<Rightarrow> Some c1))"

fun migrate_stmts :: "ddl list \<Rightarrow> catalog \<Rightarrow> catalog option" where
  "migrate_stmts [] c = Some c"
| "migrate_stmts (stmt # ss) c = (case migrate_stmt stmt c of None \<Rightarrow> None | Some c1 \<Rightarrow> migrate_stmts ss c1)"

text \<open>One transaction: fails is any other error of the database, which rolls it back as well.\<close>

definition migrate :: "bool \<Rightarrow> catalog \<Rightarrow> catalog \<times> bool" where
  "migrate fails c =
     (if fails then (c, False)
      else (case migrate_stmts schemaStatements c of None \<Rightarrow> (c, False)
            | Some c1 \<Rightarrow>
                (if schemaVersion \<in> set (ca_versions c1) then c1 else c1\<lparr>ca_versions := schemaVersion # ca_versions c1\<rparr>, True)))"

section \<open>Facts\<close>

text \<open>A schema in order: each table is created once, before its indexes, and has the columns they mention and those
  that are added late.\<close>

definition added_late :: "string \<Rightarrow> string list" where
  "added_late t = (if is_chat_table t then late_columns t else [])"

fun ordered_schema :: "(string \<times> string list) list \<Rightarrow> ddl list \<Rightarrow> bool" where
  "ordered_schema made [] = True"
| "ordered_schema made (CreateTable t full # ss) =
     (map_of made t = None \<and> set (added_late t) \<subseteq> set full \<and> ordered_schema ((t, full) # made) ss)"
| "ordered_schema made (CreateIndex i t cols # ss) =
     ((case map_of made t of None \<Rightarrow> False | Some full \<Rightarrow> set cols \<subseteq> set full) \<and> ordered_schema made ss)"

fun made_by :: "(string \<times> string list) list \<Rightarrow> ddl list \<Rightarrow> (string \<times> string list) list" where
  "made_by made [] = made"
| "made_by made (CreateTable t full # ss) = made_by ((t, full) # made) ss"
| "made_by made (CreateIndex _ _ _ # ss) = made_by made ss"

fun indexes_of :: "ddl list \<Rightarrow> string list" where
  "indexes_of [] = []"
| "indexes_of (CreateIndex i _ _ # ss) = i # indexes_of ss"
| "indexes_of (_ # ss) = indexes_of ss"

lemma schema_ordered: "ordered_schema [] schemaStatements"
  by code_simp

definition complete :: "(string \<times> string list) list \<Rightarrow> catalog \<Rightarrow> bool" where
  "complete made c \<longleftrightarrow> (\<forall>t full. map_of made t = Some full \<longrightarrow>
     (\<exists>cols. map_of (ca_tables c) t = Some cols \<and> set full \<subseteq> set cols))"

text \<open>What a database of an earlier version must have: its tables lack at most the columns that are added late.\<close>

definition upgradable :: "ddl list \<Rightarrow> catalog \<Rightarrow> bool" where
  "upgradable ss c \<longleftrightarrow> (\<forall>t full cols. CreateTable t full \<in> set ss \<longrightarrow> map_of (ca_tables c) t = Some cols \<longrightarrow>
     set full - set (added_late t) \<subseteq> set cols)"

definition grows :: "catalog \<Rightarrow> catalog \<Rightarrow> bool" where
  "grows c c1 \<longleftrightarrow> set (ca_indexes c) \<subseteq> set (ca_indexes c1) \<and>
     (\<forall>t cols. map_of (ca_tables c) t = Some cols \<longrightarrow> (\<exists>more. map_of (ca_tables c1) t = Some (cols @ more)))"

lemma grows_refl [simp]: "grows c c"
  by (simp add: grows_def)

lemma grows_trans: "grows c c1 \<Longrightarrow> grows c1 c2 \<Longrightarrow> grows c c2"
proof -
  assume g: "grows c c1" "grows c1 c2"
  have "\<exists>more. map_of (ca_tables c2) t = Some (cols @ more)" if t: "map_of (ca_tables c) t = Some cols" for t cols
  proof -
    from g(1) t obtain m1 where "map_of (ca_tables c1) t = Some (cols @ m1)" unfolding grows_def by blast
    with g(2) obtain m2 where "map_of (ca_tables c2) t = Some ((cols @ m1) @ m2)" unfolding grows_def by blast
    then show ?thesis by auto
  qed
  with g show ?thesis by (auto simp: grows_def)
qed

lemma add_columns:
  "\<exists>more. fold (\<lambda>col cols. if col \<in> set have then cols else cols @ [col]) late cols = cols @ more \<and>
     set more = set late - set have"
proof (induction late arbitrary: cols)
  case (Cons x late)
  show ?case
  proof (cases "x \<in> set have")
    case True
    with Cons.IH [of cols] show ?thesis by auto
  next
    case False
    with Cons.IH [of "cols @ [x]"] obtain more where
      "fold (\<lambda>col cols. if col \<in> set have then cols else cols @ [col]) late (cols @ [x]) = (cols @ [x]) @ more"
      "set more = set late - set have" by blast
    with False show ?thesis by (intro exI [of _ "x # more"]) auto
  qed
qed simp

lemma create_table_step:
  assumes "set (added_late t) \<subseteq> set full"
    and "\<And>cols. map_of (ca_tables c) t = Some cols \<Longrightarrow> set full - set (added_late t) \<subseteq> set cols"
  shows "\<exists>c1 cols. migrate_stmt (CreateTable t full) c = Some c1 \<and> map_of (ca_tables c1) t = Some cols \<and> set full \<subseteq> set cols \<and>
    grows c c1 \<and> (\<forall>t1. t1 \<noteq> t \<longrightarrow> map_of (ca_tables c1) t1 = map_of (ca_tables c) t1)"
proof -
  obtain c0 cols where c0: "exec_ddl (CreateTable t full) c = Some c0" "map_of (ca_tables c0) t = Some cols"
    "set full - set (added_late t) \<subseteq> set cols" "grows c c0" "\<forall>t1. t1 \<noteq> t \<longrightarrow> map_of (ca_tables c0) t1 = map_of (ca_tables c) t1"
    using assms(2) by (cases "map_of (ca_tables c) t") (auto simp: exec_ddl_def grows_def update_conv')
  show ?thesis
  proof (cases "is_chat_table t")
    case True
    from add_columns [of cols "late_columns t" cols] obtain more where
      more: "fold (\<lambda>col cs. if col \<in> set cols then cs else cs @ [col]) (late_columns t) cols = cols @ more"
        "set more = set (late_columns t) - set cols" by blast
    let ?c1 = "c0\<lparr>ca_tables := AList.update t (cols @ more) (ca_tables c0)\<rparr>"
    have "migrate_stmt (CreateTable t full) c = Some ?c1"
      by (simp add: migrate_stmt_def c0(1,2) True ensureChatColumns_def more(1))
    moreover have "grows c0 ?c1" using c0(2) by (auto simp: grows_def update_conv')
    moreover have "set full \<subseteq> set (cols @ more)" using c0(3) more(2) by (auto simp: added_late_def True)
    ultimately show ?thesis using c0(4,5) grows_trans by (intro exI [of _ ?c1]) (auto simp: update_conv')
  next
    case False
    with c0 show ?thesis by (auto simp: migrate_stmt_def added_late_def)
  qed
qed

lemma migrate_stmt_versions: "migrate_stmt s c = Some c1 \<Longrightarrow> ca_versions c1 = ca_versions c"
  by (auto simp: migrate_stmt_def exec_ddl_def ensureChatColumns_def split: ddl.splits option.splits if_splits)

lemma ordered_tables_new: "ordered_schema made ss \<Longrightarrow> CreateTable t full \<in> set ss \<Longrightarrow> map_of made t = None"
  by (induction made ss rule: ordered_schema.induct) (auto split: if_splits)

lemma complete_grows:
  assumes "complete made c" "grows c c1"
  shows "complete made c1"
  using assms unfolding complete_def grows_def by (fastforce simp: subset_iff)

lemma migrate_stmts_complete:
  "ordered_schema made ss \<Longrightarrow> complete made c \<Longrightarrow> upgradable ss c \<Longrightarrow>
   \<exists>c1. migrate_stmts ss c = Some c1 \<and> complete (made_by made ss) c1 \<and> grows c c1 \<and>
     set (indexes_of ss) \<subseteq> set (ca_indexes c1) \<and> ca_versions c1 = ca_versions c"
proof (induction made ss arbitrary: c rule: ordered_schema.induct)
  case (1 made)
  then show ?case by simp
next
  case (2 made t full ss)
  have "\<exists>c1 cols. migrate_stmt (CreateTable t full) c = Some c1 \<and> map_of (ca_tables c1) t = Some cols \<and> set full \<subseteq> set cols \<and>
    grows c c1 \<and> (\<forall>t1. t1 \<noteq> t \<longrightarrow> map_of (ca_tables c1) t1 = map_of (ca_tables c) t1)"
    using 2(2,4) by (intro create_table_step) (auto simp: upgradable_def)
  then obtain c1 cols where c1: "migrate_stmt (CreateTable t full) c = Some c1" "map_of (ca_tables c1) t = Some cols"
    "set full \<subseteq> set cols" "grows c c1" "\<forall>t1. t1 \<noteq> t \<longrightarrow> map_of (ca_tables c1) t1 = map_of (ca_tables c) t1"
    by blast
  have "complete ((t, full) # made) c1"
    using complete_grows [OF 2(3) c1(4)] c1(2,3) by (auto simp: complete_def)
  moreover have "upgradable ss c1"
    unfolding upgradable_def
  proof (intro allI impI)
    fix ta fulla cs
    assume a: "CreateTable ta fulla \<in> set ss" "map_of (ca_tables c1) ta = Some cs"
    have "ta \<noteq> t" using ordered_tables_new [of "(t, full) # made" ss ta fulla] 2(2) a(1) by auto
    with a c1(5) 2(4) show "set fulla - set (added_late ta) \<subseteq> set cs" by (auto simp: upgradable_def)
  qed
  moreover have "ordered_schema ((t, full) # made) ss" using 2(2) by simp
  ultimately obtain c2 where "migrate_stmts ss c1 = Some c2" "complete (made_by ((t, full) # made) ss) c2" "grows c1 c2"
    "set (indexes_of ss) \<subseteq> set (ca_indexes c2)" "ca_versions c2 = ca_versions c1"
    using 2(1) [of c1] by blast
  then show ?case using c1(1) grows_trans [OF c1(4)] migrate_stmt_versions [OF c1(1)] by auto
next
  case (3 made i t cols ss)
  from 3(2) obtain full where f: "map_of made t = Some full" "set cols \<subseteq> set full" by (auto split: option.splits)
  with 3(3) obtain have_cols where t: "map_of (ca_tables c) t = Some have_cols" "set full \<subseteq> set have_cols"
    unfolding complete_def by blast
  define c1 where "c1 = (if i \<in> set (ca_indexes c) then c else c\<lparr>ca_indexes := i # ca_indexes c\<rparr>)"
  have s: "migrate_stmt (CreateIndex i t cols) c = Some c1" "grows c c1" "i \<in> set (ca_indexes c1)" "ca_versions c1 = ca_versions c"
    using f t by (auto simp: migrate_stmt_def exec_ddl_def c1_def grows_def)
  have "upgradable ss c1" using 3(4) by (auto simp: upgradable_def c1_def)
  then obtain c2 where "migrate_stmts ss c1 = Some c2" "complete (made_by made ss) c2" "grows c1 c2"
    "set (indexes_of ss) \<subseteq> set (ca_indexes c2)" "ca_versions c2 = ca_versions c1"
    using 3(1) [of c1] 3(2) complete_grows [OF 3(3) s(2)] by auto
  then show ?case using s grows_trans [OF s(2)] by (auto simp: grows_def)
qed

lemma made_by_contains: "ordered_schema made ss \<Longrightarrow> CreateTable t full \<in> set ss \<Longrightarrow>
    map_of (made_by made ss) t = Some full"
  and made_by_keeps: "ordered_schema made ss \<Longrightarrow> map_of made t = Some full \<Longrightarrow> map_of (made_by made ss) t = Some full"
proof (induction made ss rule: ordered_schema.induct)
  case (2 made t0 full0 ss)
  { case 1
    then show ?case using 2(1,2) by auto
  next
    case 2
    then show ?case using "2.IH"(2) by (cases "t = t0") auto
  }
qed auto

text \<open>Migrating a complete database changes nothing.\<close>

lemma migrated_again:
  "(\<And>t full. CreateTable t full \<in> set ss \<Longrightarrow>
      set (added_late t) \<subseteq> set full \<and> (\<exists>cols. map_of (ca_tables c) t = Some cols \<and> set full \<subseteq> set cols)) \<Longrightarrow>
   set (indexes_of ss) \<subseteq> set (ca_indexes c) \<Longrightarrow> migrate_stmts ss c = Some c"
proof (induction ss)
  case (Cons s ss)
  have "migrate_stmt s c = Some c"
  proof (cases s)
    case (CreateTable t full)
    have "set (added_late t) \<subseteq> set full \<and> (\<exists>cols. map_of (ca_tables c) t = Some cols \<and> set full \<subseteq> set cols)"
      by (rule Cons.prems(1)) (simp add: CreateTable)
    then obtain cols where t: "set (added_late t) \<subseteq> set full" "map_of (ca_tables c) t = Some cols" "set full \<subseteq> set cols"
      by blast
    have e: "exec_ddl (CreateTable t full) c = Some c" by (simp add: exec_ddl_def t(2))
    show ?thesis
    proof (cases "is_chat_table t")
      case True
      from add_columns [of cols "late_columns t" cols] obtain more where
        "fold (\<lambda>col cs. if col \<in> set cols then cs else cs @ [col]) (late_columns t) cols = cols @ more"
        "set more = set (late_columns t) - set cols" by blast
      moreover have "set (late_columns t) \<subseteq> set cols" using t(1,3) by (auto simp: added_late_def True)
      ultimately have "fold (\<lambda>col cs. if col \<in> set cols then cs else cs @ [col]) (late_columns t) cols = cols"
        by (metis Diff_eq_empty_iff append_Nil2 set_empty)
      then have "ensureChatColumns t c = Some c"
        by (simp only: ensureChatColumns_def t(2) option.case update_triv [OF t(2)]) simp
      with e True CreateTable show ?thesis by (simp add: migrate_stmt_def)
    next
      case False
      with e CreateTable show ?thesis by (simp add: migrate_stmt_def)
    qed
  next
    case (CreateIndex i t cols)
    with Cons.prems(2) show ?thesis by (auto simp: migrate_stmt_def exec_ddl_def)
  qed
  moreover have "set (indexes_of ss) \<subseteq> set (ca_indexes c)"
    using Cons.prems(2) by (cases s) auto
  ultimately show ?case using Cons.IH Cons.prems(1) by auto
qed simp

lemma late_in_schema: "ordered_schema made ss \<Longrightarrow> CreateTable t full \<in> set ss \<Longrightarrow> set (added_late t) \<subseteq> set full"
  by (induction made ss rule: ordered_schema.induct) auto

section \<open>Properties\<close>


text \<open>A database whose table of direct messages has no column for acknowledgements.\<close>

definition old_catalog :: catalog where
  "old_catalog = \<lparr>ca_tables = [(''chats_dm'', [''id'', ''conversation_id'', ''msg_id'', ''received_at'', ''src'', ''src_type'',
     ''dst'', ''msg'', ''rssi'', ''snr'', ''direction'', ''delivery_status''])], ca_indexes = [], ca_versions = [1]\<rparr>"


end
