(* ===== verification/Simulator.thy ===== *)
theory Simulator
  imports ParsePacket ChatIds Outbox "HOL-Library.Word"
begin

text \<open>
  cmd/iot-simulator/main.go: the tool that stands for a MeshCom node. It sends positions and messages when its
  tickers fire and answers the text messages it receives. math/rand, json.Marshal and the errors of the socket
  are parameters; a float64 is of a type with the operations the code uses and no laws. Log lines and the
  parsing of flags are left out.
\<close>

section \<open>Texts\<close>

definition isPublicOrChannelDestination :: "string \<Rightarrow> bool" where
  "isPublicOrChannelDestination destination =
     (if destination = ''*'' then True
      else if destination = [] then False
      else list_all is_digit destination)"

definition replyCallsign :: "text_message \<Rightarrow> string \<Rightarrow> string" where
  "replyCallsign message fallback =
     (let origin = to_upper (trim_space (fst (SplitSourcePath (tm_Source message)))) in
      if origin \<noteq> [] then origin else to_upper (trim_space fallback))"

definition trailingSequence :: "string \<Rightarrow> string" where
  "trailingSequence message =
     (case last_index_of CHR ''{'' message of
        None \<Rightarrow> []
      | Some start \<Rightarrow>
          if start + 1 = length message then []
          else (let s = trim_suffix ''}'' (drop (start + 1) message) in
                if s = [] then [] else if \<not> list_all is_digit s then [] else s))"

definition sequenceID :: "string \<Rightarrow> string" where
  "sequenceID message =
     (if trailingSequence message \<noteq> [] then trailingSequence message else ''123'')"

definition messageWithSequence :: "string \<Rightarrow> string \<Rightarrow> string" where
  "messageWithSequence message s =
     (if trailingSequence message \<noteq> [] then message else message @ ''{'' @ s)"

definition cleanSequence :: "string \<Rightarrow> string" where
  "cleanSequence message =
     (if trailingSequence message = [] then message
      else (case last_index_of CHR ''{'' message of
              None \<Rightarrow> message | Some i \<Rightarrow> trim_space (take i message)))"

definition ackMessage :: "string \<Rightarrow> string \<Rightarrow> string" where
  "ackMessage myCall s = to_upper myCall @ '' :ack'' @ s"

section \<open>The sender\<close>

record ('f, 'r) sim_lib =
  sl_uint32 :: "'r \<Rightarrow> 32 word \<times> 'r"
  sl_float64 :: "'r \<Rightarrow> 'f \<times> 'r"
  sl_marshal :: "'f packet \<Rightarrow> string + string"
  sl_write :: "nat \<Rightarrow> string option"

text \<open>The random source, how many writes were tried, and the datagrams that went out.\<close>

record 'r sim =
  sm_random :: 'r
  sm_writes :: nat
  sm_sent :: "string list"

datatype sim_error = EncodePacketFailed string | SendPacketFailed string

record 'f position_options =
  so_source :: string
  so_latitude :: 'f
  so_longitude :: 'f
  so_jitter :: 'f
  so_altitude :: int
  so_battery :: int
  so_hardwareID :: string
  so_firmware :: string

record message_options =
  mo_myCall :: string
  mo_directSource :: string
  mo_repeater :: string
  mo_ackDelay :: duration

definition directSource :: string where
  "directSource = ''QQ1TST-1''"

definition repeaterSource :: string where
  "repeaterSource = ''QQ1TST-2''"

text \<open>The verb %08X on 32 bits.\<close>

definition hex_upper :: "nat \<Rightarrow> char" where
  "hex_upper d = (if d < 10 then digit_char d else char_of (55 + d))"

definition newMessageID :: "('f, 'r) sim_lib \<Rightarrow> 'r \<Rightarrow> string \<times> 'r" where
  "newMessageID lib r =
     (let (w, r') = sl_uint32 lib r in
      (map (\<lambda>i. hex_upper (unat w div 16 ^ i mod 16)) [7, 6, 5, 4, 3, 2, 1, 0], r'))"

definition jitterCoordinate ::
  "('f :: {zero, one, plus, minus, times}, 'r) sim_lib \<Rightarrow> 'r \<Rightarrow> 'f \<Rightarrow> 'f \<Rightarrow> 'f \<times> 'r" where
  "jitterCoordinate lib r base jitter =
     (if jitter = 0 then (base, r)
      else (let (x, r') = sl_float64 lib r in (base + (x * (1 + 1) - 1) * jitter, r')))"

definition newPositionPacket ::
  "('f :: {zero, one, plus, minus, times}, 'r) sim_lib \<Rightarrow> 'f position_options \<Rightarrow> 'r sim \<Rightarrow> 'f position \<times> 'r sim" where
  "newPositionPacket lib opts s =
     (let (lat, r1) = jitterCoordinate lib (sm_random s) (so_latitude opts) (so_jitter opts);
          (lon, r2) = jitterCoordinate lib r1 (so_longitude opts) (so_jitter opts);
          (i, r3) = newMessageID lib r2 in
      (\<lparr>po_Source = so_source opts, po_Message = [], po_MessageID = i, po_SourceType = ''node'',
        po_Latitude = lat, po_LatitudeDir = ''N'', po_Longitude = lon, po_LongitudeDir = ''E'',
        po_APRSSymbol = ''&'', po_APRSSymbolGroup = ''/'', po_HardwareID = so_hardwareID opts,
        po_Altitude = so_altitude opts, po_Battery = so_battery opts, po_Firmware = so_firmware opts,
        po_FWSub = ''p'', po_RSSI = Some 0, po_SNR = Some 0\<rparr>,
       s\<lparr>sm_random := r3\<rparr>))"

definition newTextMessage ::
  "('f, 'r) sim_lib \<Rightarrow> string \<Rightarrow> string \<Rightarrow> string \<Rightarrow> string \<Rightarrow> 'r sim \<Rightarrow> text_message \<times> 'r sim" where
  "newTextMessage lib sourceType source destination message s =
     (let (i, r) = newMessageID lib (sm_random s) in
      (\<lparr>tm_Source = to_upper source, tm_Destination = to_upper destination, tm_Message = message,
        tm_MessageID = i, tm_SourceType = sourceType, tm_Firmware = ''sim'', tm_FWSub = ''p'',
        tm_RSSI = Some (- 70), tm_SNR = Some 8\<rparr>,
       s\<lparr>sm_random := r\<rparr>))"

definition sendPacket :: "('f, 'r) sim_lib \<Rightarrow> 'f packet \<Rightarrow> 'r sim \<Rightarrow> 'r sim \<times> sim_error option" where
  "sendPacket lib p s =
     (case sl_marshal lib p of
        Inl e \<Rightarrow> (s, Some (EncodePacketFailed e))
      | Inr data \<Rightarrow>
          (let s' = s\<lparr>sm_writes := sm_writes s + 1\<rparr> in
           case sl_write lib (sm_writes s) of
             Some e \<Rightarrow> (s', Some (SendPacketFailed e))
           | None \<Rightarrow> (s'\<lparr>sm_sent := sm_sent s @ [data]\<rparr>, None)))"

definition sendPosition ::
  "('f :: {zero, one, plus, minus, times}, 'r) sim_lib \<Rightarrow> 'f position_options \<Rightarrow> 'r sim \<Rightarrow> 'r sim \<times> sim_error option" where
  "sendPosition lib opts s =
     (let (p, s1) = newPositionPacket lib opts s in sendPacket lib (PositionPacket p) s1)"

definition sendText ::
  "('f, 'r) sim_lib \<Rightarrow> string \<Rightarrow> string \<Rightarrow> string \<Rightarrow> string \<Rightarrow> 'r sim \<Rightarrow> 'r sim \<times> sim_error option" where
  "sendText lib sourceType source destination message s =
     (let (p, s1) = newTextMessage lib sourceType source destination message s in
      sendPacket lib (TextPacket p) s1)"

definition sendDirectMessage ::
  "('f, 'r) sim_lib \<Rightarrow> message_options \<Rightarrow> int \<Rightarrow> 'r sim \<Rightarrow> 'r sim \<times> sim_error option" where
  "sendDirectMessage lib opts count s =
     (let (p, s1) = newTextMessage lib ''lora'' directSource (mo_myCall opts) (''DM test '' @ itoa_int count) s in
      sendPacket lib (TextPacket p) s1)"

section \<open>Answers\<close>

definition respondToBroadcast ::
  "('f, 'r) sim_lib \<Rightarrow> text_message \<Rightarrow> message_options \<Rightarrow> 'r sim \<Rightarrow> 'r sim" where
  "respondToBroadcast lib received opts s =
     fst (sendText lib ''node'' (mo_myCall opts) (to_upper (trim_space (tm_Destination received)))
            (tm_Message received) s)"

definition respondToDirectMessage ::
  "('f, 'r) sim_lib \<Rightarrow> text_message \<Rightarrow> message_options \<Rightarrow> 'r sim \<Rightarrow> 'r sim" where
  "respondToDirectMessage lib received opts s =
     (let replyTo = replyCallsign received (mo_myCall opts);
          q = sequenceID (tm_Message received);
          echoMessage = messageWithSequence (tm_Message received) q in
      case sendText lib ''node'' replyTo (mo_directSource opts) echoMessage s of
        (s1, Some _) \<Rightarrow> s1
      | (s1, None) \<Rightarrow> fst (sendText lib ''lora'' (mo_directSource opts) replyTo (ackMessage replyTo q) s1))"

text \<open>
  respondAsRepeater runs in its own goroutine and waits between the echo and the rest, so it is two steps: the
  first says whether the goroutine waits for its timer, the second is the timer or the end of the context.
\<close>

definition repeater_begin ::
  "('f, 'r) sim_lib \<Rightarrow> text_message \<Rightarrow> message_options \<Rightarrow> 'r sim \<Rightarrow> 'r sim \<times> bool" where
  "repeater_begin lib received opts s =
     (let replyTo = replyCallsign received (mo_myCall opts);
          q = sequenceID (tm_Message received);
          echoMessage = messageWithSequence (tm_Message received) q;
          (s1, err) = sendText lib ''node'' replyTo (mo_repeater opts) echoMessage s in
      (s1, err = None))"

definition repeater_end ::
  "('f, 'r) sim_lib \<Rightarrow> text_message \<Rightarrow> message_options \<Rightarrow> bool \<Rightarrow> 'r sim \<Rightarrow> 'r sim" where
  "repeater_end lib received opts cancelled s =
     (if cancelled then s
      else (let replyTo = replyCallsign received (mo_myCall opts);
                q = sequenceID (tm_Message received) in
            case sendText lib ''lora'' (mo_repeater opts) replyTo (ackMessage replyTo q) s of
              (s1, Some _) \<Rightarrow> s1
            | (s1, None) \<Rightarrow>
                fst (sendText lib ''lora'' (mo_repeater opts) replyTo
                       (''MIRROR: '' @ cleanSequence (tm_Message received)) s1)))"

text \<open>The message a goroutine is started for comes with the state.\<close>

definition handleReceivedDatagram ::
  "'f json_lib \<Rightarrow> ('f, 'r) sim_lib \<Rightarrow> string \<Rightarrow> message_options \<Rightarrow> 'r sim \<Rightarrow> 'r sim \<times> text_message option" where
  "handleReceivedDatagram jl lib data opts s =
     (case ParsePacket jl data of
        Inl _ \<Rightarrow> (s, None)
      | Inr envelope \<Rightarrow> (case en_Packet envelope of
          TextPacket message \<Rightarrow>
            (let destination = to_upper (trim_space (tm_Destination message)) in
             if destination = mo_directSource opts then (respondToDirectMessage lib message opts s, None)
             else if destination = mo_repeater opts then (s, Some message)
             else if isPublicOrChannelDestination destination then (respondToBroadcast lib message opts s, None)
             else (s, None))
        | _ \<Rightarrow> (s, None)))"

text \<open>
  The receive loop: what each read gives, and whether the context is done when the loop looks. The buffer takes
  65535 bytes. The goroutines started for the repeater are listed in order.
\<close>

datatype sim_read = GotDatagram string | ReadTimeout | ReadError | DeadlineError

definition sim_buffer :: nat where
  "sim_buffer = 65535"

fun receiveDatagrams ::
  "'f json_lib \<Rightarrow> ('f, 'r) sim_lib \<Rightarrow> message_options \<Rightarrow> (sim_read \<times> bool) list \<Rightarrow> 'r sim
   \<Rightarrow> 'r sim \<times> text_message list" where
  "receiveDatagrams jl lib opts [] s = (s, [])"
| "receiveDatagrams jl lib opts ((DeadlineError, _) # rs) s = (s, [])"
| "receiveDatagrams jl lib opts ((ReadError, _) # rs) s = (s, [])"
| "receiveDatagrams jl lib opts ((ReadTimeout, cancelled) # rs) s =
     (if cancelled then (s, []) else receiveDatagrams jl lib opts rs s)"
| "receiveDatagrams jl lib opts ((GotDatagram data, _) # rs) s =
     (let (s1, started) = handleReceivedDatagram jl lib (take sim_buffer data) opts s;
          (s2, gs) = receiveDatagrams jl lib opts rs s1 in
      (s2, (case started of None \<Rightarrow> gs | Some g \<Rightarrow> g # gs)))"

section \<open>Configuration and automatic sends\<close>

record 'f sim_config =
  sc_listenAddr :: string
  sc_targetAddr :: string
  sc_myCall :: string
  sc_position1Interval :: duration
  sc_position2Interval :: duration
  sc_dmInterval :: duration
  sc_enablePosition1 :: bool
  sc_enablePosition2 :: bool
  sc_enableDM :: bool
  sc_enableBroadcast :: bool
  sc_enableChannel2 :: bool
  sc_ackDelay :: duration
  sc_latitude :: 'f
  sc_longitude :: 'f
  sc_jitter :: 'f
  sc_altitude :: int
  sc_battery :: int
  sc_hardwareID :: string
  sc_firmware :: string

definition sim_messages :: "'f sim_config \<Rightarrow> bool" where
  "sim_messages cfg \<longleftrightarrow> sc_enableDM cfg \<or> sc_enableBroadcast cfg \<or> sc_enableChannel2 cfg"

definition validateSimConfig :: "'f :: {zero, ord} sim_config \<Rightarrow> string option" where
  "validateSimConfig cfg =
     (if sc_targetAddr cfg = [] then Some ''-target is required''
      else if trim_space (sc_myCall cfg) = [] then Some ''-my-call is required''
      else if sc_enablePosition1 cfg \<and> sc_position1Interval cfg \<le> 0 then Some ''-interval must be greater than zero''
      else if sc_enablePosition2 cfg \<and> sc_position2Interval cfg \<le> 0 then Some ''-pos2-interval must be greater than zero''
      else if sim_messages cfg \<and> sc_dmInterval cfg \<le> 0 then Some ''-dm-interval must be greater than zero''
      else if sc_ackDelay cfg < 0 then Some ''-ack-delay must be zero or greater''
      else if sc_jitter cfg < 0 then Some ''-jitter must be zero or greater''
      else None)"

definition newPositionOptions :: "'f sim_config \<Rightarrow> string \<Rightarrow> 'f position_options" where
  "newPositionOptions cfg source =
     \<lparr>so_source = source, so_latitude = sc_latitude cfg, so_longitude = sc_longitude cfg, so_jitter = sc_jitter cfg,
      so_altitude = sc_altitude cfg, so_battery = sc_battery cfg, so_hardwareID = sc_hardwareID cfg,
      so_firmware = sc_firmware cfg\<rparr>"

definition newMessageOptions :: "'f sim_config \<Rightarrow> message_options" where
  "newMessageOptions cfg =
     \<lparr>mo_myCall = to_upper (trim_space (sc_myCall cfg)), mo_directSource = directSource,
      mo_repeater = repeaterSource, mo_ackDelay = sc_ackDelay cfg\<rparr>"

text \<open>Sends one after another up to the first that fails.\<close>

fun in_turn :: "('s \<Rightarrow> 's \<times> 'e option) list \<Rightarrow> 's \<Rightarrow> 's \<times> 'e option" where
  "in_turn [] s = (s, None)"
| "in_turn (f # fs) s = (case f s of (s', Some e) \<Rightarrow> (s', Some e) | (s', None) \<Rightarrow> in_turn fs s')"

abbreviation only_if :: "bool \<Rightarrow> 'a \<Rightarrow> 'a list" where
  "only_if b x \<equiv> (if b then [x] else [])"

definition message_sends ::
  "('f, 'r) sim_lib \<Rightarrow> 'f sim_config \<Rightarrow> int \<Rightarrow> ('r sim \<Rightarrow> 'r sim \<times> sim_error option) list" where
  "message_sends lib cfg n =
     only_if (sc_enableDM cfg) (sendDirectMessage lib (newMessageOptions cfg) n) @
     only_if (sc_enableBroadcast cfg) (sendText lib ''lora'' directSource ''*'' (''Broadcast test '' @ itoa_int n)) @
     only_if (sc_enableChannel2 cfg) (sendText lib ''lora'' directSource ''2'' (''Channel 2 test '' @ itoa_int n))"

definition first_sends ::
  "('f :: {zero, one, plus, minus, times}, 'r) sim_lib \<Rightarrow> 'f sim_config \<Rightarrow> ('r sim \<Rightarrow> 'r sim \<times> sim_error option) list" where
  "first_sends lib cfg =
     only_if (sc_enablePosition1 cfg) (sendPosition lib (newPositionOptions cfg directSource)) @
     only_if (sc_enablePosition2 cfg) (sendPosition lib (newPositionOptions cfg repeaterSource)) @
     message_sends lib cfg 1"

datatype sim_event = ContextDone | Position1Tick | Position2Tick | MessageTick

datatype sim_outcome = SimRunning | SimEnded | SimFailed sim_error

text \<open>A ticker that was not made is a nil channel: its case is never chosen.\<close>

definition has_ticker :: "'f sim_config \<Rightarrow> sim_event \<Rightarrow> bool" where
  "has_ticker cfg e =
     (case e of ContextDone \<Rightarrow> True | Position1Tick \<Rightarrow> sc_enablePosition1 cfg
      | Position2Tick \<Rightarrow> sc_enablePosition2 cfg | MessageTick \<Rightarrow> sim_messages cfg)"

fun send_loop ::
  "('f :: {zero, one, plus, minus, times}, 'r) sim_lib \<Rightarrow> 'f sim_config \<Rightarrow> int \<Rightarrow> sim_event list \<Rightarrow> 'r sim \<Rightarrow> 'r sim \<times> sim_outcome" where
  "send_loop lib cfg n [] s = (s, SimRunning)"
| "send_loop lib cfg n (e # es) s =
     (if \<not> has_ticker cfg e then send_loop lib cfg n es s
      else if e = ContextDone then (s, SimEnded)
      else (let n' = (if e = MessageTick then wrap64 (n + 1) else n);
                sends = (case e of
                    Position1Tick \<Rightarrow> [sendPosition lib (newPositionOptions cfg directSource)]
                  | Position2Tick \<Rightarrow> [sendPosition lib (newPositionOptions cfg repeaterSource)]
                  | _ \<Rightarrow> message_sends lib cfg n') in
            case in_turn sends s of
              (s', Some err) \<Rightarrow> (s', SimFailed err)
            | (s', None) \<Rightarrow> send_loop lib cfg n' es s'))"

text \<open>time.NewTicker panics on an interval that is not positive: None.\<close>

definition tickers_start :: "'f sim_config \<Rightarrow> bool" where
  "tickers_start cfg \<longleftrightarrow>
     (sc_enablePosition1 cfg \<longrightarrow> 0 < sc_position1Interval cfg) \<and>
     (sc_enablePosition2 cfg \<longrightarrow> 0 < sc_position2Interval cfg) \<and>
     (sim_messages cfg \<longrightarrow> 0 < sc_dmInterval cfg)"

datatype sim_start_error =
    InvalidSimConfig string | SimResolveListen string | SimResolveTarget string | SimListen string

text \<open>run from validation to the loop; resolving and listening give an error text or none.\<close>

definition run_simulator ::
  "('f :: {zero, one, plus, minus, times, ord}, 'r) sim_lib \<Rightarrow> string option \<Rightarrow> string option \<Rightarrow> string option
   \<Rightarrow> 'f sim_config \<Rightarrow> sim_event list \<Rightarrow> 'r sim \<Rightarrow> (sim_start_error + 'r sim \<times> sim_outcome) option" where
  "run_simulator lib resolve_listen resolve_target listen cfg es s =
     (case validateSimConfig cfg of Some e \<Rightarrow> Some (Inl (InvalidSimConfig e)) | None \<Rightarrow>
     (case resolve_listen of Some e \<Rightarrow> Some (Inl (SimResolveListen e)) | None \<Rightarrow>
     (case resolve_target of Some e \<Rightarrow> Some (Inl (SimResolveTarget e)) | None \<Rightarrow>
     (case listen of Some e \<Rightarrow> Some (Inl (SimListen e)) | None \<Rightarrow>
      if \<not> (sc_enablePosition1 cfg \<or> sc_enablePosition2 cfg \<or> sim_messages cfg) then
        Some (Inr (s, if ContextDone \<in> set es then SimEnded else SimRunning))
      else (case in_turn (first_sends lib cfg) s of
          (s', Some err) \<Rightarrow> Some (Inr (s', SimFailed err))
        | (s', None) \<Rightarrow> if tickers_start cfg then Some (Inr (send_loop lib cfg 1 es s')) else None)))))"

section \<open>Facts\<close>

lemma digits_no_brace: "list_all is_digit q \<Longrightarrow> CHR ''{'' \<notin> set q \<and> CHR ''}'' \<notin> set q"
  by (auto simp: list_all_iff is_digit_def)

lemma trim_suffix_absent: "c \<notin> set s \<Longrightarrow> trim_suffix [c] s = s"
  by (auto simp: trim_suffix_def suffix_def)

lemma trailing_numeric: "trailingSequence m \<noteq> [] \<Longrightarrow> is_numeric (trailingSequence m)"
  by (auto simp: trailingSequence_def is_numeric_def Let_def split: option.splits if_splits)

lemma sequenceID_numeric: "is_numeric (sequenceID m)"
  using trailing_numeric [of m] by (simp add: sequenceID_def) (code_simp)

lemma trailing_append: "is_numeric q \<Longrightarrow> trailingSequence (m @ CHR ''{'' # q) = q"
  using digits_no_brace [of q] by (auto simp: trailingSequence_def is_numeric_def trim_suffix_absent)

lemma with_sequence: "trailingSequence (messageWithSequence m (sequenceID m)) = sequenceID m"
  using trailing_append [OF sequenceID_numeric [of m], of m]
  by (auto simp: messageWithSequence_def sequenceID_def)

lemma clean_append: "is_numeric q \<Longrightarrow> cleanSequence (m @ CHR ''{'' # q) = trim_space m"
  using digits_no_brace [of q] trailing_append [of q m]
  by (auto simp: cleanSequence_def is_numeric_def)

lemma echo_extends:
  "messageWithSequence m (sequenceID m) = m \<or>
   (\<exists>n. messageWithSequence m (sequenceID m) = m @ ''{'' @ n \<and> is_numeric n)"
  using sequenceID_numeric [of m] by (auto simp: messageWithSequence_def)

text \<open>Matching a token in a text whose first space comes later sees only what is before the space.\<close>

lemma digits_boundary_space: "digits_boundary (c @ CHR '' '' # t) = digits_boundary c"
proof (cases "list_all is_digit c")
  case True
  then have l: "takeWhile is_digit (c @ CHR '' '' # t) = c" "dropWhile is_digit (c @ CHR '' '' # t) = CHR '' '' # t"
    by (auto simp: list_all_iff is_digit_def takeWhile_append dropWhile_append)
  from True have r: "takeWhile is_digit c = c" "dropWhile is_digit c = []"
    by (auto simp: list_all_iff)
  have "\<not> is_word CHR '' ''" by code_simp
  then show ?thesis by (simp add: digits_boundary_def Let_def l r)
next
  case False
  then obtain x where "x \<in> set c" "\<not> is_digit x" by (auto simp: list_all_iff)
  moreover from this have "dropWhile is_digit c \<noteq> []" by (metis dropWhile_eq_Nil_conv)
  ultimately show ?thesis by (auto simp: digits_boundary_def Let_def)
qed

lemma match_letters_space:
  "is_ascii c \<Longrightarrow> CHR '' '' \<notin> set ls \<Longrightarrow>
   match_letters ls (c @ CHR '' '' # t) = map_option (\<lambda>r. r @ CHR '' '' # t) (match_letters ls c)"
proof (induction ls arbitrary: c)
  case (Cons l ls)
  show ?case
  proof (cases c)
    case Nil
    have "(char_of (226 :: nat) :: char) \<noteq> CHR '' ''" by code_simp
    with Nil Cons.prems show ?thesis
      by (auto simp: match_letter_def fold_letter_def lower_char_def is_upper_def)
  next
    case (Cons x xs)
    have "\<not> prefix (bytes_of [226, 132, 170]) (x # ys)" for ys
      using Cons.prems(1) \<open>c = x # xs\<close> by auto
    with Cons.prems Cons.IH [of xs] \<open>c = x # xs\<close> show ?thesis by (auto simp: match_letter_def)
  qed
qed simp

lemma keyword_space:
  "is_ascii c \<Longrightarrow> CHR '' '' \<notin> set kw \<Longrightarrow> keyword_digits kw (c @ CHR '' '' # t) = keyword_digits kw c"
  by (auto simp: keyword_digits_def match_letters_space digits_boundary_space split: option.splits)

lemma after_sep_skip:
  "\<forall>x \<in> set c. x \<noteq> CHR '':'' \<and> \<not> is_re_space x \<Longrightarrow> after_sep m (c @ t) = after_sep m t"
  by (induction c) auto

lemma find_token_space:
  assumes "is_ascii c" "\<forall>x \<in> set c. x \<noteq> CHR '':'' \<and> \<not> is_re_space x"
    and "m (c @ CHR '' '' # t) = m c"
  shows "find_token m (c @ CHR '' '' # t) = (case m c of Some r \<Rightarrow> Some r | None \<Rightarrow> find_token m t)"
proof -
  have "is_re_space CHR '' ''" by code_simp
  then have "after_sep m (c @ CHR '' '' # t) = find_token m t"
    using after_sep_skip [OF assms(2), of m "CHR '' '' # t"] by (simp add: find_token_def split: option.splits)
  with assms(3) show ?thesis by (simp add: find_token_def split: option.splits)
qed

lemma digits_boundary_numeric: "is_numeric q \<Longrightarrow> digits_boundary q = Some q"
proof -
  assume "is_numeric q"
  then have "takeWhile is_digit q = q" "dropWhile is_digit q = []" "q \<noteq> []"
    by (auto simp: is_numeric_def list_all_iff)
  then show ?thesis by (simp only: digits_boundary_def Let_def) simp
qed

lemma after_sep_digits: "list_all is_digit q \<Longrightarrow> after_sep m q = None"
  by (induction q) (auto simp: is_re_space_def is_digit_def)

lemma keyword_rest:
  assumes q: "is_numeric q"
  shows "find_token ack_token (CHR '':'' # ''ack'' @ q) = Some q"
    and "find_token (keyword_digits ''rej'') (CHR '':'' # ''ack'' @ q) = None"
proof -
  have k: "keyword_digits ''ack'' (CHR '':'' # s) = None" "keyword_digits ''rej'' (CHR '':'' # s) = None"
    "keyword_digits ''rej'' (CHR ''a'' # s) = None" "digits_boundary (CHR '':'' # s) = None"
    "keyword_digits ''ack'' (''ack'' @ s) = digits_boundary s" for s
    by (simp_all add: keyword_digits_def match_letter_def fold_letter_def lower_char_def is_upper_def
        digits_boundary_def is_digit_def)
  have n: "\<not> is_re_space CHR ''a''" "\<not> is_re_space CHR ''c''" "\<not> is_re_space CHR ''k''" by code_simp+
  show "find_token ack_token (CHR '':'' # ''ack'' @ q) = Some q"
    using k(1) [of "''ack'' @ q"] k(4) [of "''ack'' @ q"] k(5) [of q] digits_boundary_numeric [OF q]
    by (simp add: find_token_def ack_token_def)
  show "find_token (keyword_digits ''rej'') (CHR '':'' # ''ack'' @ q) = None"
    using k(2) [of "''ack'' @ q"] k(3) [of "''ck'' @ q"] n q after_sep_digits [of q "keyword_digits ''rej''"]
    by (simp add: find_token_def is_numeric_def)
qed

lemma call_chars_plain:
  "call_pattern c \<Longrightarrow> is_ascii c \<and> (\<forall>x \<in> set c. x \<noteq> CHR '':'' \<and> \<not> is_re_space x)"
  by (rule conjI; (unfold is_ascii_def)?, rule ballI, drule (1) call_pattern_chars)
     (auto simp: is_call_char_def char_class_defs)

lemma call_upper: "call_pattern c \<Longrightarrow> to_upper c = c"
proof (rule to_upper_upper, rule ballI)
  fix x assume "call_pattern c" "x \<in> set c"
  then have "is_call_char x \<or> x = CHR ''-''" by (rule call_pattern_chars)
  then show "\<not> is_lower x \<and> byte x < 128" by (auto simp: is_call_char_def char_class_defs)
qed

text \<open>
  The acknowledgement a station's reply carries is read as the acknowledgement of that sequence number, unless the
  callsign itself begins like one (a base of digits, ACK or REJ and digits).
\<close>

lemma ack_recognised:
  assumes c: "call_pattern c" and q: "is_numeric q" and own: "ackStatusAndSequenceID c = (NoAck, [])"
  shows "ackStatusAndSequenceID (ackMessage c q) = (Ack, q)" and "IsAckOrReject (ackMessage c q)"
proof -
  note a = call_chars_plain [OF c]
  have u: "ackMessage c q = c @ CHR '' '' # CHR '':'' # ''ack'' @ q"
    by (simp add: ackMessage_def call_upper [OF c])
  have s: "after_sep m c = None" for m :: "string \<Rightarrow> string option"
    using a after_sep_skip [of c m "[]"] by simp
  have n: "keyword_digits ''rej'' c = None" "ack_token c = None"
    using own s by (auto simp: ackStatusAndSequenceID_def find_token_def split: option.splits)
  have t: "keyword_digits ''rej'' (c @ CHR '' '' # t) = keyword_digits ''rej'' c"
    "ack_token (c @ CHR '' '' # t) = ack_token c" for t
    using a by (simp_all add: keyword_space ack_token_def digits_boundary_space split: option.split)
  have r: "find_token (keyword_digits ''rej'') (ackMessage c q) = None"
    unfolding u using a n(1) t(1) keyword_rest(2) [OF q]
    by (subst find_token_space) auto
  have k: "find_token ack_token (ackMessage c q) = Some q"
    unfolding u using a n(2) t(2) keyword_rest(1) [OF q]
    by (subst find_token_space) auto
  from r k show "ackStatusAndSequenceID (ackMessage c q) = (Ack, q)"
    by (simp add: ackStatusAndSequenceID_def)
  have "keyword_digits ''ack'' c = None"
    using n(2) by (auto simp: ack_token_def split: option.splits)
  then have "find_token (keyword_digits ''ack'') (ackMessage c q) = find_token (keyword_digits ''ack'') (CHR '':'' # ''ack'' @ q)"
    unfolding u using a keyword_space [of c "''ack''"] by (subst find_token_space) auto
  also have "\<dots> = Some q"
    using keyword_rest(1) [OF q] digits_boundary_numeric [OF q]
    by (simp add: find_token_def keyword_digits_def match_letter_def fold_letter_def lower_char_def is_upper_def)
  finally show "IsAckOrReject (ackMessage c q)"
    by (simp add: IsAckOrReject_def ackPattern_def)
qed

text \<open>A configuration that validates never makes a ticker panic.\<close>

lemma simulator_never_panics: "run_simulator lib r1 r2 l cfg es s \<noteq> None"
proof -
  have "tickers_start cfg" if "validateSimConfig cfg = None"
    using that by (auto simp: validateSimConfig_def tickers_start_def not_le split: if_splits)
  then show ?thesis by (auto simp: run_simulator_def split: option.splits prod.splits)
qed

section \<open>Properties\<close>

definition sim_works :: "('f, 'r) sim_lib \<Rightarrow> bool" where
  "sim_works lib \<longleftrightarrow> (\<forall>p. \<exists>d. sl_marshal lib p = Inr d) \<and> (\<forall>n. sl_write lib n = None)"

lemma sendText_works:
  assumes "sim_works lib"
  shows "\<exists>m d s'. sendText lib st src dst msg s = (s', None) \<and> sl_marshal lib (TextPacket m) = Inr d \<and>
     sm_sent s' = sm_sent s @ [d] \<and> tm_Source m = to_upper src \<and> tm_Destination m = to_upper dst \<and> tm_Message m = msg"
proof -
  obtain m s1 where m: "newTextMessage lib st src dst msg s = (m, s1)" by fastforce
  then have f: "tm_Source m = to_upper src" "tm_Destination m = to_upper dst" "tm_Message m = msg"
    "sm_sent s1 = sm_sent s"
    by (auto simp: newTextMessage_def Let_def split: prod.splits)
  obtain d where d: "sl_marshal lib (TextPacket m) = Inr d" using assms by (auto simp: sim_works_def)
  have "sendText lib st src dst msg s = (s1\<lparr>sm_writes := sm_writes s1 + 1, sm_sent := sm_sent s1 @ [d]\<rparr>, None)"
    using assms m d by (simp add: sendText_def sendPacket_def sim_works_def)
  with f d show ?thesis by fastforce
qed

text \<open>
  The answer to a direct message: an echo from the sender, then an acknowledgement to it.
\<close>

lemma direct_answer:
  fixes received :: text_message and opts :: message_options
  assumes works: "sim_works lib"
  defines "c \<equiv> replyCallsign received (mo_myCall opts)" and "q \<equiv> sequenceID (tm_Message received)"
  shows "\<exists>echo ack d1 d2.
     sm_sent (respondToDirectMessage lib received opts s) = sm_sent s @ [d1, d2] \<and>
     sl_marshal lib (TextPacket echo) = Inr d1 \<and> sl_marshal lib (TextPacket ack) = Inr d2 \<and>
     tm_Source echo = to_upper c \<and> tm_Destination echo = to_upper (mo_directSource opts) \<and>
     tm_Message echo = messageWithSequence (tm_Message received) q \<and>
     tm_Source ack = to_upper (mo_directSource opts) \<and> tm_Destination ack = to_upper c \<and>
     tm_Message ack = ackMessage c q"
proof -
  obtain echo d1 s1 where e: "sendText lib ''node'' c (mo_directSource opts) (messageWithSequence (tm_Message received) q) s = (s1, None)"
    "sl_marshal lib (TextPacket echo) = Inr d1" "sm_sent s1 = sm_sent s @ [d1]" "tm_Source echo = to_upper c"
    "tm_Destination echo = to_upper (mo_directSource opts)" "tm_Message echo = messageWithSequence (tm_Message received) q"
    using sendText_works [OF works] by meson
  obtain ack d2 s2 where a: "sendText lib ''lora'' (mo_directSource opts) c (ackMessage c q) s1 = (s2, None)"
    "sl_marshal lib (TextPacket ack) = Inr d2" "sm_sent s2 = sm_sent s1 @ [d2]" "tm_Source ack = to_upper (mo_directSource opts)"
    "tm_Destination ack = to_upper c" "tm_Message ack = ackMessage c q"
    using sendText_works [OF works] by meson
  have "respondToDirectMessage lib received opts s = s2"
    by (simp add: respondToDirectMessage_def Let_def c_def [symmetric] q_def [symmetric] e(1) a(1))
  with e a show ?thesis by fastforce
qed


definition example_sim_members :: "(string \<times> json) list" where
  "example_sim_members = [(''type'', VString ''msg''), (''dst'', VString ''QQ1TST-1''), (''msg'', VString ''ciao'')]"

definition example_sim_json :: "int json_lib" where
  "example_sim_json = \<lparr>jl_decode = (\<lambda>_. Inr (VObject example_sim_members)),
     jl_float = atoi, jl_zero = 0, jl_text = (\<lambda>_. []), jl_quote = id\<rparr>"

definition example_sim_text :: text_message where
  "example_sim_text = text_zero\<lparr>tm_Destination := ''QQ1TST-1'', tm_Message := ''ciao''\<rparr>"

definition example_sim_lib :: "(int, nat) sim_lib" where
  "example_sim_lib = \<lparr>sl_uint32 = (\<lambda>r. (of_nat r, Suc r)), sl_float64 = (\<lambda>r. (0, Suc r)),
     sl_marshal = (\<lambda>p. Inr (type_text (type_of_packet p))), sl_write = (\<lambda>_. None)\<rparr>"

definition example_sim_config :: "int sim_config" where
  "example_sim_config = \<lparr>sc_listenAddr = '':1798'', sc_targetAddr = ''127.0.0.1:1799'', sc_myCall = ''iu5pmp-1'',
     sc_position1Interval = 60, sc_position2Interval = 120, sc_dmInterval = 60, sc_enablePosition1 = False,
     sc_enablePosition2 = False, sc_enableDM = False, sc_enableBroadcast = False, sc_enableChannel2 = False,
     sc_ackDelay = 5, sc_latitude = 43, sc_longitude = 10, sc_jitter = 0, sc_altitude = 12, sc_battery = 95,
     sc_hardwareID = ''IOT-SIM'', sc_firmware = ''sim''\<rparr>"

definition example_waiting :: "outbox \<times> pending_message" where
  "example_waiting = Register 0 ''IU5PMP-1'' directSource ''ciao'' 0 (new_outbox 5 True)"

definition example_sim_envelope :: "int envelope" where
  "example_sim_envelope = \<lparr>en_Type = ''msg'', en_Packet = TextPacket example_sim_text, en_Raw = ''{}'',
     en_Unknown = unknownFields example_sim_members (knownFields ''msg'')\<rparr>"

lemma example_sim_parsed: "ParsePacket example_sim_json ''{}'' = Inr example_sim_envelope"
proof -
  have d: "jl_decode example_sim_json ''{}'' = Inr (VObject example_sim_members)" by (simp add: example_sim_json_def)
  have m: "decode_members text_step example_sim_members text_zero None = Inr example_sim_text" by code_simp
  have r: "readPacketType example_sim_members = Inr ''msg''" by code_simp
  show ?thesis
    by (simp only: ParsePacket_def d sum.case fields_of_def json.case r Let_def m if_True simp_thms
        example_sim_envelope_def)
qed


end
