(* ===== verification/Forwarder.thy ===== *)
theory Forwarder
  imports Queues
begin

text \<open>
  internal/udpforward (forwarder.go), the whole life of a forwarder: New, the goroutine of each target, Forward
  and Close, as steps that interleave freely. The channel operations are those of Queues. Each attempt of a
  select in Forward is one step, so that the goroutines act between them; a write on a connection is two steps,
  taking the datagram and writing it. Errors of writes are only logged.
\<close>

section \<open>State\<close>

datatype worker_state = Selecting | Writing string | Returned

text \<open>fw_given and fw_written are the history: what Forward put into the channel, what conn.Write was given.\<close>

record fwd_worker =
  fw_conn_open :: bool
  fw_ch :: "string list"
  fw_state :: worker_state
  fw_given :: "string list"
  fw_written :: "string list"

record forwarder =
  fo_workers :: "fwd_worker list"
  fo_done :: bool

definition new_fwd_worker :: fwd_worker where
  "new_fwd_worker = \<lparr>fw_conn_open = True, fw_ch = [], fw_state = Selecting, fw_given = [], fw_written = []\<rparr>"

section \<open>Operations\<close>

text \<open>Closing connections: errors is what conn.Close returns for each, the first one is the result.\<close>

definition closeWorkers :: "string option list \<Rightarrow> forwarder \<Rightarrow> forwarder \<times> string option" where
  "closeWorkers errors f =
     (f\<lparr>fo_workers := map (\<lambda>w. w\<lparr>fw_conn_open := False\<rparr>) (fo_workers f)\<rparr>,
      (case List.find (\<lambda>e. e \<noteq> None) (take (length (fo_workers f)) errors) of None \<Rightarrow> None | Some e \<Rightarrow> e))"

text \<open>
  New over the targets with what net.Dial gives for each (an error or nothing). The first failure closes the
  connections made so far; the forwarder it leaves behind, whose goroutines run on, comes with the error.
\<close>

fun dial_targets ::
  "(string \<times> string option) list \<Rightarrow> forwarder \<Rightarrow> (string \<times> string \<times> forwarder) + forwarder" where
  "dial_targets [] f = Inr f"
| "dial_targets ((target, dialled) # ts) f =
     (case dialled of
        Some e \<Rightarrow> Inl (target, e, fst (closeWorkers [] f))
      | None \<Rightarrow> dial_targets ts (f\<lparr>fo_workers := fo_workers f @ [new_fwd_worker]\<rparr>))"

definition new_forwarder :: "(string \<times> string option) list \<Rightarrow> (string \<times> string \<times> forwarder) + forwarder" where
  "new_forwarder ts = dial_targets ts \<lparr>fo_workers = [], fo_done = False\<rparr>"

text \<open>The steps on one target: the three attempts of Forward, and the three cases of runWorker.\<close>

datatype worker_action =
    OfferFirst string | DropOldest | OfferAgain string | WorkerTakes | WorkerWrites | WorkerStops

definition offer :: "string \<Rightarrow> fwd_worker \<Rightarrow> fwd_worker" where
  "offer cp w =
     (if length (fw_ch w) < workerChannelCap then w\<lparr>fw_ch := fw_ch w @ [cp], fw_given := fw_given w @ [cp]\<rparr> else w)"

definition worker_action :: "bool \<Rightarrow> worker_action \<Rightarrow> fwd_worker \<Rightarrow> fwd_worker option" where
  "worker_action isdone a w =
     (case a of
        OfferFirst cp \<Rightarrow> Some (offer cp w)
      | DropOldest \<Rightarrow> Some (w\<lparr>fw_ch := tl (fw_ch w)\<rparr>)
      | OfferAgain cp \<Rightarrow> Some (offer cp w)
      | WorkerTakes \<Rightarrow>
          (case (fw_state w, fw_ch w) of
             (Selecting, d # ds) \<Rightarrow> Some (w\<lparr>fw_ch := ds, fw_state := Writing d\<rparr>) | _ \<Rightarrow> None)
      | WorkerWrites \<Rightarrow>
          (case fw_state w of
             Writing d \<Rightarrow> Some (w\<lparr>fw_written := fw_written w @ [d], fw_state := Selecting\<rparr>) | _ \<Rightarrow> None)
      | WorkerStops \<Rightarrow>
          (if isdone \<and> fw_state w = Selecting then Some (w\<lparr>fw_state := Returned\<rparr>) else None))"

text \<open>
  Close is two steps: closing done (a panic when it is closed already), and, once every goroutine has returned,
  closing the connections.
\<close>

definition close_begin :: "forwarder \<Rightarrow> forwarder option" where
  "close_begin f = (if fo_done f then None else Some (f\<lparr>fo_done := True\<rparr>))"

definition close_end :: "string option list \<Rightarrow> forwarder \<Rightarrow> (forwarder \<times> string option) option" where
  "close_end errors f =
     (if list_all (\<lambda>w. fw_state w = Returned) (fo_workers f) then Some (closeWorkers errors f) else None)"

definition on_worker :: "nat \<Rightarrow> worker_action \<Rightarrow> forwarder \<Rightarrow> forwarder option" where
  "on_worker i a f =
     (if i < length (fo_workers f) then
        map_option (\<lambda>w. f\<lparr>fo_workers := (fo_workers f)[i := w]\<rparr>) (worker_action (fo_done f) a (fo_workers f ! i))
      else None)"

inductive forwarder_step :: "forwarder \<Rightarrow> forwarder \<Rightarrow> bool" where
  target: "on_worker i a f = Some f' \<Longrightarrow> forwarder_step f f'"
| signal: "close_begin f = Some f' \<Longrightarrow> forwarder_step f f'"
| finish: "fo_done f \<Longrightarrow> close_end errors f = Some (f', e) \<Longrightarrow> forwarder_step f f'"

inductive forwarder_reach :: "forwarder \<Rightarrow> forwarder \<Rightarrow> bool" for f0 where
  start: "forwarder_reach f0 f0"
| step: "forwarder_reach f0 f \<Longrightarrow> forwarder_step f f' \<Longrightarrow> forwarder_reach f0 f'"

inductive_cases forwarder_stepE: "forwarder_step f f'"

section \<open>Facts\<close>

text \<open>What was put in but neither written nor on its way was dropped; the rest keeps its order.\<close>

definition outstanding :: "fwd_worker \<Rightarrow> string list" where
  "outstanding w = (case fw_state w of Writing d \<Rightarrow> [d] | _ \<Rightarrow> []) @ fw_ch w"

definition fwd_worker_ok :: "bool \<Rightarrow> fwd_worker \<Rightarrow> bool" where
  "fwd_worker_ok isdone w \<longleftrightarrow>
     length (fw_ch w) \<le> workerChannelCap \<and>
     subseq (fw_written w @ outstanding w) (fw_given w) \<and>
     (fw_state w \<noteq> Returned \<longrightarrow> fw_conn_open w) \<and> (fw_state w = Returned \<longrightarrow> isdone)"

definition forwarder_ok :: "forwarder \<Rightarrow> bool" where
  "forwarder_ok f \<longleftrightarrow> (\<forall>w \<in> set (fo_workers f). fwd_worker_ok (fo_done f) w)"

lemma offer_ok: "fwd_worker_ok b w \<Longrightarrow> fwd_worker_ok b (offer cp w)"
  using list_emb_append_mono [of "(=)" "fw_written w @ outstanding w" "fw_given w" "[cp]" "[cp]"]
  by (auto simp: offer_def fwd_worker_ok_def outstanding_def split: worker_state.splits)

lemma subseq_tl: "subseq (xs @ tl ys) (xs @ ys)"
  by (cases ys) (auto intro: list_emb_append_mono)

lemma worker_action_ok:
  assumes "fwd_worker_ok b w" and "worker_action b a w = Some w'"
  shows "fwd_worker_ok b w'"
proof (cases a)
  case (OfferFirst cp)
  with assms offer_ok [of b w cp] show ?thesis by (simp add: worker_action_def)
next
  case (OfferAgain cp)
  with assms offer_ok [of b w cp] show ?thesis by (simp add: worker_action_def)
next
  case DropOldest
  have "subseq (fw_written w @ outstanding w') (fw_written w @ outstanding w)"
    using DropOldest assms(2) subseq_tl [of "fw_written w @ (case fw_state w of Writing d \<Rightarrow> [d] | _ \<Rightarrow> [])" "fw_ch w"]
    by (auto simp: worker_action_def outstanding_def)
  with DropOldest assms show ?thesis
    by (auto simp: worker_action_def fwd_worker_ok_def intro: subseq_order.trans)
qed (use assms in \<open>auto simp: worker_action_def fwd_worker_ok_def outstanding_def
       split: worker_state.splits list.splits if_splits\<close>)

lemma forwarder_step_ok: "forwarder_step f f' \<Longrightarrow> forwarder_ok f \<Longrightarrow> forwarder_ok f'"
proof (erule forwarder_stepE)
  fix i a assume ok: "forwarder_ok f" and s: "on_worker i a f = Some f'"
  then obtain w where i: "i < length (fo_workers f)" and w: "worker_action (fo_done f) a (fo_workers f ! i) = Some w"
    and f': "f' = f\<lparr>fo_workers := (fo_workers f)[i := w]\<rparr>"
    by (auto simp: on_worker_def split: if_splits)
  from ok i have "fwd_worker_ok (fo_done f) (fo_workers f ! i)" by (simp add: forwarder_ok_def)
  from worker_action_ok [OF this w] ok f' show "forwarder_ok f'"
    by (auto simp: forwarder_ok_def dest: set_update_subset_insert [THEN subsetD])
next
  assume "forwarder_ok f" "close_begin f = Some f'"
  then show "forwarder_ok f'"
    by (auto simp: close_begin_def forwarder_ok_def fwd_worker_ok_def split: if_splits)
next
  fix errors e assume ok: "forwarder_ok f" and "fo_done f" "close_end errors f = Some (f', e)"
  then show "forwarder_ok f'"
    by (auto simp: close_end_def closeWorkers_def forwarder_ok_def fwd_worker_ok_def outstanding_def list_all_iff
        split: if_splits)
qed

lemma forwarder_reach_ok: "forwarder_reach f0 f \<Longrightarrow> forwarder_ok f0 \<Longrightarrow> forwarder_ok f"
  by (induction rule: forwarder_reach.induct) (auto intro: forwarder_step_ok)

lemma dial_targets_ok: "dial_targets ts f0 = Inr f \<Longrightarrow> forwarder_ok f0 \<Longrightarrow> forwarder_ok f"
  by (induction ts f0 rule: dial_targets.induct)
     (auto simp: forwarder_ok_def fwd_worker_ok_def new_fwd_worker_def outstanding_def split: option.splits)

lemma new_forwarder_ok: "new_forwarder ts = Inr f \<Longrightarrow> forwarder_ok f"
  unfolding new_forwarder_def by (erule dial_targets_ok) (simp add: forwarder_ok_def)

text \<open>
  Every forwarder New returns, in every state the steps lead to: a write goes to an open connection, each target
  gets a subsequence of what it was given, at most 256 datagrams wait.
\<close>

lemma forwarder_safe:
  assumes "new_forwarder ts = Inr f0" "forwarder_reach f0 f" "w \<in> set (fo_workers f)"
  shows "length (fw_ch w) \<le> workerChannelCap \<and> subseq (fw_written w) (fw_given w) \<and>
    (\<forall>d. fw_state w = Writing d \<longrightarrow> fw_conn_open w)"
proof -
  have "fwd_worker_ok (fo_done f) w"
    using forwarder_reach_ok [OF assms(2) new_forwarder_ok [OF assms(1)]] assms(3) by (simp add: forwarder_ok_def)
  then have c: "length (fw_ch w) \<le> workerChannelCap" "subseq (fw_written w @ outstanding w) (fw_given w)"
    "\<forall>d. fw_state w = Writing d \<longrightarrow> fw_conn_open w"
    by (auto simp: fwd_worker_ok_def)
  have "subseq (fw_written w) (fw_written w @ outstanding w)" by (rule subseq_rev_drop_many) simp
  with c show ?thesis by (metis subseq_order.trans)
qed

text \<open>
  Close ends: once done is closed and nothing more is forwarded, every step of a goroutine lowers the measure, and
  while one has not returned it has a step.
\<close>

definition worker_measure :: "fwd_worker \<Rightarrow> nat" where
  "worker_measure w =
     2 * length (fw_ch w) + (case fw_state w of Writing _ \<Rightarrow> 2 | Selecting \<Rightarrow> 1 | Returned \<Rightarrow> 0)"

lemma worker_steps_end:
  assumes "a \<in> {WorkerTakes, WorkerWrites, WorkerStops}" "worker_action b a w = Some w'"
  shows "worker_measure w' < worker_measure w"
  using assms by (auto simp: worker_action_def worker_measure_def split: worker_state.splits list.splits if_splits)

lemma worker_not_stuck:
  "fw_state w \<noteq> Returned \<Longrightarrow> \<exists>a \<in> {WorkerWrites, WorkerStops}. worker_action True a w \<noteq> None"
  by (cases "fw_state w") (auto simp: worker_action_def)

text \<open>Closing twice panics; a New that fails leaves goroutines that no step can end, since done stays open.\<close>

lemma close_once: "close_begin f = Some f' \<Longrightarrow> close_begin f' = None"
  by (auto simp: close_begin_def split: if_splits)

lemma failed_new_leaks:
  "new_forwarder [(''a:1'', None), (''b:1'', Some e)]
     = Inl (''b:1'', e, \<lparr>fo_workers = [new_fwd_worker\<lparr>fw_conn_open := False\<rparr>], fo_done = False\<rparr>)"
  by (simp add: new_forwarder_def closeWorkers_def)

lemma open_done_never_ends:
  "worker_action False a w = Some w' \<Longrightarrow> fw_state w \<noteq> Returned \<Longrightarrow> fw_state w' \<noteq> Returned"
  by (cases a) (auto simp: worker_action_def offer_def split: worker_state.splits list.splits if_splits)

text \<open>Forward without the goroutine in between is the function of Queues.\<close>

lemma forward_steps:
  assumes "length (fw_ch w) \<le> workerChannelCap"
  shows "fw_ch (if length (fw_ch w) < workerChannelCap then offer cp w
                else offer cp (w\<lparr>fw_ch := tl (fw_ch w)\<rparr>)) = forward_one 0 0 cp (fw_ch w)"
  using assms by (auto simp: offer_def forward_one_def try_send_def workerChannelCap_def)

end
