(* ===== verification/Columns.thy ===== *)
theory Columns
  imports Storage
begin

text \<open>
  The columns behind the rows of ChatLog, Positions and Storage: what internal/chatlog (chatlog.go), internal/positions
  (store.go) and internal/receivelog (logger.go) write into the tables chats_dm, chats_public, nodes and receive_log,
  and what they make of the columns they read.
  A column that may be NULL is an option. The texts of lists are json.Marshal and json.Unmarshal of a []string
  and timestamps are read by time.Parse, the parameters below; the tables keep texts and numbers as they are.
\<close>

record text_lib =
  tx_marshal :: "string list \<Rightarrow> string"
  tx_unmarshal :: "string \<Rightarrow> string + string list"
  tx_parse :: "string \<Rightarrow> string + gotime"

section \<open>Chat rows\<close>

record chat_columns =
  cc_msg_id :: "string option"
  cc_sequence_id :: "string option"
  cc_received_at :: string
  cc_src :: "string option"
  cc_src_type :: "string option"
  cc_via :: "string option"
  cc_dst :: string
  cc_msg :: string
  cc_rssi :: "int option"
  cc_snr :: "int option"
  cc_direction :: "string option"
  cc_delivery_status :: "string option"
  cc_ack_status :: "string option"
  cc_ack_received_at :: "string option"
  cc_ack_src :: "string option"
  cc_ack_src_type :: "string option"
  cc_ack_rssi :: "int option"
  cc_ack_snr :: "int option"
  cc_ack_via :: "string option"

definition nullableString :: "string \<Rightarrow> string option" where
  "nullableString value = (if value = [] then None else Some value)"

definition nullableInt :: "int \<Rightarrow> int option" where
  "nullableInt value = (if value = 0 then None else Some value)"

definition nullableStringSlice :: "text_lib \<Rightarrow> string list \<Rightarrow> string option" where
  "nullableStringSlice lib values = (if values = [] then None else Some (tx_marshal lib values))"

text \<open>The INSERT into chats_dm; the columns it does not name are NULL.\<close>

definition dm_columns :: "text_lib \<Rightarrow> chat_record \<Rightarrow> chat_columns" where
  "dm_columns lib rec =
     \<lparr>cc_msg_id = nullableString (cr_MsgID rec), cc_sequence_id = nullableString (cr_SequenceID rec),
      cc_received_at = rfc3339nano (cr_ReceivedAt rec), cc_src = nullableString (cr_Src rec),
      cc_src_type = nullableString (cr_SrcType rec), cc_via = nullableStringSlice lib (cr_Via rec),
      cc_dst = cr_Dst rec, cc_msg = cr_Msg rec, cc_rssi = nullableInt (cr_RSSI rec), cc_snr = nullableInt (cr_SNR rec),
      cc_direction = nullableString (cr_Direction rec), cc_delivery_status = nullableString (cr_DeliveryStatus rec),
      cc_ack_status = None, cc_ack_received_at = None, cc_ack_src = None, cc_ack_src_type = None,
      cc_ack_rssi = None, cc_ack_snr = None, cc_ack_via = None\<rparr>"

text \<open>The INSERT into chats_public and the SELECT from it, which supplies NULLs for what the table lacks.\<close>

definition public_columns :: "text_lib \<Rightarrow> chat_record \<Rightarrow> chat_columns" where
  "public_columns lib rec =
     (dm_columns lib rec)\<lparr>cc_sequence_id := None, cc_direction := None, cc_delivery_status := None\<rparr>"

definition ack_status_text :: "ack_status \<Rightarrow> string" where
  "ack_status_text s = (case s of NoAck \<Rightarrow> [] | Ack \<Rightarrow> ''ack'' | Reject \<Rightarrow> ''reject'')"

definition ack_status_of :: "string \<Rightarrow> ack_status" where
  "ack_status_of s = (if s = ''ack'' then Ack else if s = ''reject'' then Reject else NoAck)"

text \<open>The SET of the UPDATE that marks a row as acknowledged.\<close>

definition ack_columns :: "text_lib \<Rightarrow> ack_status \<Rightarrow> chat_record \<Rightarrow> chat_columns \<Rightarrow> chat_columns" where
  "ack_columns lib status rec c =
     c\<lparr>cc_ack_status := Some (ack_status_text status), cc_ack_received_at := Some (rfc3339nano (cr_ReceivedAt rec)),
       cc_ack_src := nullableString (cr_Src rec), cc_ack_src_type := nullableString (cr_SrcType rec),
       cc_ack_rssi := nullableInt (cr_RSSI rec), cc_ack_snr := nullableInt (cr_SNR rec),
       cc_ack_via := nullableStringSlice lib (cr_Via rec)\<rparr>"

datatype scan_error = ParseTimestamp string | ParseVia string | ParseAckTimestamp string | ParseAckVia string

text \<open>A sql.NullString that is NULL has the empty text; a NULL number stays the zero of the record.\<close>

definition null_text :: "string option \<Rightarrow> string" where
  "null_text c = (case c of None \<Rightarrow> [] | Some s \<Rightarrow> s)"

definition null_int :: "int option \<Rightarrow> int" where
  "null_int c = (case c of None \<Rightarrow> 0 | Some i \<Rightarrow> i)"

definition scan_list :: "text_lib \<Rightarrow> string option \<Rightarrow> string + string list" where
  "scan_list lib c = (case c of None \<Rightarrow> Inr [] | Some s \<Rightarrow> if s \<noteq> [] then tx_unmarshal lib s else Inr [])"

definition scan_ack_time :: "text_lib \<Rightarrow> string option \<Rightarrow> string + gotime" where
  "scan_ack_time lib c = (case c of None \<Rightarrow> Inr 0 | Some s \<Rightarrow> tx_parse lib s)"

definition scanSQLiteRecord :: "text_lib \<Rightarrow> chat_columns \<Rightarrow> scan_error + chat_record" where
  "scanSQLiteRecord lib c =
     (case tx_parse lib (cc_received_at c) of Inl e \<Rightarrow> Inl (ParseTimestamp e) | Inr receivedAt \<Rightarrow>
     (case scan_list lib (cc_via c) of Inl e \<Rightarrow> Inl (ParseVia e) | Inr via \<Rightarrow>
     (case scan_ack_time lib (cc_ack_received_at c) of Inl e \<Rightarrow> Inl (ParseAckTimestamp e) | Inr ackReceivedAt \<Rightarrow>
     (case scan_list lib (cc_ack_via c) of Inl e \<Rightarrow> Inl (ParseAckVia e) | Inr ackVia \<Rightarrow>
        Inr \<lparr>cr_ReceivedAt = receivedAt, cr_Src = null_text (cc_src c), cr_SrcType = null_text (cc_src_type c),
          cr_Via = via, cr_Dst = cc_dst c, cr_MsgID = null_text (cc_msg_id c),
          cr_SequenceID = null_text (cc_sequence_id c), cr_Msg = cc_msg c, cr_RSSI = null_int (cc_rssi c),
          cr_SNR = null_int (cc_snr c), cr_Direction = null_text (cc_direction c),
          cr_DeliveryStatus = null_text (cc_delivery_status c),
          cr_AckStatus = ack_status_of (null_text (cc_ack_status c)), cr_AckReceivedAt = ackReceivedAt,
          cr_AckSrc = null_text (cc_ack_src c), cr_AckSrcType = null_text (cc_ack_src_type c),
          cr_AckRSSI = null_int (cc_ack_rssi c), cr_AckSNR = null_int (cc_ack_snr c), cr_AckVia = ackVia\<rparr>))))"

text \<open>The CHECK constraints of chats_dm that a statement can violate.\<close>

definition dm_checks :: "chat_columns \<Rightarrow> bool" where
  "dm_checks c \<longleftrightarrow> cc_direction c \<in> {None, Some ''outbound''} \<and>
     cc_delivery_status c \<in> {None, Some ''failed''} \<and> cc_ack_status c \<in> {None, Some ''ack'', Some ''reject''}"

section \<open>Nodes\<close>

record 'f node_columns =
  nc_lat :: 'f
  nc_lng :: 'f
  nc_alt :: int
  nc_hw_id :: string
  nc_firstseen :: string
  nc_lastseen :: string
  nc_lastdirectseen :: "string option"
  nc_rssi :: int
  nc_snr :: int
  nc_via :: "string option"

definition upsertNode :: "text_lib \<Rightarrow> 'f pos_record \<Rightarrow> 'f node_columns" where
  "upsertNode lib r =
     \<lparr>nc_lat = pr_Latitude r, nc_lng = pr_Longitude r, nc_alt = pr_Altitude r, nc_hw_id = pr_HardwareID r,
      nc_firstseen = rfc3339nano (pr_FirstSeen r), nc_lastseen = rfc3339nano (pr_LastSeen r),
      nc_lastdirectseen = map_option rfc3339nano (pr_LastDirectSeen r), nc_rssi = pr_RSSI r, nc_snr = pr_SNR r,
      nc_via = Some (tx_marshal lib (pr_Via r))\<rparr>"

datatype node_scan_error = ParseFirstSeen string | ParseLastSeen string | ParseLastDirectSeen string | DecodeVia string

definition scanNodeRecord :: "text_lib \<Rightarrow> 'f node_columns \<Rightarrow> node_scan_error + 'f pos_record" where
  "scanNodeRecord lib c =
     (case tx_parse lib (nc_firstseen c) of Inl e \<Rightarrow> Inl (ParseFirstSeen e) | Inr firstSeen \<Rightarrow>
     (case tx_parse lib (nc_lastseen c) of Inl e \<Rightarrow> Inl (ParseLastSeen e) | Inr lastSeen \<Rightarrow>
     (case (case nc_lastdirectseen c of None \<Rightarrow> Inr None | Some s \<Rightarrow> map_sum id Some (tx_parse lib s)) of
        Inl e \<Rightarrow> Inl (ParseLastDirectSeen e)
      | Inr lastDirectSeen \<Rightarrow>
     (case scan_list lib (nc_via c) of Inl e \<Rightarrow> Inl (DecodeVia e) | Inr via \<Rightarrow>
        Inr \<lparr>pr_Latitude = nc_lat c, pr_Longitude = nc_lng c, pr_Altitude = nc_alt c, pr_HardwareID = nc_hw_id c,
          pr_FirstSeen = firstSeen, pr_LastSeen = lastSeen, pr_LastDirectSeen = lastDirectSeen,
          pr_RSSI = nc_rssi c, pr_SNR = nc_snr c, pr_Via = via\<rparr>))))"

section \<open>The receive log\<close>

record receive_columns =
  vc_received_at :: string
  vc_remote_addr :: string
  vc_bytes :: int
  vc_raw :: string
  vc_packet_type :: "string option"
  vc_parse_error :: "string option"

definition receive_row :: "receive_record \<Rightarrow> receive_columns" where
  "receive_row r =
     \<lparr>vc_received_at = rfc3339nano (rr_ReceivedAt r), vc_remote_addr = rr_RemoteAddr r, vc_bytes = rr_Bytes r,
      vc_raw = rr_Raw r, vc_packet_type = nullableString (rr_PacketType r), vc_parse_error = nullableString (rr_ParseError r)\<rparr>"

text \<open>The rows a query gives become records until a timestamp does not parse.\<close>

fun scan_receive_rows :: "text_lib \<Rightarrow> receive_columns list \<Rightarrow> string + receive_record list" where
  "scan_receive_rows lib [] = Inr []"
| "scan_receive_rows lib (c # cs) =
     (case tx_parse lib (vc_received_at c) of Inl e \<Rightarrow> Inl e
      | Inr at \<Rightarrow> map_sum id ((#) \<lparr>rr_ReceivedAt = at, rr_RemoteAddr = vc_remote_addr c, rr_Bytes = vc_bytes c,
          rr_Raw = vc_raw c, rr_PacketType = null_text (vc_packet_type c), rr_ParseError = null_text (vc_parse_error c)\<rparr>)
          (scan_receive_rows lib cs))"

section \<open>Facts\<close>

text \<open>What the library gives back of the values of a record.\<close>

definition reads_time :: "text_lib \<Rightarrow> gotime \<Rightarrow> bool" where
  "reads_time lib t \<longleftrightarrow> tx_parse lib (rfc3339nano t) = Inr t"

definition reads_list :: "text_lib \<Rightarrow> string list \<Rightarrow> bool" where
  "reads_list lib vs \<longleftrightarrow> tx_marshal lib vs \<noteq> [] \<and> tx_unmarshal lib (tx_marshal lib vs) = Inr vs"

lemma null_columns [simp]:
  "null_text (nullableString s) = s" "null_int (nullableInt i) = i" "null_text None = []" "null_int None = 0"
  "null_text (Some s) = s"
  by (simp_all add: null_text_def nullableString_def null_int_def nullableInt_def)

lemma scan_list_slice: "reads_list lib vs \<Longrightarrow> scan_list lib (nullableStringSlice lib vs) = Inr vs"
  by (simp add: scan_list_def nullableStringSlice_def reads_list_def)

lemma ack_status_roundtrip [simp]: "ack_status_of (ack_status_text s) = s"
  by (cases s) (simp_all add: ack_status_of_def ack_status_text_def)

text \<open>A row is read as the record that was written; this is what lets ChatLog keep records as rows.\<close>

definition no_ack :: "chat_record \<Rightarrow> bool" where
  "no_ack rec \<longleftrightarrow> cr_AckStatus rec = NoAck \<and> cr_AckReceivedAt rec = 0 \<and> cr_AckSrc rec = [] \<and>
     cr_AckSrcType rec = [] \<and> cr_AckRSSI rec = 0 \<and> cr_AckSNR rec = 0 \<and> cr_AckVia rec = []"

lemma scan_dm:
  assumes "reads_time lib (cr_ReceivedAt rec)" "reads_list lib (cr_Via rec)" "no_ack rec"
  shows "scanSQLiteRecord lib (dm_columns lib rec) = Inr rec"
  using assms scan_list_slice [OF assms(2)]
  by (simp add: scanSQLiteRecord_def dm_columns_def reads_time_def scan_ack_time_def no_ack_def
      scan_list_def [of _ None] ack_status_of_def)

lemma scan_public:
  assumes "reads_time lib (cr_ReceivedAt rec)" "reads_list lib (cr_Via rec)" "no_ack rec"
  shows "scanSQLiteRecord lib (public_columns lib rec) = Inr (public_part rec)"
  using assms scan_list_slice [OF assms(2)]
  by (simp add: scanSQLiteRecord_def public_columns_def dm_columns_def public_part_def reads_time_def scan_ack_time_def
      no_ack_def scan_list_def [of _ None] ack_status_of_def)

lemma scan_ack:
  assumes "scanSQLiteRecord lib c = Inr stored"
    and "reads_time lib (cr_ReceivedAt rec)" "reads_list lib (cr_Via rec)"
  shows "scanSQLiteRecord lib (ack_columns lib status rec c) = Inr (set_ack status rec stored)"
  using assms(1,2) scan_list_slice [OF assms(3)]
  by (auto simp: scanSQLiteRecord_def ack_columns_def set_ack_def reads_time_def scan_ack_time_def split: sum.splits)

text \<open>Appending and acknowledging never violate the CHECK constraints.\<close>

lemma append_checks:
  "dm_checks (dm_columns lib (record_of_message msg t))"
  "dm_checks (dm_columns lib ((new_record t src via dst text)\<lparr>cr_Direction := ''outbound'', cr_DeliveryStatus := ''failed''\<rparr>))"
  "dm_checks c \<Longrightarrow> status \<noteq> NoAck \<Longrightarrow> dm_checks (ack_columns lib status rec c)"
  by (auto simp: dm_checks_def dm_columns_def ack_columns_def record_of_message_def new_record_def nullableString_def
      ack_status_text_def case_prod_beta split: ack_status.splits)

lemma appended_no_ack: "no_ack (record_of_message msg t)"
  by (simp add: no_ack_def record_of_message_def new_record_def case_prod_beta)

lemma scan_node:
  assumes "reads_time lib (pr_FirstSeen r)" "reads_time lib (pr_LastSeen r)"
    "\<forall>t. pr_LastDirectSeen r = Some t \<longrightarrow> reads_time lib t" "reads_list lib (pr_Via r)"
  shows "scanNodeRecord lib (upsertNode lib r) = Inr r"
  using assms by (cases "pr_LastDirectSeen r")
    (simp_all add: scanNodeRecord_def upsertNode_def reads_time_def reads_list_def scan_list_def)

lemma scan_receive:
  "\<forall>r \<in> set rs. reads_time lib (rr_ReceivedAt r) \<Longrightarrow> scan_receive_rows lib (map receive_row rs) = Inr rs"
  by (induction rs) (auto simp: receive_row_def reads_time_def)

end
