(* ===== verification/LogLines.thy ===== *)
theory LogLines
  imports Prelude
begin

text \<open>
  internal/logfmt (handler.go): how a log record becomes a line. A value is a text, another value given as what
  the verb v of fmt prints for it, or a group. strconv.Quote is a parameter, and so is the text of the time; the
  writer, behind a mutex, gets each line in one piece.
\<close>

section \<open>Lines\<close>

datatype slog_value = StringVal string | OtherVal string | GroupVal "(string \<times> slog_value) list"

type_synonym slog_attr = "string \<times> slog_value"

record slog_record =
  sr_time :: string
  sr_level :: int
  sr_message :: string
  sr_attrs :: "slog_attr list"

record log_handler =
  lh_level :: int
  lh_prefix :: string
  lh_attrs :: "slog_attr list"

definition new_log_handler :: "int \<Rightarrow> log_handler" where
  "new_log_handler level = \<lparr>lh_level = level, lh_prefix = [], lh_attrs = []\<rparr>"

definition Enabled :: "log_handler \<Rightarrow> int \<Rightarrow> bool" where
  "Enabled h l \<longleftrightarrow> lh_level h \<le> l"

text \<open>slog.Level.String: a name and, between the named levels, the difference with its sign.\<close>

definition level_string :: "int \<Rightarrow> string" where
  "level_string l =
     (let str = (\<lambda>base d. if d = 0 then base else base @ (if d < 0 then itoa_int d else CHR ''+'' # itoa_int d)) in
      if l < 0 then str ''DEBUG'' (l + 4)
      else if l < 4 then str ''INFO'' l
      else if l < 8 then str ''WARN'' (l - 4)
      else str ''ERROR'' (l - 8))"

definition levelLabel :: "int \<Rightarrow> string" where
  "levelLabel l =
     (if l = - 4 then ''DEBUG'' else if l = 0 then ''INFO '' else if l = 4 then ''WARN '' else if l = 8 then ''ERROR''
      else (let s = level_string l in
            if length s < 5 then s @ replicate (5 - length s) CHR '' '' else take 5 s))"

definition needsQuoting :: "string \<Rightarrow> bool" where
  "needsQuoting s \<longleftrightarrow>
     s = [] \<or> list_ex (\<lambda>c. c \<in> {CHR '' '', CHR ''='', CHR 0x22, CHR 0x5C, CHR 0x0A, CHR 0x0D, CHR 0x09}) s"

definition appendValue :: "(string \<Rightarrow> string) \<Rightarrow> string \<Rightarrow> string" where
  "appendValue quote s = (if needsQuoting s then quote s else s)"

text \<open>The text an attribute adds to the line.\<close>

fun appendAttr :: "(string \<Rightarrow> string) \<Rightarrow> string \<Rightarrow> slog_value \<Rightarrow> string" where
  "appendAttr quote k (GroupVal gs) =
     concat (map (\<lambda>a. appendAttr quote (if k \<noteq> [] then k @ ''.'' @ fst a else fst a) (snd a)) gs)"
| "appendAttr quote k (StringVal s) = (if k = [] then [] else ''  '' @ k @ ''='' @ appendValue quote s)"
| "appendAttr quote k (OtherVal s) = (if k = [] then [] else ''  '' @ k @ ''='' @ appendValue quote s)"

definition Handle :: "(string \<Rightarrow> string) \<Rightarrow> log_handler \<Rightarrow> slog_record \<Rightarrow> string" where
  "Handle quote h r =
     sr_time r @ ''  '' @ levelLabel (sr_level r) @ ''  '' @ sr_message r @
     concat (map (\<lambda>a. appendAttr quote (fst a) (snd a)) (lh_attrs h)) @
     concat (map (\<lambda>a. appendAttr quote (lh_prefix h @ fst a) (snd a)) (sr_attrs r)) @ [CHR 0x0A]"

definition WithAttrs :: "slog_attr list \<Rightarrow> log_handler \<Rightarrow> log_handler" where
  "WithAttrs attrs h = h\<lparr>lh_attrs := lh_attrs h @ map (\<lambda>(k, v). (lh_prefix h @ k, v)) attrs\<rparr>"

definition WithGroup :: "string \<Rightarrow> log_handler \<Rightarrow> log_handler" where
  "WithGroup name h = (if name = [] then h else h\<lparr>lh_prefix := lh_prefix h @ name @ ''.''\<rparr>)"

section \<open>Facts\<close>

text \<open>The level takes five bytes, so the messages of all lines start in one column.\<close>

lemma level_label_width: "length (levelLabel l) = 5"
  by (auto simp: levelLabel_def Let_def)

text \<open>Attributes given to the handler and attributes given with the record make the same line.\<close>

lemma with_attrs_as_record:
  "Handle quote (WithAttrs attrs h) r = Handle quote h (r\<lparr>sr_attrs := attrs @ sr_attrs r\<rparr>)"
  by (simp add: Handle_def WithAttrs_def case_prod_beta comp_def)

lemma with_groups: "g \<noteq> [] \<Longrightarrow> g' \<noteq> [] \<Longrightarrow> WithGroup g' (WithGroup g h) = WithGroup (g @ ''.'' @ g') h"
  by (simp add: WithGroup_def)

text \<open>
  A value cannot break the line: when strconv.Quote prints no line feed, the time, the message and the keys have
  none, the line has exactly one, at its end, whatever bytes the values hold.
\<close>

fun keys_of :: "slog_attr \<Rightarrow> string list" where
  "keys_of (k, GroupVal gs) = k # concat (map keys_of gs)"
| "keys_of (k, StringVal s) = [k]"
| "keys_of (k, OtherVal s) = [k]"

lemma append_value_line:
  "CHR 0x0A \<notin> set (quote s) \<Longrightarrow> CHR 0x0A \<notin> set (appendValue quote s)"
  by (auto simp: appendValue_def needsQuoting_def list_ex_iff)

lemma append_attr_line:
  assumes q: "\<And>s. CHR 0x0A \<notin> set (quote s)"
  shows "\<forall>n \<in> set (keys_of a). CHR 0x0A \<notin> set n \<Longrightarrow> CHR 0x0A \<notin> set p \<Longrightarrow>
    CHR 0x0A \<notin> set (appendAttr quote (p @ fst a) (snd a))"
proof (induction a arbitrary: p rule: keys_of.induct)
  case (1 k gs)
  show ?case
  proof
    assume "CHR 0x0A \<in> set (appendAttr quote (p @ fst (k, GroupVal gs)) (snd (k, GroupVal gs)))"
    then obtain a where a: "a \<in> set gs"
      "CHR 0x0A \<in> set (appendAttr quote (if p @ k \<noteq> [] then (p @ k @ ''.'') @ fst a else [] @ fst a) (snd a))"
      by (auto split: if_splits)
    have "\<forall>n \<in> set (keys_of a). CHR 0x0A \<notin> set n" "CHR 0x0A \<notin> set (p @ k @ ''.'')"
      using 1(2,3) a(1) by auto
    with 1(1) [OF a(1), of "p @ k @ ''.''"] 1(1) [OF a(1), of "[]"] a(2) show False
      by (simp split: if_splits)
  qed
qed (use append_value_line [of quote, OF q] in auto)

lemma one_line:
  assumes q: "\<And>s. CHR 0x0A \<notin> set (quote s)"
    and t: "CHR 0x0A \<notin> set (sr_time r)" "CHR 0x0A \<notin> set (sr_message r)" "CHR 0x0A \<notin> set (lh_prefix h)"
    and k: "\<forall>a \<in> set (lh_attrs h @ sr_attrs r). \<forall>n \<in> set (keys_of a). CHR 0x0A \<notin> set n"
  shows "\<exists>l. Handle quote h r = l @ [CHR 0x0A] \<and> CHR 0x0A \<notin> set l"
proof -
  have each: "CHR 0x0A \<notin> set (appendAttr quote (p @ fst a) (snd a))"
    if "a \<in> set (lh_attrs h @ sr_attrs r)" "CHR 0x0A \<notin> set p" for a p
    using append_attr_line [of quote a p, OF q] k that by blast
  have d: "CHR 0x0A \<notin> set (itoa_int i)" for i
    by (auto simp: itoa_int_def is_digit_def dest: set_itoa)
  have "CHR 0x0A \<notin> set (level_string (sr_level r))"
    using d by (auto simp: level_string_def Let_def)
  then have "CHR 0x0A \<notin> set (levelLabel (sr_level r))"
    by (auto simp: levelLabel_def Let_def dest: in_set_takeD)
  moreover have "CHR 0x0A \<notin> set (concat (map (\<lambda>a. appendAttr quote (fst a) (snd a)) (lh_attrs h)))"
    using each [of _ "[]"] by auto
  moreover have "CHR 0x0A \<notin> set (concat (map (\<lambda>a. appendAttr quote (lh_prefix h @ fst a) (snd a)) (sr_attrs r)))"
    using each [of _ "lh_prefix h"] t(3) by auto
  ultimately show ?thesis using t by (simp add: Handle_def)
qed

text \<open>
  The message is written as it is, and so is a value with control bytes other than tab, line feed and carriage
  return; an unnamed group logged under WithGroup gets a second dot.
\<close>

lemma message_breaks_line:
  "Handle quote (new_log_handler 0) \<lparr>sr_time = ''t'', sr_level = 0, sr_message = [CHR ''a'', CHR 0x0A, CHR ''b''], sr_attrs = []\<rparr>
     = ''t  INFO   a'' @ [CHR 0x0A, CHR ''b'', CHR 0x0A]"
  by (simp add: Handle_def new_log_handler_def levelLabel_def)

lemma escape_not_quoted: "appendValue quote [CHR 0x1B, CHR ''[''] = [CHR 0x1B, CHR ''['']"
  by (simp add: appendValue_def needsQuoting_def)

lemma inline_group_under_group:
  "lh_prefix (WithGroup ''g'' (new_log_handler 0)) = ''g.'' \<and>
   appendAttr quote (''g.'' @ []) (GroupVal [(''x'', StringVal ''1'')]) = ''  g..x=1''"
  by (simp add: WithGroup_def new_log_handler_def appendValue_def needsQuoting_def)

end
