(* ===== verification/Application.thy ===== *)
theory Application
  imports Startup LogLines "HOL-Library.List_Lexorder" "HOL-Library.Char_ord"
begin

text \<open>
  The process around the server: what main of cmd/gomeshcomd/main.go does with the result of run, the detection of
  a container and the choice of the executable (internal/apprestart/apprestart.go), the two handlers that ask for
  the end (internal/httpapi/restart.go), the banner and the level of the log, and the search for files of earlier
  versions (legacywarn.go). The environment, the file system and the child process are arguments.
\<close>

section \<open>Starting\<close>

text \<open>
  run opens the storage and the stores one after another and stops at the first that fails; fails gives the error
  of a part, if any. Then come the forwarder and the transport of Startup.
\<close>

datatype startup_part =
    OpenStorage | LoadIdentity | LoadPositions | LoadChatStatus | LoadChannelShow | LoadStats | LoadDmStats

definition startup_parts :: "config \<Rightarrow> (startup_part \<times> string) list" where
  "startup_parts cfg =
     [(OpenStorage, ''open sqlite storage: ''), (LoadIdentity, ''load station identity: ''),
      (LoadPositions, ''load positions: ''), (LoadChatStatus, ''load chat status: ''),
      (LoadChannelShow, ''load channel show: '')] @
     (if sa_Enabled (cf_Stats cfg) then [(LoadStats, ''load stats: '')] else []) @
     [(LoadDmStats, ''load dm stats: '')]"

fun start_parts :: "(startup_part \<Rightarrow> string option) \<Rightarrow> (startup_part \<times> string) list \<Rightarrow> string option" where
  "start_parts fails [] = None"
| "start_parts fails ((p, text) # ps) =
     (case fails p of Some e \<Rightarrow> Some (text @ e) | None \<Rightarrow> start_parts fails ps)"

definition run_start ::
  "net_lib \<Rightarrow> (string list \<Rightarrow> string option) \<Rightarrow> (startup_part \<Rightarrow> string option) \<Rightarrow> config \<Rightarrow> string + node_link" where
  "run_start nl dial fails cfg =
     (case start_parts fails (startup_parts cfg) of
        Some e \<Rightarrow> Inl e
      | None \<Rightarrow> (case start_forwarder nl dial cfg of
          Inl e \<Rightarrow> Inl e
        | Inr fwd \<Rightarrow> start_transport cfg fwd))"

section \<open>Ending and restarting\<close>

text \<open>The environment variable, whether /.dockerenv exists, and the text of /proc/1/cgroup when it is readable.\<close>

definition RunningInContainer :: "string option \<Rightarrow> bool \<Rightarrow> string option \<Rightarrow> bool" where
  "RunningInContainer env dockerenv cgroup =
     (case env of Some v \<Rightarrow> v = ''1''
      | None \<Rightarrow> if dockerenv then True
          else (case cgroup of None \<Rightarrow> False
                | Some s \<Rightarrow> contains ''docker'' s \<or> contains ''containerd'' s \<or> contains ''kubepods'' s))"

text \<open>The executable that is started: os.Executable, or the kernel's link when that path is gone.\<close>

definition restart_executable :: "string + string \<Rightarrow> (string \<Rightarrow> bool) \<Rightarrow> string + string" where
  "restart_executable executable exists =
     (case executable of Inl e \<Rightarrow> Inl e
      | Inr exe \<Rightarrow> Inr (if \<not> exists exe \<and> exists ''/proc/self/exe'' then ''/proc/self/exe'' else exe))"

definition RestartSelf :: "string + string \<Rightarrow> (string \<Rightarrow> bool) \<Rightarrow> (string \<Rightarrow> string option) \<Rightarrow> string option" where
  "RestartSelf executable exists start =
     (case restart_executable executable exists of Inl e \<Rightarrow> Some e | Inr exe \<Rightarrow> start exe)"

text \<open>How the process ends: its exit code, and whether a new instance was started before.\<close>

record process_end =
  px_code :: int
  px_child :: bool

definition main_end :: "string + bool \<Rightarrow> bool \<Rightarrow> string option \<Rightarrow> process_end" where
  "main_end result container restart_error =
     (case result of
        Inl _ \<Rightarrow> \<lparr>px_code = 1, px_child = False\<rparr>
      | Inr False \<Rightarrow> \<lparr>px_code = 0, px_child = False\<rparr>
      | Inr True \<Rightarrow>
          if container then \<lparr>px_code = 0, px_child = False\<rparr>
          else (case restart_error of
                  Some _ \<Rightarrow> \<lparr>px_code = 1, px_child = False\<rparr> | None \<Rightarrow> \<lparr>px_code = 0, px_child = True\<rparr>))"

text \<open>The requests that end the server: POST /api/restart, POST /api/shutdown, SIGHUP and the signals that stop.\<close>

record lifecycle =
  lc_restartRequested :: bool
  lc_cancelled :: bool

datatype lifecycle_event = RestartCallback | ShutdownCallback | Hangup | Interrupt

definition triggerRestart :: "lifecycle \<Rightarrow> lifecycle" where
  "triggerRestart s = s\<lparr>lc_restartRequested := True, lc_cancelled := True\<rparr>"

text \<open>The goroutine that waits for SIGHUP ends with the context, so a later one changes nothing.\<close>

definition lifecycle_step :: "lifecycle_event \<Rightarrow> lifecycle \<Rightarrow> lifecycle" where
  "lifecycle_step e s =
     (case e of RestartCallback \<Rightarrow> triggerRestart s
      | Hangup \<Rightarrow> if lc_cancelled s then s else triggerRestart s
      | _ \<Rightarrow> s\<lparr>lc_cancelled := True\<rparr>)"

text \<open>The handlers: the status, the body when it is JSON, and the callback to run half a second later.\<close>

definition restart_handler :: "bool \<Rightarrow> int \<times> string \<times> lifecycle_event option" where
  "restart_handler configured =
     (if \<not> configured then (501, ''restart not configured'', None) else (200, ''restarting'', Some RestartCallback))"

definition shutdown_handler :: "bool \<Rightarrow> int \<times> string \<times> lifecycle_event option" where
  "shutdown_handler configured =
     (if \<not> configured then (501, ''shutdown not configured'', None) else (200, ''shutting down'', Some ShutdownCallback))"

section \<open>Log level and banner\<close>

definition log_level_of :: "string \<Rightarrow> int" where
  "log_level_of name =
     (case map_of [(''debug'', - 4), (''info'', 0), (''warn'', 4), (''error'', 8)] name of
        None \<Rightarrow> 0 | Some l \<Rightarrow> l)"

definition startupBannerInnerWidth :: nat where
  "startupBannerInnerWidth = 60"

definition bannerRule :: "char \<Rightarrow> string" where
  "bannerRule c = ''+'' @ replicate startupBannerInnerWidth c @ ''+'' @ [CHR 0x0A]"

text \<open>The verb %-*s pads with spaces to the width, counted in runes.\<close>

definition pad_right :: "nat \<Rightarrow> string \<Rightarrow> string" where
  "pad_right width text = text @ replicate (width - rune_count text) CHR '' ''"

definition bannerText :: "string \<Rightarrow> string" where
  "bannerText text = ''| '' @ pad_right (startupBannerInnerWidth - 2) text @ '' |'' @ [CHR 0x0A]"

text \<open>strings.Trim with the cut set of the two brackets; net.JoinHostPort.\<close>

definition trim_brackets :: "string \<Rightarrow> string" where
  "trim_brackets s =
     rev (dropWhile (\<lambda>c. c \<in> {CHR ''['', CHR '']''}) (rev (dropWhile (\<lambda>c. c \<in> {CHR ''['', CHR '']''}) s)))"

definition JoinHostPort :: "string \<Rightarrow> string \<Rightarrow> string" where
  "JoinHostPort host port =
     (if CHR '':'' \<in> set host then ''['' @ host @ '']:'' @ port else host @ '':'' @ port)"

definition webInterfaceURL :: "string \<Rightarrow> string" where
  "webInterfaceURL httpAddr =
     (case SplitHostPort httpAddr of
        Inl _ \<Rightarrow> ''http://'' @ httpAddr
      | Inr (h, port) \<Rightarrow>
          (let host = trim_brackets h;
               host = (if host = [] \<or> host = ''0.0.0.0'' \<or> host = ''::'' then ''127.0.0.1'' else host) in
           ''http://'' @ JoinHostPort host port))"

definition startupBanner :: "string \<Rightarrow> config \<Rightarrow> string \<Rightarrow> string" where
  "startupBanner version cfg myCall =
     (let mode = (if cf_TransportMode cfg = [] then ''udp'' else cf_TransportMode cfg) in
      bannerRule CHR ''='' @ bannerText ''GOMESHCOMD'' @
      bannerText (''MeshCom '' @ to_upper mode @ '' Link Terminal'') @ bannerRule CHR ''-'' @
      bannerText ''STATUS   READY'' @ bannerText (''VERSION  '' @ version) @
      bannerText (''MYCALL   '' @ (if myCall = [] then ''(unset)'' else myCall)) @
      (if mode = ''serial'' then
         bannerText (''NODE     '' @ sr_Device (cf_Serial cfg)) @ bannerText (''SERIAL   '' @ sr_Device (cf_Serial cfg))
       else if mode = ''netconsole'' then
         bannerText (''NODE     '' @ nc_Address (cf_NetConsole cfg)) @ bannerText (''NETCON   '' @ nc_Address (cf_NetConsole cfg))
       else
         bannerText (''NODE     '' @ (if cf_NodeAddr cfg = [] then ''(auto-detect from incoming UDP)'' else cf_NodeAddr cfg)) @
         bannerText (''UDP RX   '' @ cf_UDPListenAddr cfg)) @
      bannerText ''HELP     gomeshcomd --help'' @ bannerText (''WEB UI   '' @ webInterfaceURL (cf_HTTPAddr cfg)) @
      (if myCall = [] then
         bannerText ''DMs      hidden until MyCall set'' @
         (if mode = ''udp'' then bannerText ''MSG      node addr required'' else [])
       else []) @
      bannerRule CHR ''='')"

section \<open>Files of earlier versions\<close>

text \<open>glob is filepath.Glob on a pattern below the data directory, is_file what os.Stat says of a match.\<close>

definition legacyDataProbes :: "string list" where
  "legacyDataProbes =
     [''raw/received.*.jsonl'', ''chat/*.jsonl'', ''chat/msg_idx.json'', ''stats/stats.json'', ''stats/dm_stats.json'',
      ''nodes/positions.json'', ''configs/channel_show.json'', ''configs/station.json'', ''channel_show.json'',
      ''http-sessions.json'']"

definition findLegacyDataFiles :: "(string \<Rightarrow> string list option) \<Rightarrow> (string \<Rightarrow> bool) \<Rightarrow> string list" where
  "findLegacyDataFiles glob is_file =
     sort (concat (map (\<lambda>probe. case glob probe of None \<Rightarrow> [] | Some ms \<Rightarrow> filter is_file ms) legacyDataProbes))"

section \<open>Facts\<close>

text \<open>With a configuration that Load accepts the start succeeds exactly when every part does.\<close>

lemma start_parts_None: "start_parts fails ps = None \<longleftrightarrow> (\<forall>p \<in> fst ` set ps. fails p = None)"
  by (induction fails ps rule: start_parts.induct) (auto split: option.splits)

lemma run_start_iff:
  assumes "Load nl read parsed environ path faults f = (Inr cfg, f1)"
  shows "(\<exists>l. run_start nl (\<lambda>_. None) fails cfg = Inr l \<and> link_ready cfg l) \<longleftrightarrow>
    (\<forall>p \<in> fst ` set (startup_parts cfg). fails p = None)"
proof -
  obtain fwd where f: "start_forwarder nl (\<lambda>_. None) cfg = Inr fwd"
    using loaded_forwarder [OF assms] by blast
  from validated_transport [OF loaded_transport [OF assms], of fwd]
  obtain l where "start_transport cfg fwd = Inr l" "link_ready cfg l" by blast
  with f show ?thesis
    unfolding start_parts_None [symmetric] by (auto simp: run_start_def split: option.splits)
qed

lemma disabled_stats_not_loaded: "LoadStats \<in> fst ` set (startup_parts cfg) \<longleftrightarrow> sa_Enabled (cf_Stats cfg)"
  by (auto simp: startup_parts_def)

text \<open>A new instance is started exactly when a restart was asked for and nothing failed, outside a container.\<close>

lemma child_iff:
  "px_child (main_end result container err) \<longleftrightarrow> result = Inr True \<and> \<not> container \<and> err = None"
  by (auto simp: main_end_def split: sum.splits bool.splits option.splits)

lemma failure_exit: "result = Inl e \<Longrightarrow> px_code (main_end result container err) = 1"
  by (simp add: main_end_def)

text \<open>A restart is requested only by the restart handler or a SIGHUP, and always comes with the cancellation.\<close>

lemma restart_requested:
  "lc_restartRequested (fold lifecycle_step es \<lparr>lc_restartRequested = False, lc_cancelled = False\<rparr>) \<Longrightarrow>
   RestartCallback \<in> set es \<or> Hangup \<in> set es"
proof -
  have "lc_restartRequested (fold lifecycle_step es s) \<Longrightarrow> RestartCallback \<in> set es \<or> Hangup \<in> set es \<or> lc_restartRequested s" for s
  proof (induction es arbitrary: s)
    case (Cons e es)
    from Cons.IH [of "lifecycle_step e s"] Cons.prems show ?case
      by (cases e) (auto simp: lifecycle_step_def)
  qed simp
  then show "lc_restartRequested (fold lifecycle_step es \<lparr>lc_restartRequested = False, lc_cancelled = False\<rparr>) \<Longrightarrow> ?thesis"
    by fastforce
qed

lemma restart_cancels:
  "(lc_restartRequested s \<longrightarrow> lc_cancelled s) \<Longrightarrow> lc_restartRequested (fold lifecycle_step es s) \<longrightarrow> lc_cancelled (fold lifecycle_step es s)"
proof (induction es arbitrary: s)
  case (Cons e es)
  then show ?case by (cases e) (auto simp: lifecycle_step_def triggerRestart_def)
qed simp

text \<open>A set but empty variable decides against a container, where the comment speaks of non-empty values.\<close>

lemma empty_variable_decides: "\<not> RunningInContainer (Some []) True cgroup"
  by (simp add: RunningInContainer_def)

lemma legacy_files:
  "set (findLegacyDataFiles glob is_file)
     = {f. is_file f \<and> (\<exists>probe \<in> set legacyDataProbes. \<exists>ms. glob probe = Some ms \<and> f \<in> set ms)}"
  "sorted (findLegacyDataFiles glob is_file)"
proof -
  show "set (findLegacyDataFiles glob is_file)
      = {f. is_file f \<and> (\<exists>probe \<in> set legacyDataProbes. \<exists>ms. glob probe = Some ms \<and> f \<in> set ms)}"
    unfolding findLegacyDataFiles_def by (force split: option.splits)
qed (simp add: findLegacyDataFiles_def)

text \<open>The address shown for the web client never has an unspecified host.\<close>

lemma join_split:
  assumes "CHR '':'' \<notin> set port" "CHR ''['' \<notin> set (host @ port)" "CHR '']'' \<notin> set (host @ port)" "host \<noteq> []"
  shows "SplitHostPort (JoinHostPort host port) = Inr (host, port)"
proof (cases "CHR '':'' \<in> set host")
  case True
  let ?h = "CHR ''['' # host @ CHR '']'' # CHR '':'' # port"
  have "last_index_of CHR '':'' ((CHR ''['' # host @ [CHR '']'']) @ CHR '':'' # port) = Some (length host + 2)"
    using assms(1) by (subst last_index_of_last) auto
  then have l: "last_index_of CHR '':'' ?h = Some (length host + 2)" by simp
  have i: "index_of CHR '']'' ?h = Some (length host + 1)"
    using assms(3) index_of_first [of "CHR '']''" "CHR ''['' # host" "CHR '':'' # port"] by simp
  from True assms l i show ?thesis by (simp add: SplitHostPort_def JoinHostPort_def)
next
  case False
  have l: "last_index_of CHR '':'' (host @ CHR '':'' # port) = Some (length host)"
    using assms(1) by simp
  from assms have "hd (host @ CHR '':'' # port) \<noteq> CHR ''[''" by (cases host) auto
  with False assms l show ?thesis by (simp add: SplitHostPort_def JoinHostPort_def)
qed

lemma web_url_specified:
  assumes "SplitHostPort addr = Inr (h, port)"
  shows "\<exists>host. webInterfaceURL addr = ''http://'' @ JoinHostPort host port \<and>
    host \<notin> {[], ''0.0.0.0'', ''::''}"
  using assms by (auto simp: webInterfaceURL_def Let_def)

text \<open>A text that fits makes a line as wide as the rules.\<close>

lemma banner_width:
  assumes "length text \<le> startupBannerInnerWidth - 2" "rune_count text = length text"
  shows "length (bannerText text) = length (bannerRule c)"
  using assms by (simp add: bannerText_def bannerRule_def pad_right_def startupBannerInnerWidth_def)

end
