(* ===== verification/Database.thy ===== *)
theory Database
  imports Storage Migration
begin

text \<open>
  internal/storage (storage.go) around the purge and the migration: opening the database, transactions, and the
  goroutine that purges. Directories, the driver, pragmas and the checkpoint of the write-ahead log appear as the
  errors they give.
\<close>

section \<open>Transactions\<close>

datatype tx_error = TxBegin string | TxBody string | TxRollback string string | TxCommit string

text \<open>The body gives a state, or an error; what it changed counts only when the commit succeeds.\<close>

definition WithTx ::
  "string option \<Rightarrow> ('s \<Rightarrow> string + 's) \<Rightarrow> string option \<Rightarrow> string option \<Rightarrow> 's \<Rightarrow> 's \<times> tx_error option" where
  "WithTx begin_error fn rollback_error commit_error s =
     (case begin_error of Some e \<Rightarrow> (s, Some (TxBegin e)) | None \<Rightarrow>
     (case fn s of
        Inl e \<Rightarrow> (s, Some (case rollback_error of Some r \<Rightarrow> TxRollback e r | None \<Rightarrow> TxBody e))
      | Inr s' \<Rightarrow> (case commit_error of Some e \<Rightarrow> (s, Some (TxCommit e)) | None \<Rightarrow> (s', None))))"

lemma transaction_atomic:
  "WithTx b fn r c s = (s', e) \<Longrightarrow> (if e = None then fn s = Inr s' else s' = s)"
  by (auto simp: WithTx_def split: option.splits sum.splits)

section \<open>Opening\<close>

definition sqliteBusyTimeout_ms :: nat where
  "sqliteBusyTimeout_ms = 5000"

definition pragmas :: "string list" where
  "pragmas = [''PRAGMA foreign_keys = ON'', ''PRAGMA journal_mode = WAL'',
     ''PRAGMA busy_timeout = '' @ itoa sqliteBusyTimeout_ms]"

text \<open>configure stops at the first pragma that fails.\<close>

definition configure_db :: "(string \<Rightarrow> string option) \<Rightarrow> (string \<times> string) option" where
  "configure_db exec =
     (case List.find (\<lambda>p. exec p \<noteq> None) pragmas of None \<Rightarrow> None | Some p \<Rightarrow> Some (p, the (exec p)))"

datatype open_error =
    PathRequired | CreateDirectory string | OpenSqlite string | ConfigureSqlite string string | MigrateFailed

definition Open_db ::
  "string option \<Rightarrow> string option \<Rightarrow> (string \<Rightarrow> string option) \<Rightarrow> bool \<Rightarrow> string \<Rightarrow> catalog \<Rightarrow> catalog \<times> open_error option" where
  "Open_db mkdir_error open_failed exec fails path c =
     (if path = [] then (c, Some PathRequired)
      else (case mkdir_error of Some e \<Rightarrow> (c, Some (CreateDirectory e)) | None \<Rightarrow>
           (case open_failed of Some e \<Rightarrow> (c, Some (OpenSqlite e)) | None \<Rightarrow>
           (case configure_db exec of Some (p, e) \<Rightarrow> (c, Some (ConfigureSqlite p e)) | None \<Rightarrow>
           (let (c', ok) = migrate fails c in (c', if ok then None else Some MigrateFailed))))))"

lemma open_all_or_nothing:
  "Open_db m op exec fails path c = (c', e) \<Longrightarrow> (if e = None then migrate fails c = (c', True) \<and> path \<noteq> [] else c' = c)"
  by (auto simp: Open_db_def migrate_def split: option.splits prod.splits if_splits)

section \<open>The purging goroutine\<close>

text \<open>
  A turn is a purge: whether its transaction fails, and its time. Between the turns the other stores change the
  database. The first turn comes at once, the others when the ticker fires, until the context is done.
\<close>

fun purge_turns ::
  "purge_policy \<Rightarrow> (bool \<times> gotime \<times> ('f database \<Rightarrow> 'f database)) list \<Rightarrow> 'f database \<Rightarrow> 'f database" where
  "purge_turns policy [] db = db"
| "purge_turns policy ((fails, now, change) # ts) db =
     purge_turns policy ts (change (fst (Purge fails policy now db)))"

definition StartPurge ::
  "purge_policy \<Rightarrow> (bool \<times> gotime \<times> ('f database \<Rightarrow> 'f database)) list \<Rightarrow> 'f database \<Rightarrow> 'f database" where
  "StartPurge policy turns db = (if pp_Interval policy \<le> 0 then db else purge_turns policy turns db)"

text \<open>With nothing else at work the goroutine only removes rows, and never a direct message.\<close>

lemma purge_keeps_dm: "ct_dm (db_chat (fst (Purge fails policy now db))) = ct_dm (db_chat db)"
  by (simp add: Purge_def)

lemma purge_removes:
  "subseq (db_receive (fst (Purge fails policy now db))) (db_receive db)"
  "subseq (ct_public (db_chat (fst (Purge fails policy now db)))) (ct_public (db_chat db))"
  by (auto simp: Purge_def purgeRows_def)

lemma start_purge_removes:
  assumes "\<forall>(f, n, change) \<in> set turns. change = id"
  shows "ct_dm (db_chat (StartPurge policy turns db)) = ct_dm (db_chat db) \<and>
    subseq (db_receive (StartPurge policy turns db)) (db_receive db) \<and>
    subseq (ct_public (db_chat (StartPurge policy turns db))) (ct_public (db_chat db))"
proof -
  have "ct_dm (db_chat (purge_turns policy turns db)) = ct_dm (db_chat db) \<and>
    subseq (db_receive (purge_turns policy turns db)) (db_receive db) \<and>
    subseq (ct_public (db_chat (purge_turns policy turns db))) (ct_public (db_chat db))"
    using assms
  proof (induction policy turns db rule: purge_turns.induct)
    case (2 policy fails now change ts db)
    then have IH: "ct_dm (db_chat (purge_turns policy ts (fst (Purge fails policy now db)))) = ct_dm (db_chat db) \<and>
      subseq (db_receive (purge_turns policy ts (fst (Purge fails policy now db)))) (db_receive (fst (Purge fails policy now db))) \<and>
      subseq (ct_public (db_chat (purge_turns policy ts (fst (Purge fails policy now db)))))
        (ct_public (db_chat (fst (Purge fails policy now db))))"
      by (simp add: purge_keeps_dm)
    from 2(2) have "change = id" by (simp add: id_def)
    with IH purge_removes [of fails policy now db] show ?case
      by (auto intro: subseq_order.trans)
  qed simp
  then show ?thesis by (simp add: StartPurge_def)
qed

text \<open>
  The purge works on the table nodes alone: the position store keeps an expired node in memory, clean, so that
  nothing writes it again and a restart no longer finds it.
\<close>

lemma purged_node_stays_in_memory:
  assumes "db_nodes db = ps_records s" "\<not> ps_dirty s" "ps_records s k = Some r"
    and "expired (pp_NodesRetention policy) now (pr_LastSeen r)"
  shows "Get_pos k s = Some r \<and> pos_begin s = (s, None) \<and>
    Get_pos k (load_pos (db_nodes (fst (Purge False policy now db)))) = None"
  using assms by (simp add: Get_pos_def pos_begin_def load_pos_def Purge_def)

end
