(* ===== verification/UdpTools.thy ===== *)
theory UdpTools
  imports Timestamps NetAuth
begin

text \<open>
  The command-line tools cmd/udpsend/main.go and cmd/udprecv/main.go. The socket is what it delivers and the errors
  it gives; hex.Dump and the verb q are parameters. hex.DecodeString is the one of NetAuth.
\<close>

section \<open>udpsend\<close>

datatype udpsend_error =
    AddrRequired | PayloadRequired | PayloadExclusive | InvalidHex | DialFailed string | WriteFailed string

definition udpsend_data :: "string \<Rightarrow> string \<Rightarrow> string \<Rightarrow> udpsend_error + string" where
  "udpsend_data addr payload hexPayload =
     (if addr = [] then Inl AddrRequired
      else if payload = [] \<and> hexPayload = [] then Inl PayloadRequired
      else if payload \<noteq> [] \<and> hexPayload \<noteq> [] then Inl PayloadExclusive
      else if hexPayload \<noteq> [] then
        (case hex_decode (filter (\<lambda>c. c \<noteq> CHR '' '') hexPayload) of None \<Rightarrow> Inl InvalidHex | Some d \<Rightarrow> Inr d)
      else Inr payload)"

text \<open>The exit code, the error and the datagram that went out.\<close>

definition udpsend ::
  "string option \<Rightarrow> string option \<Rightarrow> string \<Rightarrow> string \<Rightarrow> string \<Rightarrow> int \<times> udpsend_error option \<times> (string \<times> string) option" where
  "udpsend dial_error write_error addr payload hexPayload =
     (case udpsend_data addr payload hexPayload of
        Inl e \<Rightarrow> (1, Some e, None)
      | Inr data \<Rightarrow>
          (case dial_error of Some e \<Rightarrow> (1, Some (DialFailed e), None) | None \<Rightarrow>
          (case write_error of Some e \<Rightarrow> (1, Some (WriteFailed e), None) | None \<Rightarrow> (0, None, Some (addr, data)))))"

section \<open>udprecv\<close>

text \<open>The lines printed for the datagrams that arrive (time, sender, bytes) until the socket is closed.\<close>

definition udprecv_line ::
  "(string \<Rightarrow> string) \<Rightarrow> (string \<Rightarrow> string) \<Rightarrow> bool \<Rightarrow> nat \<Rightarrow> gotime \<times> string \<times> string \<Rightarrow> string" where
  "udprecv_line hex_dump quote as_hex buf d =
     (case d of (now, remote, datagram) \<Rightarrow>
      let data = take buf datagram;
          start = ''['' @ rfc3339nano now @ ''] from='' @ remote @ '' bytes='' @ itoa (length data) in
      (if as_hex then start @ [CHR 0x0A] @ hex_dump data @ [CHR 0x0A]
       else start @ '' payload='' @ quote data @ [CHR 0x0A]))"

definition udprecv ::
  "(string \<Rightarrow> string) \<Rightarrow> (string \<Rightarrow> string) \<Rightarrow> bool \<Rightarrow> nat \<Rightarrow> (gotime \<times> string \<times> string) list \<Rightarrow> string list" where
  "udprecv hex_dump quote as_hex buf ds = map (udprecv_line hex_dump quote as_hex buf) ds"

section \<open>Facts\<close>

lemma hex_no_space: "CHR '' '' \<notin> set (hex_encode s)"
  using hex_lower [of s] by (auto simp: list_all_iff is_digit_def is_lower_def)

text \<open>udpsend sends exactly what it was told: the text, or the bytes its hexadecimal digits name.\<close>

lemma udpsend_sends:
  "addr \<noteq> [] \<Longrightarrow> payload \<noteq> [] \<Longrightarrow> udpsend None None addr payload [] = (0, None, Some (addr, payload))"
  "addr \<noteq> [] \<Longrightarrow> s \<noteq> [] \<Longrightarrow> udpsend None None addr [] (hex_encode s) = (0, None, Some (addr, s))"
proof -
  have f: "filter (\<lambda>c. c \<noteq> CHR '' '') (hex_encode s) = hex_encode s" for s
    using hex_no_space [of s] by (auto simp: filter_id_conv)
  show "addr \<noteq> [] \<Longrightarrow> payload \<noteq> [] \<Longrightarrow> udpsend None None addr payload [] = (0, None, Some (addr, payload))"
    by (simp add: udpsend_def udpsend_data_def)
  show "addr \<noteq> [] \<Longrightarrow> s \<noteq> [] \<Longrightarrow> udpsend None None addr [] (hex_encode s) = (0, None, Some (addr, s))"
    using f [of s] hex_decode_encode [of s] by (auto simp: udpsend_def udpsend_data_def hex_encode_def)
qed

end
