(* ===== verification/EventFrames.thy ===== *)
theory EventFrames
  imports Stream
begin

text \<open>
  The text of the event stream (writeSSE and writeHeartbeat of internal/httpapi/server.go), and a reader for it, after
  the rules of the format text/event-stream: lines end with LF, CR or both, a field is a name, a colon and a
  value after an optional space, an empty line dispatches the event. json.Marshal of an event's data is a parameter.
\<close>

section \<open>Writing\<close>

definition writeHeartbeat :: string where
  "writeHeartbeat = ''event: heartbeat'' @ CHR 0x0A # ''data: {}'' @ [CHR 0x0A, CHR 0x0A]"

text \<open>None is an error of json.Marshal, which ends the stream.\<close>

definition writeSSE :: "('d \<Rightarrow> string option) \<Rightarrow> string \<Rightarrow> 'd \<Rightarrow> string option" where
  "writeSSE marshal kind data =
     (case marshal data of None \<Rightarrow> None
      | Some payload \<Rightarrow> Some (''event: '' @ kind @ CHR 0x0A # ''data: '' @ payload @ [CHR 0x0A, CHR 0x0A]))"

definition frame_kind :: "'f frame \<Rightarrow> string" where
  "frame_kind f =
     (case f of Heartbeat \<Rightarrow> ''heartbeat'' | IdentityFrame _ _ _ _ \<Rightarrow> ''station.identity''
      | PositionsFrame _ \<Rightarrow> ''positions.snapshot'' | StatusFrame _ \<Rightarrow> ''chatstatus.snapshot''
      | ChannelShowFrame _ \<Rightarrow> ''channelshow.snapshot'' | ReplayFrame _ \<Rightarrow> ''packet.received''
      | LiveFrame e \<Rightarrow> ev_Type e)"

definition frame_text :: "('f frame \<Rightarrow> string option) \<Rightarrow> 'f frame \<Rightarrow> string option" where
  "frame_text marshal f =
     (case f of Heartbeat \<Rightarrow> Some writeHeartbeat | _ \<Rightarrow> writeSSE marshal (frame_kind f) f)"

text \<open>streamEvents writes frame after frame and ends at the first one that cannot be written.\<close>

fun write_frames :: "('f frame \<Rightarrow> string option) \<Rightarrow> 'f frame list \<Rightarrow> string \<times> bool" where
  "write_frames marshal [] = ([], True)"
| "write_frames marshal (f # fs) =
     (case frame_text marshal f of None \<Rightarrow> ([], False)
      | Some t \<Rightarrow> (let (rest, ok) = write_frames marshal fs in (t @ rest, ok)))"

section \<open>Reading\<close>

fun unify_eol :: "string \<Rightarrow> string" where
  "unify_eol [] = []"
| "unify_eol [c] = (if c = CHR 0x0D then [CHR 0x0A] else [c])"
| "unify_eol (c # d # s) =
     (if c = CHR 0x0D then (if d = CHR 0x0A then CHR 0x0A # unify_eol s else CHR 0x0A # unify_eol (d # s))
      else c # unify_eol (d # s))"

definition sse_field :: "string \<Rightarrow> string \<times> string" where
  "sse_field l =
     (case index_of CHR '':'' l of None \<Rightarrow> (l, [])
      | Some i \<Rightarrow> (let v = drop (i + 1) l in (take i l, if v \<noteq> [] \<and> hd v = CHR '' '' then tl v else v)))"

text \<open>The buffers of the event's type and data; a last line without an end dispatches nothing.\<close>

fun sse_events :: "string \<Rightarrow> string \<Rightarrow> string list \<Rightarrow> (string \<times> string) list" where
  "sse_events kind dat [] = []"
| "sse_events kind dat [_] = []"
| "sse_events kind dat (l # ls) =
     (if l = [] then
        (if dat = [] then sse_events [] [] ls
         else (if kind = [] then ''message'' else kind, butlast dat) # sse_events [] [] ls)
      else (case sse_field l of (name, v) \<Rightarrow>
        if name = ''event'' then sse_events v dat ls
        else if name = ''data'' then sse_events kind (dat @ v @ [CHR 0x0A]) ls
        else sse_events kind dat ls))"

definition sse_parse :: "string \<Rightarrow> (string \<times> string) list" where
  "sse_parse s = sse_events [] [] (split_on CHR 0x0A (unify_eol s))"

section \<open>Facts\<close>

definition one_line_text :: "string \<Rightarrow> bool" where
  "one_line_text s \<longleftrightarrow> CHR 0x0A \<notin> set s \<and> CHR 0x0D \<notin> set s"

lemma unify_eol_plain: "CHR 0x0D \<notin> set s \<Longrightarrow> unify_eol s = s"
  by (induction s rule: unify_eol.induct) auto

lemma sse_field_event: "sse_field (''event: '' @ v) = (''event'', v)" "sse_field (''data: '' @ v) = (''data'', v)"
  by (simp_all add: sse_field_def)

definition sse_text :: "string \<Rightarrow> string \<Rightarrow> string" where
  "sse_text kind payload = ''event: '' @ kind @ CHR 0x0A # ''data: '' @ payload @ [CHR 0x0A, CHR 0x0A]"

lemma sse_one:
  assumes "one_line_text kind" "one_line_text payload" "kind \<noteq> []"
  shows "sse_events [] [] (split_on CHR 0x0A (sse_text kind payload @ rest))
     = (kind, payload) # sse_events [] [] (split_on CHR 0x0A rest)"
proof -
  have t: "sse_text kind payload @ rest = (''event: '' @ kind) @ CHR 0x0A # (''data: '' @ payload) @ CHR 0x0A # [] @ CHR 0x0A # rest"
    by (simp add: sse_text_def)
  have n: "CHR 0x0A \<notin> set (''event: '' @ kind)" "CHR 0x0A \<notin> set (''data: '' @ payload)" "CHR 0x0A \<notin> set []"
    using assms by (auto simp: one_line_text_def)
  obtain p ps where r: "split_on CHR 0x0A rest = p # ps" by (cases "split_on CHR 0x0A rest") auto
  have s: "split_on CHR 0x0A (sse_text kind payload @ rest)
      = (''event: '' @ kind) # (''data: '' @ payload) # [] # p # ps"
    unfolding t split_on_sep [OF n(1)] split_on_sep [OF n(2)] split_on_sep [OF n(3)] r ..
  show ?thesis unfolding s r using assms(3) sse_field_event [of kind] sse_field_event [of payload] by simp
qed

lemma frame_text_shape:
  "frame_text marshal f = Some t \<Longrightarrow>
   \<exists>payload. t = sse_text (frame_kind f) payload \<and> (f \<noteq> Heartbeat \<longrightarrow> marshal f = Some payload) \<and>
     (f = Heartbeat \<longrightarrow> payload = ''{}'')"
  by (cases f) (auto simp: frame_text_def writeSSE_def sse_text_def writeHeartbeat_def frame_kind_def split: option.splits)

text \<open>What a frame says: its kind and its data.\<close>

definition frame_event :: "('f frame \<Rightarrow> string option) \<Rightarrow> 'f frame \<Rightarrow> string \<times> string" where
  "frame_event marshal f =
     (frame_kind f, case f of Heartbeat \<Rightarrow> ''{}'' | _ \<Rightarrow> (case marshal f of Some p \<Rightarrow> p | None \<Rightarrow> []))"

lemma frame_text_event: "frame_text marshal f = Some t \<Longrightarrow> t = sse_text (fst (frame_event marshal f)) (snd (frame_event marshal f))"
  using frame_text_shape [of marshal f t] by (cases f) (auto simp: frame_event_def)

definition frame_plain :: "('f frame \<Rightarrow> string option) \<Rightarrow> 'f frame \<Rightarrow> bool" where
  "frame_plain marshal f \<longleftrightarrow> (\<forall>payload. marshal f = Some payload \<longrightarrow> one_line_text payload) \<and>
     (\<forall>e. f = LiveFrame e \<longrightarrow> ev_Type e \<noteq> [] \<and> one_line_text (ev_Type e))"

lemma frame_plain_event:
  assumes "frame_plain marshal f"
  shows "one_line_text (fst (frame_event marshal f)) \<and> fst (frame_event marshal f) \<noteq> [] \<and>
    one_line_text (snd (frame_event marshal f))"
  using assms by (cases f) (auto simp: frame_plain_def frame_event_def frame_kind_def one_line_text_def split: option.splits)

lemma write_frames_text:
  "write_frames marshal fs = (t, ok) \<Longrightarrow>
   \<exists>n. t = concat (map (\<lambda>f. sse_text (fst (frame_event marshal f)) (snd (frame_event marshal f))) (take n fs)) \<and>
     (ok \<longrightarrow> length fs \<le> n) \<and> (\<not> ok \<longrightarrow> n < length fs \<and> frame_text marshal (fs ! n) = None)"
proof (induction fs arbitrary: t)
  case (Cons f fs)
  show ?case
  proof (cases "frame_text marshal f")
    case None
    with Cons.prems show ?thesis by (intro exI [of _ 0]) simp
  next
    case (Some u)
    with Cons.prems obtain rest where r: "write_frames marshal fs = (rest, ok)" "t = u @ rest"
      by (auto simp: Let_def split: prod.splits)
    from Cons.IH [OF r(1)] obtain n where
      "rest = concat (map (\<lambda>f. sse_text (fst (frame_event marshal f)) (snd (frame_event marshal f))) (take n fs))"
      "ok \<longrightarrow> length fs \<le> n" "\<not> ok \<longrightarrow> n < length fs \<and> frame_text marshal (fs ! n) = None" by blast
    with r(2) frame_text_event [OF Some] show ?thesis by (intro exI [of _ "Suc n"]) simp
  qed
qed simp

lemma sse_many:
  "\<forall>(k, p) \<in> set es. one_line_text k \<and> k \<noteq> [] \<and> one_line_text p \<Longrightarrow>
   sse_parse (concat (map (\<lambda>(k, p). sse_text k p) es)) = es"
proof -
  assume a: "\<forall>(k, p) \<in> set es. one_line_text k \<and> k \<noteq> [] \<and> one_line_text p"
  have "CHR 0x0D \<notin> set (concat (map (\<lambda>(k, p). sse_text k p) es))"
    using a by (fastforce simp: sse_text_def one_line_text_def)
  moreover have "sse_events [] [] (split_on CHR 0x0A (concat (map (\<lambda>(k, p). sse_text k p) es))) = es"
    using a by (induction es) (auto simp: sse_one)
  ultimately show ?thesis by (simp add: sse_parse_def unify_eol_plain)
qed

section \<open>Properties\<close>

text \<open>C16: The stream is read as it was meant: whatever frames are written, a reader of text/event-stream gets
  exactly their kinds and data, in order, up to the first frame that cannot be encoded, provided the JSON texts have
  no raw line ends (encoding/json escapes them) and the events of the bus have kinds of one line.\<close>

theorem stream_text_read_back:
  assumes "\<forall>f \<in> set fs. frame_plain marshal f" and "write_frames marshal fs = (t, ok)"
  shows "\<exists>n. sse_parse t = map (frame_event marshal) (take n fs) \<and> (ok \<longrightarrow> length fs \<le> n) \<and>
    (\<not> ok \<longrightarrow> n < length fs \<and> frame_text marshal (fs ! n) = None)"
proof -
  obtain n where n: "t = concat (map (\<lambda>f. sse_text (fst (frame_event marshal f)) (snd (frame_event marshal f))) (take n fs))"
    "ok \<longrightarrow> length fs \<le> n" "\<not> ok \<longrightarrow> n < length fs \<and> frame_text marshal (fs ! n) = None"
    using write_frames_text [OF assms(2)] by blast
  let ?es = "map (frame_event marshal) (take n fs)"
  have "\<forall>(k, p) \<in> set ?es. one_line_text k \<and> k \<noteq> [] \<and> one_line_text p"
  proof
    fix e assume "e \<in> set ?es"
    then obtain f where "f \<in> set fs" "e = frame_event marshal f" by (auto dest: in_set_takeD)
    with assms(1) frame_plain_event [of marshal f] show "case e of (k, p) \<Rightarrow> one_line_text k \<and> k \<noteq> [] \<and> one_line_text p"
      by (simp add: case_prod_beta)
  qed
  from sse_many [OF this] n show ?thesis by (auto simp: case_prod_beta comp_def)
qed

definition example_frames :: "int frame list" where
  "example_frames = [Heartbeat, IdentityFrame ''IU5PMP-1'' ''dev'' False 0, ChannelShowFrame DefaultConfig]"

definition example_marshal :: "int frame \<Rightarrow> string option" where
  "example_marshal f = (case f of IdentityFrame c _ _ _ \<Rightarrow> Some (CHR 0x22 # c @ [CHR 0x22]) | _ \<Rightarrow> Some ''{}'')"

theorem stream_text_read_back_witness:
  "sse_parse (fst (write_frames example_marshal example_frames)) =
     [(''heartbeat'', ''{}''), (''station.identity'', CHR 0x22 # ''IU5PMP-1'' @ [CHR 0x22]), (''channelshow.snapshot'', ''{}'')]"
proof -
  obtain t ok where w: "write_frames example_marshal example_frames = (t, ok)" by fastforce
  have ok: "ok" using w by (auto simp: example_frames_def frame_text_def writeSSE_def example_marshal_def)
  have p: "\<forall>f \<in> set example_frames. frame_plain example_marshal f"
    by (simp add: example_frames_def frame_plain_def example_marshal_def one_line_text_def)
  obtain n where "sse_parse t = map (frame_event example_marshal) (take n example_frames)" "length example_frames \<le> n"
    using stream_text_read_back [OF p w] ok by blast
  then have "sse_parse t = map (frame_event example_marshal) example_frames" by simp
  then show ?thesis
    using w by (simp add: example_frames_def frame_event_def frame_kind_def example_marshal_def)
qed

end
